(* ===== verification/Prelude.thy ===== *)
theory Prelude
  imports Complex_Main "HOL-Library.Multiset"
begin

text \<open>
  What every component theory shares: the error values of the program, the state-and-exception
  functions an \<open>async\<close> method denotes, the collections \<open>io_simps\<close> (evaluation of those functions)
  and \<open>io_frame\<close> (what part of the state a computation leaves alone), and a few facts on lists and
  multisets of rows.

  An \<open>async\<close> method of the program is a function from the state to a result and the new state.  The
  result is \<open>Inl e\<close> for a rejected promise (a thrown error) and \<open>Inr x\<close> for a resolved one.  The state
  survives an error, as the database does, so a \<open>catch\<close> goes on from the state the failing code left.
\<close>

named_theorems io_simps \<open>evaluation of computations\<close>
named_theorems io_frame \<open>computations that leave a view of the state alone\<close>

section \<open>Errors\<close>

datatype exn =
  DbError string          \<comment> \<open>raised by the database driver\<close>
| TypeError               \<comment> \<open>property access or call on \<open>undefined\<close> or \<open>null\<close>\<close>
| NumberError             \<comment> \<open>raised by the decimal library on an invalid number\<close>
| JsError string          \<comment> \<open>\<open>throw new Error(msg)\<close> of the program\<close>
| ServiceError string     \<comment> \<open>raised by a file, SFTP or Kafka library\<close>

section \<open>Computations\<close>

type_synonym ('w, 'a) io = "'w \<Rightarrow> (exn + 'a) \<times> 'w"

definition io_return :: "'a \<Rightarrow> ('w, 'a) io" where
  "io_return x = (\<lambda>w. (Inr x, w))"

definition io_throw :: "exn \<Rightarrow> ('w, 'a) io" where
  "io_throw e = (\<lambda>w. (Inl e, w))"

definition io_bind :: "('w, 'a) io \<Rightarrow> ('a \<Rightarrow> ('w, 'b) io) \<Rightarrow> ('w, 'b) io" where
  "io_bind m k = (\<lambda>w. case m w of (Inl e, w') \<Rightarrow> (Inl e, w') | (Inr x, w') \<Rightarrow> k x w')"

definition io_then :: "('w, 'a) io \<Rightarrow> ('w, 'b) io \<Rightarrow> ('w, 'b) io" where
  "io_then m k = io_bind m (\<lambda>_. k)"

text \<open>\<open>try { m } catch (e) { h e }\<close>.\<close>

definition io_try :: "('w, 'a) io \<Rightarrow> (exn \<Rightarrow> ('w, 'a) io) \<Rightarrow> ('w, 'a) io" where
  "io_try m h = (\<lambda>w. case m w of (Inl e, w') \<Rightarrow> h e w' | (Inr x, w') \<Rightarrow> (Inr x, w'))"

text \<open>\<open>for (const x of xs) { await f(x) }\<close>: the first error ends the loop.\<close>

fun io_for :: "'a list \<Rightarrow> ('a \<Rightarrow> ('w, unit) io) \<Rightarrow> ('w, unit) io" where
  "io_for [] f = io_return ()"
| "io_for (x # xs) f = io_then (f x) (io_for xs f)"

fun io_map :: "('a \<Rightarrow> ('w, 'b) io) \<Rightarrow> 'a list \<Rightarrow> ('w, 'b list) io" where
  "io_map f [] = io_return []"
| "io_map f (x # xs) = io_bind (f x) (\<lambda>y. io_bind (io_map f xs) (\<lambda>ys. io_return (y # ys)))"

definition io_lift :: "exn + 'a \<Rightarrow> ('w, 'a) io" where
  "io_lift r = (\<lambda>w. (r, w))"

definition io_read :: "('w \<Rightarrow> 'a) \<Rightarrow> ('w, 'a) io" where
  "io_read f = (\<lambda>w. (Inr (f w), w))"

abbreviation result_of :: "('w, 'a) io \<Rightarrow> 'w \<Rightarrow> exn + 'a" where
  "result_of m w \<equiv> fst (m w)"

abbreviation state_of :: "('w, 'a) io \<Rightarrow> 'w \<Rightarrow> 'w" where
  "state_of m w \<equiv> snd (m w)"

lemma io_return_apply [simp]: "io_return x w = (Inr x, w)"
  by (simp add: io_return_def)

lemma io_throw_apply [simp]: "io_throw e w = (Inl e, w)"
  by (simp add: io_throw_def)

lemma io_lift_apply [simp]: "io_lift r w = (r, w)"
  by (simp add: io_lift_def)

lemma io_read_apply [simp]: "io_read f w = (Inr (f w), w)"
  by (simp add: io_read_def)

lemma io_bind_apply [io_simps]:
  "io_bind m k w = (case m w of (Inl e, w') \<Rightarrow> (Inl e, w') | (Inr x, w') \<Rightarrow> k x w')"
  by (simp add: io_bind_def)

lemma io_then_apply [io_simps]:
  "io_then m k w = (case m w of (Inl e, w') \<Rightarrow> (Inl e, w') | (Inr x, w') \<Rightarrow> k w')"
  by (simp add: io_then_def io_bind_def)

lemma io_try_apply [io_simps]:
  "io_try m h w = (case m w of (Inl e, w') \<Rightarrow> h e w' | (Inr x, w') \<Rightarrow> (Inr x, w'))"
  by (simp add: io_try_def)

lemma io_bind_Inr: "m w = (Inr x, w') \<Longrightarrow> io_bind m k w = k x w'"
  by (simp add: io_bind_apply)

lemma io_bind_Inl: "m w = (Inl e, w') \<Longrightarrow> io_bind m k w = (Inl e, w')"
  by (simp add: io_bind_apply)

lemma io_then_Inr: "m w = (Inr x, w') \<Longrightarrow> io_then m k w = k w'"
  by (simp add: io_then_apply)

lemma io_then_Inl: "m w = (Inl e, w') \<Longrightarrow> io_then m k w = (Inl e, w')"
  by (simp add: io_then_apply)

lemma io_try_Inr: "m w = (Inr x, w') \<Longrightarrow> io_try m h w = (Inr x, w')"
  by (simp add: io_try_apply)

lemma io_try_Inl: "m w = (Inl e, w') \<Longrightarrow> io_try m h w = h e w'"
  by (simp add: io_try_apply)

lemma io_bind_result_Inr:
  "result_of (io_bind m k) w = Inr y \<longleftrightarrow>
     (\<exists>x w'. m w = (Inr x, w') \<and> result_of (k x) w' = Inr y)"
  by (auto simp: io_bind_apply split: prod.splits sum.splits)

lemma io_bind_InrE:
  assumes "io_bind m k w = (Inr y, w'')"
  obtains x w' where "m w = (Inr x, w')" and "k x w' = (Inr y, w'')"
  using assms by (auto simp: io_bind_apply split: prod.splits sum.splits)

lemma io_then_InrE:
  assumes "io_then m k w = (Inr y, w'')"
  obtains x w' where "m w = (Inr x, w')" and "k w' = (Inr y, w'')"
  using assms by (auto simp: io_then_apply split: prod.splits sum.splits)

section \<open>What a computation leaves alone\<close>

text \<open>
  \<open>keeps P m\<close>: a state with \<open>P\<close> leads to a state with \<open>P\<close>, whether \<open>m\<close> returns or raises.
  \<open>frames v m\<close>: the view \<open>v\<close> of the state (a table, say) is the same before and after.
\<close>

definition keeps :: "('w \<Rightarrow> bool) \<Rightarrow> ('w, 'a) io \<Rightarrow> bool" where
  "keeps P m \<longleftrightarrow> (\<forall>w. P w \<longrightarrow> P (state_of m w))"

definition frames :: "('w \<Rightarrow> 'v) \<Rightarrow> ('w, 'a) io \<Rightarrow> bool" where
  "frames v m \<longleftrightarrow> (\<forall>w. v (state_of m w) = v w)"

definition never_raises :: "('w, 'a) io \<Rightarrow> bool" where
  "never_raises m \<longleftrightarrow> (\<forall>w. \<exists>x. result_of m w = Inr x)"

lemma keepsI: "(\<And>w. P w \<Longrightarrow> P (state_of m w)) \<Longrightarrow> keeps P m"
  by (simp add: keeps_def)

lemma keepsD: "keeps P m \<Longrightarrow> P w \<Longrightarrow> P (state_of m w)"
  by (simp add: keeps_def)

lemma framesI: "(\<And>w. v (state_of m w) = v w) \<Longrightarrow> frames v m"
  by (simp add: frames_def)

lemma framesD: "frames v m \<Longrightarrow> v (state_of m w) = v w"
  by (simp add: frames_def)

lemma frames_step: "frames v m \<Longrightarrow> m w = (r, w') \<Longrightarrow> v w' = v w"
  by (metis frames_def snd_conv)

lemma frames_comp: "frames v m \<Longrightarrow> frames (\<lambda>w. f (v w)) m"
  by (simp add: frames_def)

lemma frames_keeps: "frames v m \<Longrightarrow> keeps (\<lambda>w. P (v w)) m"
  by (simp add: frames_def keeps_def)

lemma frames_return [io_frame, intro]: "frames v (io_return x)"
  by (simp add: frames_def)

lemma frames_throw [io_frame, intro]: "frames v (io_throw e)"
  by (simp add: frames_def)

lemma frames_lift [io_frame, intro]: "frames v (io_lift r)"
  by (simp add: frames_def)

lemma frames_read [io_frame, intro]: "frames v (io_read f)"
  by (simp add: frames_def)

lemma frames_bind [io_frame]: "frames v m \<Longrightarrow> (\<And>x. frames v (k x)) \<Longrightarrow> frames v (io_bind m k)"
  by (auto simp: frames_def io_bind_apply split: prod.splits sum.splits) (metis snd_conv)+

lemma frames_then [io_frame]: "frames v m \<Longrightarrow> frames v k \<Longrightarrow> frames v (io_then m k)"
  by (simp add: io_then_def frames_bind)

lemma frames_try [io_frame]: "frames v m \<Longrightarrow> (\<And>e. frames v (h e)) \<Longrightarrow> frames v (io_try m h)"
  by (auto simp: frames_def io_try_apply split: prod.splits sum.splits) (metis snd_conv)+

lemma frames_if [io_frame]: "(b \<Longrightarrow> frames v m) \<Longrightarrow> (\<not> b \<Longrightarrow> frames v k) \<Longrightarrow> frames v (if b then m else k)"
  by simp

lemma frames_case_option [io_frame]:
  "(x = None \<Longrightarrow> frames v m) \<Longrightarrow> (\<And>y. x = Some y \<Longrightarrow> frames v (k y)) \<Longrightarrow>
    frames v (case x of None \<Rightarrow> m | Some y \<Rightarrow> k y)"
  by (cases x) simp_all

lemma frames_case_list [io_frame]:
  "(xs = [] \<Longrightarrow> frames v m) \<Longrightarrow> (\<And>y ys. xs = y # ys \<Longrightarrow> frames v (k y ys)) \<Longrightarrow>
    frames v (case xs of [] \<Rightarrow> m | y # ys \<Rightarrow> k y ys)"
  by (cases xs) simp_all

lemma frames_for [io_frame]: "(\<And>x. frames v (f x)) \<Longrightarrow> frames v (io_for xs f)"
  by (induction xs) (auto intro: frames_then)

lemma frames_map [io_frame]: "(\<And>x. frames v (f x)) \<Longrightarrow> frames v (io_map f xs)"
  by (induction xs) (auto intro!: frames_bind)

lemma keeps_bind: "keeps P m \<Longrightarrow> (\<And>x. keeps P (k x)) \<Longrightarrow> keeps P (io_bind m k)"
  by (fastforce simp: keeps_def io_bind_apply split: prod.splits sum.splits)

lemma keeps_then: "keeps P m \<Longrightarrow> keeps P k \<Longrightarrow> keeps P (io_then m k)"
  by (simp add: io_then_def keeps_bind)

lemma keeps_try: "keeps P m \<Longrightarrow> (\<And>e. keeps P (h e)) \<Longrightarrow> keeps P (io_try m h)"
  by (fastforce simp: keeps_def io_try_apply split: prod.splits sum.splits)

lemma keeps_return: "keeps P (io_return x)"
  by (simp add: keeps_def)

lemma keeps_throw: "keeps P (io_throw e)"
  by (simp add: keeps_def)

lemma keeps_for: "(\<And>x. x \<in> set xs \<Longrightarrow> keeps P (f x)) \<Longrightarrow> keeps P (io_for xs f)"
  by (induction xs) (auto intro: keeps_then keeps_return)

lemma never_raises_return [intro]: "never_raises (io_return x)"
  by (simp add: never_raises_def)

lemma never_raisesD: "never_raises m \<Longrightarrow> \<exists>x w'. m w = (Inr x, w')"
  by (metis never_raises_def prod.collapse)

lemma never_raises_bind:
  assumes "never_raises m" and "\<And>x. never_raises (k x)"
  shows "never_raises (io_bind m k)"
  unfolding never_raises_def
proof
  fix w
  from never_raisesD [OF assms(1)] obtain x w' where "m w = (Inr x, w')" by blast
  with never_raisesD [OF assms(2)] show "\<exists>y. result_of (io_bind m k) w = Inr y"
    by (metis io_bind_Inr fst_conv)
qed

lemma never_raises_try: "(\<And>e. never_raises (h e)) \<Longrightarrow> never_raises (io_try m h)"
  by (auto simp: never_raises_def io_try_apply split: prod.splits sum.splits)

lemma never_raises_if: "never_raises m \<Longrightarrow> never_raises k \<Longrightarrow> never_raises (if b then m else k)"
  by simp

lemma never_raises_case_option:
  "never_raises m \<Longrightarrow> (\<And>y. never_raises (k y)) \<Longrightarrow> never_raises (case x of None \<Rightarrow> m | Some y \<Rightarrow> k y)"
  by (cases x) simp_all

lemma never_raises_for: "(\<And>x. never_raises (f x)) \<Longrightarrow> never_raises (io_for xs f)"
  by (induction xs) (auto simp: io_then_def intro: never_raises_bind)

section \<open>Lists of rows\<close>

lemma mset_eq_set: "mset xs = mset ys \<Longrightarrow> set xs = set ys"
  by (rule mset_eq_setD)

lemma mset_filter_empty: "mset xs = mset (filter P ys) \<Longrightarrow> xs = [] \<longleftrightarrow> (\<forall>y\<in>set ys. \<not> P y)"
  by (metis filter_empty_conv mset_zero_iff)

lemma mset_filter_length: "mset xs = mset (filter P ys) \<Longrightarrow> length xs = length (filter P ys)"
  by (metis size_mset)

lemma distinct_map_mset: "mset xs = mset ys \<Longrightarrow> distinct (map f xs) \<longleftrightarrow> distinct (map f ys)"
  by (metis mset_map mset_eq_imp_distinct_iff)

lemma length_filter_mset: "mset xs = mset ys \<Longrightarrow> length (filter P xs) = length (filter P ys)"
  by (metis mset_filter size_mset)

end
