(* ===== verification/Javascript.thy ===== *)
theory Javascript
  imports Prelude
begin

text \<open>
  The part of the JavaScript standard library the program computes with: \<open>undefined\<close> and \<open>null\<close>,
  numbers read from strings (\<open>parseInt\<close>, \<open>parseFloat\<close>, \<open>Number\<close>), integers printed, \<open>Math.ceil\<close>.

  A number is the rational it denotes or \<open>NaN\<close>.  The rounding to a binary double is not modelled, nor
  is \<open>Infinity\<close>: the numbers the program reads are amounts of a \<open>numeric(18,2)\<close> column and identifiers.
\<close>

section \<open>undefined and null\<close>

datatype 'a nullable = Undefined | Null | Value 'a

definition truthy_string :: "string nullable \<Rightarrow> bool" where
  "truthy_string x = (case x of Value s \<Rightarrow> s \<noteq> [] | _ \<Rightarrow> False)"

section \<open>Digits\<close>

definition digit_char :: "nat \<Rightarrow> char" where
  "digit_char d = char_of (48 + d)"

definition digit_value :: "char \<Rightarrow> nat" where
  "digit_value c = of_char c - 48"

definition is_digit :: "char \<Rightarrow> bool" where
  "is_digit c \<longleftrightarrow> (48::nat) \<le> of_char c \<and> (of_char c :: nat) \<le> 57"

fun show_nat :: "nat \<Rightarrow> string" where
  "show_nat n = (if n < 10 then [digit_char n] else show_nat (n div 10) @ [digit_char (n mod 10)])"

declare show_nat.simps [simp del]

definition nat_of_digits :: "string \<Rightarrow> nat" where
  "nat_of_digits cs = foldl (\<lambda>a c. 10 * a + digit_value c) 0 cs"

definition show_int :: "int \<Rightarrow> string" where
  "show_int i = (if i < 0 then CHR ''-'' # show_nat (nat (- i)) else show_nat (nat i))"

lemma digit_char_value [simp]: "d < 10 \<Longrightarrow> digit_value (digit_char d) = d"
  by (simp add: digit_value_def digit_char_def)

lemma length_show_nat: "n < 10 ^ Suc k \<Longrightarrow> length (show_nat n) \<le> Suc k"
proof (induction k arbitrary: n)
  case 0
  then show ?case by (simp add: show_nat.simps [of n])
next
  case (Suc k)
  have "n div 10 < 10 ^ Suc k" using Suc.prems by (simp add: less_mult_imp_div_less mult.commute)
  with Suc.IH [of "n div 10"] show ?case by (subst show_nat.simps) simp
qed

lemma is_digit_char [simp]: "d < 10 \<Longrightarrow> is_digit (digit_char d)"
  by (simp add: is_digit_def digit_char_def)

lemma digit_char_0 [simp]: "digit_char 0 = CHR ''0''"
  by code_simp

lemma nat_of_digits_snoc [simp]: "nat_of_digits (cs @ [c]) = 10 * nat_of_digits cs + digit_value c"
  by (simp add: nat_of_digits_def)

lemma nat_of_digits_Nil [simp]: "nat_of_digits [] = 0"
  by (simp add: nat_of_digits_def)

lemma nat_of_digits_show_nat [simp]: "nat_of_digits (show_nat n) = n"
proof (induction n rule: show_nat.induct)
  case (1 n)
  show ?case
  proof (cases "n < 10")
    case True
    then show ?thesis
      by (subst show_nat.simps) (simp add: nat_of_digits_def)
  next
    case False
    with 1 show ?thesis by (subst show_nat.simps) simp
  qed
qed

lemma show_nat_digits: "c \<in> set (show_nat n) \<Longrightarrow> is_digit c"
proof (induction n rule: show_nat.induct)
  case (1 n)
  then show ?case
    by (subst (asm) (2) show_nat.simps) (auto split: if_splits)
qed

lemma show_nat_nonempty [simp]: "show_nat n \<noteq> []"
  by (subst show_nat.simps) simp

lemma show_nat_inject [simp]: "show_nat m = show_nat n \<longleftrightarrow> m = n"
  by (metis nat_of_digits_show_nat)

lemma not_digit_chars [simp]:
  "\<not> is_digit (CHR ''-'')" "\<not> is_digit (CHR ''+'')" "\<not> is_digit (CHR ''.'')" "\<not> is_digit (CHR '' '')"
  by (simp_all add: is_digit_def)

section \<open>Numbers read from strings\<close>

datatype js_number = NaN | Num rat

definition is_space :: "char \<Rightarrow> bool" where
  "is_space c \<longleftrightarrow> c = CHR '' '' \<or> ((9::nat) \<le> of_char c \<and> (of_char c :: nat) \<le> 13)"

definition trim_start :: "string \<Rightarrow> string" where
  "trim_start s = dropWhile is_space s"

definition trim :: "string \<Rightarrow> string" where
  "trim s = rev (trim_start (rev (trim_start s)))"

fun split_sign :: "string \<Rightarrow> int \<times> string" where
  "split_sign (c # cs) = (if c = CHR ''-'' then (-1, cs) else if c = CHR ''+'' then (1, cs) else (1, c # cs))"
| "split_sign [] = (1, [])"

text \<open>\<open>parseInt(s, 10)\<close>: the longest prefix of digits after an optional sign.\<close>

definition parseInt :: "string \<Rightarrow> js_number" where
  "parseInt s =
     (let (sg, r) = split_sign (trim_start s); ds = takeWhile is_digit r
      in if ds = [] then NaN else Num (of_int (sg * int (nat_of_digits ds))))"

text \<open>
  An exponent \<open>e[+-]ddd\<close> at the start of the rest of a literal: its value and what follows it; no
  exponent when the letter is not followed by a digit.
\<close>

definition split_exponent :: "string \<Rightarrow> int \<times> string" where
  "split_exponent s =
     (case s of
        [] \<Rightarrow> (0, [])
      | c # cs \<Rightarrow>
          if c = CHR ''e'' \<or> c = CHR ''E'' then
            (let (sg, r) = split_sign cs; ds = takeWhile is_digit r
             in if ds = [] then (0, s) else (sg * int (nat_of_digits ds), dropWhile is_digit r))
          else (0, s))"

definition scale10 :: "rat \<Rightarrow> int \<Rightarrow> rat" where
  "scale10 q e = (if 0 \<le> e then q * 10 ^ nat e else q / 10 ^ nat (- e))"

text \<open>The longest prefix that is a decimal literal: its value and what follows it.\<close>

definition decimal_prefix :: "string \<Rightarrow> (rat \<times> string) option" where
  "decimal_prefix s =
     (let (sg, r) = split_sign s;
          whole = takeWhile is_digit r; r1 = dropWhile is_digit r;
          (frac, r2) = (case r1 of
              [] \<Rightarrow> ([], [])
            | c # cs \<Rightarrow> if c = CHR ''.'' then (takeWhile is_digit cs, dropWhile is_digit cs) else ([], r1))
      in if whole = [] \<and> frac = [] then None
         else let (e, r3) = split_exponent r2
              in Some (of_int sg * scale10 (of_nat (nat_of_digits whole)
                         + of_nat (nat_of_digits frac) / 10 ^ length frac) e, r3))"

definition parseFloat :: "string \<Rightarrow> js_number" where
  "parseFloat s = (case decimal_prefix (trim_start s) of None \<Rightarrow> NaN | Some (q, _) \<Rightarrow> Num q)"

text \<open>
  \<open>Number(s)\<close>: the whole string, without white space around it, is a literal; the empty string is 0.
  The literals \<open>0x..\<close>, \<open>0o..\<close> and \<open>0b..\<close> have digits of their base and no sign.
\<close>

definition hex_value :: "char \<Rightarrow> nat option" where
  "hex_value c =
     (let n = (of_char c :: nat)
      in if 48 \<le> n \<and> n \<le> 57 then Some (n - 48)
         else if 97 \<le> n \<and> n \<le> 102 then Some (n - 87)
         else if 65 \<le> n \<and> n \<le> 70 then Some (n - 55) else None)"

fun radix_value :: "nat \<Rightarrow> nat \<Rightarrow> string \<Rightarrow> nat option" where
  "radix_value b a [] = Some a"
| "radix_value b a (c # cs) =
     (case hex_value c of None \<Rightarrow> None | Some d \<Rightarrow> if d < b then radix_value b (b * a + d) cs else None)"

definition radix_literal :: "string \<Rightarrow> (nat \<times> string) option" where
  "radix_literal s =
     (case s of
        z # x # cs \<Rightarrow>
          if z \<noteq> CHR ''0'' \<or> cs = [] then None
          else if x = CHR ''x'' \<or> x = CHR ''X'' then Some (16, cs)
          else if x = CHR ''o'' \<or> x = CHR ''O'' then Some (8, cs)
          else if x = CHR ''b'' \<or> x = CHR ''B'' then Some (2, cs) else None
      | _ \<Rightarrow> None)"

definition Number :: "string \<Rightarrow> js_number" where
  "Number s =
     (let t = trim s
      in if t = [] then Num 0
         else case radix_literal t of
             Some (b, cs) \<Rightarrow> (case radix_value b 0 cs of None \<Rightarrow> NaN | Some n \<Rightarrow> Num (of_nat n))
           | None \<Rightarrow> (case decimal_prefix t of
                 Some (q, []) \<Rightarrow> Num q
               | _ \<Rightarrow> NaN))"

text \<open>\<open>Number(x)\<close> of a string that may be missing.\<close>

definition Number_nullable :: "string nullable \<Rightarrow> js_number" where
  "Number_nullable x = (case x of Undefined \<Rightarrow> NaN | Null \<Rightarrow> Num 0 | Value s \<Rightarrow> Number s)"

text \<open>
  \<open>x.toString()\<close>.  An integer prints in decimal; how a number with a fraction prints (the shortest text
  that reads back as the same double) is the argument \<open>show_fraction\<close>.
\<close>

definition number_toString :: "(rat \<Rightarrow> string) \<Rightarrow> js_number \<Rightarrow> string" where
  "number_toString show_fraction x =
     (case x of NaN \<Rightarrow> ''NaN'' | Num q \<Rightarrow> if of_int \<lfloor>q\<rfloor> = q then show_int \<lfloor>q\<rfloor> else show_fraction q)"

definition math_ceil :: "js_number \<Rightarrow> js_number" where
  "math_ceil x = (case x of NaN \<Rightarrow> NaN | Num q \<Rightarrow> Num (of_int \<lceil>q\<rceil>))"

section \<open>Facts\<close>

lemma takeWhile_show_nat [simp]: "takeWhile is_digit (show_nat n) = show_nat n"
  by (simp add: takeWhile_eq_all_conv show_nat_digits)

lemma dropWhile_show_nat [simp]: "dropWhile is_digit (show_nat n) = []"
  by (simp add: dropWhile_eq_Nil_conv show_nat_digits)

lemma digit_not_space: "is_digit c \<Longrightarrow> \<not> is_space c"
  by (auto simp: is_digit_def is_space_def)

lemma hd_show_nat: "is_digit (hd (show_nat n))"
  by (rule show_nat_digits [of _ n]) simp

lemma trim_start_nonspace: "s \<noteq> [] \<Longrightarrow> \<not> is_space (hd s) \<Longrightarrow> trim_start s = s"
  by (cases s) (simp_all add: trim_start_def)

lemma trim_start_show_nat [simp]: "trim_start (show_nat n) = show_nat n"
  by (simp add: trim_start_nonspace digit_not_space hd_show_nat)

lemma trim_show_nat [simp]: "trim (show_nat n) = show_nat n"
proof -
  have "last (show_nat n) \<in> set (show_nat n)" by simp
  then have "\<not> is_space (hd (rev (show_nat n)))"
    by (metis digit_not_space hd_rev show_nat_digits)
  then have "trim_start (rev (show_nat n)) = rev (show_nat n)"
    by (simp add: trim_start_nonspace)
  then show ?thesis by (simp add: trim_def)
qed

lemma split_sign_digit: "s \<noteq> [] \<Longrightarrow> is_digit (hd s) \<Longrightarrow> split_sign s = (1, s)"
  by (cases s) auto

lemma split_sign_show_nat [simp]: "split_sign (show_nat n) = (1, show_nat n)"
  by (simp add: split_sign_digit hd_show_nat)

lemma parseInt_show_nat [simp]: "parseInt (show_nat n) = Num (of_nat n)"
  by (simp add: parseInt_def)

lemma split_exponent_Nil [simp]: "split_exponent [] = (0, [])"
  by (simp add: split_exponent_def)

lemma decimal_prefix_show_nat [simp]: "decimal_prefix (show_nat n) = Some (of_nat n, [])"
  by (simp add: decimal_prefix_def scale10_def)

lemma parseFloat_show_nat [simp]: "parseFloat (show_nat n) = Num (of_nat n)"
  by (simp add: parseFloat_def)

lemma radix_literal_show_nat [simp]: "radix_literal (show_nat n) = None"
proof (cases "show_nat n")
  case Nil
  then show ?thesis by simp
next
  case (Cons z xs)
  show ?thesis
  proof (cases xs)
    case Nil
    with Cons show ?thesis by (simp add: radix_literal_def)
  next
    case Cons': (Cons x cs)
    have "is_digit x" using show_nat_digits [of x n] Cons Cons' by simp
    then have "x \<notin> {CHR ''x'', CHR ''X'', CHR ''o'', CHR ''O'', CHR ''b'', CHR ''B''}"
      by (auto simp: is_digit_def)
    with Cons Cons' show ?thesis by (simp add: radix_literal_def)
  qed
qed

lemma Number_show_nat [simp]: "Number (show_nat n) = Num (of_nat n)"
  by (simp add: Number_def Let_def)

lemma number_toString_nat [simp]: "number_toString f (Num (of_nat n)) = show_nat n"
  by (simp add: number_toString_def show_int_def)

lemma number_toString_zero [simp]: "number_toString f (Num 0) = ''0''"
  by (simp add: number_toString_def show_int_def show_nat.simps)

lemma number_toString_NaN [simp]: "number_toString f NaN = ''NaN''"
  by (simp add: number_toString_def)

lemma Number_Nil [simp]: "Number [] = Num 0"
  by (simp add: Number_def trim_def trim_start_def)

end
