(* ===== verification/Paths.thy ===== *)
theory Paths
  imports Javascript
begin

text \<open>
  The functions of Node's \<open>path\<close> module (POSIX) and of \<open>String.prototype.replace\<close> the program calls on
  file names: \<open>basename\<close>, \<open>dirname\<close>, \<open>parse(p).name\<close>, \<open>parse(p).ext\<close>, \<open>join\<close>, and a replacement of the
  first occurrence of a text.
\<close>

section \<open>The parts of a path\<close>

abbreviation slash :: char where
  "slash \<equiv> CHR ''/''"

abbreviation dot :: char where
  "dot \<equiv> CHR ''.''"

text \<open>The last part: slashes at the end do not count.\<close>

definition basename :: "string \<Rightarrow> string" where
  "basename p = rev (takeWhile (\<lambda>c. c \<noteq> slash) (dropWhile (\<lambda>c. c = slash) (rev p)))"

text \<open>
  \<open>dirname\<close> scans from the end down to the second character, for the slash before the last part; the path
  is cut there.
\<close>

definition dirname :: "string \<Rightarrow> string" where
  "dirname p =
     (case p of
        [] \<Rightarrow> [dot]
      | c # cs \<Rightarrow>
          (let before = dropWhile (\<lambda>c. c \<noteq> slash) (dropWhile (\<lambda>c. c = slash) (rev cs))
           in if before = [] then (if c = slash then [slash] else [dot])
              else if c = slash \<and> tl before = [] then [slash, slash]
              else c # rev (tl before)))"

text \<open>
  The extension starts at the last dot of the base name; a dot that is its first character, and the name
  \<open>..\<close>, have none.
\<close>

definition file_ext :: "string \<Rightarrow> string" where
  "file_ext p =
     (let b = basename p; after = takeWhile (\<lambda>c. c \<noteq> dot) (rev b)
      in if b = [dot, dot] \<or> length after + 1 \<ge> length b then [] else dot # rev after)"

definition file_name :: "string \<Rightarrow> string" where
  "file_name p = take (length (basename p) - length (file_ext p)) (basename p)"

lemma file_name_ext: "file_name p @ file_ext p = basename p"
proof -
  let ?b = "basename p"
  let ?after = "takeWhile (\<lambda>c. c \<noteq> dot) (rev ?b)"
  show ?thesis
  proof (cases "?b = [dot, dot] \<or> length ?after + 1 \<ge> length ?b")
    case True
    then show ?thesis by (simp add: file_name_def file_ext_def)
  next
    case False
    then have lt: "length ?after < length (rev ?b)" by simp
    obtain r where r: "rev ?b = ?after @ dot # r"
    proof -
      have "dropWhile (\<lambda>c. c \<noteq> dot) (rev ?b) \<noteq> []"
        using lt takeWhile_dropWhile_id [of "\<lambda>c. c \<noteq> dot" "rev ?b"] by (metis append_Nil2 nat_neq_iff)
      moreover have "hd (dropWhile (\<lambda>c. c \<noteq> dot) (rev ?b)) = dot"
        using hd_dropWhile calculation by blast
      ultimately have "rev ?b = ?after @ dot # tl (dropWhile (\<lambda>c. c \<noteq> dot) (rev ?b))"
        by (metis list.collapse takeWhile_dropWhile_id)
      then show thesis by (rule that)
    qed
    then have b: "?b = rev r @ dot # rev ?after"
      by (metis append.assoc append_Cons append_Nil rev.simps(2) rev_append rev_rev_ident)
    have "file_ext p = dot # rev ?after" using False by (simp add: file_ext_def Let_def)
    then show ?thesis
      by (metis append_eq_conv_conj b file_name_def length_append diff_add_inverse2)
  qed
qed

lemma basename_no_slash: "slash \<notin> set (basename p)"
  by (auto simp: basename_def dest: set_takeWhileD)

section \<open>Joining\<close>

fun segments :: "string \<Rightarrow> string list" where
  "segments [] = [[]]"
| "segments (c # cs) =
     (if c = slash then [] # segments cs
      else (case segments cs of [] \<Rightarrow> [[c]] | s # ss \<Rightarrow> (c # s) # ss))"

text \<open>One segment of \<open>normalizeString\<close>; the segments kept so far are given last one first.\<close>

definition normalize_step :: "bool \<Rightarrow> string \<Rightarrow> string list \<Rightarrow> string list" where
  "normalize_step allowAboveRoot s kept =
     (if s = [] \<or> s = [dot] then kept
      else if s = [dot, dot] then
        (case kept of
           [] \<Rightarrow> if allowAboveRoot then [s] else []
         | k # ks \<Rightarrow> if k = [dot, dot] then s # kept else ks)
      else s # kept)"

fun join_segments :: "string list \<Rightarrow> string" where
  "join_segments [] = []"
| "join_segments [s] = s"
| "join_segments (s # ss) = s @ slash # join_segments ss"

definition normalize :: "string \<Rightarrow> string" where
  "normalize p =
     (if p = [] then [dot]
      else let absolute = (hd p = slash);
               body = join_segments (rev (fold (normalize_step (\<not> absolute)) (segments p) []));
               body = (if body = [] \<and> \<not> absolute then [dot] else body);
               body = (if body \<noteq> [] \<and> last p = slash then body @ [slash] else body)
           in if absolute then slash # body else body)"

definition path_join :: "string \<Rightarrow> string \<Rightarrow> string" where
  "path_join a b =
     (let parts = filter (\<lambda>s. s \<noteq> []) [a, b]
      in if parts = [] then [dot] else normalize (join_segments parts))"

section \<open>Replacing the first occurrence\<close>

text \<open>\<open>$$\<close>, \<open>$&\<close>, \<open>$`\<close> and \<open>$'\<close> of the replacement text.\<close>

fun expand :: "string \<Rightarrow> string \<Rightarrow> string \<Rightarrow> string \<Rightarrow> string" where
  "expand before matched after (CHR ''$'' # c # cs) =
     (if c = CHR ''$'' then CHR ''$'' # expand before matched after cs
      else if c = CHR ''&'' then matched @ expand before matched after cs
      else if c = CHR 0x60 then before @ expand before matched after cs
      else if c = CHR 0x27 then after @ expand before matched after cs
      else CHR ''$'' # expand before matched after (c # cs))"
| "expand before matched after (c # cs) = c # expand before matched after cs"
| "expand before matched after [] = []"

fun split_first :: "string \<Rightarrow> string \<Rightarrow> (string \<times> string) option" where
  "split_first pat s =
     (if take (length pat) s = pat then Some ([], drop (length pat) s)
      else (case s of
              [] \<Rightarrow> None
            | c # cs \<Rightarrow> map_option (\<lambda>(before, after). (c # before, after)) (split_first pat cs)))"

declare split_first.simps [simp del]

definition replace_first :: "string \<Rightarrow> string \<Rightarrow> string \<Rightarrow> string" where
  "replace_first s pat new =
     (case split_first pat s of
        None \<Rightarrow> s
      | Some (before, after) \<Rightarrow> before @ expand before pat after new @ after)"

lemma split_first_Some: "split_first pat s = Some (before, after) \<Longrightarrow> s = before @ pat @ after"
proof (induction s arbitrary: before)
  case Nil
  then show ?case by (simp add: split_first.simps [of pat "[]"] split: if_splits)
next
  case (Cons c cs)
  show ?case
  proof (cases "take (length pat) (c # cs) = pat")
    case True
    with Cons.prems show ?thesis
      by (simp add: split_first.simps [of pat "c # cs"]) (metis append_take_drop_id)
  next
    case False
    with Cons.prems obtain b where "split_first pat cs = Some (b, after)" "before = c # b"
      by (auto simp: split_first.simps [of pat "c # cs"])
    with Cons.IH show ?thesis by simp
  qed
qed

lemma expand_plain: "CHR ''$'' \<notin> set new \<Longrightarrow> expand before pat after new = new"
  by (induction before pat after new rule: expand.induct) auto

end
