(* ===== verification/VirtualSftp.thy ===== *)
theory VirtualSftp
  imports Paths "HOL-Library.AList" "HOL-Library.Word"
begin

unbundle bit_operations_syntax

text \<open>
  The virtual SFTP server (\<open>lib/virtual_sftp_server\<close>): its files, the handles of a session, the commands, and
  the server as a step relation over connections, files added by the host and requests of the sessions.
\<close>

section \<open>Outside the program\<close>

text \<open>
  \<open>uuid n\<close> is the identifier made in the answer to the \<open>n\<close>-th request, \<open>millis n i\<close> what \<open>Date.now\<close> returns
  in it the \<open>i\<close>-th time.  The open mode for reading is a constant of \<open>ssh2-streams\<close>.
\<close>

record sftp_ports =
  uuid :: "nat \<Rightarrow> string"
  millis :: "nat \<Rightarrow> nat \<Rightarrow> int"
  OPEN_MODE_READ :: nat

section \<open>Files\<close>

definition FILE_WITH_ALL_PERMISSIONS :: "32 word" where
  "FILE_WITH_ALL_PERMISSIONS = 0x8000 OR 0x1C0 OR 0x38 OR 0x7"

text \<open>A body is a text; one that is sent is what its buffer is decoded to.\<close>

record File =
  file_path :: string
  file_body :: string

record Attributes =
  at_mode :: "32 word"
  at_uid :: nat
  at_gid :: nat
  at_size :: nat
  at_atime :: int
  at_mtime :: int

record FileEntry =
  fe_filename :: string
  fe_longname :: string
  fe_attrs :: Attributes

definition byteSize :: "File \<Rightarrow> nat" where
  "byteSize f = length (file_body f)"

definition attributes :: "sftp_ports \<Rightarrow> nat \<Rightarrow> nat \<Rightarrow> File \<Rightarrow> Attributes" where
  "attributes E n i f =
     \<lparr>at_mode = FILE_WITH_ALL_PERMISSIONS, at_uid = 0, at_gid = 0, at_size = byteSize f,
       at_atime = millis E n (2 * i), at_mtime = millis E n (2 * i + 1)\<rparr>"

definition toFileEntry :: "sftp_ports \<Rightarrow> nat \<Rightarrow> nat \<Rightarrow> File \<Rightarrow> FileEntry" where
  "toFileEntry E n i f =
     \<lparr>fe_filename = basename (file_path f), fe_longname = ''irrelevant'', fe_attrs = attributes E n i f\<rparr>"

text \<open>The object of paths, in the order of its keys: a path that is added again keeps its place.\<close>

type_synonym FileRepository = "(string \<times> File) list"

definition files_add :: "string \<Rightarrow> string \<Rightarrow> FileRepository \<Rightarrow> FileRepository" where
  "files_add path body fs = AList.update path \<lparr>file_path = path, file_body = body\<rparr> fs"

definition files_find :: "string \<Rightarrow> FileRepository \<Rightarrow> File option" where
  "files_find path fs = map_of fs path"

definition files_toArray :: "FileRepository \<Rightarrow> File list" where
  "files_toArray fs = map snd fs"

definition files_within :: "string \<Rightarrow> FileRepository \<Rightarrow> File list" where
  "files_within path fs = filter (\<lambda>f. dirname (file_path f) = path) (files_toArray fs)"

section \<open>Handles\<close>

datatype handle_state = Closed | Open

record FileHandle =
  fh_file :: File
  fh_identifier :: string
  fh_state :: handle_state

definition fh_path :: "FileHandle \<Rightarrow> string" where
  "fh_path h = file_path (fh_file h)"

definition isOpen :: "FileHandle \<Rightarrow> bool" where
  "isOpen h \<longleftrightarrow> fh_state h = Open"

definition fh_open :: "FileHandle \<Rightarrow> FileHandle" where
  "fh_open h = h\<lparr>fh_state := Open\<rparr>"

definition fh_close :: "FileHandle \<Rightarrow> FileHandle" where
  "fh_close h = h\<lparr>fh_state := Closed\<rparr>"

definition ResolveRelativePath_for :: "string \<Rightarrow> string" where
  "ResolveRelativePath_for path = (if path = [dot] \<or> path = [] then [slash] else path)"

type_synonym FileHandleRepository = "string \<rightharpoonup> FileHandle"

definition createForPath ::
  "sftp_ports \<Rightarrow> nat \<Rightarrow> string \<Rightarrow> File option \<Rightarrow> FileHandleRepository \<Rightarrow> FileHandle \<times> FileHandleRepository" where
  "createForPath E n path file hs =
     (let f = (case file of Some f \<Rightarrow> f | None \<Rightarrow> \<lparr>file_path = ResolveRelativePath_for path, file_body = ''''\<rparr>);
          h = \<lparr>fh_file = f, fh_identifier = uuid E n, fh_state = Closed\<rparr>
      in (h, hs(fh_identifier h \<mapsto> h)))"

text \<open>The handle in the repository is the object that is opened.\<close>

definition openPath ::
  "sftp_ports \<Rightarrow> nat \<Rightarrow> string \<Rightarrow> File option \<Rightarrow> FileHandleRepository \<Rightarrow> FileHandle \<times> FileHandleRepository" where
  "openPath E n path file hs =
     (case createForPath E n path file hs of (h, hs') \<Rightarrow> (fh_open h, hs'(fh_identifier h \<mapsto> fh_open h)))"

definition closeById :: "string \<Rightarrow> FileHandleRepository \<Rightarrow> exn + FileHandleRepository" where
  "closeById identifier hs = (case hs identifier of None \<Rightarrow> Inl TypeError | Some h \<Rightarrow> Inr (hs(identifier := None)))"

section \<open>Commands\<close>

datatype reply =
    Attrs Attributes | Names "FileEntry list" | HandleId string | FileData string
  | StatusEOF | StatusOK | StatusFailure

type_synonym response = "(exn + reply) \<times> FileRepository \<times> FileHandleRepository"

definition sendFileListings :: "sftp_ports \<Rightarrow> nat \<Rightarrow> File list \<Rightarrow> reply" where
  "sendFileListings E n fs = Names (map (\<lambda>(i, f). toFileEntry E n i f) (enumerate 0 fs))"

definition OpenDirectory_respond ::
  "sftp_ports \<Rightarrow> nat \<Rightarrow> string \<Rightarrow> FileRepository \<Rightarrow> FileHandleRepository \<Rightarrow> response" where
  "OpenDirectory_respond E n path fs hs =
     (case openPath E n path None hs of (h, hs') \<Rightarrow> (Inr (HandleId (fh_identifier h)), fs, hs'))"

definition FileAttributes_respond ::
  "sftp_ports \<Rightarrow> nat \<Rightarrow> string \<Rightarrow> FileRepository \<Rightarrow> FileHandleRepository \<Rightarrow> response" where
  "FileAttributes_respond E n path fs hs =
     (Inr (case files_find path fs of Some f \<Rightarrow> Attrs (attributes E n 0 f) | None \<Rightarrow> StatusFailure), fs, hs)"

definition ResolveRelativePath_respond ::
  "sftp_ports \<Rightarrow> nat \<Rightarrow> string \<Rightarrow> FileRepository \<Rightarrow> FileHandleRepository \<Rightarrow> response" where
  "ResolveRelativePath_respond E n path fs hs =
     (Inr (sendFileListings E n [\<lparr>file_path = ResolveRelativePath_for path, file_body = ''''\<rparr>]), fs, hs)"

definition CloseFileHandle_respond ::
  "string \<Rightarrow> FileRepository \<Rightarrow> FileHandleRepository \<Rightarrow> response" where
  "CloseFileHandle_respond handleId fs hs =
     (case closeById handleId hs of Inl e \<Rightarrow> (Inl e, fs, hs) | Inr hs' \<Rightarrow> (Inr StatusOK, fs, hs'))"

definition ReadDirectory_respond ::
  "sftp_ports \<Rightarrow> nat \<Rightarrow> string \<Rightarrow> FileRepository \<Rightarrow> FileHandleRepository \<Rightarrow> response" where
  "ReadDirectory_respond E n handleId fs hs =
     (case hs handleId of
        None \<Rightarrow> (Inr StatusFailure, fs, hs)
      | Some h \<Rightarrow>
          (Inr (if isOpen h then sendFileListings E n (files_within (fh_path h) fs) else StatusEOF),
            fs, hs(handleId \<mapsto> fh_close h)))"

definition OpenFileHandle_respond ::
  "sftp_ports \<Rightarrow> nat \<Rightarrow> string \<Rightarrow> nat \<Rightarrow> FileRepository \<Rightarrow> FileHandleRepository \<Rightarrow> response" where
  "OpenFileHandle_respond E n path openMode fs hs =
     (if openMode = OPEN_MODE_READ E then
        (case files_find path fs of
           Some f \<Rightarrow> (case openPath E n path (Some f) hs of (h, hs') \<Rightarrow> (Inr (HandleId (fh_identifier h)), fs, hs'))
         | None \<Rightarrow> (Inr StatusFailure, fs, hs))
      else (case openPath E n path None hs of (h, hs') \<Rightarrow> (Inr (HandleId (fh_identifier h)), fs, hs')))"

definition ReadFileHandle_respond :: "string \<Rightarrow> FileRepository \<Rightarrow> FileHandleRepository \<Rightarrow> response" where
  "ReadFileHandle_respond handleId fs hs =
     (case hs handleId of
        None \<Rightarrow> (Inr StatusFailure, fs, hs)
      | Some h \<Rightarrow>
          if isOpen h then (Inr (FileData (file_body (fh_file h))), fs, hs(handleId \<mapsto> fh_close h))
          else (Inr StatusEOF, fs, hs))"

definition WriteFileHandle_respond :: "string \<Rightarrow> string \<Rightarrow> FileRepository \<Rightarrow> FileHandleRepository \<Rightarrow> response" where
  "WriteFileHandle_respond handleId body fs hs =
     (case hs handleId of
        None \<Rightarrow> (Inr StatusFailure, fs, hs)
      | Some h \<Rightarrow>
          if isOpen h then (Inr StatusOK, files_add (file_path (fh_file h)) body fs, hs)
          else (Inr StatusEOF, fs, hs))"

section \<open>Sessions\<close>

text \<open>The commands a session registers, with the arguments a client sends.\<close>

datatype sftp_request =
    OPENDIR string | STAT string | LSTAT string | REALPATH string | CLOSE string | READDIR string
  | OPEN string nat | READ string nat nat | WRITE string nat string

fun respond :: "sftp_ports \<Rightarrow> nat \<Rightarrow> sftp_request \<Rightarrow> FileRepository \<Rightarrow> FileHandleRepository \<Rightarrow> response" where
  "respond E n (OPENDIR path) fs hs = OpenDirectory_respond E n path fs hs"
| "respond E n (STAT path) fs hs = FileAttributes_respond E n path fs hs"
| "respond E n (LSTAT path) fs hs = FileAttributes_respond E n path fs hs"
| "respond E n (REALPATH path) fs hs = ResolveRelativePath_respond E n path fs hs"
| "respond E n (CLOSE k) fs hs = CloseFileHandle_respond k fs hs"
| "respond E n (READDIR k) fs hs = ReadDirectory_respond E n k fs hs"
| "respond E n (OPEN path openMode) fs hs = OpenFileHandle_respond E n path openMode fs hs"
| "respond E n (READ k offset len) fs hs = ReadFileHandle_respond k fs hs"
| "respond E n (WRITE k offset data) fs hs = WriteFileHandle_respond k data fs hs"

section \<open>The server\<close>

record SFTPServer =
  files :: FileRepository
  sessions :: "FileHandleRepository list"
  served :: nat

definition new_SFTPServer :: SFTPServer where
  "new_SFTPServer = \<lparr>files = [], sessions = [], served = 0\<rparr>"

definition answer :: "sftp_ports \<Rightarrow> nat \<Rightarrow> sftp_request \<Rightarrow> SFTPServer \<Rightarrow> (exn + reply) \<times> SFTPServer" where
  "answer E i r s =
     (case respond E (served s) r (files s) (sessions s ! i) of
        (x, fs, hs) \<Rightarrow> (x, \<lparr>files = fs, sessions = (sessions s)[i := hs], served = Suc (served s)\<rparr>))"

datatype event = Connected | Added string string | Answered nat sftp_request "exn + reply"

inductive step :: "sftp_ports \<Rightarrow> SFTPServer \<Rightarrow> event \<Rightarrow> SFTPServer \<Rightarrow> bool" for E where
  connected: "step E s Connected (s\<lparr>sessions := sessions s @ [Map.empty]\<rparr>)"
| added: "step E s (Added path body) (s\<lparr>files := files_add path body (files s)\<rparr>)"
| answered: "i < length (sessions s) \<Longrightarrow> answer E i r s = (x, s') \<Longrightarrow> step E s (Answered i r x) s'"

inductive_cases ConnectedE: "step E s Connected s'"
inductive_cases AddedE: "step E s (Added path body) s'"
inductive_cases AnsweredE: "step E s (Answered i r x) s'"

inductive runs :: "sftp_ports \<Rightarrow> SFTPServer \<Rightarrow> event list \<Rightarrow> SFTPServer \<Rightarrow> bool" for E where
  stop: "runs E s [] s"
| go: "step E s e s' \<Longrightarrow> runs E s' es s'' \<Longrightarrow> runs E s (e # es) s''"

end
