(* ===== verification/VirtualSftpSafety.thy ===== *)
theory VirtualSftpSafety
  imports VirtualSftp
begin

text \<open>
  What the virtual SFTP server keeps of its files and handles, whatever its clients ask for and in whatever
  order, and what a client reads.  The locale \<open>server_invariant\<close> lifts what every step keeps to runs.
\<close>

section \<open>Invariants of runs\<close>

locale server_invariant =
  fixes E :: sftp_ports and ok :: "event \<Rightarrow> bool" and I :: "SFTPServer \<Rightarrow> bool"
  assumes step: "step E s e s' \<Longrightarrow> ok e \<Longrightarrow> I s \<Longrightarrow> I s'"
begin

lemma runs: "runs E s es s' \<Longrightarrow> list_all ok es \<Longrightarrow> I s \<Longrightarrow> I s'"
  by (induction rule: runs.induct) (auto intro: step)

end

section \<open>What an answer does\<close>

definition handle_at :: "SFTPServer \<Rightarrow> nat \<Rightarrow> string \<Rightarrow> FileHandle option" where
  "handle_at s i k = (if i < length (sessions s) then (sessions s ! i) k else None)"

lemmas respond_defs =
  OpenDirectory_respond_def FileAttributes_respond_def ResolveRelativePath_respond_def CloseFileHandle_respond_def
  ReadDirectory_respond_def OpenFileHandle_respond_def ReadFileHandle_respond_def WriteFileHandle_respond_def
  openPath_def createForPath_def closeById_def Let_def

text \<open>The requests that may close, empty or remove a handle.\<close>

fun uses_handle :: "sftp_request \<Rightarrow> string \<Rightarrow> bool" where
  "uses_handle (CLOSE k) k' \<longleftrightarrow> k = k'"
| "uses_handle (READDIR k) k' \<longleftrightarrow> k = k'"
| "uses_handle (READ k _ _) k' \<longleftrightarrow> k = k'"
| "uses_handle _ _ \<longleftrightarrow> False"

lemma respond_handles:
  assumes "respond E n r fs hs = (x, fs', hs')"
  shows "hs' k = hs k \<or>
    uses_handle r k \<and> (hs' k = None \<or> (\<exists>h. hs k = Some h \<and> hs' k = Some (fh_close h))) \<or>
    k = uuid E n \<and> (\<exists>h. hs' k = Some h \<and> fh_identifier h = k \<and> isOpen h)"
  using assms
  by (cases r) (auto simp: respond_defs isOpen_def fh_open_def split: option.splits if_splits)

lemma respond_files:
  assumes "respond E n r fs hs = (x, fs', hs')"
  shows "fs' = fs \<or> (\<exists>k offset body h. r = WRITE k offset body \<and> hs k = Some h \<and> isOpen h \<and>
    x = Inr StatusOK \<and> fs' = files_add (fh_path h) body fs)"
  using assms
  by (cases r) (auto simp: respond_defs fh_path_def split: option.splits if_splits)

lemma answer_cases:
  assumes "step E s (Answered i r x) s'"
  obtains fs hs where "i < length (sessions s)" and "respond E (served s) r (files s) (sessions s ! i) = (x, fs, hs)"
    and "s' = \<lparr>files = fs, sessions = (sessions s)[i := hs], served = Suc (served s)\<rparr>"
  using assms by (elim AnsweredE) (auto simp: answer_def split: prod.splits)

lemma answer_handles:
  assumes "step E s (Answered i r x) s'"
  shows "handle_at s' j k = handle_at s j k \<or>
    j = i \<and> uses_handle r k \<and>
      (handle_at s' j k = None \<or> (\<exists>h. handle_at s j k = Some h \<and> handle_at s' j k = Some (fh_close h))) \<or>
    j = i \<and> k = uuid E (served s) \<and> (\<exists>h. handle_at s' j k = Some h \<and> fh_identifier h = k \<and> isOpen h)"
proof -
  obtain fs hs where a: "i < length (sessions s)" "respond E (served s) r (files s) (sessions s ! i) = (x, fs, hs)"
    "s' = \<lparr>files = fs, sessions = (sessions s)[i := hs], served = Suc (served s)\<rparr>"
    using answer_cases [OF assms] .
  show ?thesis
  proof (cases "j = i")
    case True
    with a(1,3) have "handle_at s' j k = hs k" and "handle_at s j k = (sessions s ! i) k" by (simp_all add: handle_at_def)
    with respond_handles [OF a(2), of k] True show ?thesis by simp
  next
    case False
    with a(3) show ?thesis by (simp add: handle_at_def)
  qed
qed

lemma connected_handles: "step E s Connected s' \<Longrightarrow> handle_at s' j k = handle_at s j k"
  by (elim ConnectedE) (auto simp: handle_at_def nth_append less_Suc_eq)

lemma added_handles: "step E s (Added path body) s' \<Longrightarrow> handle_at s' j k = handle_at s j k"
  by (elim AddedE) (simp add: handle_at_def)

lemma step_served: "step E s e s' \<Longrightarrow> served s \<le> served s'"
  by (cases rule: step.cases) (auto simp: answer_def split: prod.splits)

section \<open>Well-formed servers\<close>

text \<open>Every file is filed under its path, once; every handle under its identifier, in one session.\<close>

definition files_ok :: "FileRepository \<Rightarrow> bool" where
  "files_ok fs \<longleftrightarrow> distinct (map fst fs) \<and> (\<forall>(path, f)\<in>set fs. file_path f = path)"

definition server_ok :: "sftp_ports \<Rightarrow> SFTPServer \<Rightarrow> bool" where
  "server_ok E s \<longleftrightarrow> files_ok (files s) \<and>
     (\<forall>i k h. handle_at s i k = Some h \<longrightarrow> fh_identifier h = k \<and> (\<exists>n. n < served s \<and> k = uuid E n)) \<and>
     (\<forall>i j k. handle_at s i k \<noteq> None \<longrightarrow> handle_at s j k \<noteq> None \<longrightarrow> i = j)"

lemma files_add_ok: "files_ok fs \<Longrightarrow> files_ok (files_add path body fs)"
proof -
  assume ok: "files_ok fs"
  have "set (AList.update path f fs) \<subseteq> Set.insert (path, f) (set fs)" for f :: File
    by (induction fs) (auto split: if_splits)
  with ok show ?thesis
    by (fastforce simp: files_ok_def files_add_def distinct_update)
qed

lemma step_files:
  assumes "step E s e s'"
  shows "files s' = files s \<or> (\<exists>path body. files s' = files_add path body (files s))"
  using assms
proof cases
  case (answered i r x)
  then show ?thesis using respond_files by (auto simp: answer_def split: prod.splits) blast
qed auto

lemma server_okD:
  "server_ok E s \<Longrightarrow> handle_at s i k = Some h \<Longrightarrow> fh_identifier h = k \<and> (\<exists>n. n < served s \<and> k = uuid E n)"
  by (simp add: server_ok_def)

lemma fresh_identifier:
  assumes "inj (uuid E)" and "server_ok E s" and "served s \<le> n"
  shows "handle_at s j (uuid E n) = None"
proof (cases "handle_at s j (uuid E n)")
  case (Some h)
  with server_okD [OF assms(2)] obtain m where "m < served s" and "uuid E n = uuid E m" by blast
  with assms(1,3) show ?thesis by (simp add: inj_eq)
qed

lemma server_ok_step:
  assumes "inj (uuid E)" and "step E s e s'" and "server_ok E s"
  shows "server_ok E s'"
proof -
  have f: "files_ok (files s')"
    using step_files [OF assms(2)] assms(3) files_add_ok by (auto simp: server_ok_def)
  have new: "handle_at s j (uuid E (served s)) = None" for j
    using fresh_identifier [OF assms(1,3)] by simp
  have h: "(\<exists>h0. handle_at s j k = Some h0 \<and> fh_identifier h = fh_identifier h0) \<or>
      k = uuid E (served s) \<and> fh_identifier h = k \<and> served s' = Suc (served s) \<and> (\<exists>i r x. e = Answered i r x \<and> i = j)"
    if "handle_at s' j k = Some h" for j k h
    using assms(2) that
  proof (cases e)
    case (Answered i r x)
    have "served s' = Suc (served s)"
      using answer_cases [OF assms(2) [unfolded Answered]] by (metis SFTPServer.select_convs(3))
    moreover have "fh_identifier (fh_close h0) = fh_identifier h0" for h0 by (simp add: fh_close_def)
    ultimately show ?thesis using answer_handles [OF assms(2) [unfolded Answered], of j k] that Answered
      by (metis option.inject option.distinct(1))
  qed (auto simp: connected_handles added_handles)
  show ?thesis
    unfolding server_ok_def
  proof (intro conjI f allI impI)
    fix i k x
    assume "handle_at s' i k = Some x"
    with h [OF this] assms(3) step_served [OF assms(2)]
    show "fh_identifier x = k" and "\<exists>n. n < served s' \<and> k = uuid E n"
      by (auto simp: server_ok_def) (meson less_le_trans lessI)+
  next
    fix i j k
    assume "handle_at s' i k \<noteq> None" and "handle_at s' j k \<noteq> None"
    with h [of i k] h [of j k] new [of i] new [of j] assms(3) show "i = j"
      by (fastforce simp: server_ok_def)
  qed
qed

lemma new_server_ok: "server_ok E new_SFTPServer"
  by (simp add: server_ok_def new_SFTPServer_def files_ok_def handle_at_def)

definition fresh_uuids :: "sftp_ports \<Rightarrow> bool" where
  "fresh_uuids E \<longleftrightarrow> inj (uuid E)"

interpretation well_formed: server_invariant E "\<lambda>_. True" "\<lambda>s. fresh_uuids E \<and> server_ok E s"
  by unfold_locales (simp add: fresh_uuids_def server_ok_step)

lemma run_server_ok: "fresh_uuids E \<Longrightarrow> runs E new_SFTPServer es s \<Longrightarrow> server_ok E s"
  using well_formed.runs [of E new_SFTPServer es s] new_server_ok by (simp add: list_all_iff)

section \<open>Handles over time\<close>

text \<open>A handle stays open, on the file it was opened with, until its session uses it.\<close>

fun touches :: "nat \<Rightarrow> string \<Rightarrow> event \<Rightarrow> bool" where
  "touches i k (Answered j r x) \<longleftrightarrow> j = i \<and> uses_handle r k"
| "touches i k _ \<longleftrightarrow> False"

definition open_on :: "SFTPServer \<Rightarrow> nat \<Rightarrow> string \<Rightarrow> File \<Rightarrow> bool" where
  "open_on s i k f \<longleftrightarrow> (\<exists>h. handle_at s i k = Some h \<and> fh_file h = f \<and> isOpen h)"

lemma open_on_step:
  assumes "fresh_uuids E" and "server_ok E s" and "step E s e s'" and "\<not> touches i k e" and "open_on s i k f"
  shows "open_on s' i k f"
proof (cases e)
  case (Answered j r x)
  have "handle_at s i (uuid E (served s)) = None"
    using fresh_identifier [OF _ assms(2), of "served s" i] assms(1) by (simp add: fresh_uuids_def)
  with answer_handles [OF assms(3) [unfolded Answered], of i k] assms(4,5) Answered
  have "handle_at s' i k = handle_at s i k" by (auto simp: open_on_def)
  with assms(5) show ?thesis by (simp add: open_on_def)
qed (use assms in \<open>simp_all add: open_on_def connected_handles added_handles\<close>)

interpretation stays_open: server_invariant E "\<lambda>e. \<not> touches i k e" "\<lambda>s. fresh_uuids E \<and> server_ok E s \<and> open_on s i k f"
  by unfold_locales (metis fresh_uuids_def open_on_step server_ok_step)

text \<open>A handle that is closed, or gone, is never open again.\<close>

definition never_open :: "sftp_ports \<Rightarrow> SFTPServer \<Rightarrow> nat \<Rightarrow> string \<Rightarrow> bool" where
  "never_open E s i k \<longleftrightarrow> (\<exists>n. n < served s \<and> k = uuid E n) \<and> (\<forall>h. handle_at s i k = Some h \<longrightarrow> \<not> isOpen h)"

lemma never_open_step:
  assumes "fresh_uuids E" and "step E s e s'" and "never_open E s i k"
  shows "never_open E s' i k"
proof -
  obtain n where n: "n < served s" "k = uuid E n" using assms(3) by (auto simp: never_open_def)
  with assms(1) have k: "k \<noteq> uuid E (served s)" by (auto simp: fresh_uuids_def inj_eq)
  have "\<not> isOpen h" if "handle_at s' i k = Some h" for h
  proof (cases e)
    case (Answered j r x)
    with answer_handles [OF assms(2) [unfolded Answered], of i k] assms(3) k that show ?thesis
      by (auto simp: never_open_def isOpen_def fh_close_def)
  qed (use assms that in \<open>simp_all add: never_open_def connected_handles added_handles\<close>)
  moreover have "n < served s'" using n(1) step_served [OF assms(2)] by simp
  ultimately show ?thesis using n(2) by (auto simp: never_open_def)
qed

interpretation stays_closed: server_invariant E "\<lambda>_. True" "\<lambda>s. fresh_uuids E \<and> never_open E s i k"
  by unfold_locales (simp add: never_open_step)

section \<open>Files over time\<close>

lemma files_find_add:
  "files_find q (files_add p body fs) = (if q = p then Some \<lparr>file_path = p, file_body = body\<rparr> else files_find q fs)"
  by (simp add: files_find_def files_add_def update_conv')

text \<open>The steps that may replace the file at a path, and the runs without one.\<close>

fun writes :: "SFTPServer \<Rightarrow> string \<Rightarrow> event \<Rightarrow> bool" where
  "writes s p (Added path body) \<longleftrightarrow> path = p"
| "writes s p (Answered i (WRITE k offset body) x) \<longleftrightarrow> (\<exists>h. handle_at s i k = Some h \<and> fh_path h = p)"
| "writes s p _ \<longleftrightarrow> False"

inductive runs_without :: "sftp_ports \<Rightarrow> string \<Rightarrow> SFTPServer \<Rightarrow> event list \<Rightarrow> SFTPServer \<Rightarrow> bool" for E p where
  stop: "runs_without E p s [] s"
| go: "step E s e s' \<Longrightarrow> \<not> writes s p e \<Longrightarrow> runs_without E p s' es s'' \<Longrightarrow> runs_without E p s (e # es) s''"

lemma runs_without_runs: "runs_without E p s es s' \<Longrightarrow> runs E s es s'"
  by (induction rule: runs_without.induct) (auto intro: runs.intros)

lemma step_keeps_file:
  assumes "step E s e s'" and "\<not> writes s p e"
  shows "files_find p (files s') = files_find p (files s)"
proof (cases e)
  case (Answered i r x)
  obtain fs hs where a: "i < length (sessions s)" "respond E (served s) r (files s) (sessions s ! i) = (x, fs, hs)"
    "s' = \<lparr>files = fs, sessions = (sessions s)[i := hs], served = Suc (served s)\<rparr>"
    using answer_cases [OF assms(1) [unfolded Answered]] .
  with respond_files [OF a(2)] assms(2) Answered show ?thesis
    by (auto simp: files_find_add handle_at_def)
next
  case (Added path body)
  with assms show ?thesis by (auto elim: AddedE simp: files_find_add)
qed (use assms in \<open>auto elim: ConnectedE\<close>)

lemma runs_without_keeps_file: "runs_without E p s es s' \<Longrightarrow> files_find p (files s') = files_find p (files s)"
  by (induction rule: runs_without.induct) (simp_all add: step_keeps_file)

section \<open>Single answers\<close>

lemma open_answer:
  assumes "step E s (Answered i (OPEN p (OPEN_MODE_READ E)) x) s'" and "files_find p (files s) = Some f"
  shows "\<exists>k. x = Inr (HandleId k) \<and> open_on s' i k f"
  using assms(1,2)
  by (elim answer_cases)
    (auto simp: OpenFileHandle_respond_def openPath_def createForPath_def open_on_def handle_at_def fh_open_def isOpen_def Let_def)

lemma open_refused:
  assumes "step E s (Answered i (OPEN p (OPEN_MODE_READ E)) (Inr (HandleId k))) s'"
  shows "\<exists>f. files_find p (files s) = Some f \<and> open_on s' i k f"
  using assms open_answer [OF assms]
  by (cases "files_find p (files s)") (auto elim!: answer_cases simp: OpenFileHandle_respond_def)

lemma read_answer:
  assumes "step E s (Answered i (READ k offset len) x) s'" and "open_on s i k f"
  shows "x = Inr (FileData (file_body f))"
  using assms by (elim answer_cases) (auto simp: ReadFileHandle_respond_def open_on_def handle_at_def)

lemma write_answer:
  assumes "step E s (Answered i (WRITE k offset body) (Inr StatusOK)) s'"
  shows "\<exists>h. handle_at s i k = Some h \<and>
    files_find (fh_path h) (files s') = Some \<lparr>file_path = fh_path h, file_body = body\<rparr>"
  using assms
  by (elim answer_cases)
    (auto simp: WriteFileHandle_respond_def handle_at_def fh_path_def files_find_add split: option.splits if_splits)

text \<open>The requests that find out whether a handle is open.\<close>

fun asks_handle :: "sftp_request \<Rightarrow> string \<Rightarrow> bool" where
  "asks_handle (READDIR k) k' \<longleftrightarrow> k = k'"
| "asks_handle (READ k _ _) k' \<longleftrightarrow> k = k'"
| "asks_handle (WRITE k _ _) k' \<longleftrightarrow> k = k'"
| "asks_handle _ _ \<longleftrightarrow> False"

fun has_content :: "exn + reply \<Rightarrow> bool" where
  "has_content (Inr (FileData body)) \<longleftrightarrow> True"
| "has_content (Inr (Names entries)) \<longleftrightarrow> True"
| "has_content _ \<longleftrightarrow> False"

lemma closed_answer:
  assumes "step E s (Answered i r x) s'" and "asks_handle r k" and "never_open E s i k"
  shows "x \<in> {Inr StatusEOF, Inr StatusFailure} \<and> files s' = files s"
proof -
  obtain fs hs where a: "i < length (sessions s)" "respond E (served s) r (files s) (sessions s ! i) = (x, fs, hs)"
    "s' = \<lparr>files = fs, sessions = (sessions s)[i := hs], served = Suc (served s)\<rparr>"
    using answer_cases [OF assms(1)] .
  with assms(2,3) show ?thesis
    by (cases r) (auto simp: respond_defs never_open_def handle_at_def split: option.splits if_splits)
qed

lemma content_answer:
  assumes "fresh_uuids E" and "server_ok E s" and "step E s (Answered i r x) s'" and "asks_handle r k" and "has_content x"
  shows "never_open E s' i k"
proof -
  obtain fs hs where a: "i < length (sessions s)" "respond E (served s) r (files s) (sessions s ! i) = (x, fs, hs)"
    "s' = \<lparr>files = fs, sessions = (sessions s)[i := hs], served = Suc (served s)\<rparr>"
    using answer_cases [OF assms(3)] .
  from a(2) assms(4,5) obtain h where h: "(sessions s ! i) k = Some h" "hs k = Some (fh_close h)"
    by (cases r) (auto simp: respond_defs split: option.splits if_splits)
  with a(1) server_okD [OF assms(2), of i k h] obtain n where "n < served s" "k = uuid E n" by (auto simp: handle_at_def)
  moreover have "n < served s'" using \<open>n < served s\<close> a(3) by simp
  ultimately show ?thesis using a h unfolding never_open_def
    by (intro conjI exI [of _ n]) (auto simp: handle_at_def fh_close_def isOpen_def)
qed

section \<open>A sample run\<close>

definition sample_ports :: sftp_ports where
  "sample_ports = \<lparr>uuid = (\<lambda>n. replicate n CHR ''u''), millis = (\<lambda>_ _. 0), OPEN_MODE_READ = 1\<rparr>"

lemma sample_fresh: "fresh_uuids sample_ports"
  by (auto simp: fresh_uuids_def sample_ports_def intro: injI dest: arg_cong [of _ _ length])

lemma step_answer: "i < length (sessions s) \<Longrightarrow> step E s (Answered i r (fst (answer E i r s))) (snd (answer E i r s))"
  by (rule answered) simp_all

text \<open>A client opens a file for writing, writes to it, opens it for reading, and the host replaces it.\<close>

definition connected_server :: SFTPServer where
  "connected_server = new_SFTPServer\<lparr>sessions := [Map.empty]\<rparr>"

definition opened_server :: SFTPServer where
  "opened_server = snd (answer sample_ports 0 (OPEN ''/a.txt'' 2) connected_server)"

definition written_server :: SFTPServer where
  "written_server = snd (answer sample_ports 0 (WRITE '''' 0 ''hi'') opened_server)"

definition reading_server :: SFTPServer where
  "reading_server = snd (answer sample_ports 0 (OPEN ''/a.txt'' 1) written_server)"

lemmas sample_run_defs =
  connected_server_def opened_server_def written_server_def reading_server_def new_SFTPServer_def sample_ports_def

lemma sample_steps:
  "step sample_ports new_SFTPServer Connected connected_server"
  "step sample_ports connected_server (Answered 0 (OPEN ''/a.txt'' 2) (Inr (HandleId ''''))) opened_server"
  "step sample_ports opened_server (Answered 0 (WRITE '''' 0 ''hi'') (Inr StatusOK)) written_server"
  "step sample_ports written_server (Answered 0 (OPEN ''/a.txt'' (OPEN_MODE_READ sample_ports)) (Inr (HandleId ''uu''))) reading_server"
proof -
  show "step sample_ports new_SFTPServer Connected connected_server"
    using connected [of sample_ports new_SFTPServer] by (simp add: sample_run_defs)
qed (rule answered; simp add: sample_run_defs answer_def respond_defs fh_open_def isOpen_def files_add_def files_find_def
      ResolveRelativePath_for_def numeral_2_eq_2)+

lemmas sample_run =
  runs.go [OF sample_steps(1) runs.go [OF sample_steps(2) runs.go [OF sample_steps(3) runs.stop]]]

lemmas sample_reading_run =
  runs.go [OF sample_steps(1) runs.go [OF sample_steps(2) runs.go [OF sample_steps(3) runs.go [OF sample_steps(4) runs.stop]]]]

section \<open>Properties\<close>

text \<open>
  C31.  In every state a virtual server reaches, every file is filed under its own path, once, and every handle
  under its own identifier, in the repository of one session only; and an identifier a client is given names an
  open handle of its own session and no handle of another one.
\<close>

theorem server_well_formed:
  assumes "fresh_uuids E" and "runs E new_SFTPServer es s" and "step E s (Answered i r (Inr (HandleId k))) s'"
  shows "server_ok E s' \<and> (\<exists>h. handle_at s' i k = Some h \<and> isOpen h) \<and> (\<forall>j. j \<noteq> i \<longrightarrow> handle_at s' j k = None)"
proof -
  have ok: "server_ok E s'"
    using server_ok_step [OF _ assms(3) run_server_ok [OF assms(1,2)]] assms(1) by (simp add: fresh_uuids_def)
  obtain fs hs where a: "i < length (sessions s)"
    "respond E (served s) r (files s) (sessions s ! i) = (Inr (HandleId k), fs, hs)"
    "s' = \<lparr>files = fs, sessions = (sessions s)[i := hs], served = Suc (served s)\<rparr>"
    using answer_cases [OF assms(3)] .
  then have "\<exists>h. handle_at s' i k = Some h \<and> isOpen h"
    by (cases r) (auto simp: respond_defs sendFileListings_def handle_at_def fh_open_def isOpen_def
        split: option.splits if_splits)
  moreover have "handle_at s' j k = None" if "handle_at s' i k \<noteq> None" "j \<noteq> i" for j
    using ok that unfolding server_ok_def by blast
  ultimately show ?thesis using ok by auto
qed

lemma server_well_formed_witness:
  "server_ok sample_ports reading_server \<and> (\<exists>h. handle_at reading_server 0 ''uu'' = Some h \<and> isOpen h)"
  using server_well_formed [OF sample_fresh sample_run sample_steps(4)] by blast

text \<open>
  C32.  What a client has written through a handle is what any client reads that opens the path for reading
  afterwards, whatever else is asked for in between but another write to that path.
\<close>

theorem written_file_reads_back:
  assumes "step E s (Answered i (WRITE k offset body) (Inr StatusOK)) s1" and "handle_at s i k = Some h"
    and "runs_without E (fh_path h) s1 es s2"
    and "step E s2 (Answered j (OPEN (fh_path h) (OPEN_MODE_READ E)) x) s3"
  shows "\<exists>k'. x = Inr (HandleId k') \<and>
    (\<forall>offset' len y s4. step E s3 (Answered j (READ k' offset' len) y) s4 \<longrightarrow> y = Inr (FileData body))"
proof -
  have "files_find (fh_path h) (files s2) = Some \<lparr>file_path = fh_path h, file_body = body\<rparr>"
    using write_answer [OF assms(1)] assms(2) runs_without_keeps_file [OF assms(3)] by auto
  from open_answer [OF assms(4) this] show ?thesis
    using read_answer by (metis File.select_convs(2))
qed

lemma written_file_reads_back_witness:
  "\<exists>s. step sample_ports reading_server (Answered 0 (READ ''uu'' 0 2) (Inr (FileData ''hi''))) s"
proof -
  let ?a = "answer sample_ports 0 (READ ''uu'' 0 2) reading_server"
  have "length (sessions reading_server) = 1"
    by (simp add: sample_run_defs answer_def split: prod.split)
  then have r: "step sample_ports reading_server (Answered 0 (READ ''uu'' 0 2) (fst ?a)) (snd ?a)"
    by (intro step_answer) simp
  obtain h where h: "handle_at opened_server 0 '''' = Some h" "fh_path h = ''/a.txt''"
    by (simp add: sample_run_defs answer_def respond_defs handle_at_def fh_open_def fh_path_def ResolveRelativePath_for_def)
  from written_file_reads_back [OF sample_steps(3) h(1) runs_without.stop, of 0] sample_steps(4) h(2) r
  show ?thesis by fastforce
qed

text \<open>
  A handle that was opened for reading gives the file as it was at that moment: no write, of no client, and
  no file of the host changes what is read through it, until its own session reads or closes it.
\<close>

theorem open_handle_reads_what_it_opened:
  assumes "fresh_uuids E" and "runs E new_SFTPServer es0 s"
    and "step E s (Answered i (OPEN p (OPEN_MODE_READ E)) (Inr (HandleId k))) s1"
    and "runs E s1 es s2" and "list_all (\<lambda>e. \<not> touches i k e) es"
    and "step E s2 (Answered i (READ k offset len) x) s3"
  shows "\<exists>f. files_find p (files s) = Some f \<and> x = Inr (FileData (file_body f))"
proof -
  obtain f where f: "files_find p (files s) = Some f" and o1: "open_on s1 i k f"
    using open_refused [OF assms(3)] by blast
  have "server_ok E s1"
    using server_ok_step [OF _ assms(3) run_server_ok [OF assms(1,2)]] assms(1) by (simp add: fresh_uuids_def)
  with stays_open.runs [OF assms(4,5), of f] assms(1) o1 have "open_on s2 i k f" by simp
  with f read_answer [OF assms(6)] show ?thesis by blast
qed

lemma open_handle_reads_what_it_opened_witness:
  "\<exists>s2 s3. step sample_ports reading_server (Added ''/a.txt'' ''other'') s2 \<and>
    step sample_ports s2 (Answered 0 (READ ''uu'' 0 2) (Inr (FileData ''hi''))) s3"
proof -
  let ?s2 = "reading_server\<lparr>files := files_add ''/a.txt'' ''other'' (files reading_server)\<rparr>"
  let ?a = "answer sample_ports 0 (READ ''uu'' 0 2) ?s2"
  have a: "step sample_ports reading_server (Added ''/a.txt'' ''other'') ?s2" by (rule added)
  then have 1: "runs sample_ports reading_server [Added ''/a.txt'' ''other''] ?s2" by (rule runs.go [OF _ runs.stop])
  have "length (sessions reading_server) = 1" by (simp add: sample_run_defs answer_def split: prod.split)
  then have r: "step sample_ports ?s2 (Answered 0 (READ ''uu'' 0 2) (fst ?a)) (snd ?a)" by (intro step_answer) simp
  have "files_find ''/a.txt'' (files written_server) = Some \<lparr>file_path = ''/a.txt'', file_body = ''hi''\<rparr>"
    by (simp add: sample_run_defs answer_def respond_defs fh_open_def isOpen_def files_add_def files_find_def
        ResolveRelativePath_for_def)
  with open_handle_reads_what_it_opened [OF sample_fresh sample_run sample_steps(4) 1 _ r] a r show ?thesis by fastforce
qed

text \<open>
  A handle gives its content or its listing once: after an answer with content every later request to read,
  list or write through it is answered with the end of the file or a failure and changes no file, whatever
  happens in between.  So a client that asks until the end is told so by the second answer.
\<close>

theorem handle_gives_content_once:
  assumes "fresh_uuids E" and "runs E new_SFTPServer es0 s"
    and "step E s (Answered i r x) s1" and "asks_handle r k" and "has_content x"
    and "runs E s1 es s2" and "step E s2 (Answered i r' y) s3" and "asks_handle r' k"
  shows "y \<in> {Inr StatusEOF, Inr StatusFailure} \<and> files s3 = files s2"
proof -
  have "never_open E s1 i k"
    using content_answer [OF assms(1) run_server_ok [OF assms(1,2)] assms(3-5)] .
  with stays_closed.runs [OF assms(6), of i k] assms(1) have "never_open E s2 i k" by (simp add: list_all_iff)
  from closed_answer [OF assms(7,8) this] show ?thesis .
qed

lemma handle_gives_content_once_witness:
  "\<exists>s1 s2 y. step sample_ports reading_server (Answered 0 (READ ''uu'' 0 2) (Inr (FileData ''hi''))) s1 \<and>
    step sample_ports s1 (Answered 0 (READ ''uu'' 2 2) y) s2 \<and> y \<in> {Inr StatusEOF, Inr StatusFailure}"
proof -
  let ?a = "answer sample_ports 0 (READ ''uu'' 0 2) reading_server"
  have n: "length (sessions reading_server) = 1" "length (sessions (snd ?a)) = 1"
    by (simp_all add: sample_run_defs answer_def split: prod.split)
  have "fst ?a = Inr (FileData ''hi'')"
    by (simp add: sample_run_defs answer_def respond_defs fh_open_def isOpen_def files_add_def files_find_def
        ResolveRelativePath_for_def numeral_2_eq_2)
  with step_answer [of 0 reading_server sample_ports "READ ''uu'' 0 2"] n(1)
  have r: "step sample_ports reading_server (Answered 0 (READ ''uu'' 0 2) (Inr (FileData ''hi''))) (snd ?a)" by simp
  let ?b = "answer sample_ports 0 (READ ''uu'' 2 2) (snd ?a)"
  have r2: "step sample_ports (snd ?a) (Answered 0 (READ ''uu'' 2 2) (fst ?b)) (snd ?b)"
    using n(2) by (intro step_answer) simp
  from handle_gives_content_once [OF sample_fresh sample_reading_run r _ _ runs.stop r2, of "''uu''"] r r2 show ?thesis by fastforce
qed

end
