(* ===== verification/Domain.thy ===== *)
theory Domain
  imports Javascript
begin

text \<open>
  The program's data: the enumerations and interfaces of \<open>app/interfaces\<close> and \<open>app/models\<close>, and those of
  the package \<open>datapipeline-schemas\<close> as far as the program reads them (their members are known from the
  serializers and from their uses; an enumeration has a constructor for every member the program names and
  one for any other text a column or message may hold).

  A date is the number of milliseconds since the epoch.  An amount is the text of a decimal number, as the
  database driver returns a \<open>numeric(18,2)\<close> column.
\<close>

type_synonym date = int

section \<open>Enumerations\<close>

datatype TransactionStatus =
  Pending | UnknownIssue
| OfferNotFound | CannotFindClient | OfferNotWithinRedemptionPeriod | ClientBlacklisted
| UserProductForOfferNotFound | ProductHasBlockCode | ClientIsNotTargeted | ClientIsNotLinked
| ClientReachedCardRedLimit | ClientReachedOverallRedLimit | QualifiedTransUsedAlready
| CreditCardOwnerNotAuthorized | DebitCardOwnerNotAuthorized | ClientNotInOptInFile
| RebateNotDue | RebateCreated
| PendingExtraction | ExtractionStarted | PendingFulfillment
| RebateIdNotFound | RebateNotFound | FulfilledTransUsedAlready | FulfilledTransHasDiffAccount
| FulfilledTransHasWrongAmount | RebateNotPending | FulfilledTransSuccessful
| RefundTrackedForReporting | RefundNotTrackedForReporting
| OtherStatus string

datatype TransactionType = Qualifying | Fulfillment | Refund | OtherTransactionType "string nullable"

datatype CardType = CreditCard | CheckingAccount | OtherCardType "string nullable"

datatype RewardType = Dollars | Points

datatype ArithmeticOperation = Multiplication | Addition

datatype RedemptionLimitType = Overall | PerCard | OtherLimitType string

datatype TransferStatus = TransferPending | InProgress | Complete | Failed

datatype OfferBenefitToCustomer =
  DollarsOff | PercentageOffForDollars | PointsTopUp | PercentageIncreaseForPoints | MultiplierForPoints
| OtherBenefit string

datatype OfferType = ProductOwnerShipBased | PreLoadedOptInFile | ClientBased | OtherOfferType "string nullable"

datatype OwnershipType = Primary | AuthorizedUser | CoApplicant | Sole | Joint | OtherOwnershipType string

section \<open>Offers\<close>

record IRewardCalculation =
  operand :: string
  operation :: ArithmeticOperation
  reward_unit :: RewardType

record IOfferTerms =
  rebateAmount :: string
  benefitToCustomer :: OfferBenefitToCustomer

record IProductDocument =
  productCodeExternal :: string
  redeemableOwnershipType :: "OwnershipType list"
  presentableOwnershipType :: "OwnershipType list"

text \<open>\<open>IObjectMap<IProductDocument>\<close>: the entries in the order \<open>for .. in\<close> visits them.\<close>

type_synonym products = "(string \<times> IProductDocument) list"

text \<open>\<open>for .. in\<close> visits nothing of \<open>undefined\<close> or \<open>null\<close>.\<close>

definition entries_of :: "products nullable \<Rightarrow> products" where
  "entries_of x = (case x of Value ps \<Rightarrow> ps | _ \<Rightarrow> [])"

record IRebateCriteria =
  rc_id :: string
  rc_isRedeemable :: bool
  rc_descriptionForTesting :: "string option"
  rc_rewardCalculation :: IRewardCalculation
  rc_refundPeriodInDays :: int
  rc_validFromDate :: date
  rc_validToDate :: date
  rc_merchantId :: string
  rc_hasBeenActivated :: bool
  rc_requiresCustomerToBeLinked :: bool
  rc_requiresCustomerToBeTargeted :: bool
  rc_redemptionLimit :: int
  rc_redemptionLimitType :: "RedemptionLimitType nullable"
  rc_redemptionPeriodInDays :: int
  rc_eligibleProducts :: "products nullable"
  rc_redemptionBasedOn :: OfferType

section \<open>Users\<close>

text \<open>
  \<open>ICreditCardProduct | IDDAProduct\<close>: an \<open>IDDAProduct\<close> has no \<open>primaryAccountHashSRF\<close>, which reads as
  \<open>undefined\<close>.
\<close>

record user_product =
  p_code :: string
  p_ownershipType :: OwnershipType
  p_accountId :: string
  p_isEligibleClientProduct :: string
  p_primaryAccountHashSRF :: "string nullable"

record IOptInFileOffer =
  oi_tsysCustomerId :: string
  oi_tsysAccountId :: string
  oi_offers :: "string list"

record IUser =
  u_id :: string
  u_linkedOfferIds :: "string list"
  u_targetedOfferIds :: "string list"
  u_optInFileOffers :: "IOptInFileOffer list"
  u_isEnrolled :: bool
  u_isBlacklisted :: bool
  u_creditCardProducts :: "user_product list"
  u_debitCardProducts :: "user_product list"

record IUserLedger =
  ul_userId :: string
  ul_updateTimestamp :: date
  ul_targetedOffers :: "string list option"   \<comment> \<open>none: \<open>undefined\<close>\<close>
  ul_linkedOffers :: "string list option"
  ul_isEnrolledToMyOffers :: "bool option"

section \<open>Transactions and rebates\<close>

text \<open>The identifier of a transaction is \<open>None\<close> until the database has assigned one.\<close>

record ITransactionForRebateCriteria =
  tx_id :: "nat option"
  tx_transactionId :: string
  tx_accountId :: string
  tx_userId :: string
  tx_rebateCriteriaId :: string
  tx_rebateId :: "string option"
  tx_amount :: string
  tx_processedAt :: "date option"
  tx_transactionType :: TransactionType
  tx_status :: TransactionStatus
  tx_card :: string
  tx_basePoints :: int
  tx_cardType :: CardType
  tx_transactionDate :: date
  tx_transactionCurrency :: string
  tx_transactionPostalCode :: "string option"
  tx_productCodeExternal :: string
  tx_isManual :: bool
  tx_tsysCustomerId :: string
  tx_refundReportCreated :: bool
  tx_processorId :: "nat option"

record IRebate =
  rb_id :: string
  rb_userId :: string
  rb_rebateCriteriaId :: string
  rb_accountId :: string
  rb_accountTransactionId :: string
  rb_fulfilledTransactionId :: "string option"
  rb_fulfilledDate :: "date option"
  rb_fulfilledAmount :: "string option"
  rb_amount :: string
  rb_rewardType :: RewardType
  rb_issuedAt :: date
  rb_status :: TransactionStatus
  rb_deliveredAt :: "date option"
  rb_dispatchedAt :: date
  rb_card :: string
  rb_cardType :: CardType
  rb_lastMopSync :: "date option"
  rb_qualifyingTransaction :: ITransactionForRebateCriteria
  rb_fulfillmentTransaction :: "ITransactionForRebateCriteria option"

section \<open>Transfers and Salesforce data\<close>

record ITransferDetails =
  td_id :: "nat option"
  td_startedAt :: date
  td_finishedAt :: "date option"
  td_status :: TransferStatus
  td_numberOfItems :: "nat option"

record IOffer =
  of_isDeleted :: bool
  of_name :: string
  of_offerId :: string
  of_runningRedemptionAmount :: "rat option"
  of_runningRedemptionCount :: "nat option"
  of_sfId :: string
  of_id :: string

record IProduct =
  pr_isDeleted :: bool
  pr_id :: nat
  pr_productCode :: string
  pr_productCodeExternal :: string
  pr_sfId :: string

section \<open>Reports\<close>

record IRebateJournalReport =
  rj_UCINExternalId :: "string option"
  rj_basePoints :: int
  rj_ccCreditAmount :: js_number
  rj_clientId :: string
  rj_currency :: string
  rj_fulfilledDate :: "date option"
  rj_fulfilledWmResults :: "rat option"
  rj_id :: "nat option"
  rj_instructionSentDate :: "date option"
  rj_maskedClientAccount :: string
  rj_merchantId :: string
  rj_offerId :: js_number
  rj_pbaCreditAmount :: js_number
  rj_product :: string
  rj_qualifyingTransactionDate :: "date option"
  rj_qualifyingTransactionValue :: js_number
  rj_rebateStatus :: TransactionStatus
  rj_rebateTransactionId :: string
  rj_rebateType :: RewardType
  rj_transactionType :: CardType
  rj_rebateDollars :: js_number
  rj_rebatePoints :: js_number

record IRefundReport =
  rf_clientAccountNumber :: string
  rf_clientHashSRF :: string
  rf_id :: "nat option"
  rf_merchantId :: string
  rf_offerId :: js_number
  rf_transactionAmount :: js_number
  rf_transactionDate :: date
  rf_transactionType :: TransactionType

record IUnfulfilledRebateReport =
  uf_currency :: string
  uf_id :: "nat option"
  uf_instructionSentDate :: "date option"
  uf_maskedClientAccount :: string
  uf_merchantId :: js_number
  uf_offerId :: string
  uf_qualifyingTransactionDate :: date
  uf_qualifyingTransactionValue :: js_number
  uf_rebateStatus :: TransactionStatus
  uf_rebateTransactionId :: string
  uf_rebateType :: RewardType
  uf_transactionType :: CardType
  uf_unfulfilledDays :: "int option"
  uf_rebate :: js_number

text \<open>The payload of a rebate event and a line of the rebate export.\<close>

record IRebatePayload =
  pl_id :: string
  pl_userId :: string
  pl_accountId :: string
  pl_offerId :: string
  pl_amount :: string
  pl_rewardType :: RewardType
  pl_fulfilledAt :: "date option"
  pl_issuedAt :: date
  pl_qualifiedTransactionId :: string
  pl_fulfilledTransactionId :: "string option"
  pl_status :: TransactionStatus
  pl_qualifyingTransaction :: ITransactionForRebateCriteria
  pl_fulfillmentTransaction :: "ITransactionForRebateCriteria option"

record IRebateExport =
  ex_id :: string
  ex_client_id :: string
  ex_offer_id :: string
  ex_card :: string
  ex_wmresult_id :: "nat option"
  ex_status :: TransactionStatus
  ex_qualified_on :: string
  ex_qualified_trans_id :: string
  ex_rebate :: string
  ex_rebate_type :: nat
  ex_fulfilled_on :: "string option"
  ex_fulfilled_trans_id :: "string option"
  ex_fulfilled_rebate :: "string option"
  ex_fulfilled_wmresult_id :: "nat option"
  ex_instruction_sent_date :: "string option"
  ex_card_type :: "nat option"
  ex_account_id :: string

end
