(* ===== verification/Schema.thy ===== *)
theory Schema
  imports Domain
begin

text \<open>
  The rows of the database tables (\<open>app/database/records\<close>, \<open>salesforce_records\<close>, \<open>history_records\<close>) and
  the state of the whole system: the tables of the three connections, the events accepted by the Kafka
  publisher, the files of the temporary directory and those put on the SFTP server (an export file is the
  list of its lines).
\<close>

section \<open>Rows of the main database\<close>

record UserRecord =
  ur_id :: string
  ur_linked_offer_ids :: "string list"
  ur_targeted_offer_ids :: "string list"
  ur_opt_in_file_offers :: "IOptInFileOffer list"
  ur_is_enrolled :: bool
  ur_is_blacklisted :: bool
  ur_credit_card_products :: "user_product list"
  ur_debit_card_products :: "user_product list"

text \<open>The object in the \<open>data\<close> column of \<open>rebate_criteria\<close>.\<close>

record criteria_data =
  cd_isRedeemable :: bool
  cd_refundPeriodInDays :: int
  cd_rewardCalculation :: IRewardCalculation
  cd_validFromDate :: date
  cd_validToDate :: date
  cd_merchantId :: string
  cd_hasBeenActivated :: bool
  cd_requiresCustomerToBeLinked :: bool
  cd_requiresCustomerToBeTargeted :: bool
  cd_redemptionPeriodInDays :: int
  cd_redemptionBasedOn :: OfferType

record RebateCriteriaRecord =
  cr_id :: string
  cr_data :: criteria_data
  cr_description_for_testing :: "string option"
  cr_redemption_limit :: int
  cr_redemption_limit_type :: "RedemptionLimitType nullable"
  cr_eligible_products :: "products nullable"

record TransactionForRebateCriteriaRecord =
  tr_id :: "nat option"
  tr_transaction_id :: string
  tr_account_id :: string
  tr_user_id :: string
  tr_rebate_criteria_id :: string
  tr_rebate_id :: "string option"
  tr_amount :: string
  tr_processed_at :: "date option"
  tr_processor_id :: "nat option"
  tr_transaction_type :: TransactionType
  tr_status :: TransactionStatus
  tr_card :: string
  tr_base_points :: int
  tr_card_type :: CardType
  tr_transaction_date :: date
  tr_transaction_currency :: string
  tr_transaction_postal_code :: "string option"
  tr_product_code_external :: string
  tr_is_manual :: bool
  tr_tsys_customer_id :: string
  tr_refund_report_created :: bool

record RebateRecord =
  rr_id :: "nat option"
  rr_user_id :: string
  rr_rebate_criteria_id :: string
  rr_account_id :: string
  rr_account_transaction_id :: string
  rr_fulfilled_transaction_id :: "string option"
  rr_fulfilled_date :: "date option"
  rr_fulfilled_amount :: "string option"
  rr_amount :: string
  rr_reward_type :: RewardType
  rr_issued_at :: date
  rr_status :: TransactionStatus
  rr_delivered_at :: "date option"
  rr_dispatched_at :: date
  rr_card :: string
  rr_card_type :: CardType
  rr_last_mop_sync :: "date option"
  rr_qualifying_transaction :: ITransactionForRebateCriteria
  rr_fulfillment_transaction :: "ITransactionForRebateCriteria option"

record ExportDetailsRecord =
  ed_id :: "nat option"
  ed_started_at :: date
  ed_finished_at :: "date option"
  ed_status :: TransferStatus
  ed_number_of_items :: "nat option"

record TransactionImportDetailsRecord =
  id_id :: "nat option"
  id_started_at :: date
  id_finished_at :: "date option"
  id_status :: TransferStatus
  id_number_of_items :: "nat option"

section \<open>Rows of the history database\<close>

text \<open>The object in the \<open>user_info\<close> column, which may lack the lists.\<close>

record user_info =
  ui_targeted_offers :: "string list option"
  ui_linked_offers :: "string list option"
  ui_is_enrolled :: "bool option"             \<comment> \<open>missing in the states the database adds itself\<close>

record UserLedgerRecord =
  lr_user_id :: string
  lr_update_timestamp :: date
  lr_user_info :: user_info

section \<open>Rows of the Salesforce database\<close>

record OfferRecord =
  or_id :: js_number
  or_offer_id__c :: string
  or_isdeleted :: bool
  or_name :: string
  or_running_redemption_amount_v3__c :: "rat option"
  or_running_redemption_count__c :: "nat option"
  or_sfid :: string

record ProductRecord =
  prr_id :: nat
  prr_product_code_external__c :: string
  prr_product_code__c :: string
  prr_sfid :: string
  prr_isdeleted :: bool

record RebateJournalRecord =
  jr_id :: "nat option"
  jr_ucin_external_id__c :: "string option"
  jr_base_points__c :: int
  jr_cc_credit_amount__c :: js_number
  jr_client_id__c :: string
  jr_currency__c :: string
  jr_fulfilled_date__c :: "date option"
  jr_fullfilled_wmresults__c :: "rat option"
  jr_instruction_sent_date__c :: "date option"
  jr_masked_client_account__c :: string
  jr_merchant_id__c :: string
  jr_offer_id__c :: js_number
  jr_pba_credit_amount__c :: js_number
  jr_product__c :: string
  jr_qualifying_transaction_date__c :: "date option"
  jr_qualifying_transaction_value__c :: js_number
  jr_rebate_status_v3__c :: TransactionStatus
  jr_rebate_transaction_id__c :: string
  jr_rebate_dollars__c :: js_number
  jr_rebate_points__c :: js_number
  jr_rebate_type__c :: RewardType
  jr_transaction_type__c :: CardType

record RefundRecord =
  fr_id :: "nat option"
  fr_client_account_number__c :: string
  fr_client_hash_srf__c :: string
  fr_merchant_id__c :: string
  fr_offerid__c :: js_number
  fr_transactionamount__c :: js_number
  fr_transaction_date__c :: date
  fr_transaction_type__c :: TransactionType

record UnfulfilledRebateRecord =
  nr_id :: "nat option"
  nr_currency__c :: string
  nr_instruction_sent_date__c :: "date option"
  nr_masked_client_account__c :: string
  nr_merchant_id__c :: js_number
  nr_offer_id__c :: js_number
  nr_qualifying_transaction_date__c :: date
  nr_qualifying_transaction_value__c :: js_number
  nr_rebate_status_v3__c :: TransactionStatus
  nr_rebate_transaction_id__c :: string
  nr_rebate_type__c :: RewardType
  nr_transaction_type__c :: CardType
  nr_unfulfilled_days__c :: "int option"
  nr_rebate__c :: js_number

section \<open>The state\<close>

record db =
  users :: "UserRecord list"
  rebate_criteria :: "RebateCriteriaRecord list"
  transactions :: "TransactionForRebateCriteriaRecord list"
  rebates :: "RebateRecord list"
  export_details :: "ExportDetailsRecord list"
  import_details :: "TransactionImportDetailsRecord list"
  userledger :: "UserLedgerRecord list"
  offers :: "OfferRecord list"
  products_sf :: "ProductRecord list"
  rebate_journal :: "RebateJournalRecord list"
  refund_reports :: "RefundRecord list"
  unfulfilled_reports :: "UnfulfilledRebateRecord list"
  published :: "IRebatePayload list"
  local_csv :: "string \<Rightarrow> IRebateExport list option"
  local_zip :: "string \<Rightarrow> IRebateExport list option"
  uploaded :: "(string \<times> IRebateExport list) list"

text \<open>
  \<open>calls\<close> counts the requests sent to the outside so far.  A library is given this number with every
  request, so that the same request can succeed once and fail another time, and the clock is read at it.
\<close>

record world =
  calls :: nat
  store :: db

type_synonym 'a action = "(world, 'a) io"

end
