(* ===== verification/Externals.thy ===== *)
theory Externals
  imports Schema
begin

text \<open>
  The code outside the repository, as parameters of the model: the object-relational mapper and its
  database (one \<open>orm\<close> per table), the decimal library, the date library, the clock, the hash function of
  the database, the Kafka producer, the file and SFTP libraries.  They are collected in the record
  \<open>ext\<close>, the argument \<open>L\<close> of every operation that uses them.

  What the program relies on is stated by the predicates of the second half (\<open>orm_reads\<close>,
  \<open>orm_updates\<close>, \<open>orm_saves_serial\<close>, \<open>orm_saves_natural\<close>, \<open>orm_merges\<close>, \<open>big_laws\<close>, \<open>date_laws\<close>): documented
  behaviour, no more.  A request may fail; \<open>reliable_orm\<close> says of a table that its requests do not.
  The first argument of every request is the number of the request, so failures and the answers' order
  may differ from one request to the next.
\<close>

section \<open>The parameters\<close>

record 'r orm =
  orm_findOne :: "nat \<Rightarrow> string \<Rightarrow> 'r list \<Rightarrow> exn + 'r option"
  orm_find :: "nat \<Rightarrow> ('r \<Rightarrow> bool) \<Rightarrow> 'r list \<Rightarrow> exn + 'r list"
  orm_find_by :: "nat \<Rightarrow> ('r \<Rightarrow> bool) \<Rightarrow> ('r \<Rightarrow> int) \<Rightarrow> 'r list \<Rightarrow> exn + 'r list"
  orm_count :: "nat \<Rightarrow> ('r \<Rightarrow> bool) \<Rightarrow> 'r list \<Rightarrow> exn + nat"
  orm_count_rows :: "nat \<Rightarrow> ('r \<Rightarrow> bool) \<Rightarrow> 'r list \<Rightarrow> exn + string nullable list"
  orm_save :: "nat \<Rightarrow> 'r \<Rightarrow> 'r list \<Rightarrow> exn + 'r \<times> 'r list"
  orm_update :: "nat \<Rightarrow> ('r \<Rightarrow> bool) \<Rightarrow> ('r \<Rightarrow> 'r) \<Rightarrow> 'r list \<Rightarrow> exn + 'r list \<times> 'r list"
  orm_update_id :: "nat \<Rightarrow> string \<Rightarrow> ('r \<Rightarrow> 'r) \<Rightarrow> 'r list \<Rightarrow> exn + 'r list \<times> 'r list"
  orm_delete :: "nat \<Rightarrow> ('r \<Rightarrow> bool) \<Rightarrow> 'r list \<Rightarrow> exn + 'r list"

record ext =
  users_orm :: "UserRecord orm"
  rebate_criteria_orm :: "RebateCriteriaRecord orm"
  transactions_orm :: "TransactionForRebateCriteriaRecord orm"
  rebates_orm :: "RebateRecord orm"
  export_details_orm :: "ExportDetailsRecord orm"
  import_details_orm :: "TransactionImportDetailsRecord orm"
  userledger_orm :: "UserLedgerRecord orm"
  offers_orm :: "OfferRecord orm"
  products_orm :: "ProductRecord orm"
  rebate_journal_orm :: "RebateJournalRecord orm"
  refund_reports_orm :: "RefundRecord orm"
  unfulfilled_reports_orm :: "UnfulfilledRebateRecord orm"
  clock :: "nat \<Rightarrow> date"                      \<comment> \<open>\<open>new Date()\<close>\<close>
  md5 :: "string \<Rightarrow> string"                   \<comment> \<open>in hexadecimal\<close>
  sql_sum :: "nat \<Rightarrow> (RebateRecord \<Rightarrow> bool) \<Rightarrow> RebateRecord list \<Rightarrow> exn + string option list"
  numeric18_2 :: "string \<Rightarrow> string"           \<comment> \<open>what a \<open>decimal(18, 2)\<close> column keeps of a text\<close>
  numeric18_2_in :: "string \<Rightarrow> bool"          \<comment> \<open>the texts such a column takes\<close>
  text_in :: "string \<Rightarrow> bool"                 \<comment> \<open>the texts a \<open>text\<close> column takes\<close>
  timestamptz_in :: "date \<Rightarrow> bool"            \<comment> \<open>the times a \<open>timestamptz\<close> column takes\<close>
  sql_numeric :: "string \<Rightarrow> rat"             \<comment> \<open>a literal of a statement\<close>
  double_plus :: "rat \<Rightarrow> rat \<Rightarrow> rat"         \<comment> \<open>the sum of two double precision numbers\<close>
  big_new :: "string \<Rightarrow> exn + rat"            \<comment> \<open>\<open>new Big(s)\<close>\<close>
  big_of_number :: "int \<Rightarrow> exn + rat"         \<comment> \<open>\<open>new Big(n)\<close>\<close>
  big_times :: "rat \<Rightarrow> rat \<Rightarrow> rat"
  big_round0 :: "rat \<Rightarrow> rat"                  \<comment> \<open>\<open>x.round(0, RoundHalfUp)\<close>\<close>
  big_toFixed2 :: "rat \<Rightarrow> string"             \<comment> \<open>\<open>x.toFixed(2)\<close>\<close>
  big_toString :: "rat \<Rightarrow> string"
  show_fraction :: "rat \<Rightarrow> string"            \<comment> \<open>a number with a fraction, \<open>x.toString()\<close>\<close>
  range_contains :: "date \<Rightarrow> date \<Rightarrow> date \<Rightarrow> bool"
  add_days :: "date \<Rightarrow> int \<Rightarrow> date"
  end_of_day :: "date \<Rightarrow> date"                \<comment> \<open>the last second of the day\<close>
  format_date :: "string \<Rightarrow> date \<Rightarrow> string"
  kafka_connect :: "nat \<Rightarrow> exn + unit"        \<comment> \<open>\<open>buildPublisher\<close>\<close>
  kafka_accepts :: "nat \<Rightarrow> IRebatePayload \<Rightarrow> bool"
  tmpdir :: string
  jsonexport :: "nat \<Rightarrow> IRebateExport list \<Rightarrow> exn + unit"
                                            \<comment> \<open>whether the callback gets a text or an error\<close>
  csv_write :: "nat \<Rightarrow> string \<Rightarrow> exn + unit"       \<comment> \<open>\<open>writeFileSync\<close>\<close>
  zip_write :: "nat \<Rightarrow> string \<Rightarrow> IRebateExport list option \<Rightarrow> exn + IRebateExport list"
                                            \<comment> \<open>the archive of the source file, if there is one\<close>
  sftp_connect :: "nat \<Rightarrow> exn + unit"
  sftp_end :: "nat \<Rightarrow> exn + unit"
  sftp_list :: "nat \<Rightarrow> string \<Rightarrow> exn + string list"     \<comment> \<open>the names in a remote directory\<close>
  sftp_put :: "nat \<Rightarrow> IRebateExport list option \<Rightarrow> string \<Rightarrow> exn + IRebateExport list"
                                            \<comment> \<open>what the remote file holds afterwards\<close>

text \<open>A Big value is the rational number it denotes.\<close>

section \<open>Requests\<close>

text \<open>A request takes the next number, whether it fails or not.\<close>

definition tick :: "world \<Rightarrow> world" where
  "tick w = w\<lparr>calls := Suc (calls w)\<rparr>"

definition request :: "(nat \<Rightarrow> exn + 'a) \<Rightarrow> 'a action" where
  "request q = (\<lambda>w. (q (calls w), tick w))"

definition now :: "ext \<Rightarrow> date action" where
  "now L = (\<lambda>w. (Inr (clock L (calls w)), tick w))"

lemma store_tick [simp]: "store (tick w) = store w"
  by (simp add: tick_def)

lemma calls_tick [simp]: "calls (tick w) = Suc (calls w)"
  by (simp add: tick_def)

lemma tick_store_update [simp]: "tick (w\<lparr>store := d\<rparr>) = (tick w)\<lparr>store := d\<rparr>"
  by (simp add: tick_def)

lemma request_apply [io_simps]: "request q w = (q (calls w), tick w)"
  by (simp add: request_def)

lemma now_apply [io_simps]: "now L w = (Inr (clock L (calls w)), tick w)"
  by (simp add: now_def)

lemma frames_request [io_frame, intro]: "frames store (request q)"
  by (simp add: frames_def request_def)

lemma frames_now [io_frame, intro]: "frames store (now L)"
  by (simp add: frames_def now_def)

section \<open>What is documented of the mapper and the database\<close>

text \<open>
  \<open>matches id r\<close>: \<open>id\<close> is the text of the row's primary key.  \<open>coerce\<close>: what the column types make of a
  row that is written (a \<open>numeric(18,2)\<close> column has two decimals).
\<close>

definition orm_reads :: "(string \<Rightarrow> 'r \<Rightarrow> bool) \<Rightarrow> 'r orm \<Rightarrow> bool" where
  "orm_reads matches D \<longleftrightarrow>
     (\<forall>n id rs r. orm_findOne D n id rs = Inr (Some r) \<longrightarrow> r \<in> set rs \<and> matches id r) \<and>
     (\<forall>n id rs. orm_findOne D n id rs = Inr None \<longrightarrow> (\<forall>r\<in>set rs. \<not> matches id r)) \<and>
     (\<forall>n p rs xs. orm_find D n p rs = Inr xs \<longrightarrow> mset xs = mset (filter p rs)) \<and>
     (\<forall>n p f rs xs. orm_find_by D n p f rs = Inr xs \<longrightarrow> mset xs = mset (filter p rs) \<and> sorted (map f xs)) \<and>
     (\<forall>n p rs k. orm_count D n p rs = Inr k \<longrightarrow> k = length (filter p rs)) \<and>
     (\<forall>n p rs xs. orm_count_rows D n p rs = Inr xs \<longrightarrow> xs = [Value (show_nat (length (filter p rs)))])"

text \<open>An update returns the rows it wrote, as they are now.\<close>

definition orm_updates :: "(string \<Rightarrow> 'r \<Rightarrow> bool) \<Rightarrow> ('r \<Rightarrow> 'r) \<Rightarrow> 'r orm \<Rightarrow> bool" where
  "orm_updates matches coerce D \<longleftrightarrow>
     (\<forall>n p f rs us rs'. orm_update D n p f rs = Inr (us, rs') \<longrightarrow>
        mset rs' = mset (map (\<lambda>r. if p r then coerce (f r) else r) rs) \<and>
        mset us = mset (map (\<lambda>r. coerce (f r)) (filter p rs))) \<and>
     (\<forall>n id f rs us rs'. orm_update_id D n id f rs = Inr (us, rs') \<longrightarrow>
        mset rs' = mset (map (\<lambda>r. if matches id r then coerce (f r) else r) rs)) \<and>
     (\<forall>n p rs rs'. orm_delete D n p rs = Inr rs' \<longrightarrow> mset rs' = mset (filter (\<lambda>r. \<not> p r) rs))"

text \<open>
  A save of a row without an identifier, in a table that numbers its rows: the row returned is the one
  given, with a number no row has.
\<close>

definition orm_saves_serial ::
  "('r \<Rightarrow> nat option) \<Rightarrow> (nat \<Rightarrow> 'r \<Rightarrow> 'r) \<Rightarrow> ('r \<Rightarrow> 'r) \<Rightarrow> 'r orm \<Rightarrow> bool" where
  "orm_saves_serial key with_key coerce D \<longleftrightarrow>
     (\<forall>n r rs r' rs'. key r = None \<longrightarrow> orm_save D n r rs = Inr (r', rs') \<longrightarrow>
        (\<exists>k. r' = with_key k r \<and> (\<forall>x\<in>set rs. key x \<noteq> Some k) \<and>
             mset rs' = add_mset (coerce r') (mset rs)))"

text \<open>A save in a table whose rows come with their key: the row replaces the one with its key.\<close>

definition orm_saves_natural :: "('r \<Rightarrow> 'k) \<Rightarrow> 'r orm \<Rightarrow> bool" where
  "orm_saves_natural key D \<longleftrightarrow>
     (\<forall>n r rs r' rs'. orm_save D n r rs = Inr (r', rs') \<longrightarrow>
        r' = r \<and> mset rs' = add_mset r (mset (filter (\<lambda>x. key x \<noteq> key r) rs)))"

text \<open>
  A save leaves out the columns of the row that are \<open>undefined\<close>: \<open>fill\<close> says what they hold afterwards, given the
  row that was there before, if there was one.  The object that is returned is the one given.
\<close>

definition row_before :: "('r \<Rightarrow> 'k) \<Rightarrow> 'r \<Rightarrow> 'r list \<Rightarrow> 'r option" where
  "row_before key r rs = List.find (\<lambda>x. key x = key r) rs"

definition orm_merges :: "('r \<Rightarrow> 'k) \<Rightarrow> ('r option \<Rightarrow> 'r \<Rightarrow> 'r) \<Rightarrow> 'r orm \<Rightarrow> bool" where
  "orm_merges key fill D \<longleftrightarrow>
     (\<forall>n r rs r' rs'. orm_save D n r rs = Inr (r', rs') \<longrightarrow>
        r' = r \<and> mset rs' = add_mset (fill (row_before key r rs) r) (mset (filter (\<lambda>x. key x \<noteq> key r) rs)))"

text \<open>A row whose values the columns do not take is refused.\<close>

definition orm_checks :: "('r \<Rightarrow> bool) \<Rightarrow> 'r orm \<Rightarrow> bool" where
  "orm_checks accepts D \<longleftrightarrow> (\<forall>n r rs x. orm_save D n r rs = Inr x \<longrightarrow> accepts r)"

lemma natural_merges: "orm_saves_natural key D \<longleftrightarrow> orm_merges key (\<lambda>_ r. r) D"
  by (simp add: orm_saves_natural_def orm_merges_def)

lemma orm_findOne_Some:
  "orm_reads matches D \<Longrightarrow> orm_findOne D n i rs = Inr (Some r) \<Longrightarrow> r \<in> set rs \<and> matches i r"
  by (simp add: orm_reads_def)

lemma orm_findOne_None:
  "orm_reads matches D \<Longrightarrow> orm_findOne D n i rs = Inr None \<Longrightarrow> q \<in> set rs \<Longrightarrow> \<not> matches i q"
  by (simp add: orm_reads_def)

lemma orm_find_mset:
  "orm_reads matches D \<Longrightarrow> orm_find D n p rs = Inr xs \<Longrightarrow> mset xs = mset (filter p rs)"
  by (simp add: orm_reads_def)

lemma orm_find_by_mset:
  "orm_reads matches D \<Longrightarrow> orm_find_by D n p f rs = Inr xs \<Longrightarrow> mset xs = mset (filter p rs)"
  by (simp add: orm_reads_def)

lemma orm_find_by_sorted:
  "orm_reads matches D \<Longrightarrow> orm_find_by D n p f rs = Inr xs \<Longrightarrow> sorted (map f xs)"
  by (simp add: orm_reads_def)

lemma orm_count_length:
  "orm_reads matches D \<Longrightarrow> orm_count D n p rs = Inr k \<Longrightarrow> k = length (filter p rs)"
  by (simp add: orm_reads_def)

lemma orm_count_rows_text:
  "orm_reads matches D \<Longrightarrow> orm_count_rows D n p rs = Inr xs \<Longrightarrow>
    xs = [Value (show_nat (length (filter p rs)))]"
  by (simp add: orm_reads_def)

lemma orm_update_rows:
  "orm_updates matches coerce D \<Longrightarrow> orm_update D n p f rs = Inr (us, rs') \<Longrightarrow>
    mset rs' = mset (map (\<lambda>r. if p r then coerce (f r) else r) rs)"
  by (simp add: orm_updates_def)

lemma orm_update_written:
  "orm_updates matches coerce D \<Longrightarrow> orm_update D n p f rs = Inr (us, rs') \<Longrightarrow>
    mset us = mset (map (\<lambda>r. coerce (f r)) (filter p rs))"
  by (simp add: orm_updates_def)

lemma orm_update_id_rows:
  "orm_updates matches coerce D \<Longrightarrow> orm_update_id D n i f rs = Inr (us, rs') \<Longrightarrow>
    mset rs' = mset (map (\<lambda>r. if matches i r then coerce (f r) else r) rs)"
  by (simp add: orm_updates_def)

lemma orm_delete_rows:
  "orm_updates matches coerce D \<Longrightarrow> orm_delete D n p rs = Inr rs' \<Longrightarrow>
    mset rs' = mset (filter (\<lambda>r. \<not> p r) rs)"
  by (simp add: orm_updates_def)

lemma orm_save_serial:
  assumes "orm_saves_serial key with_key coerce D" and "key r = None" and "orm_save D n r rs = Inr (r', rs')"
  obtains k where "r' = with_key k r" and "\<forall>x\<in>set rs. key x \<noteq> Some k"
    and "mset rs' = add_mset (coerce r') (mset rs)"
  using assms unfolding orm_saves_serial_def by blast

text \<open>
  No request fails; \<open>valid\<close> says which texts the key column's type can read, \<open>accepts\<close> which new rows the columns take.
\<close>

definition reliable_orm :: "(string \<Rightarrow> bool) \<Rightarrow> ('r \<Rightarrow> bool) \<Rightarrow> 'r orm \<Rightarrow> bool" where
  "reliable_orm valid accepts D \<longleftrightarrow>
     (\<forall>n id rs. valid id \<longrightarrow> (\<exists>x. orm_findOne D n id rs = Inr x)) \<and>
     (\<forall>n p rs. \<exists>x. orm_find D n p rs = Inr x) \<and>
     (\<forall>n p f rs. \<exists>x. orm_find_by D n p f rs = Inr x) \<and>
     (\<forall>n p rs. \<exists>x. orm_count D n p rs = Inr x) \<and>
     (\<forall>n p rs. \<exists>x. orm_count_rows D n p rs = Inr x) \<and>
     (\<forall>n r rs. accepts r \<longrightarrow> (\<exists>x. orm_save D n r rs = Inr x)) \<and>
     (\<forall>n p f rs. \<exists>x. orm_update D n p f rs = Inr x) \<and>
     (\<forall>n id f rs. valid id \<longrightarrow> (\<exists>x. orm_update_id D n id f rs = Inr x)) \<and>
     (\<forall>n p rs. \<exists>x. orm_delete D n p rs = Inr x)"

lemma reliable_findOne: "reliable_orm v a D \<Longrightarrow> v i \<Longrightarrow> \<exists>x. orm_findOne D n i rs = Inr x"
  by (simp add: reliable_orm_def)

lemma reliable_find: "reliable_orm v a D \<Longrightarrow> \<exists>xs. orm_find D n p rs = Inr xs"
  by (simp add: reliable_orm_def)

lemma reliable_find_by: "reliable_orm v a D \<Longrightarrow> \<exists>xs. orm_find_by D n p f rs = Inr xs"
  by (simp add: reliable_orm_def)

lemma reliable_count: "reliable_orm v a D \<Longrightarrow> \<exists>k. orm_count D n p rs = Inr k"
  by (simp add: reliable_orm_def)

lemma reliable_count_rows: "reliable_orm v a D \<Longrightarrow> \<exists>xs. orm_count_rows D n p rs = Inr xs"
  by (simp add: reliable_orm_def)

lemma reliable_save: "reliable_orm v a D \<Longrightarrow> a r \<Longrightarrow> \<exists>r' rs'. orm_save D n r rs = Inr (r', rs')"
  unfolding reliable_orm_def by (metis surj_pair)

lemma reliable_update: "reliable_orm v a D \<Longrightarrow> \<exists>us rs'. orm_update D n p f rs = Inr (us, rs')"
  unfolding reliable_orm_def by (metis surj_pair)

lemma reliable_update_id: "reliable_orm v a D \<Longrightarrow> v i \<Longrightarrow> \<exists>us rs'. orm_update_id D n i f rs = Inr (us, rs')"
  unfolding reliable_orm_def by (metis surj_pair)

text \<open>
  The text of a row number, as the database reads it: digits, in any amount of leading zeros, after a sign and
  between white space, if any.
\<close>

definition int_key :: "string \<Rightarrow> nat option" where
  "int_key s =
     (case split_sign (trim s) of (sign, ds) \<Rightarrow>
        if sign = 1 \<and> ds \<noteq> [] \<and> list_all is_digit ds then Some (nat_of_digits ds) else None)"

lemma int_key_show_nat [simp]: "int_key (show_nat n) = Some n"
  by (simp add: int_key_def list_all_iff show_nat_digits)

lemma int_key_empty [simp]: "int_key [] = None"
  by (simp add: int_key_def trim_def trim_start_def)

definition serial_matches :: "('r \<Rightarrow> nat option) \<Rightarrow> string \<Rightarrow> 'r \<Rightarrow> bool" where
  "serial_matches key i r \<longleftrightarrow> int_key i \<noteq> None \<and> key r = int_key i"

lemma serial_matches_show_nat [simp]: "serial_matches key (show_nat n) r \<longleftrightarrow> key r = Some n"
  by (simp add: serial_matches_def)

section \<open>What is documented of the decimal library\<close>

definition round_half_up :: "nat \<Rightarrow> rat \<Rightarrow> rat" where
  "round_half_up d q =
     (let s = 10 ^ d in if 0 \<le> q then of_int \<lfloor>q * s + 1/2\<rfloor> / s else - (of_int \<lfloor>- q * s + 1/2\<rfloor> / s))"

definition is_decimal :: "rat \<Rightarrow> bool" where
  "is_decimal q \<longleftrightarrow> (\<exists>d::nat. of_int \<lfloor>q * 10 ^ d\<rfloor> = q * 10 ^ d)"

text \<open>
  The constructor reads a decimal literal; \<open>toFixed\<close> and \<open>toString\<close> print one that it reads back.
\<close>

definition big_laws :: "ext \<Rightarrow> bool" where
  "big_laws L \<longleftrightarrow>
     (\<forall>n. big_of_number L n = Inr (of_int n)) \<and>
     (\<forall>x y. big_times L x y = x * y) \<and>
     (\<forall>x. big_round0 L x = round_half_up 0 x) \<and>
     (\<forall>x. is_decimal x \<longrightarrow> big_new L (big_toFixed2 L x) = Inr (round_half_up 2 x)) \<and>
     (\<forall>x. is_decimal x \<longrightarrow> big_new L (big_toString L x) = Inr x) \<and>
     (\<forall>s x. big_new L s = Inr x \<longrightarrow> is_decimal x \<and> decimal_prefix s = Some (x, []))"

text \<open>
  \<open>SUM\<close> of a column is the text of the sum of the values that are not null, and null when there is none.
\<close>

definition sum_values :: "ext \<Rightarrow> string list \<Rightarrow> rat" where
  "sum_values L ss = sum_list (map (\<lambda>s. case big_new L s of Inr x \<Rightarrow> x | Inl _ \<Rightarrow> 0) ss)"

definition fulfilled_amounts :: "RebateRecord list \<Rightarrow> string list" where
  "fulfilled_amounts rs = List.map_filter rr_fulfilled_amount rs"

definition sql_laws :: "ext \<Rightarrow> bool" where
  "sql_laws L \<longleftrightarrow>
     (\<forall>n p rs xs. sql_sum L n p rs = Inr xs \<longrightarrow>
        (\<exists>s. xs = [s] \<and>
          (s = None \<longleftrightarrow> fulfilled_amounts (filter p rs) = []) \<and>
          (\<forall>t. s = Some t \<longrightarrow> big_new L t = Inr (sum_values L (fulfilled_amounts (filter p rs)))))) \<and>
     (\<forall>x. is_decimal x \<longrightarrow> sql_numeric L (big_toFixed2 L x) = round_half_up 2 x) \<and>
     sql_numeric L ''0.00'' = 0 \<and> (\<forall>x. double_plus L x 0 = x)"

section \<open>What is documented of the file and SFTP libraries\<close>

text \<open>An archive, and a remote file, holds what its source holds; a source that is missing raises.\<close>

definition file_laws :: "ext \<Rightarrow> bool" where
  "file_laws L \<longleftrightarrow>
     (\<forall>n path source content. zip_write L n path source = Inr content \<longrightarrow> source = Some content) \<and>
     (\<forall>n path source content. sftp_put L n source path = Inr content \<longrightarrow> source = Some content)"

text \<open>No request to the file system, the SFTP server or the Kafka publisher fails.\<close>

definition reliable_files :: "ext \<Rightarrow> bool" where
  "reliable_files L \<longleftrightarrow>
     (\<forall>n rows. jsonexport L n rows = Inr ()) \<and> (\<forall>n path. csv_write L n path = Inr ()) \<and>
     (\<forall>n path content. zip_write L n path (Some content) = Inr content) \<and>
     (\<forall>n. sftp_connect L n = Inr ()) \<and> (\<forall>n. sftp_end L n = Inr ()) \<and>
     (\<forall>n path content. sftp_put L n (Some content) path = Inr content) \<and>
     (\<forall>n. kafka_connect L n = Inr ()) \<and> (\<forall>n event. kafka_accepts L n event)"

section \<open>What is documented of the date library\<close>

definition date_laws :: "ext \<Rightarrow> bool" where
  "date_laws L \<longleftrightarrow>
     (\<forall>a b t. range_contains L a b t \<longleftrightarrow> a \<le> t \<and> t \<le> b) \<and>
     (\<forall>t n. add_days L t n = t + n * 86400000)"

section \<open>All of it\<close>

text \<open>What the amount columns make of a row that is written.\<close>

definition transaction_columns ::
  "ext \<Rightarrow> TransactionForRebateCriteriaRecord \<Rightarrow> TransactionForRebateCriteriaRecord" where
  "transaction_columns L r = r\<lparr>tr_amount := numeric18_2 L (tr_amount r)\<rparr>"

text \<open>
  What the columns take of a new transaction: an amount their type reads, base points of 32 bits, times in their
  range and texts they can hold.
\<close>

definition transaction_accepted :: "ext \<Rightarrow> TransactionForRebateCriteriaRecord \<Rightarrow> bool" where
  "transaction_accepted L r \<longleftrightarrow>
     numeric18_2_in L (tr_amount r) \<and> - (2 ^ 31) \<le> tr_base_points r \<and> tr_base_points r < 2 ^ 31 \<and>
     timestamptz_in L (tr_transaction_date r) \<and> pred_option (timestamptz_in L) (tr_processed_at r) \<and>
     list_all (text_in L)
       [tr_transaction_id r, tr_account_id r, tr_user_id r, tr_rebate_criteria_id r, tr_card r,
        tr_transaction_currency r, tr_product_code_external r, tr_tsys_customer_id r] \<and>
     pred_option (text_in L) (tr_rebate_id r) \<and> pred_option (text_in L) (tr_transaction_postal_code r)"

definition rebate_columns :: "ext \<Rightarrow> RebateRecord \<Rightarrow> RebateRecord" where
  "rebate_columns L r =
     r\<lparr>rr_amount := numeric18_2 L (rr_amount r),
       rr_fulfilled_amount := map_option (numeric18_2 L) (rr_fulfilled_amount r)\<rparr>"

text \<open>
  The columns of an offer that may be \<open>undefined\<close>: a new row has \<open>null\<close> there, one that is written again what it had.
\<close>

definition saved_column :: "'a nullable option \<Rightarrow> 'a nullable \<Rightarrow> 'a nullable" where
  "saved_column before x =
     (if x = Undefined then (case before of None \<Rightarrow> Null | Some y \<Rightarrow> y) else x)"

definition criteria_columns :: "RebateCriteriaRecord option \<Rightarrow> RebateCriteriaRecord \<Rightarrow> RebateCriteriaRecord" where
  "criteria_columns before r =
     r\<lparr>cr_redemption_limit_type := saved_column (map_option cr_redemption_limit_type before) (cr_redemption_limit_type r),
       cr_eligible_products := saved_column (map_option cr_eligible_products before) (cr_eligible_products r)\<rparr>"

lemma criteria_columns_simps [simp]:
  "cr_id (criteria_columns q r) = cr_id r"
  "criteria_columns (Some (criteria_columns q r)) r = criteria_columns q r"
  by (simp_all add: criteria_columns_def saved_column_def)

definition column_laws :: "ext \<Rightarrow> bool" where
  "column_laws L \<longleftrightarrow>
     (\<forall>s. numeric18_2 L (numeric18_2 L s) = numeric18_2 L s) \<and>
     (\<forall>x. is_decimal x \<longrightarrow> numeric18_2 L (big_toFixed2 L x) = big_toFixed2 L x)"

definition ext_ok :: "ext \<Rightarrow> bool" where
  "ext_ok L \<longleftrightarrow>
     orm_reads (\<lambda>i r. ur_id r = i) (users_orm L) \<and> orm_saves_natural ur_id (users_orm L) \<and>
     orm_reads (\<lambda>i r. cr_id r = i) (rebate_criteria_orm L) \<and>
     orm_merges cr_id criteria_columns (rebate_criteria_orm L) \<and>
     orm_reads (serial_matches tr_id) (transactions_orm L) \<and>
     orm_updates (serial_matches tr_id) (transaction_columns L) (transactions_orm L) \<and>
     orm_saves_serial tr_id (\<lambda>k r. r\<lparr>tr_id := Some k\<rparr>) (transaction_columns L) (transactions_orm L) \<and>
     orm_checks (transaction_accepted L) (transactions_orm L) \<and>
     orm_reads (serial_matches rr_id) (rebates_orm L) \<and>
     orm_updates (serial_matches rr_id) (rebate_columns L) (rebates_orm L) \<and>
     orm_saves_serial rr_id (\<lambda>k r. r\<lparr>rr_id := Some k\<rparr>) (rebate_columns L) (rebates_orm L) \<and>
     orm_reads (\<lambda>i r. lr_user_id r = i) (userledger_orm L) \<and>
     orm_updates (\<lambda>i r. lr_user_id r = i) (\<lambda>r. r) (userledger_orm L) \<and>
     orm_reads (serial_matches ed_id) (export_details_orm L) \<and>
     orm_updates (serial_matches ed_id) (\<lambda>r. r) (export_details_orm L) \<and>
     orm_saves_serial ed_id (\<lambda>k r. r\<lparr>ed_id := Some k\<rparr>) (\<lambda>r. r) (export_details_orm L) \<and>
     orm_reads (\<lambda>i r. or_id r = parseInt i) (offers_orm L) \<and>
     orm_updates (\<lambda>i r. or_id r = parseInt i) (\<lambda>r. r) (offers_orm L) \<and>
     orm_reads (\<lambda>i r. int_key i = Some (prr_id r)) (products_orm L) \<and>
     orm_reads (serial_matches jr_id) (rebate_journal_orm L) \<and>
     orm_updates (serial_matches jr_id) (\<lambda>r. r) (rebate_journal_orm L) \<and>
     orm_saves_serial jr_id (\<lambda>k r. r\<lparr>jr_id := Some k\<rparr>) (\<lambda>r. r) (rebate_journal_orm L) \<and>
     orm_saves_serial fr_id (\<lambda>k r. r\<lparr>fr_id := Some k\<rparr>) (\<lambda>r. r) (refund_reports_orm L) \<and>
     orm_saves_serial nr_id (\<lambda>k r. r\<lparr>nr_id := Some k\<rparr>) (\<lambda>r. r) (unfulfilled_reports_orm L) \<and>
     big_laws L \<and> date_laws L \<and> sql_laws L \<and> column_laws L"

text \<open>No request to the databases fails.\<close>

definition reliable :: "ext \<Rightarrow> bool" where
  "reliable L \<longleftrightarrow>
     reliable_orm (\<lambda>_. True) (\<lambda>_. True) (users_orm L) \<and> reliable_orm (\<lambda>_. True) (\<lambda>_. True) (rebate_criteria_orm L) \<and>
     reliable_orm (\<lambda>i. int_key i \<noteq> None) (transaction_accepted L) (transactions_orm L) \<and>
     reliable_orm (\<lambda>i. int_key i \<noteq> None) (\<lambda>_. True) (rebates_orm L) \<and>
     reliable_orm (\<lambda>_. True) (\<lambda>_. True) (userledger_orm L) \<and>
     reliable_orm (\<lambda>i. int_key i \<noteq> None) (\<lambda>_. True) (export_details_orm L) \<and>
     reliable_orm (\<lambda>_. True) (\<lambda>_. True) (offers_orm L) \<and> reliable_orm (\<lambda>_. True) (\<lambda>_. True) (products_orm L) \<and>
     reliable_orm (\<lambda>i. int_key i \<noteq> None) (\<lambda>_. True) (rebate_journal_orm L) \<and>
     reliable_orm (\<lambda>i. int_key i \<noteq> None) (\<lambda>_. True) (refund_reports_orm L) \<and>
     reliable_orm (\<lambda>i. int_key i \<noteq> None) (\<lambda>_. True) (unfulfilled_reports_orm L) \<and>
     (\<forall>n p rs. \<exists>x. sql_sum L n p rs = Inr x)"

lemma ext_ok_D:
  assumes "ext_ok L"
  shows users_reads: "orm_reads (\<lambda>i r. ur_id r = i) (users_orm L)"
    and users_saves: "orm_saves_natural ur_id (users_orm L)"
    and criteria_reads: "orm_reads (\<lambda>i r. cr_id r = i) (rebate_criteria_orm L)"
    and criteria_saves: "orm_merges cr_id criteria_columns (rebate_criteria_orm L)"
    and transactions_reads: "orm_reads (serial_matches tr_id) (transactions_orm L)"
    and transactions_updates: "orm_updates (serial_matches tr_id) (transaction_columns L) (transactions_orm L)"
    and transactions_saves:
      "orm_saves_serial tr_id (\<lambda>k r. r\<lparr>tr_id := Some k\<rparr>) (transaction_columns L) (transactions_orm L)"
    and transactions_checks: "orm_checks (transaction_accepted L) (transactions_orm L)"
    and rebates_reads: "orm_reads (serial_matches rr_id) (rebates_orm L)"
    and rebates_updates: "orm_updates (serial_matches rr_id) (rebate_columns L) (rebates_orm L)"
    and rebates_saves: "orm_saves_serial rr_id (\<lambda>k r. r\<lparr>rr_id := Some k\<rparr>) (rebate_columns L) (rebates_orm L)"
    and ledger_reads: "orm_reads (\<lambda>i r. lr_user_id r = i) (userledger_orm L)"
    and export_details_updates: "orm_updates (serial_matches ed_id) (\<lambda>r. r) (export_details_orm L)"
    and export_details_saves: "orm_saves_serial ed_id (\<lambda>k r. r\<lparr>ed_id := Some k\<rparr>) (\<lambda>r. r) (export_details_orm L)"
    and offers_updates: "orm_updates (\<lambda>i r. or_id r = parseInt i) (\<lambda>r. r) (offers_orm L)"
    and journal_reads: "orm_reads (serial_matches jr_id) (rebate_journal_orm L)"
    and journal_updates: "orm_updates (serial_matches jr_id) (\<lambda>r. r) (rebate_journal_orm L)"
    and journal_saves: "orm_saves_serial jr_id (\<lambda>k r. r\<lparr>jr_id := Some k\<rparr>) (\<lambda>r. r) (rebate_journal_orm L)"
    and refunds_saves: "orm_saves_serial fr_id (\<lambda>k r. r\<lparr>fr_id := Some k\<rparr>) (\<lambda>r. r) (refund_reports_orm L)"
    and unfulfilled_saves:
      "orm_saves_serial nr_id (\<lambda>k r. r\<lparr>nr_id := Some k\<rparr>) (\<lambda>r. r) (unfulfilled_reports_orm L)"
    and ext_big: "big_laws L"
    and ext_date: "date_laws L"
    and ext_sql: "sql_laws L"
    and ext_columns: "column_laws L"
  using assms by (simp_all only: ext_ok_def)

lemma reliable_D:
  assumes "reliable L"
  shows reliable_users: "reliable_orm (\<lambda>_. True) (\<lambda>_. True) (users_orm L)"
    and reliable_criteria: "reliable_orm (\<lambda>_. True) (\<lambda>_. True) (rebate_criteria_orm L)"
    and reliable_transactions: "reliable_orm (\<lambda>i. int_key i \<noteq> None) (transaction_accepted L) (transactions_orm L)"
    and reliable_rebates: "reliable_orm (\<lambda>i. int_key i \<noteq> None) (\<lambda>_. True) (rebates_orm L)"
    and reliable_ledger: "reliable_orm (\<lambda>_. True) (\<lambda>_. True) (userledger_orm L)"
    and reliable_export_details: "reliable_orm (\<lambda>i. int_key i \<noteq> None) (\<lambda>_. True) (export_details_orm L)"
    and reliable_offers: "reliable_orm (\<lambda>_. True) (\<lambda>_. True) (offers_orm L)"
    and reliable_products: "reliable_orm (\<lambda>_. True) (\<lambda>_. True) (products_orm L)"
    and reliable_journal: "reliable_orm (\<lambda>i. int_key i \<noteq> None) (\<lambda>_. True) (rebate_journal_orm L)"
    and reliable_refunds: "reliable_orm (\<lambda>i. int_key i \<noteq> None) (\<lambda>_. True) (refund_reports_orm L)"
    and reliable_unfulfilled: "reliable_orm (\<lambda>i. int_key i \<noteq> None) (\<lambda>_. True) (unfulfilled_reports_orm L)"
  using assms by (simp_all only: reliable_def)

end
