(* ===== verification/Decimals.thy ===== *)
theory Decimals
  imports Externals
begin

text \<open>
  Decimal numbers as the decimal library has them: which rationals they are, closure under its operations,
  and rounding half up.
\<close>

section \<open>Decimals and rounding\<close>

lemma is_decimal_altdef: "is_decimal q \<longleftrightarrow> (\<exists>d::nat. q * 10 ^ d \<in> \<int>)"
  by (metis Ints_cases Ints_of_int floor_of_int is_decimal_def)

lemma is_decimal_of_int [simp]: "is_decimal (of_int n)"
  unfolding is_decimal_altdef by (rule exI [of _ 0]) simp

lemma is_decimal_times: "is_decimal x \<Longrightarrow> is_decimal y \<Longrightarrow> is_decimal (x * y)"
  unfolding is_decimal_altdef
proof (elim exE)
  fix d e :: nat
  assume "x * 10 ^ d \<in> \<int>" and "y * 10 ^ e \<in> \<int>"
  then have "(x * 10 ^ d) * (y * 10 ^ e) \<in> \<int>" by (rule Ints_mult)
  then have "x * y * 10 ^ (d + e) \<in> \<int>" by (simp add: power_add mult_ac)
  then show "\<exists>k. x * y * 10 ^ k \<in> \<int>" by blast
qed

lemma is_decimal_add: "is_decimal x \<Longrightarrow> is_decimal y \<Longrightarrow> is_decimal (x + y)"
  unfolding is_decimal_altdef
proof (elim exE)
  fix d e :: nat
  assume x: "x * 10 ^ d \<in> \<int>" and y: "y * 10 ^ e \<in> \<int>"
  have "x * 10 ^ d * 10 ^ e + y * 10 ^ e * 10 ^ d \<in> \<int>"
    by (intro Ints_add Ints_mult x y) simp_all
  then have "(x + y) * 10 ^ (d + e) \<in> \<int>" by (simp add: power_add algebra_simps)
  then show "\<exists>k. (x + y) * 10 ^ k \<in> \<int>" by blast
qed

lemma is_decimal_divide [simp]: "is_decimal x \<Longrightarrow> is_decimal (x / 10 ^ k)"
  unfolding is_decimal_altdef
proof (elim exE)
  fix d :: nat
  assume "x * 10 ^ d \<in> \<int>"
  then have "x / 10 ^ k * 10 ^ (d + k) \<in> \<int>" by (simp add: power_add)
  then show "\<exists>e. x / 10 ^ k * 10 ^ e \<in> \<int>" by blast
qed

lemma is_decimal_of_nat [simp]: "is_decimal (of_nat n)"
  using is_decimal_of_int [of "int n"] by simp

lemma is_decimal_power [simp]: "is_decimal (10 ^ k)"
  using is_decimal_of_int [of "10 ^ k"] by simp

lemma is_decimal_0 [simp]: "is_decimal 0"
  using is_decimal_of_int [of 0] by simp

lemma is_decimal_sum_list: "(\<And>x. x \<in> set xs \<Longrightarrow> is_decimal x) \<Longrightarrow> is_decimal (sum_list xs)"
  by (induction xs) (auto intro: is_decimal_add)

lemma is_decimal_scale10: "is_decimal x \<Longrightarrow> is_decimal (scale10 x e)"
  by (simp add: scale10_def is_decimal_times)

lemma is_decimal_literal: "decimal_prefix s = Some (x, r) \<Longrightarrow> is_decimal x"
  by (auto simp: decimal_prefix_def Let_def split: prod.splits if_splits
      intro!: is_decimal_times is_decimal_scale10 is_decimal_add)

lemma is_decimal_minus [simp]: "is_decimal (- x) \<longleftrightarrow> is_decimal x"
  by (simp add: is_decimal_altdef)

lemma round_half_up_of_int [simp]: "round_half_up d (of_int n) = of_int n"
proof -
  have *: "\<lfloor>of_int m + 1 / 2 :: rat\<rfloor> = m" for m by (simp add: floor_unique)
  have "of_int n * 10 ^ d = (of_int (n * 10 ^ d) :: rat)" by simp
  moreover have "- of_int n * 10 ^ d = (of_int (- n * 10 ^ d) :: rat)" by simp
  ultimately show ?thesis
    unfolding round_half_up_def Let_def using * [of "n * 10 ^ d"] * [of "- n * 10 ^ d"] by simp
qed

lemma round_half_up_0_of_int: "\<exists>n. round_half_up 0 x = of_int n"
proof (cases "0 \<le> x")
  case True
  then show ?thesis by (auto simp: round_half_up_def)
next
  case False
  then have "round_half_up 0 x = of_int (- \<lfloor>- x + 1 / 2\<rfloor>)" by (simp add: round_half_up_def)
  then show ?thesis by blast
qed

lemma round_half_up_scaled: "\<exists>n. round_half_up d x = of_int n / 10 ^ d"
proof (cases "0 \<le> x")
  case True
  then show ?thesis by (auto simp: round_half_up_def Let_def)
next
  case False
  then have "round_half_up d x = of_int (- \<lfloor>- x * 10 ^ d + 1 / 2\<rfloor>) / 10 ^ d"
    by (simp add: round_half_up_def Let_def)
  then show ?thesis by blast
qed

lemma is_decimal_round [simp]: "is_decimal (round_half_up d x)"
  using round_half_up_scaled [of d x] by auto

lemma round_half_up_idem [simp]: "round_half_up d (round_half_up d x) = round_half_up d x"
proof -
  obtain n where n: "round_half_up d x = of_int n / 10 ^ d" using round_half_up_scaled by blast
  have "\<lfloor>of_int m + 1 / 2 :: rat\<rfloor> = m" for m by (simp add: floor_unique)
  from this [of n] this [of "- n"] show ?thesis by (simp add: n round_half_up_def Let_def)
qed

lemma round_half_up_near: "\<bar>round_half_up d x - x\<bar> \<le> 1 / (2 * 10 ^ d)"
proof -
  have near: "\<bar>of_int \<lfloor>y + 1 / 2\<rfloor> - y\<bar> \<le> 1 / 2" for y :: rat
  proof -
    have "of_int \<lfloor>y + 1 / 2\<rfloor> \<le> y + 1 / 2" and "y + 1 / 2 < of_int \<lfloor>y + 1 / 2\<rfloor> + 1"
      using floor_correct [of "y + 1 / 2"] by auto
    then show ?thesis unfolding abs_le_iff by linarith
  qed
  let ?s = "10 ^ d :: rat"
  have scaled: "\<bar>of_int \<lfloor>y * ?s + 1 / 2\<rfloor> / ?s - y\<bar> \<le> 1 / (2 * ?s)" for y :: rat
  proof -
    have "of_int \<lfloor>y * ?s + 1 / 2\<rfloor> / ?s - y = (of_int \<lfloor>y * ?s + 1 / 2\<rfloor> - y * ?s) / ?s"
      by (simp add: field_simps)
    then have "\<bar>of_int \<lfloor>y * ?s + 1 / 2\<rfloor> / ?s - y\<bar> = \<bar>of_int \<lfloor>y * ?s + 1 / 2\<rfloor> - y * ?s\<bar> / ?s"
      by (simp add: abs_divide)
    also have "\<dots> \<le> (1 / 2) / ?s" by (rule divide_right_mono [OF near]) simp
    finally show ?thesis by simp
  qed
  show ?thesis
  proof (cases "0 \<le> x")
    case True
    then show ?thesis using scaled [of x] by (simp add: round_half_up_def Let_def)
  next
    case False
    then show ?thesis using scaled [of "- x"]
      by (simp add: round_half_up_def Let_def abs_minus_commute add.commute)
  qed
qed

lemma big_laws_D:
  assumes "big_laws L"
  shows big_of_number_law: "big_of_number L n = Inr (of_int n)"
    and big_times_law: "big_times L x y = x * y"
    and big_round0_law: "big_round0 L x = round_half_up 0 x"
    and big_toFixed2_law: "is_decimal x \<Longrightarrow> big_new L (big_toFixed2 L x) = Inr (round_half_up 2 x)"
    and big_toString_law: "is_decimal x \<Longrightarrow> big_new L (big_toString L x) = Inr x"
    and big_new_decimal: "big_new L s = Inr x \<Longrightarrow> is_decimal x"
    and big_new_literal: "big_new L s = Inr x \<Longrightarrow> decimal_prefix s = Some (x, [])"
  using assms by (simp_all add: big_laws_def)

end
