(* ===== verification/Serializers.thy ===== *)
theory Serializers
  imports Externals
begin

text \<open>
  The serializers of \<open>app/database/serializers\<close>: between the program's objects and the rows of the tables,
  and from a rebate to a line of the export.  \<open>deserialize\<close> can raise: a rebate's row without an
  identifier has no \<open>toString\<close>.

  Locale \<open>serializer\<close> is the contract the repositories rely on, a round trip on the objects that are
  \<open>storable\<close>; it is interpreted on every pair.
\<close>

section \<open>Field by field\<close>

definition UserSerializer_serialize :: "IUser \<Rightarrow> UserRecord" where
  "UserSerializer_serialize x =
     \<lparr>ur_id = u_id x, ur_linked_offer_ids = u_linkedOfferIds x,
       ur_targeted_offer_ids = u_targetedOfferIds x,
       ur_opt_in_file_offers = u_optInFileOffers x, ur_is_enrolled = u_isEnrolled x,
       ur_is_blacklisted = u_isBlacklisted x, ur_credit_card_products = u_creditCardProducts x,
       ur_debit_card_products = u_debitCardProducts x\<rparr>"

definition UserSerializer_deserialize ::
  "ext \<Rightarrow> UserRecord \<Rightarrow> exn + IUser" where
  "UserSerializer_deserialize L r = Inr
     \<lparr>u_id = ur_id r, u_linkedOfferIds = ur_linked_offer_ids r,
       u_targetedOfferIds = ur_targeted_offer_ids r,
       u_optInFileOffers = ur_opt_in_file_offers r, u_isEnrolled = ur_is_enrolled r,
       u_isBlacklisted = ur_is_blacklisted r, u_creditCardProducts = ur_credit_card_products r,
       u_debitCardProducts = ur_debit_card_products r\<rparr>"

definition TransactionForRebateCriteriaSerializer_serialize ::
  "ITransactionForRebateCriteria \<Rightarrow> TransactionForRebateCriteriaRecord" where
  "TransactionForRebateCriteriaSerializer_serialize x =
     \<lparr>tr_id = tx_id x, tr_transaction_id = tx_transactionId x,
       tr_account_id = tx_accountId x, tr_user_id = tx_userId x,
       tr_rebate_criteria_id = tx_rebateCriteriaId x, tr_rebate_id = tx_rebateId x,
       tr_amount = tx_amount x, tr_processed_at = tx_processedAt x,
       tr_processor_id = tx_processorId x, tr_transaction_type = tx_transactionType x,
       tr_status = tx_status x, tr_card = tx_card x, tr_base_points = tx_basePoints x,
       tr_card_type = tx_cardType x, tr_transaction_date = tx_transactionDate x,
       tr_transaction_currency = tx_transactionCurrency x,
       tr_transaction_postal_code = tx_transactionPostalCode x,
       tr_product_code_external = tx_productCodeExternal x, tr_is_manual = tx_isManual x,
       tr_tsys_customer_id = tx_tsysCustomerId x,
       tr_refund_report_created = tx_refundReportCreated x\<rparr>"

definition TransactionForRebateCriteriaSerializer_deserialize ::
  "ext \<Rightarrow> TransactionForRebateCriteriaRecord \<Rightarrow> exn + ITransactionForRebateCriteria" where
  "TransactionForRebateCriteriaSerializer_deserialize L r = Inr
     \<lparr>tx_id = tr_id r, tx_transactionId = tr_transaction_id r,
       tx_accountId = tr_account_id r, tx_userId = tr_user_id r,
       tx_rebateCriteriaId = tr_rebate_criteria_id r, tx_rebateId = tr_rebate_id r,
       tx_amount = tr_amount r, tx_processedAt = tr_processed_at r,
       tx_transactionType = tr_transaction_type r, tx_status = tr_status r,
       tx_card = tr_card r, tx_basePoints = tr_base_points r, tx_cardType = tr_card_type r,
       tx_transactionDate = tr_transaction_date r,
       tx_transactionCurrency = tr_transaction_currency r,
       tx_transactionPostalCode = tr_transaction_postal_code r,
       tx_productCodeExternal = tr_product_code_external r, tx_isManual = tr_is_manual r,
       tx_tsysCustomerId = tr_tsys_customer_id r,
       tx_refundReportCreated = tr_refund_report_created r,
       tx_processorId = tr_processor_id r\<rparr>"

definition ExportDetailsSerializer_serialize ::
  "ITransferDetails \<Rightarrow> ExportDetailsRecord" where
  "ExportDetailsSerializer_serialize x =
     \<lparr>ed_id = td_id x, ed_started_at = td_startedAt x, ed_finished_at = td_finishedAt x,
       ed_status = td_status x, ed_number_of_items = td_numberOfItems x\<rparr>"

definition ExportDetailsSerializer_deserialize ::
  "ext \<Rightarrow> ExportDetailsRecord \<Rightarrow> exn + ITransferDetails" where
  "ExportDetailsSerializer_deserialize L r = Inr
     \<lparr>td_id = ed_id r, td_startedAt = ed_started_at r, td_finishedAt = ed_finished_at r,
       td_status = ed_status r, td_numberOfItems = ed_number_of_items r\<rparr>"

definition TransactionImportDetailsSerializer_serialize ::
  "ITransferDetails \<Rightarrow> TransactionImportDetailsRecord" where
  "TransactionImportDetailsSerializer_serialize x =
     \<lparr>id_id = td_id x, id_started_at = td_startedAt x, id_finished_at = td_finishedAt x,
       id_status = td_status x, id_number_of_items = td_numberOfItems x\<rparr>"

definition TransactionImportDetailsSerializer_deserialize ::
  "ext \<Rightarrow> TransactionImportDetailsRecord \<Rightarrow> exn + ITransferDetails" where
  "TransactionImportDetailsSerializer_deserialize L r = Inr
     \<lparr>td_id = id_id r, td_startedAt = id_started_at r, td_finishedAt = id_finished_at r,
       td_status = id_status r, td_numberOfItems = id_number_of_items r\<rparr>"

definition ProductSerializer_serialize :: "IProduct \<Rightarrow> ProductRecord" where
  "ProductSerializer_serialize x =
     \<lparr>prr_id = pr_id x, prr_product_code_external__c = pr_productCodeExternal x,
       prr_product_code__c = pr_productCode x, prr_sfid = pr_sfId x,
       prr_isdeleted = pr_isDeleted x\<rparr>"

definition ProductSerializer_deserialize ::
  "ext \<Rightarrow> ProductRecord \<Rightarrow> exn + IProduct" where
  "ProductSerializer_deserialize L r = Inr
     \<lparr>pr_isDeleted = prr_isdeleted r, pr_id = prr_id r,
       pr_productCode = prr_product_code__c r,
       pr_productCodeExternal = prr_product_code_external__c r, pr_sfId = prr_sfid r\<rparr>"

definition RebateJournalSerializer_serialize ::
  "IRebateJournalReport \<Rightarrow> RebateJournalRecord" where
  "RebateJournalSerializer_serialize x =
     \<lparr>jr_id = rj_id x, jr_ucin_external_id__c = rj_UCINExternalId x,
       jr_base_points__c = rj_basePoints x, jr_cc_credit_amount__c = rj_ccCreditAmount x,
       jr_client_id__c = rj_clientId x, jr_currency__c = rj_currency x,
       jr_fulfilled_date__c = rj_fulfilledDate x,
       jr_fullfilled_wmresults__c = rj_fulfilledWmResults x,
       jr_instruction_sent_date__c = rj_instructionSentDate x,
       jr_masked_client_account__c = rj_maskedClientAccount x,
       jr_merchant_id__c = rj_merchantId x, jr_offer_id__c = rj_offerId x,
       jr_pba_credit_amount__c = rj_pbaCreditAmount x, jr_product__c = rj_product x,
       jr_qualifying_transaction_date__c = rj_qualifyingTransactionDate x,
       jr_qualifying_transaction_value__c = rj_qualifyingTransactionValue x,
       jr_rebate_status_v3__c = rj_rebateStatus x,
       jr_rebate_transaction_id__c = rj_rebateTransactionId x,
       jr_rebate_dollars__c = rj_rebateDollars x, jr_rebate_points__c = rj_rebatePoints x,
       jr_rebate_type__c = rj_rebateType x,
       jr_transaction_type__c = rj_transactionType x\<rparr>"

definition RebateJournalSerializer_deserialize ::
  "ext \<Rightarrow> RebateJournalRecord \<Rightarrow> exn + IRebateJournalReport" where
  "RebateJournalSerializer_deserialize L r = Inr
     \<lparr>rj_UCINExternalId = jr_ucin_external_id__c r, rj_basePoints = jr_base_points__c r,
       rj_ccCreditAmount = jr_cc_credit_amount__c r, rj_clientId = jr_client_id__c r,
       rj_currency = jr_currency__c r, rj_fulfilledDate = jr_fulfilled_date__c r,
       rj_fulfilledWmResults = jr_fullfilled_wmresults__c r, rj_id = jr_id r,
       rj_instructionSentDate = jr_instruction_sent_date__c r,
       rj_maskedClientAccount = jr_masked_client_account__c r,
       rj_merchantId = jr_merchant_id__c r, rj_offerId = jr_offer_id__c r,
       rj_pbaCreditAmount = jr_pba_credit_amount__c r, rj_product = jr_product__c r,
       rj_qualifyingTransactionDate = jr_qualifying_transaction_date__c r,
       rj_qualifyingTransactionValue = jr_qualifying_transaction_value__c r,
       rj_rebateStatus = jr_rebate_status_v3__c r,
       rj_rebateTransactionId = jr_rebate_transaction_id__c r,
       rj_rebateType = jr_rebate_type__c r, rj_transactionType = jr_transaction_type__c r,
       rj_rebateDollars = jr_rebate_dollars__c r,
       rj_rebatePoints = jr_rebate_points__c r\<rparr>"

definition RefundSerializer_serialize :: "IRefundReport \<Rightarrow> RefundRecord" where
  "RefundSerializer_serialize x =
     \<lparr>fr_id = rf_id x, fr_client_account_number__c = rf_clientAccountNumber x,
       fr_client_hash_srf__c = rf_clientHashSRF x, fr_merchant_id__c = rf_merchantId x,
       fr_offerid__c = rf_offerId x, fr_transactionamount__c = rf_transactionAmount x,
       fr_transaction_date__c = rf_transactionDate x,
       fr_transaction_type__c = rf_transactionType x\<rparr>"

definition RefundSerializer_deserialize ::
  "ext \<Rightarrow> RefundRecord \<Rightarrow> exn + IRefundReport" where
  "RefundSerializer_deserialize L r = Inr
     \<lparr>rf_clientAccountNumber = fr_client_account_number__c r,
       rf_clientHashSRF = fr_client_hash_srf__c r, rf_id = fr_id r,
       rf_merchantId = fr_merchant_id__c r, rf_offerId = fr_offerid__c r,
       rf_transactionAmount = fr_transactionamount__c r,
       rf_transactionDate = fr_transaction_date__c r,
       rf_transactionType = fr_transaction_type__c r\<rparr>"

text \<open>
  A rebate is written without its identifier: the database numbers the row.
\<close>

definition RebateSerializer_serialize :: "IRebate \<Rightarrow> RebateRecord" where
  "RebateSerializer_serialize x =
     \<lparr>rr_id = None, rr_user_id = rb_userId x,
       rr_rebate_criteria_id = rb_rebateCriteriaId x, rr_account_id = rb_accountId x,
       rr_account_transaction_id = rb_accountTransactionId x,
       rr_fulfilled_transaction_id = rb_fulfilledTransactionId x,
       rr_fulfilled_date = rb_fulfilledDate x, rr_fulfilled_amount = rb_fulfilledAmount x,
       rr_amount = rb_amount x, rr_reward_type = rb_rewardType x, rr_issued_at = rb_issuedAt x,
       rr_status = rb_status x, rr_delivered_at = rb_deliveredAt x,
       rr_dispatched_at = rb_dispatchedAt x, rr_card = rb_card x, rr_card_type = rb_cardType x,
       rr_last_mop_sync = rb_lastMopSync x,
       rr_qualifying_transaction = rb_qualifyingTransaction x,
       rr_fulfillment_transaction = rb_fulfillmentTransaction x\<rparr>"

definition RebateSerializer_deserialize ::
  "ext \<Rightarrow> RebateRecord \<Rightarrow> exn + IRebate" where
  "RebateSerializer_deserialize L r =
     (case rr_id r of
        None \<Rightarrow> Inl TypeError
      | Some k \<Rightarrow> Inr
     \<lparr>rb_id = (show_nat k), rb_userId = rr_user_id r,
       rb_rebateCriteriaId = rr_rebate_criteria_id r, rb_accountId = rr_account_id r,
       rb_accountTransactionId = rr_account_transaction_id r,
       rb_fulfilledTransactionId = rr_fulfilled_transaction_id r,
       rb_fulfilledDate = rr_fulfilled_date r, rb_fulfilledAmount = rr_fulfilled_amount r,
       rb_amount = rr_amount r, rb_rewardType = rr_reward_type r, rb_issuedAt = rr_issued_at r,
       rb_status = rr_status r, rb_deliveredAt = rr_delivered_at r,
       rb_dispatchedAt = rr_dispatched_at r, rb_card = rr_card r, rb_cardType = rr_card_type r,
       rb_lastMopSync = rr_last_mop_sync r,
       rb_qualifyingTransaction = rr_qualifying_transaction r,
       rb_fulfillmentTransaction = rr_fulfillment_transaction r\<rparr>)"

definition UnfulfilledRebateSerializer_serialize ::
  "IUnfulfilledRebateReport \<Rightarrow> UnfulfilledRebateRecord" where
  "UnfulfilledRebateSerializer_serialize x =
     \<lparr>nr_id = uf_id x, nr_currency__c = uf_currency x,
       nr_instruction_sent_date__c = uf_instructionSentDate x,
       nr_masked_client_account__c = uf_maskedClientAccount x,
       nr_merchant_id__c = uf_merchantId x, nr_offer_id__c = parseInt (uf_offerId x),
       nr_qualifying_transaction_date__c = uf_qualifyingTransactionDate x,
       nr_qualifying_transaction_value__c = uf_qualifyingTransactionValue x,
       nr_rebate_status_v3__c = uf_rebateStatus x,
       nr_rebate_transaction_id__c = uf_rebateTransactionId x,
       nr_rebate_type__c = uf_rebateType x, nr_transaction_type__c = uf_transactionType x,
       nr_unfulfilled_days__c = uf_unfulfilledDays x, nr_rebate__c = uf_rebate x\<rparr>"

definition UnfulfilledRebateSerializer_deserialize ::
  "ext \<Rightarrow> UnfulfilledRebateRecord \<Rightarrow> exn + IUnfulfilledRebateReport" where
  "UnfulfilledRebateSerializer_deserialize L r = Inr
     \<lparr>uf_currency = nr_currency__c r, uf_id = nr_id r,
       uf_instructionSentDate = nr_instruction_sent_date__c r,
       uf_maskedClientAccount = nr_masked_client_account__c r,
       uf_merchantId = nr_merchant_id__c r,
       uf_offerId = number_toString (show_fraction L) (nr_offer_id__c r),
       uf_qualifyingTransactionDate = nr_qualifying_transaction_date__c r,
       uf_qualifyingTransactionValue = nr_qualifying_transaction_value__c r,
       uf_rebateStatus = nr_rebate_status_v3__c r,
       uf_rebateTransactionId = nr_rebate_transaction_id__c r,
       uf_rebateType = nr_rebate_type__c r, uf_transactionType = nr_transaction_type__c r,
       uf_unfulfilledDays = nr_unfulfilled_days__c r, uf_rebate = nr_rebate__c r\<rparr>"

section \<open>Offers, criteria and the user ledger\<close>

definition OfferSerializer_serialize :: "IOffer \<Rightarrow> OfferRecord" where
  "OfferSerializer_serialize x =
     \<lparr>or_id = parseInt (of_id x), or_offer_id__c = of_offerId x, or_isdeleted = of_isDeleted x,
       or_name = of_name x, or_running_redemption_amount_v3__c = of_runningRedemptionAmount x,
       or_running_redemption_count__c = of_runningRedemptionCount x, or_sfid = of_sfId x\<rparr>"

definition OfferSerializer_deserialize :: "ext \<Rightarrow> OfferRecord \<Rightarrow> exn + IOffer" where
  "OfferSerializer_deserialize L r = Inr
     \<lparr>of_isDeleted = or_isdeleted r, of_name = or_name r, of_offerId = or_offer_id__c r,
       of_runningRedemptionAmount = or_running_redemption_amount_v3__c r,
       of_runningRedemptionCount = or_running_redemption_count__c r, of_sfId = or_sfid r,
       of_id = number_toString (show_fraction L) (or_id r)\<rparr>"

definition RebateCriteriaSerializer_serialize :: "IRebateCriteria \<Rightarrow> RebateCriteriaRecord" where
  "RebateCriteriaSerializer_serialize x =
     \<lparr>cr_id = rc_id x,
       cr_data =
         \<lparr>cd_isRedeemable = rc_isRedeemable x, cd_refundPeriodInDays = rc_refundPeriodInDays x,
           cd_rewardCalculation = rc_rewardCalculation x, cd_validFromDate = rc_validFromDate x,
           cd_validToDate = rc_validToDate x, cd_merchantId = rc_merchantId x,
           cd_hasBeenActivated = rc_hasBeenActivated x,
           cd_requiresCustomerToBeLinked = rc_requiresCustomerToBeLinked x,
           cd_requiresCustomerToBeTargeted = rc_requiresCustomerToBeTargeted x,
           cd_redemptionPeriodInDays = rc_redemptionPeriodInDays x,
           cd_redemptionBasedOn = rc_redemptionBasedOn x\<rparr>,
       cr_description_for_testing = rc_descriptionForTesting x,
       cr_redemption_limit = rc_redemptionLimit x,
       cr_redemption_limit_type = rc_redemptionLimitType x,
       cr_eligible_products = rc_eligibleProducts x\<rparr>"

definition RebateCriteriaSerializer_deserialize ::
  "ext \<Rightarrow> RebateCriteriaRecord \<Rightarrow> exn + IRebateCriteria" where
  "RebateCriteriaSerializer_deserialize L r =
     (let d = cr_data r in Inr
       \<lparr>rc_id = cr_id r, rc_isRedeemable = cd_isRedeemable d,
         rc_descriptionForTesting = cr_description_for_testing r,
         rc_rewardCalculation = cd_rewardCalculation d,
         rc_refundPeriodInDays = cd_refundPeriodInDays d,
         rc_validFromDate = cd_validFromDate d, rc_validToDate = cd_validToDate d,
         rc_merchantId = cd_merchantId d, rc_hasBeenActivated = cd_hasBeenActivated d,
         rc_requiresCustomerToBeLinked = cd_requiresCustomerToBeLinked d,
         rc_requiresCustomerToBeTargeted = cd_requiresCustomerToBeTargeted d,
         rc_redemptionLimit = cr_redemption_limit r,
         rc_redemptionLimitType = cr_redemption_limit_type r,
         rc_redemptionPeriodInDays = cd_redemptionPeriodInDays d,
         rc_eligibleProducts = cr_eligible_products r,
         rc_redemptionBasedOn = cd_redemptionBasedOn d\<rparr>)"

text \<open>
  The ledger keeps a time stamp as the text \<open>toUTCString\<close> gives, which has no milliseconds.
\<close>

definition toUTCString_seconds :: "date \<Rightarrow> date" where
  "toUTCString_seconds t = t - t mod 1000"

definition UserLedgerSerializer_serialize :: "IUserLedger \<Rightarrow> UserLedgerRecord" where
  "UserLedgerSerializer_serialize x =
     \<lparr>lr_user_id = ul_userId x, lr_update_timestamp = toUTCString_seconds (ul_updateTimestamp x),
       lr_user_info =
         \<lparr>ui_targeted_offers = ul_targetedOffers x, ui_linked_offers = ul_linkedOffers x,
           ui_is_enrolled = ul_isEnrolledToMyOffers x\<rparr>\<rparr>"

definition UserLedgerSerializer_deserialize :: "ext \<Rightarrow> UserLedgerRecord \<Rightarrow> exn + IUserLedger" where
  "UserLedgerSerializer_deserialize L r =
     (let u = lr_user_info r in Inr
       \<lparr>ul_userId = lr_user_id r, ul_updateTimestamp = lr_update_timestamp r,
         ul_targetedOffers = ui_targeted_offers u, ul_linkedOffers = ui_linked_offers u,
         ul_isEnrolledToMyOffers = ui_is_enrolled u\<rparr>)"

section \<open>Export lines\<close>

fun CARD_TYPE_NUMBERS :: "CardType \<Rightarrow> nat option" where
  "CARD_TYPE_NUMBERS CreditCard = Some 1"
| "CARD_TYPE_NUMBERS CheckingAccount = Some 2"
| "CARD_TYPE_NUMBERS (OtherCardType _) = None"

fun REWARD_TYPE_NUMBERS :: "RewardType \<Rightarrow> nat" where
  "REWARD_TYPE_NUMBERS Dollars = 1"
| "REWARD_TYPE_NUMBERS Points = 2"

text \<open>Points go out as a whole number, rounded up.\<close>

definition export_amount :: "ext \<Rightarrow> IRebate \<Rightarrow> string" where
  "export_amount L x =
     (if rb_rewardType x = Dollars then rb_amount x
      else number_toString (show_fraction L) (math_ceil (parseFloat (rb_amount x))))"

definition RebateExportSerializer_serialize :: "ext \<Rightarrow> IRebate \<Rightarrow> IRebateExport" where
  "RebateExportSerializer_serialize L x =
     \<lparr>ex_id = number_toString (show_fraction L) (Number (rb_id x)), ex_client_id = rb_userId x,
       ex_offer_id = rb_rebateCriteriaId x, ex_card = rb_card x,
       ex_wmresult_id = tx_id (rb_qualifyingTransaction x), ex_status = rb_status x,
       ex_qualified_on = format_date L ''YYYYMMDDHHmmss'' (rb_issuedAt x),
       ex_qualified_trans_id = tx_transactionId (rb_qualifyingTransaction x),
       ex_rebate = export_amount L x, ex_rebate_type = REWARD_TYPE_NUMBERS (rb_rewardType x),
       ex_fulfilled_on = None, ex_fulfilled_trans_id = None, ex_fulfilled_rebate = None,
       ex_fulfilled_wmresult_id = None, ex_instruction_sent_date = None,
       ex_card_type = CARD_TYPE_NUMBERS (rb_cardType x), ex_account_id = rb_accountId x\<rparr>"

section \<open>The contract\<close>

text \<open>
  \<open>keyed\<close> is what the database makes of a written row: the row with its number, for a table that
  numbers its rows.
\<close>

locale serializer =
  fixes serialize :: "'m \<Rightarrow> 'r"
    and deserialize :: "'r \<Rightarrow> exn + 'm"
    and storable :: "'m \<Rightarrow> bool"
  assumes roundtrip: "storable x \<Longrightarrow> deserialize (serialize x) = Inr x"
begin

lemma serialize_inj: "storable x \<Longrightarrow> storable y \<Longrightarrow> serialize x = serialize y \<Longrightarrow> x = y"
  by (metis roundtrip sum.inject(2))

lemma roundtrip_list: "\<forall>x\<in>set xs. storable x \<Longrightarrow> map (deserialize \<circ> serialize) xs = map Inr xs"
  by (simp add: roundtrip)

end

text \<open>A serializer that loses nothing in either direction.\<close>

locale exact_serializer = serializer +
  assumes row_roundtrip: "deserialize r = Inr x \<Longrightarrow> serialize x = r"
begin

lemma deserialize_inj: "deserialize r = Inr x \<Longrightarrow> deserialize s = Inr x \<Longrightarrow> r = s"
  using row_roundtrip by blast

end

named_theorems serializer_defs \<open>the definitions of the serializers\<close>

lemmas serializer_unfolds [serializer_defs] =
  UserSerializer_serialize_def UserSerializer_deserialize_def
  TransactionForRebateCriteriaSerializer_serialize_def
  TransactionForRebateCriteriaSerializer_deserialize_def
  ExportDetailsSerializer_serialize_def ExportDetailsSerializer_deserialize_def
  TransactionImportDetailsSerializer_serialize_def TransactionImportDetailsSerializer_deserialize_def
  ProductSerializer_serialize_def ProductSerializer_deserialize_def
  RebateJournalSerializer_serialize_def RebateJournalSerializer_deserialize_def
  RefundSerializer_serialize_def RefundSerializer_deserialize_def
  RebateSerializer_serialize_def RebateSerializer_deserialize_def
  UnfulfilledRebateSerializer_serialize_def UnfulfilledRebateSerializer_deserialize_def
  OfferSerializer_serialize_def OfferSerializer_deserialize_def
  RebateCriteriaSerializer_serialize_def RebateCriteriaSerializer_deserialize_def
  UserLedgerSerializer_serialize_def UserLedgerSerializer_deserialize_def

interpretation user_serializer: exact_serializer
  UserSerializer_serialize "UserSerializer_deserialize L" "\<lambda>_. True"
  by unfold_locales (auto simp: serializer_defs Let_def)

interpretation transaction_serializer: exact_serializer
  TransactionForRebateCriteriaSerializer_serialize "TransactionForRebateCriteriaSerializer_deserialize L" "\<lambda>_. True"
  by unfold_locales (auto simp: serializer_defs Let_def)

interpretation export_details_serializer: exact_serializer
  ExportDetailsSerializer_serialize "ExportDetailsSerializer_deserialize L" "\<lambda>_. True"
  by unfold_locales (auto simp: serializer_defs Let_def)

interpretation import_details_serializer: exact_serializer
  TransactionImportDetailsSerializer_serialize "TransactionImportDetailsSerializer_deserialize L" "\<lambda>_. True"
  by unfold_locales (auto simp: serializer_defs Let_def)

interpretation product_serializer: exact_serializer
  ProductSerializer_serialize "ProductSerializer_deserialize L" "\<lambda>_. True"
  by unfold_locales (auto simp: serializer_defs Let_def)

interpretation journal_serializer: exact_serializer
  RebateJournalSerializer_serialize "RebateJournalSerializer_deserialize L" "\<lambda>_. True"
  by unfold_locales (auto simp: serializer_defs Let_def)

interpretation refund_serializer: exact_serializer
  RefundSerializer_serialize "RefundSerializer_deserialize L" "\<lambda>_. True"
  by unfold_locales (auto simp: serializer_defs Let_def)

interpretation criteria_serializer: exact_serializer
  RebateCriteriaSerializer_serialize "RebateCriteriaSerializer_deserialize L" "\<lambda>_. True"
  by unfold_locales (auto simp: serializer_defs Let_def)

interpretation rebate_serializer: serializer
  "\<lambda>x. (RebateSerializer_serialize x)\<lparr>rr_id := int_key (rb_id x)\<rparr>" "RebateSerializer_deserialize L"
  "\<lambda>x. \<exists>k. rb_id x = show_nat k"
  by unfold_locales (auto simp: serializer_defs)

interpretation ledger_serializer: serializer
  UserLedgerSerializer_serialize "UserLedgerSerializer_deserialize L" "\<lambda>x. ul_updateTimestamp x mod 1000 = 0"
  by unfold_locales (simp add: serializer_defs toUTCString_seconds_def)

interpretation offer_serializer: serializer
  OfferSerializer_serialize "OfferSerializer_deserialize L" "\<lambda>x. \<exists>k. of_id x = show_nat k"
  by unfold_locales (auto simp: serializer_defs)

interpretation unfulfilled_serializer: serializer
  UnfulfilledRebateSerializer_serialize "UnfulfilledRebateSerializer_deserialize L"
  "\<lambda>x. \<exists>k. uf_offerId x = show_nat k"
  by unfold_locales (auto simp: serializer_defs)

end
