(* ===== verification/Repository.thy ===== *)
theory Repository
  imports Serializers
begin

text \<open>
  The abstract class \<open>Repository<T>\<close> of \<open>app/database/repositories/repository.ts\<close>: a table, its mapper
  and its serializer, and the operations built from them.  A repository is a record of these, as the
  class's constructor takes them; an operation takes the repository first, as its \<open>this\<close>.

  A \<open>Partial<T>\<close> given to \<open>update\<close> is the list of its entries; \<open>assign_column\<close> is the column an entry is
  written to (\<open>serializePartial\<close> drops the columns the object does not define).

  Locale \<open>table\<close> is the contract of a table inside the database; every repository interprets it.
\<close>

record ('r, 'm, 'p) repository =
  orm_of :: "ext \<Rightarrow> 'r orm"
  rows_of :: "db \<Rightarrow> 'r list"
  put_rows :: "'r list \<Rightarrow> db \<Rightarrow> db"
  serialize_with :: "'m \<Rightarrow> 'r"
  deserialize_with :: "ext \<Rightarrow> 'r \<Rightarrow> exn + 'm"
  assign_column :: "'p \<Rightarrow> 'r \<Rightarrow> 'r"

section \<open>Requests to a table\<close>

definition query :: "('r, 'm, 'p) repository \<Rightarrow> (nat \<Rightarrow> 'r list \<Rightarrow> exn + 'a) \<Rightarrow> 'a action" where
  "query R q = (\<lambda>w. (q (calls w) (rows_of R (store w)), tick w))"

text \<open>A statement that fails leaves the table as it is.\<close>

definition execute :: "('r, 'm, 'p) repository \<Rightarrow> (nat \<Rightarrow> 'r list \<Rightarrow> exn + 'a \<times> 'r list) \<Rightarrow> 'a action" where
  "execute R q =
     (\<lambda>w. case q (calls w) (rows_of R (store w)) of
        Inl e \<Rightarrow> (Inl e, tick w)
      | Inr (x, rs) \<Rightarrow> (Inr x, (tick w)\<lparr>store := put_rows R rs (store w)\<rparr>))"

section \<open>Operations\<close>

fun traverse :: "('a \<Rightarrow> exn + 'b) \<Rightarrow> 'a list \<Rightarrow> exn + 'b list" where
  "traverse f [] = Inr []"
| "traverse f (x # xs) =
     (case f x of
        Inl e \<Rightarrow> Inl e
      | Inr y \<Rightarrow> (case traverse f xs of Inl e \<Rightarrow> Inl e | Inr ys \<Rightarrow> Inr (y # ys)))"

definition findAll :: "('r, 'm, 'p) repository \<Rightarrow> ext \<Rightarrow> ('r \<Rightarrow> bool) \<Rightarrow> 'm list action" where
  "findAll R L p =
     io_bind (query R (\<lambda>n. orm_find (orm_of R L) n p))
       (\<lambda>records. io_lift (traverse (deserialize_with R L) records))"

definition findRecord :: "('r, 'm, 'p) repository \<Rightarrow> ext \<Rightarrow> string \<Rightarrow> 'r option action" where
  "findRecord R L i = query R (\<lambda>n. orm_findOne (orm_of R L) n i)"

definition find :: "('r, 'm, 'p) repository \<Rightarrow> ext \<Rightarrow> string \<Rightarrow> 'm option action" where
  "find R L i =
     io_bind (findRecord R L i)
       (\<lambda>record. case record of
            None \<Rightarrow> io_return None
          | Some r \<Rightarrow> io_bind (io_lift (deserialize_with R L r)) (\<lambda>x. io_return (Some x)))"

definition findOrFail :: "('r, 'm, 'p) repository \<Rightarrow> ext \<Rightarrow> string \<Rightarrow> 'm action" where
  "findOrFail R L i =
     io_bind (find R L i)
       (\<lambda>result. case result of
            None \<Rightarrow> io_throw (JsError (''Could not find a record with ID '' @ i))
          | Some x \<Rightarrow> io_return x)"

definition bulkDeleteWhere :: "('r, 'm, 'p) repository \<Rightarrow> ext \<Rightarrow> ('r \<Rightarrow> bool) \<Rightarrow> unit action" where
  "bulkDeleteWhere R L p = execute R (\<lambda>n rs. map_sum id (Pair ()) (orm_delete (orm_of R L) n p rs))"

definition truncate :: "('r, 'm, 'p) repository \<Rightarrow> ext \<Rightarrow> unit action" where
  "truncate R L = bulkDeleteWhere R L (\<lambda>_. True)"

definition insertRecord :: "('r, 'm, 'p) repository \<Rightarrow> ext \<Rightarrow> 'r \<Rightarrow> 'r action" where
  "insertRecord R L r = execute R (\<lambda>n. orm_save (orm_of R L) n r)"

definition insert :: "('r, 'm, 'p) repository \<Rightarrow> ext \<Rightarrow> 'm \<Rightarrow> 'm action" where
  "insert R L x =
     io_bind (insertRecord R L (serialize_with R x)) (\<lambda>record. io_lift (deserialize_with R L record))"

definition upsert :: "('r, 'm, 'p) repository \<Rightarrow> ext \<Rightarrow> 'm \<Rightarrow> 'm action" where
  "upsert R L x =
     io_bind (insertRecord R L (serialize_with R x)) (\<lambda>record. io_lift (deserialize_with R L record))"

text \<open>A list is saved in one transaction: the rows are all saved, or none is.\<close>

fun save_all :: "'r orm \<Rightarrow> nat \<Rightarrow> 'r list \<Rightarrow> 'r list \<Rightarrow> exn + 'r list \<times> 'r list" where
  "save_all D n [] rs = Inr ([], rs)"
| "save_all D n (r # qs) rs =
     (case orm_save D n r rs of
        Inl e \<Rightarrow> Inl e
      | Inr (r', rs') \<Rightarrow> map_sum id (map_prod ((#) r') id) (save_all D n qs rs'))"

definition bulkInsert :: "('r, 'm, 'p) repository \<Rightarrow> ext \<Rightarrow> 'm list \<Rightarrow> 'r list action" where
  "bulkInsert R L xs = execute R (\<lambda>n. save_all (orm_of R L) n (map (serialize_with R) xs))"

definition serializePartial :: "('r, 'm, 'p) repository \<Rightarrow> 'p list \<Rightarrow> 'r \<Rightarrow> 'r" where
  "serializePartial R ps = fold (assign_column R) ps"

definition updateRecord :: "('r, 'm, 'p) repository \<Rightarrow> ext \<Rightarrow> string \<Rightarrow> ('r \<Rightarrow> 'r) \<Rightarrow> 'r list action" where
  "updateRecord R L i f = execute R (\<lambda>n. orm_update_id (orm_of R L) n i f)"

definition update :: "('r, 'm, 'p) repository \<Rightarrow> ext \<Rightarrow> string \<Rightarrow> 'p list \<Rightarrow> unit action" where
  "update R L i ps = io_then (updateRecord R L i (serializePartial R ps)) (io_return ())"

text \<open>The criteria are given as the predicate they denote.\<close>

definition updateWhere :: "('r, 'm, 'p) repository \<Rightarrow> ext \<Rightarrow> ('r \<Rightarrow> bool) \<Rightarrow> 'p list \<Rightarrow> 'r list action" where
  "updateWhere R L p ps = execute R (\<lambda>n. orm_update (orm_of R L) n p (serializePartial R ps))"

definition last_of :: "('r, 'm, 'p) repository \<Rightarrow> ext \<Rightarrow> 'm action" where
  "last_of R L =
     io_bind (query R (\<lambda>n. orm_find (orm_of R L) n (\<lambda>_. True)))
       (\<lambda>records. if records = [] then io_throw (JsError ''Could not find any records'')
                  else io_lift (deserialize_with R L (last records)))"

definition count :: "('r, 'm, 'p) repository \<Rightarrow> ext \<Rightarrow> ('r \<Rightarrow> bool) \<Rightarrow> nat action" where
  "count R L p = query R (\<lambda>n. orm_count (orm_of R L) n p)"

text \<open>
  A row number as the identifier given to an operation; \<open>undefined\<close>, the number of no row, as a text that
  is the key of no row.
\<close>

definition id_text :: "nat option \<Rightarrow> string" where
  "id_text i = (case i of None \<Rightarrow> '''' | Some k \<Rightarrow> show_nat k)"

lemma id_text_simps [simp]: "id_text None = ''''" "id_text (Some k) = show_nat k"
  by (simp_all add: id_text_def)

lemma serial_matches_id_text [simp]: "serial_matches key (id_text i) r \<longleftrightarrow> i \<noteq> None \<and> key r = i"
proof (cases i)
  case None
  then show ?thesis by (simp add: serial_matches_def)
next
  case (Some k)
  then show ?thesis by simp
qed

section \<open>Reads leave the database alone\<close>

lemma traverse_Inr: "traverse f xs = Inr ys \<longleftrightarrow> map f xs = map Inr ys"
proof (induction xs arbitrary: ys)
  case Nil
  then show ?case by (cases ys) auto
next
  case (Cons x xs)
  show ?case
  proof (cases "traverse f xs")
    case (Inl e)
    then have "map f xs \<noteq> map Inr zs" for zs using Cons.IH [of zs] by auto
    with Inl show ?thesis by (cases ys; cases "f x") auto
  next
    case (Inr zs)
    then have "map f xs = map Inr zs" using Cons.IH [of zs] by simp
    with Inr show ?thesis by (cases ys; cases "f x") (auto simp: inj_map_eq_map inj_def)
  qed
qed

lemma traverse_total: "(\<And>x. x \<in> set xs \<Longrightarrow> \<exists>y. f x = Inr y) \<Longrightarrow> \<exists>ys. traverse f xs = Inr ys"
  by (induction xs) (fastforce split: sum.splits)+

lemma traverse_length: "traverse f xs = Inr ys \<Longrightarrow> length ys = length xs"
  by (metis length_map traverse_Inr)

lemma query_apply [io_simps]: "query R q w = (q (calls w) (rows_of R (store w)), tick w)"
  by (simp add: query_def)

lemma frames_query [io_frame, intro]: "frames store (query R q)"
  by (simp add: frames_def query_def)

lemma frames_findAll [io_frame, intro]: "frames store (findAll R L p)"
  unfolding findAll_def by (intro io_frame)

lemma frames_find [io_frame, intro]: "frames store (find R L i)"
  unfolding find_def findRecord_def by (intro io_frame)

lemma frames_findOrFail [io_frame, intro]: "frames store (findOrFail R L i)"
  unfolding findOrFail_def by (intro io_frame)

lemma frames_count [io_frame, intro]: "frames store (count R L p)"
  unfolding count_def by (intro io_frame)

lemma frames_last_of [io_frame, intro]: "frames store (last_of R L)"
  unfolding last_of_def by (intro io_frame)

text \<open>A read returns an answer of the table and takes one number.\<close>

lemma find_cases:
  "find R L i w =
     (case orm_findOne (orm_of R L) (calls w) i (rows_of R (store w)) of
        Inl e \<Rightarrow> (Inl e, tick w)
      | Inr None \<Rightarrow> (Inr None, tick w)
      | Inr (Some r) \<Rightarrow> (map_sum id Some (deserialize_with R L r), tick w))"
  by (auto simp: find_def findRecord_def io_simps split: sum.splits option.splits)

lemma findAll_cases:
  "findAll R L p w =
     (case orm_find (orm_of R L) (calls w) p (rows_of R (store w)) of
        Inl e \<Rightarrow> (Inl e, tick w)
      | Inr rs \<Rightarrow> (traverse (deserialize_with R L) rs, tick w))"
  by (auto simp: findAll_def io_simps split: sum.splits)

lemma find_state [simp]: "state_of (find R L i) w = tick w"
  by (auto simp: find_cases split: sum.splits option.splits)

lemma findAll_state [simp]: "state_of (findAll R L p) w = tick w"
  by (auto simp: findAll_cases split: sum.splits)

lemma count_apply: "count R L p w = (orm_count (orm_of R L) (calls w) p (rows_of R (store w)), tick w)"
  by (simp add: count_def io_simps)

lemma find_Some:
  assumes "orm_reads matches (orm_of R L)" and "result_of (find R L i) w = Inr (Some x)"
  obtains r where "r \<in> set (rows_of R (store w))" and "matches i r" and "deserialize_with R L r = Inr x"
proof -
  obtain r where q: "orm_findOne (orm_of R L) (calls w) i (rows_of R (store w)) = Inr (Some r)"
    and d: "deserialize_with R L r = Inr x"
    using assms(2) by (auto simp: find_cases map_sum_def split: sum.splits option.splits)
  from orm_findOne_Some [OF assms(1) q] d that show thesis by blast
qed

lemma find_None:
  assumes "orm_reads matches (orm_of R L)" and "result_of (find R L i) w = Inr None"
  shows "\<forall>r\<in>set (rows_of R (store w)). \<not> matches i r"
proof -
  have "orm_findOne (orm_of R L) (calls w) i (rows_of R (store w)) = Inr None"
    using assms(2) by (auto simp: find_cases map_sum_def split: sum.splits option.splits)
  with orm_findOne_None [OF assms(1)] show ?thesis by blast
qed

lemma findAll_Inr:
  assumes "orm_reads matches (orm_of R L)" and "result_of (findAll R L p) w = Inr xs"
  obtains rs where "mset rs = mset (filter p (rows_of R (store w)))"
    and "map (deserialize_with R L) rs = map Inr xs"
proof -
  obtain rs where q: "orm_find (orm_of R L) (calls w) p (rows_of R (store w)) = Inr rs"
    and t: "traverse (deserialize_with R L) rs = Inr xs"
    using assms(2) by (auto simp: findAll_cases split: sum.splits)
  show ?thesis
    by (rule that [OF orm_find_mset [OF assms(1) q]]) (use t in \<open>simp add: traverse_Inr\<close>)
qed

lemma findAll_length:
  assumes "orm_reads matches (orm_of R L)" and "result_of (findAll R L p) w = Inr xs"
  shows "length xs = length (filter p (rows_of R (store w)))"
  using findAll_Inr [OF assms] by (metis length_map mset_eq_length)

lemma findAll_empty:
  assumes "orm_reads matches (orm_of R L)" and "result_of (findAll R L p) w = Inr xs"
  shows "xs = [] \<longleftrightarrow> (\<forall>r\<in>set (rows_of R (store w)). \<not> p r)"
  using findAll_length [OF assms] by (metis filter_empty_conv length_0_conv)

section \<open>The contract of a table\<close>

text \<open>
  A write changes its own table only.  \<open>v\<close> is any view of the database that does not show this table.
\<close>

lemma execute_state:
  "store (state_of (execute R q) w) =
     (case q (calls w) (rows_of R (store w)) of Inl e \<Rightarrow> store w | Inr (x, rs) \<Rightarrow> put_rows R rs (store w))"
  by (auto simp: execute_def split: sum.splits)

lemma frames_execute: "(\<And>rs d. v (put_rows R rs d) = v d) \<Longrightarrow> frames (\<lambda>w. v (store w)) (execute R q)"
  by (auto simp: frames_def execute_state split: sum.splits)

lemma frames_insert:
  "(\<And>rs d. v (put_rows R rs d) = v d) \<Longrightarrow> frames (\<lambda>w. v (store w)) (insert R L x)"
  unfolding insert_def insertRecord_def by (intro frames_bind frames_lift frames_execute)

lemma frames_upsert:
  "(\<And>rs d. v (put_rows R rs d) = v d) \<Longrightarrow> frames (\<lambda>w. v (store w)) (upsert R L x)"
  unfolding upsert_def insertRecord_def by (intro frames_bind frames_lift frames_execute)

lemma frames_update:
  "(\<And>rs d. v (put_rows R rs d) = v d) \<Longrightarrow> frames (\<lambda>w. v (store w)) (update R L i ps)"
  unfolding update_def updateRecord_def by (intro frames_then frames_return frames_execute)

lemma frames_updateWhere:
  "(\<And>rs d. v (put_rows R rs d) = v d) \<Longrightarrow> frames (\<lambda>w. v (store w)) (updateWhere R L p ps)"
  unfolding updateWhere_def by (intro frames_execute)

locale table =
  fixes R :: "('r, 'm, 'p) repository"
  assumes rows_put: "rows_of R (put_rows R rs d) = rs"
    and put_put: "put_rows R rs (put_rows R qs d) = put_rows R rs d"
    and put_rows: "put_rows R (rows_of R d) d = d"
begin

lemma execute_rows:
  "rows_of R (store (state_of (execute R q) w)) =
     (case q (calls w) (rows_of R (store w)) of Inl e \<Rightarrow> rows_of R (store w) | Inr (x, rs) \<Rightarrow> rs)"
  by (auto simp: execute_state rows_put split: sum.splits)

text \<open>An update that raises writes nothing; one that returns has rewritten the matching rows.\<close>

lemma update_raised: "result_of (update R L i ps) w = Inl e \<Longrightarrow> store (state_of (update R L i ps) w) = store w"
  by (auto simp: update_def updateRecord_def execute_def io_simps split: sum.splits)

lemma update_rows:
  assumes "orm_updates matches coerce (orm_of R L)" and "result_of (update R L i ps) w = Inr u"
  shows "mset (rows_of R (store (state_of (update R L i ps) w))) =
    mset (map (\<lambda>r. if matches i r then coerce (serializePartial R ps r) else r) (rows_of R (store w)))"
proof -
  obtain us rs' where q: "orm_update_id (orm_of R L) (calls w) i (serializePartial R ps)
      (rows_of R (store w)) = Inr (us, rs')"
    using assms(2) by (auto simp: update_def updateRecord_def execute_def io_simps split: sum.splits)
  then have "rows_of R (store (state_of (update R L i ps) w)) = rs'"
    by (simp add: update_def updateRecord_def execute_def io_simps rows_put)
  with orm_update_id_rows [OF assms(1) q] show ?thesis by simp
qed

lemma updateWhere_raised:
  "result_of (updateWhere R L p ps) w = Inl e \<Longrightarrow> store (state_of (updateWhere R L p ps) w) = store w"
  by (auto simp: updateWhere_def execute_def split: sum.splits)

lemma updateWhere_rows:
  assumes "orm_updates matches coerce (orm_of R L)" and "result_of (updateWhere R L p ps) w = Inr us"
  shows "mset (rows_of R (store (state_of (updateWhere R L p ps) w))) =
      mset (map (\<lambda>r. if p r then coerce (serializePartial R ps r) else r) (rows_of R (store w)))"
    and "mset us = mset (map (\<lambda>r. coerce (serializePartial R ps r)) (filter p (rows_of R (store w))))"
proof -
  obtain rs' where q: "orm_update (orm_of R L) (calls w) p (serializePartial R ps)
      (rows_of R (store w)) = Inr (us, rs')"
    using assms(2) by (auto simp: updateWhere_def execute_def split: sum.splits)
  then have "rows_of R (store (state_of (updateWhere R L p ps) w)) = rs'"
    by (simp add: updateWhere_def execute_def rows_put)
  with orm_update_rows [OF assms(1) q] orm_update_written [OF assms(1) q]
  show "mset (rows_of R (store (state_of (updateWhere R L p ps) w))) =
      mset (map (\<lambda>r. if p r then coerce (serializePartial R ps r) else r) (rows_of R (store w)))"
    and "mset us = mset (map (\<lambda>r. coerce (serializePartial R ps r)) (filter p (rows_of R (store w))))"
    by simp_all
qed

lemma insert_rows:
  assumes "orm_saves_serial key with_key coerce (orm_of R L)"
    and "key (serialize_with R x) = None"
    and "result_of (insert R L x) w = Inr y"
  obtains k where "\<forall>r\<in>set (rows_of R (store w)). key r \<noteq> Some k"
    and "deserialize_with R L (with_key k (serialize_with R x)) = Inr y"
    and "mset (rows_of R (store (state_of (insert R L x) w))) =
      add_mset (coerce (with_key k (serialize_with R x))) (mset (rows_of R (store w)))"
proof -
  obtain r' rs' where q: "orm_save (orm_of R L) (calls w) (serialize_with R x) (rows_of R (store w)) = Inr (r', rs')"
    and d: "deserialize_with R L r' = Inr y"
    using assms(3) by (auto simp: insert_def insertRecord_def execute_def io_simps split: sum.splits)
  have "rows_of R (store (state_of (insert R L x) w)) = rs'"
    using q by (simp add: insert_def insertRecord_def execute_def io_simps rows_put)
  with d that show thesis by (metis orm_save_serial [OF assms(1,2) q])
qed

text \<open>An insert that raises in the database writes nothing.\<close>

lemma insert_raised:
  assumes "orm_save (orm_of R L) (calls w) (serialize_with R x) (rows_of R (store w)) = Inl e"
  shows "insert R L x w = (Inl e, tick w)"
  using assms by (simp add: insert_def insertRecord_def execute_def io_simps)

end

end
