(* ===== verification/Repositories.thy ===== *)
theory Repositories
  imports Repository "HOL-Library.Word" "HOL-Library.Signed_Division"
begin

text \<open>
  The repositories of \<open>app/database/repositories\<close>: one instance of \<open>repository\<close> per table, and the
  operations each adds to the abstract class.  A statement written as SQL text is a request to the table's
  mapper with the condition and the assignments of the text.

  Every instance interprets the locale \<open>table\<close>.
\<close>

section \<open>Entries of the partial objects\<close>

datatype transaction_entry =
  ProcessedAt date | Status TransactionStatus | RefundReportCreated bool

fun assign_transaction ::
  "transaction_entry \<Rightarrow> TransactionForRebateCriteriaRecord \<Rightarrow> TransactionForRebateCriteriaRecord" where
  "assign_transaction (ProcessedAt t) r = r\<lparr>tr_processed_at := Some t\<rparr>"
| "assign_transaction (Status s) r = r\<lparr>tr_status := s\<rparr>"
| "assign_transaction (RefundReportCreated b) r = r\<lparr>tr_refund_report_created := b\<rparr>"

datatype rebate_entry =
  FulfilledTransactionId string | FulfilledAmount string | FulfilledDate date
| FulfillmentTransaction ITransactionForRebateCriteria | DispatchedAt date
| RebateStatus TransactionStatus | LastMopSync date | DeliveredAt date

fun assign_rebate :: "rebate_entry \<Rightarrow> RebateRecord \<Rightarrow> RebateRecord" where
  "assign_rebate (FulfilledTransactionId i) r = r\<lparr>rr_fulfilled_transaction_id := Some i\<rparr>"
| "assign_rebate (FulfilledAmount a) r = r\<lparr>rr_fulfilled_amount := Some a\<rparr>"
| "assign_rebate (FulfilledDate t) r = r\<lparr>rr_fulfilled_date := Some t\<rparr>"
| "assign_rebate (FulfillmentTransaction x) r = r\<lparr>rr_fulfillment_transaction := Some x\<rparr>"
| "assign_rebate (DispatchedAt t) r = r\<lparr>rr_dispatched_at := t\<rparr>"
| "assign_rebate (RebateStatus s) r = r\<lparr>rr_status := s\<rparr>"
| "assign_rebate (LastMopSync t) r = r\<lparr>rr_last_mop_sync := Some t\<rparr>"
| "assign_rebate (DeliveredAt t) r = r\<lparr>rr_delivered_at := Some t\<rparr>"

datatype transfer_entry = FinishedAt date | TransferStatusOf TransferStatus | NumberOfItems nat

fun assign_export_details :: "transfer_entry \<Rightarrow> ExportDetailsRecord \<Rightarrow> ExportDetailsRecord" where
  "assign_export_details (FinishedAt t) r = r\<lparr>ed_finished_at := Some t\<rparr>"
| "assign_export_details (TransferStatusOf s) r = r\<lparr>ed_status := s\<rparr>"
| "assign_export_details (NumberOfItems n) r = r\<lparr>ed_number_of_items := Some n\<rparr>"

fun assign_import_details ::
  "transfer_entry \<Rightarrow> TransactionImportDetailsRecord \<Rightarrow> TransactionImportDetailsRecord" where
  "assign_import_details (FinishedAt t) r = r\<lparr>id_finished_at := Some t\<rparr>"
| "assign_import_details (TransferStatusOf s) r = r\<lparr>id_status := s\<rparr>"
| "assign_import_details (NumberOfItems n) r = r\<lparr>id_number_of_items := Some n\<rparr>"

text \<open>
  An entry of a partial journal report is the column it sets.  The other tables are never updated in part.
\<close>

type_synonym journal_entry = "RebateJournalRecord \<Rightarrow> RebateJournalRecord"

section \<open>The instances\<close>

definition UserRepository :: "(UserRecord, IUser, unit) repository" where
  "UserRepository =
     \<lparr>orm_of = users_orm, rows_of = users, put_rows = (\<lambda>rs d. d\<lparr>users := rs\<rparr>),
       serialize_with = UserSerializer_serialize, deserialize_with = UserSerializer_deserialize,
       assign_column = (\<lambda>_ r. r)\<rparr>"

definition RebateCriteriaRepository :: "(RebateCriteriaRecord, IRebateCriteria, unit) repository" where
  "RebateCriteriaRepository =
     \<lparr>orm_of = rebate_criteria_orm, rows_of = rebate_criteria,
       put_rows = (\<lambda>rs d. d\<lparr>rebate_criteria := rs\<rparr>),
       serialize_with = RebateCriteriaSerializer_serialize,
       deserialize_with = RebateCriteriaSerializer_deserialize, assign_column = (\<lambda>_ r. r)\<rparr>"

definition TransactionForRebateCriteriaRepository ::
  "(TransactionForRebateCriteriaRecord, ITransactionForRebateCriteria, transaction_entry) repository" where
  "TransactionForRebateCriteriaRepository =
     \<lparr>orm_of = transactions_orm, rows_of = transactions, put_rows = (\<lambda>rs d. d\<lparr>transactions := rs\<rparr>),
       serialize_with = TransactionForRebateCriteriaSerializer_serialize,
       deserialize_with = TransactionForRebateCriteriaSerializer_deserialize,
       assign_column = assign_transaction\<rparr>"

definition RebateRepository :: "(RebateRecord, IRebate, rebate_entry) repository" where
  "RebateRepository =
     \<lparr>orm_of = rebates_orm, rows_of = rebates, put_rows = (\<lambda>rs d. d\<lparr>rebates := rs\<rparr>),
       serialize_with = RebateSerializer_serialize, deserialize_with = RebateSerializer_deserialize,
       assign_column = assign_rebate\<rparr>"

definition ExportDetailsRepository :: "(ExportDetailsRecord, ITransferDetails, transfer_entry) repository" where
  "ExportDetailsRepository =
     \<lparr>orm_of = export_details_orm, rows_of = export_details,
       put_rows = (\<lambda>rs d. d\<lparr>export_details := rs\<rparr>),
       serialize_with = ExportDetailsSerializer_serialize,
       deserialize_with = ExportDetailsSerializer_deserialize, assign_column = assign_export_details\<rparr>"

definition TransactionImportDetailsRepository ::
  "(TransactionImportDetailsRecord, ITransferDetails, transfer_entry) repository" where
  "TransactionImportDetailsRepository =
     \<lparr>orm_of = import_details_orm, rows_of = import_details,
       put_rows = (\<lambda>rs d. d\<lparr>import_details := rs\<rparr>),
       serialize_with = TransactionImportDetailsSerializer_serialize,
       deserialize_with = TransactionImportDetailsSerializer_deserialize,
       assign_column = assign_import_details\<rparr>"

definition UserLedgerRepository :: "(UserLedgerRecord, IUserLedger, unit) repository" where
  "UserLedgerRepository =
     \<lparr>orm_of = userledger_orm, rows_of = userledger, put_rows = (\<lambda>rs d. d\<lparr>userledger := rs\<rparr>),
       serialize_with = UserLedgerSerializer_serialize,
       deserialize_with = UserLedgerSerializer_deserialize, assign_column = (\<lambda>_ r. r)\<rparr>"

definition OfferRepository :: "(OfferRecord, IOffer, unit) repository" where
  "OfferRepository =
     \<lparr>orm_of = offers_orm, rows_of = offers, put_rows = (\<lambda>rs d. d\<lparr>offers := rs\<rparr>),
       serialize_with = OfferSerializer_serialize, deserialize_with = OfferSerializer_deserialize,
       assign_column = (\<lambda>_ r. r)\<rparr>"

definition ProductRepository :: "(ProductRecord, IProduct, unit) repository" where
  "ProductRepository =
     \<lparr>orm_of = products_orm, rows_of = products_sf, put_rows = (\<lambda>rs d. d\<lparr>products_sf := rs\<rparr>),
       serialize_with = ProductSerializer_serialize, deserialize_with = ProductSerializer_deserialize,
       assign_column = (\<lambda>_ r. r)\<rparr>"

definition RebateJournalReportRepository ::
  "(RebateJournalRecord, IRebateJournalReport, journal_entry) repository" where
  "RebateJournalReportRepository =
     \<lparr>orm_of = rebate_journal_orm, rows_of = rebate_journal,
       put_rows = (\<lambda>rs d. d\<lparr>rebate_journal := rs\<rparr>),
       serialize_with = RebateJournalSerializer_serialize,
       deserialize_with = RebateJournalSerializer_deserialize, assign_column = (\<lambda>f. f)\<rparr>"

definition RefundReportRepository :: "(RefundRecord, IRefundReport, unit) repository" where
  "RefundReportRepository =
     \<lparr>orm_of = refund_reports_orm, rows_of = refund_reports,
       put_rows = (\<lambda>rs d. d\<lparr>refund_reports := rs\<rparr>),
       serialize_with = RefundSerializer_serialize, deserialize_with = RefundSerializer_deserialize,
       assign_column = (\<lambda>_ r. r)\<rparr>"

definition UnfilfilledRebateReportRepository ::
  "(UnfulfilledRebateRecord, IUnfulfilledRebateReport, unit) repository" where
  "UnfilfilledRebateReportRepository =
     \<lparr>orm_of = unfulfilled_reports_orm, rows_of = unfulfilled_reports,
       put_rows = (\<lambda>rs d. d\<lparr>unfulfilled_reports := rs\<rparr>),
       serialize_with = UnfulfilledRebateSerializer_serialize,
       deserialize_with = UnfulfilledRebateSerializer_deserialize, assign_column = (\<lambda>_ r. r)\<rparr>"

named_theorems repository_defs \<open>the instances of repository\<close>

lemmas repository_unfolds [repository_defs] =
  UserRepository_def RebateCriteriaRepository_def TransactionForRebateCriteriaRepository_def
  RebateRepository_def ExportDetailsRepository_def TransactionImportDetailsRepository_def
  UserLedgerRepository_def OfferRepository_def ProductRepository_def RebateJournalReportRepository_def
  RefundReportRepository_def UnfilfilledRebateReportRepository_def

interpretation user_table: table UserRepository
  by unfold_locales (simp_all add: repository_defs)

interpretation criteria_table: table RebateCriteriaRepository
  by unfold_locales (simp_all add: repository_defs)

interpretation transaction_table: table TransactionForRebateCriteriaRepository
  by unfold_locales (simp_all add: repository_defs)

interpretation rebate_table: table RebateRepository
  by unfold_locales (simp_all add: repository_defs)

interpretation export_details_table: table ExportDetailsRepository
  by unfold_locales (simp_all add: repository_defs)

interpretation import_details_table: table TransactionImportDetailsRepository
  by unfold_locales (simp_all add: repository_defs)

interpretation ledger_table: table UserLedgerRepository
  by unfold_locales (simp_all add: repository_defs)

interpretation offer_table: table OfferRepository
  by unfold_locales (simp_all add: repository_defs)

interpretation product_table: table ProductRepository
  by unfold_locales (simp_all add: repository_defs)

interpretation journal_table: table RebateJournalReportRepository
  by unfold_locales (simp_all add: repository_defs)

interpretation refund_table: table RefundReportRepository
  by unfold_locales (simp_all add: repository_defs)

interpretation unfulfilled_table: table UnfilfilledRebateReportRepository
  by unfold_locales (simp_all add: repository_defs)

section \<open>Rebates\<close>

definition findQualifyingTransactions :: "ext \<Rightarrow> ITransactionForRebateCriteria \<Rightarrow> IRebate list action" where
  "findQualifyingTransactions L transaction =
     findAll RebateRepository L
       (\<lambda>r. rr_rebate_criteria_id r = tx_rebateCriteriaId transaction \<and> rr_user_id r = tx_userId transaction)"

definition totalRedeemedCountForUpdate :: "ext \<Rightarrow> string \<Rightarrow> nat action" where
  "totalRedeemedCountForUpdate L rebateCriteriaId =
     count RebateRepository L
       (\<lambda>r. rr_rebate_criteria_id r = rebateCriteriaId \<and> rr_status r = FulfilledTransSuccessful \<and>
            rr_last_mop_sync r = None)"

definition totalRedeemedCount :: "ext \<Rightarrow> string \<Rightarrow> nat action" where
  "totalRedeemedCount L rebateCriteriaId =
     count RebateRepository L
       (\<lambda>r. rr_rebate_criteria_id r = rebateCriteriaId \<and> rr_status r = FulfilledTransSuccessful)"

definition callRedeemedSum :: "ext \<Rightarrow> (RebateRecord \<Rightarrow> bool) \<Rightarrow> string action" where
  "callRedeemedSum L whereClause =
     io_bind (query RebateRepository (\<lambda>n. sql_sum L n whereClause))
       (\<lambda>result. case result of
            [] \<Rightarrow> io_return (big_toFixed2 L 0)
          | cell # _ \<Rightarrow> (case cell of
                None \<Rightarrow> io_return ''0.00''
              | Some s \<Rightarrow> io_bind (io_lift (big_new L s)) (\<lambda>x. io_return (big_toFixed2 L x))))"

definition totalRedeemedSumForUpdate :: "ext \<Rightarrow> string \<Rightarrow> string action" where
  "totalRedeemedSumForUpdate L rebateCriteriaId =
     callRedeemedSum L
       (\<lambda>r. rr_rebate_criteria_id r = rebateCriteriaId \<and> rr_last_mop_sync r = None \<and>
            rr_status r = FulfilledTransSuccessful)"

definition totalRedeemedSum :: "ext \<Rightarrow> string \<Rightarrow> string action" where
  "totalRedeemedSum L rebateCriteriaId =
     callRedeemedSum L
       (\<lambda>r. rr_rebate_criteria_id r = rebateCriteriaId \<and> rr_status r = FulfilledTransSuccessful)"

definition setRebatesAsSynced :: "ext \<Rightarrow> string \<Rightarrow> unit action" where
  "setRebatesAsSynced L rebateCriteriaId =
     io_bind (now L)
       (\<lambda>t. io_then
         (updateWhere RebateRepository L
           (\<lambda>r. rr_rebate_criteria_id r = rebateCriteriaId \<and> rr_status r = FulfilledTransSuccessful)
           [LastMopSync t])
         (io_return ()))"

definition findRebatesForUserForRebateCriteria ::
  "ext \<Rightarrow> string \<Rightarrow> string \<Rightarrow> TransactionStatus option \<Rightarrow> RedemptionLimitType nullable \<Rightarrow> string \<Rightarrow>
    IRebate list action" where
  "findRebatesForUserForRebateCriteria L userId rebateCriteriaId status limitType onCard =
     findAll RebateRepository L
       (\<lambda>r. rr_rebate_criteria_id r = rebateCriteriaId \<and> rr_user_id r = userId \<and>
            (case status of None \<Rightarrow> True | Some s \<Rightarrow> rr_status r = s) \<and>
            (limitType = Value PerCard \<longrightarrow> rr_card r = onCard))"

definition rebatesPendingExportStart :: "ext \<Rightarrow> IRebateExport list action" where
  "rebatesPendingExportStart L =
     io_then
       (updateWhere RebateRepository L (\<lambda>r. rr_status r = PendingExtraction) [RebateStatus ExtractionStarted])
       (io_bind (findAll RebateRepository L (\<lambda>r. rr_status r = ExtractionStarted))
         (\<lambda>rebatesToExport. io_return (map (RebateExportSerializer_serialize L) rebatesToExport)))"

definition resetRebatesOnError :: "ext \<Rightarrow> unit action" where
  "resetRebatesOnError L =
     io_then
       (updateWhere RebateRepository L (\<lambda>r. rr_status r = ExtractionStarted) [RebateStatus PendingExtraction])
       (io_return ())"

definition displayRebatesPendingExport :: "ext \<Rightarrow> IRebate list action" where
  "displayRebatesPendingExport L = findAll RebateRepository L (\<lambda>r. rr_status r = PendingExtraction)"

definition getRebatesPendingExport :: "ext \<Rightarrow> IRebate list action" where
  "getRebatesPendingExport L = findAll RebateRepository L (\<lambda>r. rr_status r = ExtractionStarted)"

text \<open>The identifiers of the rows written, as the statement returns them.\<close>

definition rebatesPendingExportEnd :: "ext \<Rightarrow> string list action" where
  "rebatesPendingExportEnd L =
     io_bind (now L)
       (\<lambda>t. io_bind
         (updateWhere RebateRepository L (\<lambda>r. rr_status r = ExtractionStarted)
           [RebateStatus PendingFulfillment, DeliveredAt t])
         (\<lambda>raw. io_return (map show_nat (List.map_filter rr_id raw))))"

section \<open>Transactions\<close>

definition findAllPending :: "ext \<Rightarrow> ITransactionForRebateCriteria list action" where
  "findAllPending L = findAll TransactionForRebateCriteriaRepository L (\<lambda>r. tr_processed_at r = None)"

definition count_response :: "string nullable list \<Rightarrow> js_number action" where
  "count_response result =
     (case result of
        [c] \<Rightarrow> (case c of
            Value s \<Rightarrow> if s \<noteq> [] then io_return (parseInt s)
                       else io_throw (JsError ''Invalid response from count call'')
          | _ \<Rightarrow> io_throw (JsError ''Invalid response from count call''))
      | _ \<Rightarrow> io_throw (JsError ''Invalid response from count call''))"

definition numPending :: "ext \<Rightarrow> js_number action" where
  "numPending L =
     io_bind (query TransactionForRebateCriteriaRepository
         (\<lambda>n. orm_count_rows (transactions_orm L) n (\<lambda>r. tr_processed_at r = None)))
       count_response"

definition getTransactionsNotAssigned :: "ext \<Rightarrow> js_number action" where
  "getTransactionsNotAssigned L =
     io_bind (query TransactionForRebateCriteriaRepository
         (\<lambda>n. orm_count_rows (transactions_orm L) n
            (\<lambda>r. tr_processed_at r = None \<and> tr_processor_id r = None)))
       count_response"

text \<open>
  \<open>('x' || lpad(md5(user_id), 8, '0'))::bit(32)::int\<close>: the first eight digits of the hash as a 32-bit
  signed integer (\<open>lpad\<close> cuts a longer text).  \<open>%\<close> rounds towards zero.
\<close>

fun hex_nat :: "nat \<Rightarrow> string \<Rightarrow> nat" where
  "hex_nat a [] = a"
| "hex_nat a (c # cs) = hex_nat (16 * a + (case hex_value c of None \<Rightarrow> 0 | Some d \<Rightarrow> d)) cs"

definition lpad8 :: "string \<Rightarrow> string" where
  "lpad8 s = take 8 (replicate (8 - length s) (CHR ''0'') @ s)"

definition hash_int :: "ext \<Rightarrow> string \<Rightarrow> int" where
  "hash_int L user_id = sint (word_of_nat (hex_nat 0 (lpad8 (md5 L user_id))) :: 32 word)"

definition process_id :: "ext \<Rightarrow> nat \<Rightarrow> string \<Rightarrow> int" where
  "process_id L totalWorkers user_id = hash_int L user_id smod int totalWorkers"

definition processor_for :: "ext \<Rightarrow> nat \<Rightarrow> string \<Rightarrow> nat" where
  "processor_for L totalWorkers user_id =
     (let p = process_id L totalWorkers user_id in nat (if p < 0 then - p + 1 else p + 1))"

definition assignWorkerProcesses :: "ext \<Rightarrow> nat \<Rightarrow> unit action" where
  "assignWorkerProcesses L totalWorkers =
     io_then
       (execute TransactionForRebateCriteriaRepository
         (\<lambda>n rs. if totalWorkers = 0 \<and> rs \<noteq> [] then Inl (DbError ''division by zero'')
                 else orm_update (transactions_orm L) n (\<lambda>r. tr_processed_at r = None)
                        (\<lambda>r. r\<lparr>tr_processor_id := Some (processor_for L totalWorkers (tr_user_id r))\<rparr>) rs))
       (io_return ())"

definition getTransactionsAssignedToProcess :: "ext \<Rightarrow> nat \<Rightarrow> ITransactionForRebateCriteria list action" where
  "getTransactionsAssignedToProcess L processNum =
     io_bind (query TransactionForRebateCriteriaRepository
         (\<lambda>n. orm_find_by (transactions_orm L) n
            (\<lambda>r. tr_processed_at r = None \<and> tr_processor_id r = Some processNum) tr_transaction_date))
       (\<lambda>records. io_lift (traverse (deserialize_with TransactionForRebateCriteriaRepository L) records))"

section \<open>Products\<close>

definition getProductFromProductCodeExternal :: "ext \<Rightarrow> string \<Rightarrow> IProduct option action" where
  "getProductFromProductCodeExternal L code =
     io_bind (findAll ProductRepository L
         (\<lambda>r. prr_product_code_external__c r = code \<and> \<not> prr_isdeleted r))
       (\<lambda>product. case product of [] \<Rightarrow> io_return None | x # _ \<Rightarrow> io_return (Some x))"

section \<open>The user ledger\<close>

text \<open>
  \<open>SELECT DISTINCT ON (user_id) .. ORDER BY update_timestamp desc\<close> for one user: the latest row, if any.
  \<open>rawUser[0]\<close> of no row is \<open>undefined\<close>, which \<open>deserialize\<close> cannot read.
\<close>

definition ledger_rows :: "ext \<Rightarrow> (UserLedgerRecord \<Rightarrow> bool) \<Rightarrow> UserLedgerRecord list action" where
  "ledger_rows L p =
     query UserLedgerRepository
       (\<lambda>n. orm_find_by (userledger_orm L) n p (\<lambda>r. - lr_update_timestamp r))"

definition first_ledger :: "ext \<Rightarrow> UserLedgerRecord list \<Rightarrow> IUserLedger action" where
  "first_ledger L rawUser =
     (case rawUser of
        [] \<Rightarrow> io_throw TypeError
      | r # _ \<Rightarrow> io_lift (UserLedgerSerializer_deserialize L r))"

definition getStateAtDate :: "ext \<Rightarrow> string \<Rightarrow> date \<Rightarrow> IUserLedger action" where
  "getStateAtDate L userId lookupDate =
     io_bind
       (ledger_rows L (\<lambda>r. lr_user_id r = userId \<and> lr_update_timestamp r \<le> end_of_day L lookupDate))
       (first_ledger L)"

definition findUserLedgerRecord :: "ext \<Rightarrow> string \<Rightarrow> date \<Rightarrow> IUserLedger action" where
  "findUserLedgerRecord L user_id update_timestamp =
     io_bind
       (ledger_rows L (\<lambda>r. lr_user_id r = user_id \<and> lr_update_timestamp r = update_timestamp))
       (first_ledger L)"

text \<open>
  The deletion compares the time stamp only, with the one the inner query found for the user: the rows of
  other users with the same time stamp go too.
\<close>

definition deleteUserLedgerRecord :: "ext \<Rightarrow> string \<Rightarrow> date \<Rightarrow> unit action" where
  "deleteUserLedgerRecord L user_id update_timestamp =
     execute UserLedgerRepository
       (\<lambda>n rs. map_sum id (Pair ())
          (orm_delete (userledger_orm L) n
            (\<lambda>r. lr_update_timestamp r = update_timestamp \<and>
                 (\<exists>ul\<in>set rs. lr_user_id ul = user_id \<and> lr_update_timestamp ul = update_timestamp)) rs))"

section \<open>Facts\<close>

lemma frames_getStateAtDate [io_frame, intro]: "frames store (getStateAtDate L u t)"
  unfolding getStateAtDate_def ledger_rows_def first_ledger_def
  by (intro frames_bind frames_query frames_case_list frames_throw frames_lift)

lemma frames_findQualifyingTransactions [io_frame, intro]: "frames store (findQualifyingTransactions L x)"
  unfolding findQualifyingTransactions_def by (rule frames_findAll)

lemma frames_findRebatesForUser [io_frame, intro]:
  "frames store (findRebatesForUserForRebateCriteria L u c s t k)"
  unfolding findRebatesForUserForRebateCriteria_def by (rule frames_findAll)

lemma frames_getProduct [io_frame, intro]: "frames store (getProductFromProductCodeExternal L c)"
  unfolding getProductFromProductCodeExternal_def
  by (intro frames_bind frames_findAll frames_case_list frames_return)

lemma frames_count_response [intro]: "frames v (count_response r)"
  unfolding count_response_def
  by (auto split: list.split nullable.split intro!: frames_if frames_throw frames_return)

lemma frames_numPending [io_frame, intro]: "frames store (numPending L)"
  unfolding numPending_def by (intro frames_bind frames_query frames_count_response)

lemma numPending_value:
  assumes "orm_reads matches (transactions_orm L)" and "result_of (numPending L) w = Inr x"
  shows "x = Num (of_nat (length (filter (\<lambda>r. tr_processed_at r = None) (transactions (store w)))))"
proof -
  obtain xs where q: "orm_count_rows (transactions_orm L) (calls w) (\<lambda>r. tr_processed_at r = None)
      (transactions (store w)) = Inr xs"
    and r: "result_of (count_response xs) (tick w) = Inr x"
    using assms(2)
    by (auto simp: numPending_def io_simps TransactionForRebateCriteriaRepository_def split: sum.splits)
  from r show ?thesis
    unfolding orm_count_rows_text [OF assms(1) q] by (simp add: count_response_def)
qed

end
