(* ===== verification/Reference.thy ===== *)
theory Reference
  imports Decimals Repositories
begin

text \<open>
  A concrete instance of the outside: tables kept as lists, decimals printed and read as text.  It
  satisfies everything the model assumes of the outside (\<open>ref_ext_ok\<close>, \<open>ref_reliable\<close>), so the hypotheses
  of the properties hold together, and the examples evaluate on it.  \<open>failing\<close> is a mapper every request
  to which is refused.
\<close>

section \<open>Tables as lists\<close>

definition list_orm ::
  "(string \<Rightarrow> 'r \<Rightarrow> bool) \<Rightarrow> ('r \<Rightarrow> 'r list \<Rightarrow> 'r \<times> 'r list) \<Rightarrow> ('r \<Rightarrow> 'r) \<Rightarrow> 'r orm" where
  "list_orm matches save coerce =
     \<lparr>orm_findOne = (\<lambda>n i rs. Inr (List.find (matches i) rs)),
       orm_find = (\<lambda>n p rs. Inr (filter p rs)),
       orm_find_by = (\<lambda>n p f rs. Inr (sort_key f (filter p rs))),
       orm_count = (\<lambda>n p rs. Inr (length (filter p rs))),
       orm_count_rows = (\<lambda>n p rs. Inr [Value (show_nat (length (filter p rs)))]),
       orm_save = (\<lambda>n r rs. Inr (save r rs)),
       orm_update = (\<lambda>n p f rs. Inr (map (\<lambda>r. coerce (f r)) (filter p rs),
                                     map (\<lambda>r. if p r then coerce (f r) else r) rs)),
       orm_update_id = (\<lambda>n i f rs. Inr (map (\<lambda>r. coerce (f r)) (filter (matches i) rs),
                                        map (\<lambda>r. if matches i r then coerce (f r) else r) rs)),
       orm_delete = (\<lambda>n p rs. Inr (filter (\<lambda>r. \<not> p r) rs))\<rparr>"

definition failing :: "string \<Rightarrow> 'r orm" where
  "failing e =
     \<lparr>orm_findOne = (\<lambda>n i rs. Inl (DbError e)), orm_find = (\<lambda>n p rs. Inl (DbError e)),
       orm_find_by = (\<lambda>n p f rs. Inl (DbError e)), orm_count = (\<lambda>n p rs. Inl (DbError e)),
       orm_count_rows = (\<lambda>n p rs. Inl (DbError e)), orm_save = (\<lambda>n r rs. Inl (DbError e)),
       orm_update = (\<lambda>n p f rs. Inl (DbError e)), orm_update_id = (\<lambda>n i f rs. Inl (DbError e)),
       orm_delete = (\<lambda>n p rs. Inl (DbError e))\<rparr>"

definition next_key :: "('r \<Rightarrow> nat option) \<Rightarrow> 'r list \<Rightarrow> nat" where
  "next_key key rs = Suc (foldr (\<lambda>r m. case key r of None \<Rightarrow> m | Some k \<Rightarrow> max k m) rs 0)"

definition save_serial ::
  "('r \<Rightarrow> nat option) \<Rightarrow> (nat \<Rightarrow> 'r \<Rightarrow> 'r) \<Rightarrow> ('r \<Rightarrow> 'r) \<Rightarrow> 'r \<Rightarrow> 'r list \<Rightarrow> 'r \<times> 'r list" where
  "save_serial key with_key coerce r rs =
     (case key r of
        None \<Rightarrow> (let r' = with_key (next_key key rs) r in (r', rs @ [coerce r']))
      | Some k \<Rightarrow> (r, filter (\<lambda>x. key x \<noteq> Some k) rs @ [coerce r]))"

definition save_natural :: "('r \<Rightarrow> 'k) \<Rightarrow> 'r \<Rightarrow> 'r list \<Rightarrow> 'r \<times> 'r list" where
  "save_natural key r rs = (r, filter (\<lambda>x. key x \<noteq> key r) rs @ [r])"

definition save_merging :: "('r \<Rightarrow> 'k) \<Rightarrow> ('r option \<Rightarrow> 'r \<Rightarrow> 'r) \<Rightarrow> 'r \<Rightarrow> 'r list \<Rightarrow> 'r \<times> 'r list" where
  "save_merging key fill r rs = (r, filter (\<lambda>x. key x \<noteq> key r) rs @ [fill (row_before key r rs) r])"

lemma list_orm_simps [simp]:
  "orm_findOne (list_orm m s c) n i rs = Inr (List.find (m i) rs)"
  "orm_find (list_orm m s c) n p rs = Inr (filter p rs)"
  "orm_find_by (list_orm m s c) n p g rs = Inr (sort_key g (filter p rs))"
  "orm_count (list_orm m s c) n p rs = Inr (length (filter p rs))"
  "orm_count_rows (list_orm m s c) n p rs = Inr [Value (show_nat (length (filter p rs)))]"
  "orm_save (list_orm m s c) n r rs = Inr (s r rs)"
  "orm_update (list_orm m s c) n p f rs =
     Inr (map (\<lambda>r. c (f r)) (filter p rs), map (\<lambda>r. if p r then c (f r) else r) rs)"
  "orm_update_id (list_orm m s c) n i f rs =
     Inr (map (\<lambda>r. c (f r)) (filter (m i) rs), map (\<lambda>r. if m i r then c (f r) else r) rs)"
  "orm_delete (list_orm m s c) n p rs = Inr (filter (\<lambda>r. \<not> p r) rs)"
  by (simp_all add: list_orm_def)

lemma failing_simps [simp]:
  "orm_findOne (failing e) n i rs = Inl (DbError e)" "orm_find (failing e) n p rs = Inl (DbError e)"
  "orm_find_by (failing e) n p g rs = Inl (DbError e)" "orm_count (failing e) n p rs = Inl (DbError e)"
  "orm_count_rows (failing e) n p rs = Inl (DbError e)" "orm_save (failing e) n r rs = Inl (DbError e)"
  "orm_update (failing e) n p f rs = Inl (DbError e)" "orm_update_id (failing e) n i f rs = Inl (DbError e)"
  "orm_delete (failing e) n p rs = Inl (DbError e)"
  by (simp_all add: failing_def)

lemma next_key_fresh: "r \<in> set rs \<Longrightarrow> key r \<noteq> Some (next_key key rs)"
proof -
  have "r \<in> set rs \<Longrightarrow> key r = Some k \<Longrightarrow>
      k \<le> foldr (\<lambda>r m. case key r of None \<Rightarrow> m | Some k \<Rightarrow> max k m) rs 0" for k
    by (induction rs) (auto split: option.splits simp: le_max_iff_disj)
  then show "r \<in> set rs \<Longrightarrow> key r \<noteq> Some (next_key key rs)"
    unfolding next_key_def by fastforce
qed

lemma list_orm_reads [simp]: "orm_reads m (list_orm m s c)"
  by (auto simp: orm_reads_def find_Some_iff find_None_iff dest: nth_mem)

lemma list_orm_updates [simp]: "orm_updates m c (list_orm m s c)"
  by (auto simp: orm_updates_def)

lemma list_orm_saves_serial [simp]:
  "orm_saves_serial key with_key c (list_orm m (save_serial key with_key c) c)"
  unfolding orm_saves_serial_def
  by (auto simp: save_serial_def Let_def dest: next_key_fresh)

lemma list_orm_saves_natural [simp]: "orm_saves_natural key (list_orm m (save_natural key) c)"
  by (auto simp: orm_saves_natural_def save_natural_def)

lemma list_orm_merges [simp]: "orm_merges key fill (list_orm m (save_merging key fill) c)"
  by (auto simp: orm_merges_def save_merging_def)

lemma list_orm_reliable [simp]: "reliable_orm v a (list_orm m s c)"
  by (simp add: reliable_orm_def)

text \<open>A table that refuses some rows.\<close>

definition checked :: "('r \<Rightarrow> bool) \<Rightarrow> 'r orm \<Rightarrow> 'r orm" where
  "checked accepts D =
     D\<lparr>orm_save := (\<lambda>n r rs. if accepts r then orm_save D n r rs else Inl (DbError ''value out of range''))\<rparr>"

lemma checked_simps [simp]:
  "orm_findOne (checked a D) = orm_findOne D" "orm_find (checked a D) = orm_find D"
  "orm_find_by (checked a D) = orm_find_by D" "orm_count (checked a D) = orm_count D"
  "orm_count_rows (checked a D) = orm_count_rows D" "orm_update (checked a D) = orm_update D"
  "orm_update_id (checked a D) = orm_update_id D" "orm_delete (checked a D) = orm_delete D"
  "orm_save (checked a D) n r rs = (if a r then orm_save D n r rs else Inl (DbError ''value out of range''))"
  by (simp_all add: checked_def)

lemma checked_laws [simp]:
  "orm_reads m (checked a D) \<longleftrightarrow> orm_reads m D" "orm_updates m c (checked a D) \<longleftrightarrow> orm_updates m c D"
  "orm_checks a (checked a D)" "reliable_orm v a D \<Longrightarrow> reliable_orm v a (checked a D)"
  by (auto simp: orm_reads_def orm_updates_def orm_checks_def reliable_orm_def split: if_splits)

lemma checked_saves_serial [simp]:
  "orm_saves_serial key with_key c D \<Longrightarrow> orm_saves_serial key with_key c (checked a D)"
  unfolding orm_saves_serial_def by (auto split: if_splits)

section \<open>Decimals as text\<close>

definition ref_big_new :: "string \<Rightarrow> exn + rat" where
  "ref_big_new s =
     (case decimal_prefix s of
        Some (x, []) \<Rightarrow> Inr x
      | _ \<Rightarrow> Inl NumberError)"

definition ref_toFixed2 :: "rat \<Rightarrow> string" where
  "ref_toFixed2 x =
     (let c = \<lfloor>round_half_up 2 x * 100\<rfloor>; n = nat \<bar>c\<bar>
      in (if c < 0 then ''-'' else '''') @ show_nat (n div 100) @
         [CHR ''.'', digit_char (n div 10 mod 10), digit_char (n mod 10)])"

definition ref_toString :: "rat \<Rightarrow> string" where
  "ref_toString x =
     (let (p, q) = quotient_of x
      in if q = 1 then show_int p
         else show_int (p * 10 ^ nat q div q) @ ''e-'' @ show_nat (nat q))"

lemma decimal_prefix_two:
  assumes "a < 10" and "b < 10" and that: "sg = '''' \<or> sg = ''-''"
  shows "decimal_prefix (sg @ show_nat m @ [CHR ''.'', digit_char a, digit_char b]) =
    Some ((if sg = '''' then 1 else - 1) * (of_nat m + (of_nat a * 10 + of_nat b) / 100), [])"
proof -
  let ?r = "show_nat m @ [CHR ''.'', digit_char a, digit_char b]"
  have sp: "split_sign (sg @ ?r) = (if sg = '''' then 1 else - 1, ?r)"
    using that by (auto intro!: split_sign_digit simp: hd_append hd_show_nat)
  have tw: "takeWhile is_digit ?r = show_nat m" and dw: "dropWhile is_digit ?r = [CHR ''.'', digit_char a, digit_char b]"
    by (simp_all add: takeWhile_append2 dropWhile_append2 show_nat_digits)
  have "nat_of_digits [digit_char a, digit_char b] = 10 * a + b"
    using assms by (simp add: nat_of_digits_def)
  then show ?thesis
    unfolding decimal_prefix_def sp Let_def prod.case tw dw using assms
    by (auto simp: scale10_def power2_eq_square)
qed

lemma round_half_up_cents:
  assumes "c = \<lfloor>round_half_up 2 x * 100\<rfloor>"
  shows "round_half_up 2 x = of_int c / 100"
proof -
  have "\<exists>n. round_half_up 2 x * 100 = of_int n"
  proof (cases "0 \<le> x")
    case True
    then show ?thesis by (auto simp: round_half_up_def)
  next
    case False
    then have "round_half_up 2 x * 100 = of_int (- \<lfloor>- x * 10 ^ 2 + 1 / 2\<rfloor>)"
      by (simp add: round_half_up_def)
    then show ?thesis by blast
  qed
  with assms show ?thesis by auto
qed

lemma decimal_prefix_ref_toFixed2 [simp]:
  "decimal_prefix (ref_toFixed2 x) = Some (round_half_up 2 x, [])"
proof -
  define c where "c = \<lfloor>round_half_up 2 x * 100\<rfloor>"
  define n where "n = nat \<bar>c\<bar>"
  have r: "round_half_up 2 x = of_int c / 100" by (rule round_half_up_cents) (simp add: c_def)
  have "n div 100 = n div 10 div 10" by (simp add: div_mult2_eq [symmetric])
  then have "n = 100 * (n div 100) + (10 * (n div 10 mod 10) + n mod 10)"
    using div_mult_mod_eq [of n 10] div_mult_mod_eq [of "n div 10" 10] by linarith
  then have "(of_nat n :: rat) = of_nat (100 * (n div 100) + (10 * (n div 10 mod 10) + n mod 10))"
    by (rule arg_cong)
  also have "\<dots> = 100 * of_nat (n div 100) + (10 * of_nat (n div 10 mod 10) + of_nat (n mod 10))"
    by (simp only: of_nat_add of_nat_mult of_nat_numeral)
  finally have n: "of_nat (n div 100) + (of_nat (n div 10 mod 10) * 10 + of_nat (n mod 10)) / 100 = (of_nat n / 100 :: rat)"
    by (simp add: field_simps)
  have "of_int c = (if c < 0 then - 1 else 1) * (of_nat n :: rat)" by (simp add: n_def)
  moreover have "ref_toFixed2 x = (if c < 0 then ''-'' else '''') @ show_nat (n div 100) @
      [CHR ''.'', digit_char (n div 10 mod 10), digit_char (n mod 10)]"
    by (simp add: ref_toFixed2_def Let_def c_def n_def)
  ultimately show ?thesis
    unfolding r using decimal_prefix_two [of "n div 10 mod 10" "n mod 10" "if c < 0 then ''-'' else ''''" "n div 100"]
    by (simp add: n split: if_splits)
qed

lemma dvd_power_self: "0 < q \<Longrightarrow> q dvd a ^ d \<Longrightarrow> q dvd a ^ q" for q a :: nat
proof (induction q rule: less_induct)
  case (less q)
  show ?case
  proof (cases "q = 1")
    case False
    define g where "g = gcd q a"
    have "\<not> coprime q a"
    proof
      assume "coprime q a"
      then have "coprime q (a ^ d)" by simp
      then have "is_unit q" using less.prems(2) by (meson coprime_common_divisor dvd_refl)
      with False show False by simp
    qed
    then have g: "1 < g" using less.prems(1) by (simp add: g_def coprime_iff_gcd_eq_1 nat_neq_iff)
    obtain p where q: "q = g * p" using g_def gcd_dvd1 by (metis dvdE)
    have p: "0 < p" "p < q" using less.prems(1) g q by auto
    have "p dvd a ^ d" using less.prems(2) q by (metis dvd_mult_right)
    then have "p dvd a ^ p" using less.IH p by simp
    then have "g * p dvd a * a ^ p" by (intro mult_dvd_mono) (simp_all add: g_def)
    then have "q dvd a ^ Suc p" by (simp add: q)
    also have "a ^ Suc p dvd a ^ q" using p by (intro le_imp_power_dvd) simp
    finally show ?thesis .
  qed simp
qed

lemma split_sign_show_int: "split_sign (show_int i @ s) = (if i < 0 then - 1 else 1, show_nat (nat \<bar>i\<bar>) @ s)"
  by (auto simp: show_int_def intro!: split_sign_digit simp: hd_append hd_show_nat)

lemma decimal_prefix_show_int [simp]: "decimal_prefix (show_int i) = Some (of_int i, [])"
  using split_sign_show_int [of i "[]"] by (simp add: decimal_prefix_def scale10_def)

lemma decimal_prefix_exponent:
  "decimal_prefix (show_int i @ ''e-'' @ show_nat k) = Some (of_int i / 10 ^ k, [])"
proof -
  let ?r = "show_nat (nat \<bar>i\<bar>) @ ''e-'' @ show_nat k"
  have e: "\<not> is_digit (CHR ''e'')" by (simp add: is_digit_def)
  then have tw: "takeWhile is_digit ?r = show_nat (nat \<bar>i\<bar>)" and dw: "dropWhile is_digit ?r = ''e-'' @ show_nat k"
    by (simp_all add: show_nat_digits)
  have sx: "split_exponent (''e-'' @ show_nat k) = (- int k, [])"
    by (simp add: split_exponent_def)
  have "of_int i = (if i < 0 then - 1 else 1) * (of_nat (nat \<bar>i\<bar>) :: rat)" by simp
  then show ?thesis
    unfolding decimal_prefix_def split_sign_show_int Let_def prod.case tw dw
    using sx by (auto simp: scale10_def)
qed

lemma quotient_dvd_power:
  assumes "is_decimal x" and "quotient_of x = (p, q)"
  shows "q dvd 10 ^ nat q"
proof -
  have q: "0 < q" and c: "coprime p q" and x: "x = of_int p / of_int q"
    using assms(2) quotient_of_denom_pos quotient_of_coprime quotient_of_div by blast+
  obtain d n where "x * 10 ^ d = of_int n"
    using assms(1) unfolding is_decimal_altdef Ints_def by blast
  then have "of_int p * 10 ^ d = (of_int n * of_int q :: rat)" using x q by (simp add: field_simps)
  then have "p * 10 ^ d = n * q" by (metis of_int_eq_iff of_int_mult of_int_numeral of_int_power)
  then have "q dvd p * 10 ^ d" by simp
  with c have "q dvd 10 ^ d" by (metis coprime_commute coprime_dvd_mult_right_iff)
  then have "int (nat q) dvd int (10 ^ d)" using q by simp
  then have "nat q dvd 10 ^ d" by (simp only: int_dvd_int_iff)
  with q have "nat q dvd 10 ^ nat q" by (intro dvd_power_self) auto
  then have "int (nat q) dvd int (10 ^ nat q)" by (simp only: int_dvd_int_iff)
  with q show ?thesis by simp
qed

lemma decimal_prefix_ref_toString: "is_decimal x \<Longrightarrow> decimal_prefix (ref_toString x) = Some (x, [])"
proof -
  assume d: "is_decimal x"
  obtain p q where pq: "quotient_of x = (p, q)" by (cases "quotient_of x")
  then have q: "0 < q" and x: "x = of_int p / of_int q"
    using quotient_of_denom_pos quotient_of_div by blast+
  show ?thesis
  proof (cases "q = 1")
    case True
    then show ?thesis by (simp add: ref_toString_def pq x)
  next
    case False
    obtain m where m: "10 ^ nat q = q * m" using quotient_dvd_power [OF d pq] by blast
    then have m': "10 ^ nat q = (of_int q * of_int m :: rat)"
      by (metis of_int_mult of_int_numeral of_int_power)
    have "p * 10 ^ nat q div q = p * m" using q by (simp add: m mult.left_commute)
    then have "of_int (p * 10 ^ nat q div q) / 10 ^ nat q = x"
      using q m' m by (auto simp: x field_simps)
    with False show ?thesis
      unfolding ref_toString_def pq Let_def prod.case by (simp only: if_False decimal_prefix_exponent)
  qed
qed

section \<open>The instance\<close>

definition ref_numeric18_2 :: "string \<Rightarrow> string" where
  "ref_numeric18_2 s = (case ref_big_new s of Inl _ \<Rightarrow> s | Inr x \<Rightarrow> ref_toFixed2 x)"

definition ref_end_of_day :: "date \<Rightarrow> date" where
  "ref_end_of_day t = t - t mod 86400000 + 86399000"

definition ref_sum :: "string list \<Rightarrow> rat" where
  "ref_sum ss = sum_list (map (\<lambda>s. case ref_big_new s of Inr x \<Rightarrow> x | Inl _ \<Rightarrow> 0) ss)"

definition ref_columns ::
  "TransactionForRebateCriteriaRecord \<Rightarrow> TransactionForRebateCriteriaRecord" where
  "ref_columns r = r\<lparr>tr_amount := ref_numeric18_2 (tr_amount r)\<rparr>"

definition ref_rebate_columns :: "RebateRecord \<Rightarrow> RebateRecord" where
  "ref_rebate_columns r =
     r\<lparr>rr_amount := ref_numeric18_2 (rr_amount r),
       rr_fulfilled_amount := map_option ref_numeric18_2 (rr_fulfilled_amount r)\<rparr>"

definition ref_numeric18_2_in :: "string \<Rightarrow> bool" where
  "ref_numeric18_2_in s = (case ref_big_new s of Inl _ \<Rightarrow> False | Inr x \<Rightarrow> \<bar>round_half_up 2 x\<bar> < 10 ^ 16)"

definition ref_text_in :: "string \<Rightarrow> bool" where
  "ref_text_in s \<longleftrightarrow> list_all (\<lambda>c. c \<noteq> CHR 0x00) s"

definition ref_timestamptz_in :: "date \<Rightarrow> bool" where
  "ref_timestamptz_in t \<longleftrightarrow> - 210866803200000 \<le> t \<and> t < 9224318016000000"

definition ref_accepted :: "TransactionForRebateCriteriaRecord \<Rightarrow> bool" where
  "ref_accepted r \<longleftrightarrow>
     ref_numeric18_2_in (tr_amount r) \<and> - (2 ^ 31) \<le> tr_base_points r \<and> tr_base_points r < 2 ^ 31 \<and>
     ref_timestamptz_in (tr_transaction_date r) \<and> pred_option ref_timestamptz_in (tr_processed_at r) \<and>
     list_all ref_text_in
       [tr_transaction_id r, tr_account_id r, tr_user_id r, tr_rebate_criteria_id r, tr_card r,
        tr_transaction_currency r, tr_product_code_external r, tr_tsys_customer_id r] \<and>
     pred_option ref_text_in (tr_rebate_id r) \<and> pred_option ref_text_in (tr_transaction_postal_code r)"

definition ref_ext :: ext where
  "ref_ext =
     \<lparr>users_orm = list_orm (\<lambda>i r. ur_id r = i) (save_natural ur_id) (\<lambda>r. r),
       rebate_criteria_orm = list_orm (\<lambda>i r. cr_id r = i) (save_merging cr_id criteria_columns) (\<lambda>r. r),
       transactions_orm = checked ref_accepted
         (list_orm (serial_matches tr_id) (save_serial tr_id (\<lambda>k r. r\<lparr>tr_id := Some k\<rparr>) ref_columns) ref_columns),
       rebates_orm =
         list_orm (serial_matches rr_id) (save_serial rr_id (\<lambda>k r. r\<lparr>rr_id := Some k\<rparr>) ref_rebate_columns)
           ref_rebate_columns,
       export_details_orm =
         list_orm (serial_matches ed_id) (save_serial ed_id (\<lambda>k r. r\<lparr>ed_id := Some k\<rparr>) (\<lambda>r. r)) (\<lambda>r. r),
       import_details_orm =
         list_orm (serial_matches id_id) (save_serial id_id (\<lambda>k r. r\<lparr>id_id := Some k\<rparr>) (\<lambda>r. r)) (\<lambda>r. r),
       userledger_orm =
         list_orm (\<lambda>i r. lr_user_id r = i)
           (save_natural (\<lambda>r. (lr_user_id r, lr_update_timestamp r))) (\<lambda>r. r),
       offers_orm = list_orm (\<lambda>i r. or_id r = parseInt i) (save_natural or_id) (\<lambda>r. r),
       products_orm = list_orm (\<lambda>i r. int_key i = Some (prr_id r)) (save_natural prr_id) (\<lambda>r. r),
       rebate_journal_orm =
         list_orm (serial_matches jr_id) (save_serial jr_id (\<lambda>k r. r\<lparr>jr_id := Some k\<rparr>) (\<lambda>r. r)) (\<lambda>r. r),
       refund_reports_orm =
         list_orm (serial_matches fr_id) (save_serial fr_id (\<lambda>k r. r\<lparr>fr_id := Some k\<rparr>) (\<lambda>r. r)) (\<lambda>r. r),
       unfulfilled_reports_orm =
         list_orm (serial_matches nr_id) (save_serial nr_id (\<lambda>k r. r\<lparr>nr_id := Some k\<rparr>) (\<lambda>r. r)) (\<lambda>r. r),
       clock = (\<lambda>n. 1000 * int n), md5 = (\<lambda>s. s),
       sql_sum = (\<lambda>n p rs. let ss = fulfilled_amounts (filter p rs)
                           in Inr [if ss = [] then None else Some (ref_toString (ref_sum ss))]),
       numeric18_2 = ref_numeric18_2, numeric18_2_in = ref_numeric18_2_in, text_in = ref_text_in,
       timestamptz_in = ref_timestamptz_in,
       sql_numeric = (\<lambda>s. case ref_big_new s of Inr x \<Rightarrow> x | Inl _ \<Rightarrow> 0),
       double_plus = (+), big_new = ref_big_new, big_of_number = (\<lambda>n. Inr (of_int n)), big_times = (\<lambda>x y. x * y),
       big_round0 = round_half_up 0, big_toFixed2 = ref_toFixed2, big_toString = ref_toString,
       show_fraction = ref_toString, range_contains = (\<lambda>a b t. a \<le> t \<and> t \<le> b),
       add_days = (\<lambda>t n. t + n * 86400000), end_of_day = ref_end_of_day,
       format_date = (\<lambda>f t. show_int (if f = ''YYYY-MM-DD'' then t div 86400000 else t)), kafka_connect = (\<lambda>n. Inr ()), kafka_accepts = (\<lambda>n p. True),
       tmpdir = ''/tmp'', jsonexport = (\<lambda>n rows. Inr ()), csv_write = (\<lambda>n p. Inr ()),
       zip_write = (\<lambda>n p c. case c of None \<Rightarrow> Inl (ServiceError ''File not found'') | Some x \<Rightarrow> Inr x),
       sftp_connect = (\<lambda>n. Inr ()), sftp_end = (\<lambda>n. Inr ()), sftp_list = (\<lambda>n p. Inr []),
       sftp_put = (\<lambda>n c p. case c of None \<Rightarrow> Inl (ServiceError ''No such file'') | Some x \<Rightarrow> Inr x)\<rparr>"

lemma ref_big_new_Inr [simp]: "ref_big_new s = Inr x \<longleftrightarrow> decimal_prefix s = Some (x, [])"
  by (auto simp: ref_big_new_def split: option.splits list.splits prod.splits)

section \<open>It satisfies what is assumed\<close>

lemma ref_big_laws: "big_laws ref_ext"
  by (auto simp: big_laws_def ref_ext_def decimal_prefix_ref_toString intro: is_decimal_literal)

lemma ref_date_laws: "date_laws ref_ext"
  by (simp add: date_laws_def ref_ext_def)

lemma ref_sum_decimal: "is_decimal (ref_sum ss)"
  unfolding ref_sum_def
  by (rule is_decimal_sum_list) (auto split: sum.splits dest: is_decimal_literal)

lemma ref_big_new_literal [simp]: "decimal_prefix s = Some (x, []) \<Longrightarrow> ref_big_new s = Inr x"
  by simp

lemma decimal_prefix_zero [simp]: "decimal_prefix ''0.00'' = Some (0, [])"
  by code_simp

lemma ref_sql_laws: "sql_laws ref_ext"
  using ref_sum_decimal
  by (auto simp: sql_laws_def ref_ext_def Let_def sum_values_def decimal_prefix_ref_toString
      ref_sum_def [symmetric] split: sum.splits)

lemma ref_toFixed2_round [simp]: "ref_toFixed2 (round_half_up 2 x) = ref_toFixed2 x"
  by (simp add: ref_toFixed2_def)

lemma ref_numeric_toFixed2 [simp]: "ref_numeric18_2 (ref_toFixed2 x) = ref_toFixed2 x"
  by (simp add: ref_numeric18_2_def)

lemma ref_column_laws: "column_laws ref_ext"
proof -
  have "ref_numeric18_2 (ref_numeric18_2 s) = ref_numeric18_2 s" for s
  proof (cases "ref_big_new s")
    case (Inl e)
    then have "ref_numeric18_2 s = s" by (simp add: ref_numeric18_2_def)
    then show ?thesis by simp
  next
    case (Inr x)
    then have "ref_numeric18_2 s = ref_toFixed2 x" unfolding ref_numeric18_2_def by (simp only: sum.case)
    then show ?thesis by simp
  qed
  then show ?thesis by (simp add: column_laws_def ref_ext_def)
qed

lemma ref_columns_eq: "transaction_columns ref_ext = ref_columns" "rebate_columns ref_ext = ref_rebate_columns"
  by (simp_all add: fun_eq_iff transaction_columns_def ref_columns_def rebate_columns_def
      ref_rebate_columns_def ref_ext_def)

lemma ref_accepted_eq: "transaction_accepted ref_ext = ref_accepted"
  unfolding fun_eq_iff transaction_accepted_def ref_accepted_def by (simp add: ref_ext_def)

lemma ref_orm_selectors:
  "users_orm ref_ext = list_orm (\<lambda>i r. ur_id r = i) (save_natural ur_id) (\<lambda>r. r)"
  "rebate_criteria_orm ref_ext = list_orm (\<lambda>i r. cr_id r = i) (save_merging cr_id criteria_columns) (\<lambda>r. r)"
  "transactions_orm ref_ext = checked ref_accepted
     (list_orm (serial_matches tr_id) (save_serial tr_id (\<lambda>k r. r\<lparr>tr_id := Some k\<rparr>) ref_columns) ref_columns)"
  "rebates_orm ref_ext =
     list_orm (serial_matches rr_id) (save_serial rr_id (\<lambda>k r. r\<lparr>rr_id := Some k\<rparr>) ref_rebate_columns)
       ref_rebate_columns"
  "export_details_orm ref_ext =
     list_orm (serial_matches ed_id) (save_serial ed_id (\<lambda>k r. r\<lparr>ed_id := Some k\<rparr>) (\<lambda>r. r)) (\<lambda>r. r)"
  "import_details_orm ref_ext =
     list_orm (serial_matches id_id) (save_serial id_id (\<lambda>k r. r\<lparr>id_id := Some k\<rparr>) (\<lambda>r. r)) (\<lambda>r. r)"
  "userledger_orm ref_ext =
     list_orm (\<lambda>i r. lr_user_id r = i) (save_natural (\<lambda>r. (lr_user_id r, lr_update_timestamp r))) (\<lambda>r. r)"
  "offers_orm ref_ext = list_orm (\<lambda>i r. or_id r = parseInt i) (save_natural or_id) (\<lambda>r. r)"
  "products_orm ref_ext = list_orm (\<lambda>i r. int_key i = Some (prr_id r)) (save_natural prr_id) (\<lambda>r. r)"
  "rebate_journal_orm ref_ext =
     list_orm (serial_matches jr_id) (save_serial jr_id (\<lambda>k r. r\<lparr>jr_id := Some k\<rparr>) (\<lambda>r. r)) (\<lambda>r. r)"
  "refund_reports_orm ref_ext =
     list_orm (serial_matches fr_id) (save_serial fr_id (\<lambda>k r. r\<lparr>fr_id := Some k\<rparr>) (\<lambda>r. r)) (\<lambda>r. r)"
  "unfulfilled_reports_orm ref_ext =
     list_orm (serial_matches nr_id) (save_serial nr_id (\<lambda>k r. r\<lparr>nr_id := Some k\<rparr>) (\<lambda>r. r)) (\<lambda>r. r)"
  by (simp_all add: ref_ext_def)

lemma ref_ext_ok: "ext_ok ref_ext"
  unfolding ext_ok_def ref_columns_eq ref_accepted_eq ref_orm_selectors
  by (simp add: ref_big_laws ref_date_laws ref_sql_laws ref_column_laws)

lemma ref_reliable: "reliable ref_ext"
  unfolding reliable_def ref_accepted_eq ref_orm_selectors by (simp add: ref_ext_def Let_def)

lemma ref_files: "file_laws ref_ext" "reliable_files ref_ext"
  by (auto simp: file_laws_def reliable_files_def ref_ext_def Let_def split: option.splits)

section \<open>Sample data\<close>

definition sample_calculation :: IRewardCalculation where
  "sample_calculation = \<lparr>operand = ''-5'', operation = Addition, reward_unit = Dollars\<rparr>"

definition sample_criteria :: IRebateCriteria where
  "sample_criteria =
     \<lparr>rc_id = ''100'', rc_isRedeemable = True, rc_descriptionForTesting = None,
       rc_rewardCalculation = sample_calculation, rc_refundPeriodInDays = 30,
       rc_validFromDate = 0, rc_validToDate = 8640000000, rc_merchantId = ''77'',
       rc_hasBeenActivated = True, rc_requiresCustomerToBeLinked = False,
       rc_requiresCustomerToBeTargeted = False, rc_redemptionLimit = 1,
       rc_redemptionLimitType = Value Overall, rc_redemptionPeriodInDays = 10,
       rc_eligibleProducts = Value [], rc_redemptionBasedOn = ClientBased\<rparr>"

definition sample_product :: user_product where
  "sample_product =
     \<lparr>p_code = ''VISA'', p_ownershipType = Primary, p_accountId = ''acc1'',
       p_isEligibleClientProduct = ''1'', p_primaryAccountHashSRF = Undefined\<rparr>"

definition sample_user :: IUser where
  "sample_user =
     \<lparr>u_id = ''user1'', u_linkedOfferIds = [], u_targetedOfferIds = [], u_optInFileOffers = [],
       u_isEnrolled = True, u_isBlacklisted = False, u_creditCardProducts = [sample_product],
       u_debitCardProducts = []\<rparr>"

definition sample_transaction :: ITransactionForRebateCriteria where
  "sample_transaction =
     \<lparr>tx_id = Some 1, tx_transactionId = ''t1'', tx_accountId = ''acc1'', tx_userId = ''user1'',
       tx_rebateCriteriaId = ''100'', tx_rebateId = None, tx_amount = ''80.00'', tx_processedAt = None,
       tx_transactionType = Qualifying, tx_status = Pending, tx_card = ''4510'', tx_basePoints = 80,
       tx_cardType = CreditCard, tx_transactionDate = 86400000, tx_transactionCurrency = ''CAD'',
       tx_transactionPostalCode = None, tx_productCodeExternal = ''VISA'', tx_isManual = False,
       tx_tsysCustomerId = ''c1'', tx_refundReportCreated = False, tx_processorId = None\<rparr>"

definition empty_db :: db where
  "empty_db =
     \<lparr>users = [], rebate_criteria = [], transactions = [], rebates = [], export_details = [],
       import_details = [], userledger = [], offers = [], products_sf = [], rebate_journal = [],
       refund_reports = [], unfulfilled_reports = [], published = [], local_csv = Map.empty, local_zip = Map.empty,
       uploaded = []\<rparr>"

definition sample_db :: db where
  "sample_db = empty_db
     \<lparr>users := [UserSerializer_serialize sample_user],
      rebate_criteria := [RebateCriteriaSerializer_serialize sample_criteria],
      transactions := [TransactionForRebateCriteriaSerializer_serialize sample_transaction]\<rparr>"

definition sample_world :: world where
  "sample_world = \<lparr>calls = 0, store = sample_db\<rparr>"

end
