(* ===== verification/Rewards.thy ===== *)
theory Rewards
  imports Reference
begin

text \<open>
  From the terms of an offer to the amount of a rebate: \<open>RewardCalculationInterpretation\<close>
  (\<open>app/offer_import\<close>) turns the terms into a calculation when the offer arrives,
  \<open>RebateCalculation\<close> (\<open>app/transaction_processing\<close>) evaluates it for a transaction, and
  \<open>PendingRebateIssuance\<close> rounds the result.  Dollar amounts are stored negated and negated again.
\<close>

section \<open>Interpretation of the terms\<close>

definition DOLLAR_BENEFITS :: "OfferBenefitToCustomer list" where
  "DOLLAR_BENEFITS = [DollarsOff, PercentageOffForDollars]"

definition ABSOLUTE_BENEFITS :: "OfferBenefitToCustomer list" where
  "ABSOLUTE_BENEFITS = [DollarsOff, PointsTopUp]"

definition usesDollars :: "IOfferTerms \<Rightarrow> bool" where
  "usesDollars terms \<longleftrightarrow> benefitToCustomer terms \<in> set DOLLAR_BENEFITS"

definition isAbsolute :: "IOfferTerms \<Rightarrow> bool" where
  "isAbsolute terms \<longleftrightarrow> benefitToCustomer terms \<in> set ABSOLUTE_BENEFITS"

definition terms_operand :: "ext \<Rightarrow> IOfferTerms \<Rightarrow> exn + string" where
  "terms_operand L terms =
     (case big_new L (rebateAmount terms) of
        Inl e \<Rightarrow> Inl e
      | Inr amount \<Rightarrow>
          Inr (big_toString L (if usesDollars terms then big_times L amount (- 1) else amount)))"

definition terms_operation :: "IOfferTerms \<Rightarrow> ArithmeticOperation" where
  "terms_operation terms = (if isAbsolute terms then Addition else Multiplication)"

definition terms_unit :: "IOfferTerms \<Rightarrow> RewardType" where
  "terms_unit terms = (if usesDollars terms then Dollars else Points)"

definition RewardCalculationInterpretation_from :: "ext \<Rightarrow> IOfferTerms \<Rightarrow> exn + IRewardCalculation" where
  "RewardCalculationInterpretation_from L terms =
     (case terms_operand L terms of
        Inl e \<Rightarrow> Inl e
      | Inr s \<Rightarrow> Inr \<lparr>operand = s, operation = terms_operation terms, reward_unit = terms_unit terms\<rparr>)"

section \<open>Evaluation for a transaction\<close>

record RebateCalculationResult =
  calc_amount :: rat
  calc_explanation :: string

fun reward_type_text :: "RewardType \<Rightarrow> string" where
  "reward_type_text Dollars = ''dollars''"
| "reward_type_text Points = ''points''"

definition calculation_factor ::
  "ext \<Rightarrow> ITransactionForRebateCriteria \<Rightarrow> IRewardCalculation \<Rightarrow> exn + rat" where
  "calculation_factor L transaction rewardCalculation =
     (if reward_unit rewardCalculation = Dollars then big_new L (tx_amount transaction)
      else big_of_number L (tx_basePoints transaction))"

definition RebateCalculation_result ::
  "ext \<Rightarrow> ITransactionForRebateCriteria \<Rightarrow> IRewardCalculation \<Rightarrow> exn + RebateCalculationResult" where
  "RebateCalculation_result L transaction rewardCalculation =
     (case big_new L (operand rewardCalculation) of
        Inl e \<Rightarrow> Inl e
      | Inr x \<Rightarrow>
         (let amount = (if reward_unit rewardCalculation = Dollars then big_times L x (- 1) else x);
              start = ''Calculation: '' @ big_toString L amount @ '' '';
              due = reward_type_text (reward_unit rewardCalculation) @ '' due''
          in if operation rewardCalculation = Multiplication then
               (case calculation_factor L transaction rewardCalculation of
                  Inl e \<Rightarrow> Inl e
                | Inr f \<Rightarrow> Inr \<lparr>calc_amount = big_times L amount f,
                              calc_explanation = start @ ''* '' @ big_toString L f @ '' '' @ due\<rparr>)
             else Inr \<lparr>calc_amount = amount, calc_explanation = start @ due\<rparr>))"

section \<open>Rounding at issuance\<close>

definition properlyRoundedAmount :: "ext \<Rightarrow> rat \<Rightarrow> RewardType \<Rightarrow> string" where
  "properlyRoundedAmount L amount rewardType =
     (if rewardType = Points then big_toFixed2 L (big_round0 L amount) else big_toFixed2 L amount)"

section \<open>What a calculation yields\<close>

text \<open>The reward of the terms, for a transaction of \<open>t\<close> dollars earning \<open>b\<close> base points.\<close>

fun reward_due :: "OfferBenefitToCustomer \<Rightarrow> rat \<Rightarrow> rat \<Rightarrow> int \<Rightarrow> rat" where
  "reward_due DollarsOff a t b = a"
| "reward_due PercentageOffForDollars a t b = a * t"
| "reward_due PointsTopUp a t b = a"
| "reward_due _ a t b = a * of_int b"

lemma interpretation_operand:
  assumes "big_laws L" and "big_new L (rebateAmount terms) = Inr a"
  obtains s where
    "RewardCalculationInterpretation_from L terms =
       Inr \<lparr>operand = s, operation = terms_operation terms, reward_unit = terms_unit terms\<rparr>"
    and "big_new L s = Inr (if usesDollars terms then - a else a)"
proof -
  have d: "is_decimal a" using assms by (rule big_new_decimal)
  show thesis
    by (rule that)
      (use d assms in \<open>auto simp: RewardCalculationInterpretation_from_def terms_operand_def big_laws_D\<close>)
qed

lemma RebateCalculation_amount:
  assumes "big_laws L" and "big_new L (operand rc) = Inr x"
    and "calculation_factor L transaction rc = Inr f"
  shows "\<exists>r. RebateCalculation_result L transaction rc = Inr r \<and>
    calc_amount r = (if reward_unit rc = Dollars then - x else x) * (if operation rc = Multiplication then f else 1)"
  using assms
  by (cases "operation rc") (simp_all add: RebateCalculation_result_def Let_def big_laws_D)

text \<open>
  C19.  The two steps compose to the reward the offer promises: for terms whose amount is the decimal \<open>a\<close>
  and a transaction of \<open>t\<close> dollars and \<open>b\<close> base points, interpreting the terms and evaluating the
  calculation for the transaction both succeed, and the result is exactly \<open>reward_due\<close>: \<open>a\<close> for dollars
  off and for a points top up, \<open>a * t\<close> for a percentage off in dollars, \<open>a * b\<close> for the point
  multipliers.  The sign the dollar amounts are stored with cancels.
\<close>

theorem reward_is_what_the_terms_promise:
  assumes "big_laws L" and "big_new L (rebateAmount terms) = Inr a"
    and "big_new L (tx_amount transaction) = Inr t"
  shows "\<exists>rc r. RewardCalculationInterpretation_from L terms = Inr rc \<and>
    RebateCalculation_result L transaction rc = Inr r \<and>
    calc_amount r = reward_due (benefitToCustomer terms) a t (tx_basePoints transaction)"
proof -
  obtain s where rc: "RewardCalculationInterpretation_from L terms =
       Inr \<lparr>operand = s, operation = terms_operation terms, reward_unit = terms_unit terms\<rparr>"
    and s: "big_new L s = Inr (if usesDollars terms then - a else a)"
    using interpretation_operand [OF assms(1,2)] by blast
  let ?rc = "\<lparr>operand = s, operation = terms_operation terms, reward_unit = terms_unit terms\<rparr>"
  let ?f = "if usesDollars terms then t else of_int (tx_basePoints transaction)"
  have "calculation_factor L transaction ?rc = Inr ?f"
    using assms by (simp add: calculation_factor_def terms_unit_def big_of_number_law)
  with RebateCalculation_amount [OF assms(1), of ?rc _ transaction ?f] s
  obtain r where "RebateCalculation_result L transaction ?rc = Inr r"
    and "calc_amount r = a * (if terms_operation terms = Multiplication then ?f else 1)"
    by (auto simp: terms_unit_def split: if_splits)
  with rc show ?thesis
    by (cases "benefitToCustomer terms")
      (auto simp: usesDollars_def isAbsolute_def DOLLAR_BENEFITS_def ABSOLUTE_BENEFITS_def
        terms_operation_def)
qed

lemma reward_is_what_the_terms_promise_witness:
  "\<exists>rc r. RewardCalculationInterpretation_from ref_ext
        \<lparr>rebateAmount = ''0.05'', benefitToCustomer = PercentageOffForDollars\<rparr> = Inr rc \<and>
      RebateCalculation_result ref_ext sample_transaction rc = Inr r \<and> calc_amount r = 4"
proof -
  have "decimal_prefix ''0.05'' = Some (5 / 100, [])" and "decimal_prefix ''80.00'' = Some (80, [])"
    by code_simp+
  then show ?thesis
    using reward_is_what_the_terms_promise [OF ref_big_laws,
        of "\<lparr>rebateAmount = ''0.05'', benefitToCustomer = PercentageOffForDollars\<rparr>" "5 / 100"
          sample_transaction 80]
    by (simp add: sample_transaction_def ref_ext_def)
qed

end
