(* ===== verification/Eligibility.thy ===== *)
theory Eligibility
  imports Rewards
begin

text \<open>
  The checks of \<open>app/transaction_processing/qualifying_eligibility\<close>, each a question to the context of a
  qualifying transaction, and the look-ups of \<open>QualifyingStrategy\<close> that fill the context.

  The context is the strategy object: the transaction and what has been looked up so far.  A property of
  something not looked up yet is a property of \<open>undefined\<close>, which raises.

  Locale \<open>eligibility_check\<close> is what the strategy relies on: a check reads the database only and keeps the
  transaction; \<open>later_check\<close> adds that it keeps the offer found before.
\<close>

section \<open>The context\<close>

record qualifying_context =
  cx_transaction :: ITransactionForRebateCriteria
  cx_criteria :: "IRebateCriteria option"
  cx_user :: "IUser option"
  cx_product :: "user_product option"

definition new_context :: "ITransactionForRebateCriteria \<Rightarrow> qualifying_context" where
  "new_context transaction =
     \<lparr>cx_transaction = transaction, cx_criteria = None, cx_user = None, cx_product = None\<rparr>"

definition defined :: "'a option \<Rightarrow> 'a action" where
  "defined x = (case x of None \<Rightarrow> io_throw TypeError | Some y \<Rightarrow> io_return y)"

section \<open>Look-ups\<close>

definition findCriteria :: "ext \<Rightarrow> qualifying_context \<Rightarrow> (bool \<times> qualifying_context) action" where
  "findCriteria L c =
     io_bind (find RebateCriteriaRepository L (tx_rebateCriteriaId (cx_transaction c)))
       (\<lambda>criteria. io_return
          (case criteria of None \<Rightarrow> (False, c) | Some x \<Rightarrow> (True, c\<lparr>cx_criteria := Some x\<rparr>)))"

definition findUser :: "ext \<Rightarrow> qualifying_context \<Rightarrow> (bool \<times> qualifying_context) action" where
  "findUser L c =
     io_bind (find UserRepository L (tx_userId (cx_transaction c)))
       (\<lambda>user. io_return (case user of None \<Rightarrow> (False, c) | Some x \<Rightarrow> (True, c\<lparr>cx_user := Some x\<rparr>)))"

definition products_for :: "CardType \<Rightarrow> IUser \<Rightarrow> exn + user_product list" where
  "products_for cardType user =
     (case cardType of
        CreditCard \<Rightarrow> Inr (u_creditCardProducts user)
      | CheckingAccount \<Rightarrow> Inr (u_debitCardProducts user)
      | OtherCardType _ \<Rightarrow> Inl (JsError ''[RM] Card type not recognized''))"

definition findProduct :: "qualifying_context \<Rightarrow> (bool \<times> qualifying_context) action" where
  "findProduct c =
     io_bind (case tx_cardType (cx_transaction c) of
           OtherCardType t \<Rightarrow> io_throw (JsError ''[RM] Card type not recognized'')
         | cardType \<Rightarrow> io_bind (defined (cx_user c)) (\<lambda>user. io_lift (products_for cardType user)))
       (\<lambda>products. io_return
          (case filter (\<lambda>p. p_code p = tx_productCodeExternal (cx_transaction c) \<and>
                            p_accountId p = tx_accountId (cx_transaction c)) products of
             [] \<Rightarrow> (False, c)
           | product # _ \<Rightarrow> (True, c\<lparr>cx_product := Some product\<rparr>)))"

section \<open>Period, blacklist, block code\<close>

definition isWithinRedemptionPeriod ::
  "ext \<Rightarrow> IRebateCriteria \<Rightarrow> ITransactionForRebateCriteria \<Rightarrow> bool" where
  "isWithinRedemptionPeriod L criteria transaction \<longleftrightarrow>
     rc_hasBeenActivated criteria \<and> rc_isRedeemable criteria \<and>
     range_contains L (rc_validFromDate criteria) (rc_validToDate criteria) (tx_transactionDate transaction)"

definition OfferRedemptionPeriod_doesAccept :: "ext \<Rightarrow> qualifying_context \<Rightarrow> bool action" where
  "OfferRedemptionPeriod_doesAccept L c =
     io_bind (defined (cx_criteria c))
       (\<lambda>criteria. io_return (isWithinRedemptionPeriod L criteria (cx_transaction c)))"

definition Blacklist_doesAccept :: "qualifying_context \<Rightarrow> bool action" where
  "Blacklist_doesAccept c = io_bind (defined (cx_user c)) (\<lambda>user. io_return (\<not> u_isBlacklisted user))"

definition ProductBlockCode_doesAccept :: "qualifying_context \<Rightarrow> bool action" where
  "ProductBlockCode_doesAccept c =
     io_bind (defined (cx_product c)) (\<lambda>product. io_return (p_isEligibleClientProduct product = ''1''))"

section \<open>Targeting and linking\<close>

text \<open>\<open>includes\<close> of a list the state of the user does not have is a \<open>TypeError\<close>.\<close>

definition checkUserTargetingInLedger :: "IUserLedger \<Rightarrow> string \<Rightarrow> exn + bool" where
  "checkUserTargetingInLedger userState currentOffer =
     (case ul_targetedOffers userState of None \<Rightarrow> Inl TypeError | Some os \<Rightarrow> Inr (currentOffer \<in> set os))"

definition OfferTargeting_doesAccept :: "ext \<Rightarrow> qualifying_context \<Rightarrow> bool action" where
  "OfferTargeting_doesAccept L c =
     io_bind (defined (cx_criteria c))
       (\<lambda>criteria.
          if \<not> rc_requiresCustomerToBeTargeted criteria \<or> rc_redemptionBasedOn criteria = PreLoadedOptInFile
          then io_return True
          else io_bind (find UserRepository L (tx_userId (cx_transaction c)))
            (\<lambda>user. case user of
                 None \<Rightarrow> io_return False
               | Some _ \<Rightarrow> io_try
                   (io_bind (getStateAtDate L (tx_userId (cx_transaction c)) (tx_transactionDate (cx_transaction c)))
                     (\<lambda>userState. io_lift (checkUserTargetingInLedger userState (rc_id criteria))))
                   (\<lambda>_. io_return False)))"

definition checkUserLinkedInLedger :: "IUserLedger \<Rightarrow> string \<Rightarrow> exn + bool" where
  "checkUserLinkedInLedger userState currentOffer =
     (case ul_linkedOffers userState of None \<Rightarrow> Inl TypeError | Some os \<Rightarrow> Inr (currentOffer \<in> set os))"

text \<open>The first entry of the offer's products with the code.\<close>

definition offer_product :: "IRebateCriteria \<Rightarrow> string \<Rightarrow> IProductDocument option" where
  "offer_product criteria code =
     (case filter (\<lambda>(k, p). productCodeExternal p = code) (entries_of (rc_eligibleProducts criteria)) of
        [] \<Rightarrow> None
      | (k, p) # _ \<Rightarrow> Some p)"

text \<open>
  When no product of the offer has the code, the first test reads \<open>includes\<close> of \<open>undefined\<close>.
\<close>

definition shouldCheckLinkingToPrimary :: "user_product option \<Rightarrow> IRebateCriteria \<Rightarrow> exn + bool" where
  "shouldCheckLinkingToPrimary product criteria =
     (if rc_redemptionBasedOn criteria \<noteq> ProductOwnerShipBased then Inr False
      else case product of
          None \<Rightarrow> Inl TypeError
        | Some q \<Rightarrow>
            if p_ownershipType q \<noteq> AuthorizedUser then Inr False
            else case offer_product criteria (p_code q) of
                None \<Rightarrow> Inl TypeError
              | Some p \<Rightarrow> Inr (AuthorizedUser \<in> set (redeemableOwnershipType p) \<and>
                   Primary \<in> set (presentableOwnershipType p) \<and>
                   AuthorizedUser \<notin> set (presentableOwnershipType p)))"

text \<open>The text of a value that may be missing, inside a template string.\<close>

definition template_text :: "string nullable \<Rightarrow> string" where
  "template_text x = (case x of Undefined \<Rightarrow> ''undefined'' | Null \<Rightarrow> ''null'' | Value s \<Rightarrow> s)"

definition linking_user_id :: "qualifying_context \<Rightarrow> bool \<Rightarrow> string nullable action" where
  "linking_user_id c atPrimary =
     (if atPrimary then io_bind (defined (cx_product c)) (\<lambda>product. io_return (p_primaryAccountHashSRF product))
      else io_return (Value (tx_userId (cx_transaction c))))"

definition OfferLinking_doesAccept :: "ext \<Rightarrow> qualifying_context \<Rightarrow> bool action" where
  "OfferLinking_doesAccept L c =
     io_bind (defined (cx_criteria c))
       (\<lambda>criteria.
          if \<not> rc_requiresCustomerToBeLinked criteria then io_return True
          else case cx_user c of
              None \<Rightarrow> io_return False
            | Some user \<Rightarrow>
                io_bind (io_lift (shouldCheckLinkingToPrimary (cx_product c) criteria))
                  (\<lambda>atPrimary. io_bind (linking_user_id c atPrimary)
                    (\<lambda>userId.
                       if atPrimary \<and> (userId = Null \<or> userId = Value '''') then io_return False
                       else io_try
                         (io_bind (getStateAtDate L (template_text userId) (tx_transactionDate (cx_transaction c)))
                           (\<lambda>userState. io_lift (checkUserLinkedInLedger userState (rc_id criteria))))
                         (\<lambda>_. io_return False))))"

section \<open>Limit and reuse\<close>

definition checkRebateCanBeRedeemed :: "nat \<Rightarrow> IRebateCriteria \<Rightarrow> bool" where
  "checkRebateCanBeRedeemed numberOfRebates criteria \<longleftrightarrow>
     int numberOfRebates < rc_redemptionLimit criteria \<or> rc_redemptionLimit criteria = 0"

definition getRebatesByRedemptionLimitType ::
  "ext \<Rightarrow> ITransactionForRebateCriteria \<Rightarrow> RedemptionLimitType nullable \<Rightarrow> IRebate list action" where
  "getRebatesByRedemptionLimitType L transaction redemptionLimitType =
     findRebatesForUserForRebateCriteria L (tx_userId transaction) (tx_rebateCriteriaId transaction) None
       redemptionLimitType (tx_card transaction)"

definition RedemptionLimitValidation_transactionCheck :: "ext \<Rightarrow> qualifying_context \<Rightarrow> bool action" where
  "RedemptionLimitValidation_transactionCheck L c =
     io_bind (defined (cx_criteria c))
       (\<lambda>criteria. io_bind
          (getRebatesByRedemptionLimitType L (cx_transaction c) (rc_redemptionLimitType criteria))
          (\<lambda>rebates. io_return (checkRebateCanBeRedeemed (length rebates) criteria)))"

definition TransactionUsed_doesAccept :: "ext \<Rightarrow> qualifying_context \<Rightarrow> bool action" where
  "TransactionUsed_doesAccept L c =
     io_bind (findAll RebateRepository L
         (\<lambda>r. rr_account_transaction_id r = tx_transactionId (cx_transaction c)))
       (\<lambda>otherRebates. io_return (otherRebates = []))"

section \<open>Ownership and opt-in file\<close>

definition getOfferOwnershipTypes ::
  "IRebateCriteria \<Rightarrow> ITransactionForRebateCriteria \<Rightarrow> string \<Rightarrow> string \<Rightarrow> OwnershipType list option" where
  "getOfferOwnershipTypes criteria transaction userProductCode userProductAccountId =
     (case filter (\<lambda>(k, p). productCodeExternal p = userProductCode \<and>
                            tx_accountId transaction = userProductAccountId) (entries_of (rc_eligibleProducts criteria)) of
        [] \<Rightarrow> None
      | (k, p) # _ \<Rightarrow> Some (redeemableOwnershipType p))"

definition OfferProductOwnership_doesAccept :: "qualifying_context \<Rightarrow> bool action" where
  "OfferProductOwnership_doesAccept c =
     io_bind (defined (cx_criteria c))
       (\<lambda>criteria.
          if rc_redemptionBasedOn criteria \<noteq> ProductOwnerShipBased then io_return True
          else io_bind (defined (cx_product c))
            (\<lambda>product. io_return
               (case getOfferOwnershipTypes criteria (cx_transaction c) (p_code product) (p_accountId product) of
                  None \<Rightarrow> False
                | Some offerOwnershipTypes \<Rightarrow> p_ownershipType product \<in> set offerOwnershipTypes)))"

definition opted_in :: "IRebateCriteria \<Rightarrow> ITransactionForRebateCriteria \<Rightarrow> IOptInFileOffer \<Rightarrow> exn + bool" where
  "opted_in criteria transaction optInRecord =
     (let offerEligible = rc_id criteria \<in> set (oi_offers optInRecord)
      in case tx_cardType transaction of
           CreditCard \<Rightarrow> Inr (offerEligible \<and> oi_tsysAccountId optInRecord = tx_accountId transaction \<and>
                             oi_tsysCustomerId optInRecord = tx_tsysCustomerId transaction)
         | CheckingAccount \<Rightarrow> Inr (offerEligible \<and> oi_tsysAccountId optInRecord = tx_accountId transaction)
         | OtherCardType _ \<Rightarrow> Inl (JsError ''[RM] Card type not recognized''))"

definition OfferOptInFile_doesAccept :: "qualifying_context \<Rightarrow> bool action" where
  "OfferOptInFile_doesAccept c =
     io_bind (defined (cx_criteria c))
       (\<lambda>criteria.
          if rc_redemptionBasedOn criteria \<noteq> PreLoadedOptInFile then io_return True
          else io_bind (defined (cx_user c))
            (\<lambda>user. io_bind (io_lift (traverse (opted_in criteria (cx_transaction c)) (u_optInFileOffers user)))
              (\<lambda>eligible. io_return (True \<in> set eligible))))"

section \<open>What the strategy relies on\<close>

text \<open>A check that answers and leaves the context as it is.\<close>

definition ask :: "(qualifying_context \<Rightarrow> bool action) \<Rightarrow> qualifying_context \<Rightarrow>
    (bool \<times> qualifying_context) action" where
  "ask check c = io_bind (check c) (\<lambda>b. io_return (b, c))"

locale eligibility_check =
  fixes check :: "qualifying_context \<Rightarrow> (bool \<times> qualifying_context) action"
  assumes reads_only: "frames store (check c)"
    and keeps_transaction: "check c w = (Inr (b, c'), w') \<Longrightarrow> cx_transaction c' = cx_transaction c"
begin

lemma check_store: "check c w = (r, w') \<Longrightarrow> store w' = store w"
  by (rule frames_step [OF reads_only])

end

locale later_check = eligibility_check +
  assumes keeps_criteria: "check c w = (Inr (b, c'), w') \<Longrightarrow> cx_criteria c' = cx_criteria c"
begin

lemma keeps_offer:
  "check c w = (Inr (b, c'), w') \<Longrightarrow>
    cx_transaction c' = cx_transaction c \<and> cx_criteria c' = cx_criteria c \<and> store w' = store w"
  by (simp add: keeps_transaction keeps_criteria check_store)

end

lemma ask_Inr: "ask check c w = (Inr (b, c'), w') \<longleftrightarrow> c' = c \<and> check c w = (Inr b, w')"
  by (auto simp: ask_def io_bind_apply split: prod.splits sum.splits)

lemma frames_defined [io_frame, intro]: "frames v (defined x)"
  by (simp add: defined_def split: option.split) (simp add: frames_throw frames_return)

lemma later_check_ask: "(\<And>c. frames store (check c)) \<Longrightarrow> later_check (ask check)"
  by unfold_locales (simp_all add: ask_Inr, unfold ask_def, intro frames_bind frames_return)

lemmas frame_rules =
  frames_bind frames_return frames_throw frames_lift frames_defined frames_try frames_find frames_findAll
  frames_getStateAtDate frames_if frames_case_option

interpretation criteria_lookup: eligibility_check "findCriteria L"
  by unfold_locales
    (auto simp: findCriteria_def io_bind_apply intro!: frame_rules split: prod.splits sum.splits option.splits)

interpretation user_lookup: later_check "findUser L"
  by unfold_locales
    (auto simp: findUser_def io_bind_apply intro!: frame_rules split: prod.splits sum.splits option.splits)

interpretation product_lookup: later_check findProduct
  by unfold_locales
    (auto simp: findProduct_def io_bind_apply intro!: frame_rules
      split: CardType.split prod.splits sum.splits option.splits list.splits)

interpretation redemption_period: later_check "ask (OfferRedemptionPeriod_doesAccept L)"
  by (rule later_check_ask) (auto simp: OfferRedemptionPeriod_doesAccept_def intro!: frame_rules)

interpretation blacklist: later_check "ask Blacklist_doesAccept"
  by (rule later_check_ask) (auto simp: Blacklist_doesAccept_def intro!: frame_rules)

interpretation block_code: later_check "ask ProductBlockCode_doesAccept"
  by (rule later_check_ask) (auto simp: ProductBlockCode_doesAccept_def intro!: frame_rules)

interpretation targeting: later_check "ask (OfferTargeting_doesAccept L)"
  by (rule later_check_ask) (auto simp: OfferTargeting_doesAccept_def intro!: frame_rules)

interpretation linking: later_check "ask (OfferLinking_doesAccept L)"
  by (rule later_check_ask) (auto simp: OfferLinking_doesAccept_def linking_user_id_def intro!: frame_rules)

interpretation redemption_limit: later_check "ask (RedemptionLimitValidation_transactionCheck L)"
  by (rule later_check_ask)
    (auto simp: RedemptionLimitValidation_transactionCheck_def getRebatesByRedemptionLimitType_def
      findRebatesForUserForRebateCriteria_def intro!: frame_rules)

interpretation transaction_used: later_check "ask (TransactionUsed_doesAccept L)"
  by (rule later_check_ask) (auto simp: TransactionUsed_doesAccept_def intro!: frame_rules)

interpretation product_ownership: later_check "ask OfferProductOwnership_doesAccept"
  by (rule later_check_ask) (auto simp: OfferProductOwnership_doesAccept_def intro!: frame_rules)

interpretation opt_in_file: later_check "ask OfferOptInFile_doesAccept"
  by (rule later_check_ask) (auto simp: OfferOptInFile_doesAccept_def intro!: frame_rules)

end
