(* ===== verification/QualifyingStrategy.thy ===== *)
theory QualifyingStrategy
  imports Eligibility
begin

text \<open>
  \<open>QualifyingStrategy\<close> (\<open>app/transaction_processing/qualifying_strategy.ts\<close>) and
  \<open>PendingRebateIssuance\<close>: twelve checks in a row, each in its own \<open>try\<close>; the first that says no rejects
  the transaction with its status, the first that raises ends the work with the transaction as it was;
  when all say yes the rebate is calculated and issued.
\<close>

section \<open>Marking\<close>

text \<open>
  A failing update is logged and swallowed; the strategy's own transaction object changes only when the
  update has returned.
\<close>

definition markAsProcessed :: "ext \<Rightarrow> TransactionStatus \<Rightarrow> qualifying_context \<Rightarrow> qualifying_context action" where
  "markAsProcessed L status c =
     io_bind (now L)
       (\<lambda>t. io_try
         (io_then
           (update TransactionForRebateCriteriaRepository L (id_text (tx_id (cx_transaction c)))
             [ProcessedAt t, Status status])
           (io_return (c\<lparr>cx_transaction :=
              (cx_transaction c)\<lparr>tx_processedAt := Some t, tx_status := status\<rparr>\<rparr>)))
         (\<lambda>_. io_return c))"

definition markAsIneligble :: "ext \<Rightarrow> TransactionStatus \<Rightarrow> qualifying_context \<Rightarrow> unit action" where
  "markAsIneligble L status c = io_then (markAsProcessed L status c) (io_return ())"

definition markAsNoRebateDue :: "ext \<Rightarrow> qualifying_context \<Rightarrow> unit action" where
  "markAsNoRebateDue L c = io_then (markAsProcessed L RebateNotDue c) (io_return ())"

section \<open>Issuance\<close>

definition pending_rebate ::
  "ext \<Rightarrow> ITransactionForRebateCriteria \<Rightarrow> rat \<Rightarrow> RewardType \<Rightarrow> date \<Rightarrow> date \<Rightarrow> IRebate" where
  "pending_rebate L transaction amount rewardType issuedAt dispatchedAt =
     \<lparr>rb_id = ''PLACEHOLDER'', rb_userId = tx_userId transaction,
       rb_rebateCriteriaId = tx_rebateCriteriaId transaction, rb_accountId = tx_accountId transaction,
       rb_accountTransactionId = tx_transactionId transaction, rb_fulfilledTransactionId = None,
       rb_fulfilledDate = None, rb_fulfilledAmount = None,
       rb_amount = properlyRoundedAmount L amount rewardType, rb_rewardType = rewardType,
       rb_issuedAt = issuedAt, rb_status = PendingExtraction, rb_deliveredAt = None,
       rb_dispatchedAt = dispatchedAt, rb_card = tx_card transaction, rb_cardType = tx_cardType transaction,
       rb_lastMopSync = None, rb_qualifyingTransaction = transaction, rb_fulfillmentTransaction = None\<rparr>"

definition PendingRebateIssuance_perform ::
  "ext \<Rightarrow> ITransactionForRebateCriteria \<Rightarrow> rat \<Rightarrow> RewardType \<Rightarrow> IRebate action" where
  "PendingRebateIssuance_perform L transaction amount rewardType =
     io_bind (now L) (\<lambda>issuedAt. io_bind (now L)
       (\<lambda>dispatchedAt. insert RebateRepository L
          (pending_rebate L transaction amount rewardType issuedAt dispatchedAt)))"

text \<open>The issuance takes the strategy's transaction object, so it sees what the marking changed.\<close>

definition issueRebate :: "ext \<Rightarrow> rat \<Rightarrow> RewardType \<Rightarrow> qualifying_context \<Rightarrow> unit action" where
  "issueRebate L amount rewardType c =
     io_bind (markAsProcessed L RebateCreated c)
       (\<lambda>c'. io_then (PendingRebateIssuance_perform L (cx_transaction c') amount rewardType) (io_return ()))"

definition settle :: "ext \<Rightarrow> qualifying_context \<Rightarrow> unit action" where
  "settle L c =
     io_bind (defined (cx_criteria c))
       (\<lambda>criteria. io_bind
          (io_lift (RebateCalculation_result L (cx_transaction c) (rc_rewardCalculation criteria)))
          (\<lambda>calculation.
             if calc_amount calculation = 0 then markAsNoRebateDue L c
             else issueRebate L (calc_amount calculation) (reward_unit (rc_rewardCalculation criteria)) c))"

section \<open>The checks in order\<close>

type_synonym gate =
  "(qualifying_context \<Rightarrow> (bool \<times> qualifying_context) action) \<times> (qualifying_context \<Rightarrow> TransactionStatus action)"

definition limitStatus :: "qualifying_context \<Rightarrow> TransactionStatus action" where
  "limitStatus c =
     io_bind (defined (cx_criteria c))
       (\<lambda>criteria. io_return (if rc_redemptionLimitType criteria = Value PerCard
          then ClientReachedCardRedLimit else ClientReachedOverallRedLimit))"

definition ownershipStatus :: "qualifying_context \<Rightarrow> TransactionStatus action" where
  "ownershipStatus c =
     io_return (if tx_cardType (cx_transaction c) = CreditCard
       then CreditCardOwnerNotAuthorized else DebitCardOwnerNotAuthorized)"

definition later_gates :: "ext \<Rightarrow> gate list" where
  "later_gates L =
     [(findUser L, \<lambda>_. io_return CannotFindClient),
      (ask (OfferRedemptionPeriod_doesAccept L), \<lambda>_. io_return OfferNotWithinRedemptionPeriod),
      (ask Blacklist_doesAccept, \<lambda>_. io_return ClientBlacklisted),
      (findProduct, \<lambda>_. io_return UserProductForOfferNotFound),
      (ask ProductBlockCode_doesAccept, \<lambda>_. io_return ProductHasBlockCode),
      (ask (OfferTargeting_doesAccept L), \<lambda>_. io_return ClientIsNotTargeted),
      (ask (OfferLinking_doesAccept L), \<lambda>_. io_return ClientIsNotLinked),
      (ask (RedemptionLimitValidation_transactionCheck L), limitStatus),
      (ask (TransactionUsed_doesAccept L), \<lambda>_. io_return QualifiedTransUsedAlready),
      (ask OfferProductOwnership_doesAccept, ownershipStatus),
      (ask OfferOptInFile_doesAccept, \<lambda>_. io_return ClientNotInOptInFile)]"

definition gates :: "ext \<Rightarrow> gate list" where
  "gates L = (findCriteria L, \<lambda>_. io_return OfferNotFound) # later_gates L"

text \<open>
  One block of \<open>perform\<close>: the check, the rejection when it says no, and the \<open>catch\<close>.  The result is the
  context to go on with, or nothing when \<open>perform\<close> returns.
\<close>

definition pass_gate :: "ext \<Rightarrow> gate \<Rightarrow> qualifying_context \<Rightarrow> qualifying_context option action" where
  "pass_gate L g c =
     io_try
       (io_bind (fst g c)
         (\<lambda>(accepted, c').
            if accepted then io_return (Some c')
            else io_bind (snd g c')
              (\<lambda>status. io_then (markAsIneligble L status c') (io_return None))))
       (\<lambda>_. io_return None)"

fun pass_gates :: "ext \<Rightarrow> gate list \<Rightarrow> qualifying_context \<Rightarrow> qualifying_context option action" where
  "pass_gates L [] c = io_return (Some c)"
| "pass_gates L (g # gs) c =
     io_bind (pass_gate L g c)
       (\<lambda>r. case r of None \<Rightarrow> io_return None | Some c' \<Rightarrow> pass_gates L gs c')"

definition QualifyingStrategy_matches :: "ITransactionForRebateCriteria \<Rightarrow> bool" where
  "QualifyingStrategy_matches transaction \<longleftrightarrow> tx_transactionType transaction = Qualifying"

definition QualifyingStrategy_perform :: "ext \<Rightarrow> ITransactionForRebateCriteria \<Rightarrow> unit action" where
  "QualifyingStrategy_perform L transaction =
     io_bind (pass_gates L (gates L) (new_context transaction))
       (\<lambda>r. case r of
            None \<Rightarrow> io_return ()
          | Some c \<Rightarrow> io_try (settle L c) (\<lambda>_. io_return ()))"

section \<open>Errors stay inside\<close>

lemma never_raises_pass_gate: "never_raises (pass_gate L g c)"
  unfolding pass_gate_def by (intro never_raises_try never_raises_return)

lemma never_raises_pass_gates: "never_raises (pass_gates L gs c)"
  by (induction gs arbitrary: c)
    (auto intro!: never_raises_bind never_raises_pass_gate never_raises_case_option)

lemma qualifying_returns: "\<exists>u. result_of (QualifyingStrategy_perform L transaction) w = Inr u"
proof -
  have "never_raises (QualifyingStrategy_perform L transaction)"
    unfolding QualifyingStrategy_perform_def
    by (intro never_raises_bind never_raises_pass_gates never_raises_case_option never_raises_try
        never_raises_return)
  then show ?thesis by (simp add: never_raises_def)
qed

text \<open>
  C18.  Processing a qualifying transaction never raises: whatever fails inside (a look-up, a check, the
  calculation, a write), the promise \<open>QualifyingStrategy.perform\<close> returns is resolved.
\<close>

theorem qualifying_perform_never_raises: "\<exists>u. result_of (QualifyingStrategy_perform L transaction) w = Inr u"
  by (rule qualifying_returns)

section \<open>What a passed check has established\<close>

text \<open>A write to the transactions only.\<close>

lemma frames_markAsProcessed:
  "(\<And>rs d. v (d\<lparr>transactions := rs\<rparr>) = v d) \<Longrightarrow> frames (\<lambda>w. v (store w)) (markAsProcessed L s c)"
  unfolding markAsProcessed_def
  by (intro frames_bind frames_try frames_then frames_return frames_update frames_comp [OF frames_now])
    (simp_all add: TransactionForRebateCriteriaRepository_def)

lemma markAsProcessed_cases:
  "markAsProcessed L s c w =
     (case update TransactionForRebateCriteriaRepository L (id_text (tx_id (cx_transaction c)))
        [ProcessedAt (clock L (calls w)), Status s] (tick w) of
        (Inl e, w') \<Rightarrow> (Inr c, w')
      | (Inr u, w') \<Rightarrow> (Inr (c\<lparr>cx_transaction :=
          (cx_transaction c)\<lparr>tx_processedAt := Some (clock L (calls w)), tx_status := s\<rparr>\<rparr>), w'))"
  by (auto simp: markAsProcessed_def io_bind_apply io_try_apply io_then_apply now_apply
      split: prod.splits sum.splits)

lemma markAsProcessed_result:
  obtains c' w' where "markAsProcessed L s c w = (Inr c', w')"
    and "tx_transactionId (cx_transaction c') = tx_transactionId (cx_transaction c)"
    and "tx_userId (cx_transaction c') = tx_userId (cx_transaction c)"
    and "tx_rebateCriteriaId (cx_transaction c') = tx_rebateCriteriaId (cx_transaction c)"
    and "tx_card (cx_transaction c') = tx_card (cx_transaction c)"
proof (cases "update TransactionForRebateCriteriaRepository L (id_text (tx_id (cx_transaction c)))
    [ProcessedAt (clock L (calls w)), Status s] (tick w)")
  case (Pair r w')
  then show thesis by (cases r) (auto simp: markAsProcessed_cases intro!: that)
qed

lemma frames_markAsIneligble:
  "(\<And>s c. frames v (markAsProcessed L s c)) \<Longrightarrow> frames v (markAsIneligble L s c)"
  unfolding markAsIneligble_def by (intro frames_then frames_return)

definition gate_ok :: "gate \<Rightarrow> bool" where
  "gate_ok g \<longleftrightarrow> later_check (fst g) \<and> (\<forall>c. frames (\<lambda>w. w) (snd g c))"

lemma later_gates_ok: "\<forall>g\<in>set (later_gates L). gate_ok g"
  by (auto simp: later_gates_def gate_ok_def limitStatus_def ownershipStatus_def
      intro!: frames_bind frames_defined frames_return user_lookup.later_check_axioms
        product_lookup.later_check_axioms redemption_period.later_check_axioms blacklist.later_check_axioms
        block_code.later_check_axioms targeting.later_check_axioms linking.later_check_axioms
        redemption_limit.later_check_axioms transaction_used.later_check_axioms
        product_ownership.later_check_axioms opt_in_file.later_check_axioms)

text \<open>A gate that lets a context through has only read; the check said yes to it.\<close>

lemma pass_gate_Some:
  assumes "pass_gate L g c w = (Inr (Some c'), w')"
  shows "fst g c w = (Inr (True, c'), w')"
  using assms
  by (auto simp: pass_gate_def io_try_apply io_bind_apply io_then_apply split: prod.splits sum.splits if_splits)

lemma pass_gates_Some:
  assumes "pass_gates L gs c w = (Inr (Some c'), w')" and "\<forall>g\<in>set gs. gate_ok g"
  shows "cx_transaction c' = cx_transaction c \<and> cx_criteria c' = cx_criteria c \<and> store w' = store w"
  using assms
proof (induction gs arbitrary: c w)
  case Nil
  then show ?case by simp
next
  case (Cons g gs)
  obtain c1 w1 where g: "pass_gate L g c w = (Inr (Some c1), w1)"
    and rest: "pass_gates L gs c1 w1 = (Inr (Some c'), w')"
    using Cons.prems(1) by (auto elim!: io_bind_InrE split: option.splits)
  have "later_check (fst g)" using Cons.prems(2) by (simp add: gate_ok_def)
  from later_check.keeps_offer [OF this pass_gate_Some [OF g]] Cons.IH [OF rest] Cons.prems(2)
  show ?case by simp
qed

lemma pass_gates_accepted:
  assumes "pass_gates L gs c w = (Inr (Some c'), w')" and "\<forall>g\<in>set gs. gate_ok g" and "g \<in> set gs"
  obtains c1 w1 c2 w2 where "fst g c1 w1 = (Inr (True, c2), w2)" and "store w1 = store w"
    and "cx_transaction c1 = cx_transaction c" and "cx_criteria c1 = cx_criteria c"
  using assms
proof (induction gs arbitrary: c w)
  case Nil
  then show ?case by simp
next
  case (Cons h gs)
  obtain c1 w1 where h: "pass_gate L h c w = (Inr (Some c1), w1)"
    and rest: "pass_gates L gs c1 w1 = (Inr (Some c'), w')"
    using Cons.prems(2) by (auto elim!: io_bind_InrE split: option.splits)
  have "later_check (fst h)" using Cons.prems(3) by (simp add: gate_ok_def)
  from later_check.keeps_offer [OF this pass_gate_Some [OF h]]
  have keep: "cx_transaction c1 = cx_transaction c" "cx_criteria c1 = cx_criteria c" "store w1 = store w"
    by simp_all
  show ?case
  proof (cases "g = h")
    case True
    then show ?thesis using Cons.prems(1) pass_gate_Some [OF h] by blast
  next
    case False
    show ?thesis
      by (rule Cons.IH [OF _ rest]) (use Cons.prems keep False in auto)
  qed
qed

text \<open>
  All gates together: when they let the transaction through, the database is as it was, and every later
  check said yes to the offer found, in this database.
\<close>

lemma gates_passed:
  assumes "pass_gates L (gates L) (new_context transaction) w = (Inr (Some c), w')"
  obtains criteria w0 c0 where
    "find RebateCriteriaRepository L (tx_rebateCriteriaId transaction) w = (Inr (Some criteria), w0)"
    and "cx_transaction c0 = transaction" and "cx_criteria c0 = Some criteria" and "store w0 = store w"
    and "pass_gates L (later_gates L) c0 w0 = (Inr (Some c), w')"
    and "cx_transaction c = transaction" and "cx_criteria c = Some criteria" and "store w' = store w"
proof -
  obtain c0 w0 where g: "pass_gate L (findCriteria L, \<lambda>_. io_return OfferNotFound) (new_context transaction) w
      = (Inr (Some c0), w0)"
    and rest: "pass_gates L (later_gates L) c0 w0 = (Inr (Some c), w')"
    using assms by (auto simp: gates_def elim!: io_bind_InrE split: option.splits)
  have f: "findCriteria L (new_context transaction) w = (Inr (True, c0), w0)"
    using pass_gate_Some [OF g] by simp
  then obtain criteria where
    "find RebateCriteriaRepository L (tx_rebateCriteriaId transaction) w = (Inr (Some criteria), w0)"
    and "c0 = (new_context transaction)\<lparr>cx_criteria := Some criteria\<rparr>"
    by (auto simp: findCriteria_def new_context_def elim!: io_bind_InrE split: option.splits)
  moreover have "store w0 = store w" by (rule criteria_lookup.check_store [OF f])
  moreover note pass_gates_Some [OF rest later_gates_ok]
  ultimately show thesis by (intro that [OF _ _ _ _ rest]) (simp_all add: new_context_def)
qed

lemma gates_accepted:
  assumes "pass_gates L (gates L) (new_context transaction) w = (Inr (Some c), w')"
    and "g \<in> set (later_gates L)"
  obtains criteria w0 c1 w1 c2 w2 where
    "find RebateCriteriaRepository L (tx_rebateCriteriaId transaction) w = (Inr (Some criteria), w0)"
    and "fst g c1 w1 = (Inr (True, c2), w2)" and "store w1 = store w"
    and "cx_transaction c1 = transaction" and "cx_criteria c1 = Some criteria"
proof -
  obtain criteria w0 c0 where *:
    "find RebateCriteriaRepository L (tx_rebateCriteriaId transaction) w = (Inr (Some criteria), w0)"
    "cx_transaction c0 = transaction" "cx_criteria c0 = Some criteria" "store w0 = store w"
    "pass_gates L (later_gates L) c0 w0 = (Inr (Some c), w')"
    using gates_passed [OF assms(1)] by metis
  from pass_gates_accepted [OF *(5) later_gates_ok assms(2)] obtain c1 w1 c2 w2 where
    "fst g c1 w1 = (Inr (True, c2), w2)" "store w1 = store w0"
    "cx_transaction c1 = cx_transaction c0" "cx_criteria c1 = cx_criteria c0" .
  with * that show thesis by simp
qed

section \<open>Effect on the rebates\<close>

text \<open>Until the issuance, the transactions are marked and nothing else is written.\<close>

lemma frames_pass_gate:
  assumes "\<And>c. frames store (fst g c)" and "\<And>c. frames (\<lambda>w. w) (snd g c)"
    and m: "\<And>s c. frames (\<lambda>w. v (store w)) (markAsProcessed L s c)"
  shows "frames (\<lambda>w. v (store w)) (pass_gate L g c)"
  unfolding pass_gate_def
  by (intro frames_try frames_bind frames_comp [OF assms(1)] frames_return)
    (auto intro!: frames_return frames_bind frames_then frames_markAsIneligble m
        frames_comp [where f = "\<lambda>w. v (store w)", OF assms(2)])

lemma frames_pass_gates:
  assumes m: "\<And>s c. frames (\<lambda>w. v (store w)) (markAsProcessed L s c)"
  shows "\<forall>g\<in>set gs. gate_ok g \<Longrightarrow> frames (\<lambda>w. v (store w)) (pass_gates L gs c)"
proof (induction gs arbitrary: c)
  case Nil
  show ?case unfolding pass_gates.simps by (rule frames_return)
next
  case (Cons g gs)
  then have "later_check (fst g)" and st: "\<And>c. frames (\<lambda>w. w) (snd g c)" by (auto simp: gate_ok_def)
  then have "\<And>c. frames store (fst g c)"
    using later_check.axioms(1) eligibility_check.reads_only by blast
  with st Cons show ?case
    by (auto intro!: frames_bind frames_pass_gate frames_case_option frames_return m)
qed

lemma frames_gates:
  assumes "\<And>s c. frames (\<lambda>w. v (store w)) (markAsProcessed L s c)"
  shows "frames (\<lambda>w. v (store w)) (pass_gates L (gates L) c)"
  unfolding gates_def pass_gates.simps
  by (intro frames_bind frames_pass_gate frames_case_option frames_return
      frames_pass_gates later_gates_ok assms)
    (simp_all only: fst_conv snd_conv criteria_lookup.reads_only frames_return)

lemma frames_settle:
  assumes "\<And>s c. frames (\<lambda>w. v (store w)) (markAsProcessed L s c)" and "\<And>rs d. v (d\<lparr>rebates := rs\<rparr>) = v d"
  shows "frames (\<lambda>w. v (store w)) (settle L c)"
  unfolding settle_def markAsNoRebateDue_def issueRebate_def PendingRebateIssuance_perform_def
  by (intro frames_bind frames_defined frames_lift frames_if frames_then
      frames_comp [OF frames_now] frames_insert frames_return assms)
    (simp add: RebateRepository_def assms)

lemma frames_perform:
  assumes "\<And>s c. frames (\<lambda>w. v (store w)) (markAsProcessed L s c)" and "\<And>rs d. v (d\<lparr>rebates := rs\<rparr>) = v d"
  shows "frames (\<lambda>w. v (store w)) (QualifyingStrategy_perform L transaction)"
  unfolding QualifyingStrategy_perform_def
  by (intro frames_bind frames_gates frames_case_option frames_try frames_settle frames_return assms)

text \<open>The row a rebate becomes.\<close>

definition issued_row ::
  "ext \<Rightarrow> ITransactionForRebateCriteria \<Rightarrow> rat \<Rightarrow> RewardType \<Rightarrow> date \<Rightarrow> date \<Rightarrow> nat \<Rightarrow> RebateRecord" where
  "issued_row L transaction amount rewardType t1 t2 k =
     rebate_columns L
       ((RebateSerializer_serialize (pending_rebate L transaction amount rewardType t1 t2))\<lparr>rr_id := Some k\<rparr>)"

lemma issued_row_fields [simp]:
  "rr_id (issued_row L x a rt t1 t2 k) = Some k"
  "rr_user_id (issued_row L x a rt t1 t2 k) = tx_userId x"
  "rr_rebate_criteria_id (issued_row L x a rt t1 t2 k) = tx_rebateCriteriaId x"
  "rr_account_transaction_id (issued_row L x a rt t1 t2 k) = tx_transactionId x"
  "rr_account_id (issued_row L x a rt t1 t2 k) = tx_accountId x"
  "rr_card (issued_row L x a rt t1 t2 k) = tx_card x"
  "rr_status (issued_row L x a rt t1 t2 k) = PendingExtraction"
  "rr_reward_type (issued_row L x a rt t1 t2 k) = rt"
  "rr_fulfilled_transaction_id (issued_row L x a rt t1 t2 k) = None"
  "rr_last_mop_sync (issued_row L x a rt t1 t2 k) = None"
  by (simp_all add: issued_row_def rebate_columns_def RebateSerializer_serialize_def pending_rebate_def)

lemma insert_rebate_raised:
  assumes "ext_ok L" and raised: "result_of (insert RebateRepository L p) w = Inl e"
  shows "store (state_of (insert RebateRepository L p) w) = store w"
proof (cases "orm_save (rebates_orm L) (calls w) (RebateSerializer_serialize p) (rebates (store w))")
  case (Inl e)
  then show ?thesis using rebate_table.insert_raised [of L w p] by (simp add: RebateRepository_def)
next
  case (Inr a)
  obtain r' rs' where saved: "orm_save (rebates_orm L) (calls w) (RebateSerializer_serialize p)
      (rebates (store w)) = Inr (r', rs')"
    using Inr by (cases a) simp
  obtain k where "r' = (RebateSerializer_serialize p)\<lparr>rr_id := Some k\<rparr>"
    by (rule orm_save_serial [OF rebates_saves [OF assms(1)] _ saved]) (simp add: RebateSerializer_serialize_def)
  then obtain y where "RebateSerializer_deserialize L r' = Inr y" by (simp add: RebateSerializer_deserialize_def)
  then have "result_of (insert RebateRepository L p) w = Inr y"
    using saved by (simp add: insert_def insertRecord_def execute_def io_bind_apply RebateRepository_def)
  with raised show ?thesis by simp
qed

lemma issuance_cases:
  assumes "ext_ok L"
  obtains (raised) e where "result_of (PendingRebateIssuance_perform L x a rt) w = Inl e"
      and "store (state_of (PendingRebateIssuance_perform L x a rt) w) = store w"
  | (issued) y t1 t2 k where "result_of (PendingRebateIssuance_perform L x a rt) w = Inr y"
      and "\<forall>r\<in>set (rebates (store w)). rr_id r \<noteq> Some k"
      and "mset (rebates (store (state_of (PendingRebateIssuance_perform L x a rt) w))) =
        add_mset (issued_row L x a rt t1 t2 k) (mset (rebates (store w)))"
proof -
  define t1 where "t1 = clock L (calls w)"
  define t2 where "t2 = clock L (Suc (calls w))"
  define w2 where "w2 = tick (tick w)"
  define p where "p = pending_rebate L x a rt t1 t2"
  have run: "PendingRebateIssuance_perform L x a rt w = insert RebateRepository L p w2"
    by (simp add: PendingRebateIssuance_perform_def io_bind_apply now_apply t1_def t2_def p_def w2_def)
  have st: "store w2 = store w" by (simp add: w2_def)
  show thesis
  proof (cases "result_of (insert RebateRepository L p) w2")
    case (Inl e)
    with insert_rebate_raised [OF assms Inl] run raised st show thesis by simp
  next
    case (Inr y)
    have "orm_saves_serial rr_id (\<lambda>k r. r\<lparr>rr_id := Some k\<rparr>) (rebate_columns L) (orm_of RebateRepository L)"
      using rebates_saves [OF assms] by (simp add: RebateRepository_def)
    from rebate_table.insert_rows [OF this _ Inr] obtain k where
      "\<forall>r\<in>set (rebates (store w2)). rr_id r \<noteq> Some k"
      "mset (rebates (store (state_of (insert RebateRepository L p) w2))) =
        add_mset (issued_row L x a rt t1 t2 k) (mset (rebates (store w2)))"
      by (auto simp: RebateRepository_def RebateSerializer_serialize_def issued_row_def p_def)
    with Inr run st issued show thesis by simp
  qed
qed

text \<open>
  What processing does to the rebates: nothing, or all checks have let the transaction through and one row
  of its own is added, under a new number.
\<close>

lemma settle_cases:
  assumes "ext_ok L"
  obtains (same) "rebates (store (state_of (settle L c) w)) = rebates (store w)"
  | (issued) x a rt t1 t2 k where "tx_transactionId x = tx_transactionId (cx_transaction c)"
      and "tx_userId x = tx_userId (cx_transaction c)"
      and "tx_rebateCriteriaId x = tx_rebateCriteriaId (cx_transaction c)"
      and "tx_card x = tx_card (cx_transaction c)"
      and "\<forall>r\<in>set (rebates (store w)). rr_id r \<noteq> Some k"
      and "mset (rebates (store (state_of (settle L c) w))) =
        add_mset (issued_row L x a rt t1 t2 k) (mset (rebates (store w)))"
proof (cases "cx_criteria c")
  case None
  then show thesis using same by (simp add: settle_def io_bind_apply defined_def)
next
  case (Some criteria)
  show thesis
  proof (cases "RebateCalculation_result L (cx_transaction c) (rc_rewardCalculation criteria)")
    case (Inl e)
    with Some show thesis using same by (simp add: settle_def io_bind_apply defined_def)
  next
    case (Inr calc)
    let ?a = "calc_amount calc" and ?rt = "reward_unit (rc_rewardCalculation criteria)"
    have run: "settle L c w = (if ?a = 0 then markAsNoRebateDue L c w else issueRebate L ?a ?rt c w)"
      using Some Inr by (simp add: settle_def io_bind_apply defined_def)
    show thesis
    proof (cases "?a = 0")
      case True
      have "frames (\<lambda>w. rebates (store w)) (markAsNoRebateDue L c)"
        unfolding markAsNoRebateDue_def by (intro frames_then frames_markAsProcessed frames_return) simp
      with True run same show thesis by (simp add: frames_def)
    next
      case False
      obtain c' w' where m: "markAsProcessed L RebateCreated c w = (Inr c', w')"
        and c': "tx_transactionId (cx_transaction c') = tx_transactionId (cx_transaction c)"
          "tx_userId (cx_transaction c') = tx_userId (cx_transaction c)"
          "tx_rebateCriteriaId (cx_transaction c') = tx_rebateCriteriaId (cx_transaction c)"
          "tx_card (cx_transaction c') = tx_card (cx_transaction c)"
        by (rule markAsProcessed_result)
      have w': "rebates (store w') = rebates (store w)"
        using frames_step [OF frames_markAsProcessed m, of rebates] by simp
      have "rebates (store (state_of (settle L c) w)) =
          rebates (store (state_of (PendingRebateIssuance_perform L (cx_transaction c') ?a ?rt) w'))"
        using False run m by (auto simp: issueRebate_def io_bind_apply io_then_apply split: prod.splits sum.splits)
      then show thesis
        by (cases rule: issuance_cases [OF assms, of "cx_transaction c'" ?a ?rt w'])
          (use w' c' same issued in auto)
    qed
  qed
qed

lemma perform_cases:
  assumes "ext_ok L"
  obtains (same) "rebates (store (state_of (QualifyingStrategy_perform L transaction) w)) = rebates (store w)"
  | (issued) c w1 x a rt t1 t2 k
    where "pass_gates L (gates L) (new_context transaction) w = (Inr (Some c), w1)"
      and "tx_transactionId x = tx_transactionId transaction" and "tx_userId x = tx_userId transaction"
      and "tx_rebateCriteriaId x = tx_rebateCriteriaId transaction" and "tx_card x = tx_card transaction"
      and "\<forall>r\<in>set (rebates (store w)). rr_id r \<noteq> Some k"
      and "mset (rebates (store (state_of (QualifyingStrategy_perform L transaction) w))) =
        add_mset (issued_row L x a rt t1 t2 k) (mset (rebates (store w)))"
proof -
  obtain r w1 where p: "pass_gates L (gates L) (new_context transaction) w = (Inr r, w1)"
    using never_raisesD [OF never_raises_pass_gates] by metis
  have w1: "rebates (store w1) = rebates (store w)" using frames_step [OF frames_gates [of rebates, OF frames_markAsProcessed] p] by simp
  show thesis
  proof (cases r)
    case None
    then show thesis using p w1 same by (simp add: QualifyingStrategy_perform_def io_bind_apply)
  next
    case (Some c)
    have "store (state_of (QualifyingStrategy_perform L transaction) w) = store (state_of (settle L c) w1)"
      using p Some
      by (auto simp: QualifyingStrategy_perform_def io_bind_apply io_try_apply split: prod.splits sum.splits)
    moreover have "cx_transaction c = transaction" using gates_passed p Some by metis
    ultimately show thesis
      by (cases rule: settle_cases [OF assms, of c w1]) (use p Some w1 same issued in auto)
  qed
qed

section \<open>No transaction is rewarded twice\<close>

lemma rebates_reads_repo: "ext_ok L \<Longrightarrow> orm_reads (serial_matches rr_id) (orm_of RebateRepository L)"
  by (simp add: RebateRepository_def rebates_reads)

lemma criteria_reads_repo: "ext_ok L \<Longrightarrow> orm_reads (\<lambda>i r. cr_id r = i) (orm_of RebateCriteriaRepository L)"
  by (simp add: RebateCriteriaRepository_def criteria_reads)

lemma TransactionUsed_accepted:
  assumes "ext_ok L" and "TransactionUsed_doesAccept L c w = (Inr True, w')"
  shows "\<forall>r\<in>set (rebates (store w)). rr_account_transaction_id r \<noteq> tx_transactionId (cx_transaction c)"
proof -
  have "result_of (findAll RebateRepository L
      (\<lambda>r. rr_account_transaction_id r = tx_transactionId (cx_transaction c))) w = Inr []"
    using assms(2) by (auto simp: TransactionUsed_doesAccept_def elim!: io_bind_InrE)
  from findAll_empty [OF rebates_reads_repo [OF assms(1)] this] show ?thesis
    by (simp add: RebateRepository_def)
qed

lemma issued_transaction_unused:
  assumes "ext_ok L" and "pass_gates L (gates L) (new_context transaction) w = (Inr (Some c), w1)"
  shows "\<forall>r\<in>set (rebates (store w)). rr_account_transaction_id r \<noteq> tx_transactionId transaction"
proof -
  have "(ask (TransactionUsed_doesAccept L), \<lambda>_. io_return QualifiedTransUsedAlready) \<in> set (later_gates L)"
    by (simp add: later_gates_def)
  from gates_accepted [OF assms(2) this] obtain c1 w2 c2 w3 where
    "ask (TransactionUsed_doesAccept L) c1 w2 = (Inr (True, c2), w3)"
    and "store w2 = store w" and "cx_transaction c1 = transaction"
    by (metis fst_conv)
  with TransactionUsed_accepted [OF assms(1)] show ?thesis by (auto simp: ask_Inr)
qed

lemma qualifying_rebates_unique:
  assumes "ext_ok L" and "distinct (map rr_account_transaction_id (rebates (store w)))"
  shows "distinct (map rr_account_transaction_id
    (rebates (store (state_of (QualifyingStrategy_perform L transaction) w))))"
  using assms(1)
proof (cases rule: perform_cases [of L transaction w])
  case same
  then show ?thesis using assms(2) by simp
next
  case (issued c w1 x a rt t1 t2 k)
  have "distinct (map rr_account_transaction_id (issued_row L x a rt t1 t2 k # rebates (store w)))"
    using issued_transaction_unused [OF assms(1) issued(1)] assms(2) issued(2) by auto
  with issued(7) show ?thesis by (metis distinct_map_mset mset.simps(2))
qed

text \<open>
  C4.  No account transaction is rewarded twice: if no two rebates carry the same account transaction
  identifier before a qualifying transaction is processed, none do afterwards, whatever requests fail
  in between.
\<close>

theorem qualifying_perform_keeps_rebates_unique:
  assumes "ext_ok L" and "distinct (map rr_account_transaction_id (rebates (store w)))"
  shows "distinct (map rr_account_transaction_id
    (rebates (store (state_of (QualifyingStrategy_perform L transaction) w))))"
  by (rule qualifying_rebates_unique [OF assms])

lemma qualifying_perform_keeps_rebates_unique_witness:
  "distinct (map rr_account_transaction_id
    (rebates (store (state_of (QualifyingStrategy_perform ref_ext sample_transaction) sample_world))))"
  by (rule qualifying_perform_keeps_rebates_unique [OF ref_ext_ok])
    (simp add: sample_world_def sample_db_def empty_db_def)

section \<open>The redemption limit holds\<close>

text \<open>The rebates that count towards the limit of an offer, for a client and (when it is per card) a card.\<close>

definition counts_towards :: "RebateCriteriaRecord \<Rightarrow> string \<Rightarrow> string \<Rightarrow> RebateRecord \<Rightarrow> bool" where
  "counts_towards cr user onCard r \<longleftrightarrow>
     rr_rebate_criteria_id r = cr_id cr \<and> rr_user_id r = user \<and>
     (cr_redemption_limit_type cr = Value PerCard \<longrightarrow> rr_card r = onCard)"

definition within_limits :: "db \<Rightarrow> bool" where
  "within_limits d \<longleftrightarrow>
     (\<forall>cr\<in>set (rebate_criteria d). 0 < cr_redemption_limit cr \<longrightarrow>
        (\<forall>user onCard. int (length (filter (counts_towards cr user onCard) (rebates d))) \<le> cr_redemption_limit cr))"

lemma limit_accepted:
  assumes "ext_ok L" and "RedemptionLimitValidation_transactionCheck L c w = (Inr True, w')"
    and "cx_criteria c = Some criteria" and "0 < rc_redemptionLimit criteria"
  shows "int (length (filter (\<lambda>r. rr_rebate_criteria_id r = tx_rebateCriteriaId (cx_transaction c) \<and>
      rr_user_id r = tx_userId (cx_transaction c) \<and>
      (rc_redemptionLimitType criteria = Value PerCard \<longrightarrow> rr_card r = tx_card (cx_transaction c)))
      (rebates (store w)))) < rc_redemptionLimit criteria"
proof -
  obtain rs where "result_of (findAll RebateRepository L
      (\<lambda>r. rr_rebate_criteria_id r = tx_rebateCriteriaId (cx_transaction c) \<and>
        rr_user_id r = tx_userId (cx_transaction c) \<and>
        (rc_redemptionLimitType criteria = Value PerCard \<longrightarrow> rr_card r = tx_card (cx_transaction c)))) w = Inr rs"
    and "checkRebateCanBeRedeemed (length rs) criteria"
    using assms(2,3)
    by (auto simp: RedemptionLimitValidation_transactionCheck_def defined_def
        getRebatesByRedemptionLimitType_def findRebatesForUserForRebateCriteria_def elim!: io_bind_InrE)
  moreover from findAll_length [OF rebates_reads_repo [OF assms(1)] this(1)] assms(4) this(2)
  show ?thesis by (simp add: checkRebateCanBeRedeemed_def RebateRepository_def)
qed

lemma issued_below_limit:
  assumes "ext_ok L" and "pass_gates L (gates L) (new_context transaction) w = (Inr (Some c), w1)"
    and "distinct (map cr_id (rebate_criteria (store w)))"
    and "cr \<in> set (rebate_criteria (store w))" and "cr_id cr = tx_rebateCriteriaId transaction"
    and "0 < cr_redemption_limit cr"
  shows "int (length (filter (counts_towards cr (tx_userId transaction) (tx_card transaction))
    (rebates (store w)))) < cr_redemption_limit cr"
proof -
  have "(ask (RedemptionLimitValidation_transactionCheck L), limitStatus) \<in> set (later_gates L)"
    by (simp add: later_gates_def)
  from gates_accepted [OF assms(2) this] obtain criteria w0 c1 w2 c2 w3 where
    f: "find RebateCriteriaRepository L (tx_rebateCriteriaId transaction) w = (Inr (Some criteria), w0)"
    and "ask (RedemptionLimitValidation_transactionCheck L) c1 w2 = (Inr (True, c2), w3)"
    and w2: "store w2 = store w" and c1: "cx_transaction c1 = transaction" "cx_criteria c1 = Some criteria"
    by (metis fst_conv)
  then have accepted: "RedemptionLimitValidation_transactionCheck L c1 w2 = (Inr True, w3)"
    by (simp add: ask_Inr)
  from f have "result_of (find RebateCriteriaRepository L (tx_rebateCriteriaId transaction)) w = Inr (Some criteria)"
    by simp
  from find_Some [OF criteria_reads_repo [OF assms(1)] this] obtain r where
    "r \<in> set (rebate_criteria (store w))" "cr_id r = tx_rebateCriteriaId transaction"
    "RebateCriteriaSerializer_deserialize L r = Inr criteria"
    by (auto simp: RebateCriteriaRepository_def)
  moreover have "r = cr"
    using assms(3,4,5) calculation(1,2) by (metis distinct_map inj_onD)
  ultimately have "rc_redemptionLimit criteria = cr_redemption_limit cr"
    and "rc_redemptionLimitType criteria = cr_redemption_limit_type cr"
    by (auto simp: RebateCriteriaSerializer_deserialize_def Let_def)
  with limit_accepted [OF assms(1) accepted c1(2)] c1 w2 assms(5,6) show ?thesis
    by (simp add: counts_towards_def [abs_def])
qed

lemma qualifying_within_limits:
  assumes "ext_ok L" and "distinct (map cr_id (rebate_criteria (store w)))" and "within_limits (store w)"
  shows "within_limits (store (state_of (QualifyingStrategy_perform L transaction) w))"
proof -
  have cr: "rebate_criteria (store (state_of (QualifyingStrategy_perform L transaction) w)) = rebate_criteria (store w)"
    using framesD [OF frames_perform [of rebate_criteria, OF frames_markAsProcessed]] by simp
  show ?thesis
    using assms(1)
  proof (cases rule: perform_cases [of L transaction w])
    case same
    with assms(3) cr show ?thesis by (simp add: within_limits_def)
  next
    case (issued c w1 x a rt t1 t2 k)
    let ?d = "store (state_of (QualifyingStrategy_perform L transaction) w)"
    have bound: "int (length (filter (counts_towards q user onCard) (rebates ?d))) \<le> cr_redemption_limit q"
      if q: "q \<in> set (rebate_criteria (store w))" "0 < cr_redemption_limit q" for q user onCard
    proof -
      let ?r = "issued_row L x a rt t1 t2 k"
      have len: "length (filter (counts_towards q user onCard) (rebates ?d)) =
          length (filter (counts_towards q user onCard) (?r # rebates (store w)))"
        using issued(7) by (intro length_filter_mset) simp
      show ?thesis
      proof (cases "counts_towards q user onCard ?r")
        case False
        with len q assms(3) show ?thesis by (simp add: within_limits_def)
      next
        case True
        then have "counts_towards q user onCard = counts_towards q (tx_userId transaction) (tx_card transaction)"
          and "cr_id q = tx_rebateCriteriaId transaction"
          using issued(3-5) by (auto simp: counts_towards_def fun_eq_iff)
        with True len issued_below_limit [OF assms(1) issued(1) assms(2) q(1) _ q(2)] show ?thesis by simp
      qed
    qed
    with cr show ?thesis by (simp add: within_limits_def)
  qed
qed

text \<open>
  C5.  No client redeems an offer more often than its redemption limit: if every offer with a positive limit
  has at most that many rebates per client (per client and card, for a per-card limit) before a qualifying
  transaction is processed, the same holds afterwards, whatever requests fail in between.
\<close>

theorem qualifying_perform_keeps_limits:
  assumes "ext_ok L" and "distinct (map cr_id (rebate_criteria (store w)))" and "within_limits (store w)"
  shows "within_limits (store (state_of (QualifyingStrategy_perform L transaction) w))"
  by (rule qualifying_within_limits [OF assms])

lemma qualifying_perform_keeps_limits_witness:
  "within_limits (store (state_of (QualifyingStrategy_perform ref_ext sample_transaction) sample_world))"
  by (rule qualifying_perform_keeps_limits [OF ref_ext_ok])
    (simp_all add: sample_world_def sample_db_def empty_db_def within_limits_def
      RebateCriteriaSerializer_serialize_def sample_criteria_def)

end
