(* ===== verification/Verdict.thy ===== *)
theory Verdict
  imports QualifyingStrategy
begin

text \<open>
  The decision a qualifying transaction deserves, stated as a function of the database, and the proof that
  \<open>QualifyingStrategy\<close> implements it when the database answers: \<open>qualifying_verdict\<close> says reject with a
  status, no rebate due, issue a rebate, or stuck (an error ends the work and the transaction stays
  pending).

  \<open>decides f m\<close>: on a well-formed database the computation \<open>m\<close> answers \<open>f\<close> of the database and only reads.
  The rules for \<open>decides\<close> follow the structure of computations, so a check is translated into its function
  by them.
\<close>

section \<open>Well-formed databases\<close>

text \<open>The primary keys of the tables.\<close>

definition db_ok :: "db \<Rightarrow> bool" where
  "db_ok d \<longleftrightarrow>
     distinct (map ur_id (users d)) \<and> distinct (map cr_id (rebate_criteria d)) \<and>
     (\<forall>r\<in>set (rebates d). rr_id r \<noteq> None) \<and> distinct (map rr_id (rebates d)) \<and>
     (\<forall>r\<in>set (transactions d). tr_id r \<noteq> None) \<and> distinct (map tr_id (transactions d)) \<and>
     distinct (map (\<lambda>r. (lr_user_id r, lr_update_timestamp r)) (userledger d))"

section \<open>Computations that decide\<close>

definition decides :: "(db \<Rightarrow> exn + 'a) \<Rightarrow> 'a action \<Rightarrow> bool" where
  "decides f m \<longleftrightarrow>
     (\<forall>w. db_ok (store w) \<longrightarrow> result_of m w = f (store w) \<and> store (state_of m w) = store w)"

lemma decidesD:
  "decides f m \<Longrightarrow> db_ok (store w) \<Longrightarrow> \<exists>w'. m w = (f (store w), w') \<and> store w' = store w"
  unfolding decides_def by (metis prod.collapse)

lemma decidesI:
  "(\<And>w. db_ok (store w) \<Longrightarrow> \<exists>w'. m w = (f (store w), w') \<and> store w' = store w) \<Longrightarrow> decides f m"
  unfolding decides_def by (metis fst_conv snd_conv)

lemma decides_return: "decides (\<lambda>_. Inr x) (io_return x)"
  by (simp add: decides_def)

lemma decides_throw: "decides (\<lambda>_. Inl e) (io_throw e)"
  by (simp add: decides_def)

lemma decides_lift: "decides (\<lambda>_. r) (io_lift r)"
  by (simp add: decides_def)

lemma decides_defined: "decides (\<lambda>_. case x of None \<Rightarrow> Inl TypeError | Some y \<Rightarrow> Inr y) (defined x)"
  by (simp add: decides_def defined_def split: option.split)

lemma decides_bind:
  assumes "decides f m" and "\<And>x. decides (g x) (k x)"
  shows "decides (\<lambda>d. case f d of Inl e \<Rightarrow> Inl e | Inr x \<Rightarrow> g x d) (io_bind m k)"
proof (rule decidesI)
  fix w :: world assume ok: "db_ok (store w)"
  obtain w1 where m: "m w = (f (store w), w1)" and w1: "store w1 = store w"
    using decidesD [OF assms(1) ok] by blast
  show "\<exists>w'. io_bind m k w = ((case f (store w) of Inl e \<Rightarrow> Inl e | Inr x \<Rightarrow> g x (store w)), w') \<and>
      store w' = store w"
  proof (cases "f (store w)")
    case (Inl e)
    with m w1 show ?thesis by (simp add: io_bind_Inl)
  next
    case (Inr x)
    have "db_ok (store w1)" using ok w1 by simp
    from decidesD [OF assms(2) this] w1 Inr m show ?thesis by (simp add: io_bind_Inr)
  qed
qed

lemma decides_try:
  assumes "decides f m" and "\<And>e. decides (g e) (h e)"
  shows "decides (\<lambda>d. case f d of Inl e \<Rightarrow> g e d | Inr x \<Rightarrow> Inr x) (io_try m h)"
proof (rule decidesI)
  fix w :: world assume ok: "db_ok (store w)"
  obtain w1 where m: "m w = (f (store w), w1)" and w1: "store w1 = store w"
    using decidesD [OF assms(1) ok] by blast
  show "\<exists>w'. io_try m h w = ((case f (store w) of Inl e \<Rightarrow> g e (store w) | Inr x \<Rightarrow> Inr x), w') \<and>
      store w' = store w"
  proof (cases "f (store w)")
    case (Inl e)
    have "db_ok (store w1)" using ok w1 by simp
    from decidesD [OF assms(2) this] w1 Inl m show ?thesis by (simp add: io_try_Inl)
  next
    case (Inr x)
    with m w1 show ?thesis by (simp add: io_try_Inr)
  qed
qed

lemma decides_if:
  "decides f m \<Longrightarrow> decides g k \<Longrightarrow> decides (\<lambda>d. if b then f d else g d) (if b then m else k)"
  by simp

lemma decides_case_option:
  "decides f m \<Longrightarrow> (\<And>y. decides (g y) (k y)) \<Longrightarrow>
    decides (\<lambda>d. case x of None \<Rightarrow> f d | Some y \<Rightarrow> g y d) (case x of None \<Rightarrow> m | Some y \<Rightarrow> k y)"
  by (cases x) simp_all

lemma decides_cong: "decides f m \<Longrightarrow> (\<And>d. db_ok d \<Longrightarrow> f d = g d) \<Longrightarrow> decides g m"
  by (auto simp: decides_def)

section \<open>Look-ups decide\<close>

lemma find_decides:
  assumes "orm_reads matches (orm_of R L)" and "reliable_orm valid a (orm_of R L)" and "valid i"
    and unique: "\<And>d r s. db_ok d \<Longrightarrow> r \<in> set (rows_of R d) \<Longrightarrow> s \<in> set (rows_of R d) \<Longrightarrow>
      matches i r \<Longrightarrow> matches i s \<Longrightarrow> r = s"
  shows "decides (\<lambda>d. case List.find (matches i) (rows_of R d) of
      None \<Rightarrow> Inr None | Some r \<Rightarrow> map_sum id Some (deserialize_with R L r)) (find R L i)"
proof (rule decidesI)
  fix w :: world assume ok: "db_ok (store w)"
  obtain x where x: "orm_findOne (orm_of R L) (calls w) i (rows_of R (store w)) = Inr x"
    using reliable_findOne [OF assms(2,3)] by blast
  have "x = List.find (matches i) (rows_of R (store w))"
  proof (cases x)
    case None
    with orm_findOne_None [OF assms(1)] x show ?thesis by (auto simp: find_None_iff2)
  next
    case (Some r)
    with orm_findOne_Some [OF assms(1)] x have r: "r \<in> set (rows_of R (store w))" "matches i r" by blast+
    then obtain s where s: "List.find (matches i) (rows_of R (store w)) = Some s"
      using find_None_iff2 by fastforce
    then have "s \<in> set (rows_of R (store w))" "matches i s" by (auto simp: find_Some_iff)
    with unique [OF ok] r have "r = s" by simp
    with s Some show ?thesis by simp
  qed
  with x show "\<exists>w'. find R L i w = ((case List.find (matches i) (rows_of R (store w)) of
      None \<Rightarrow> Inr None | Some r \<Rightarrow> map_sum id Some (deserialize_with R L r)), w') \<and> store w' = store w"
    by (auto simp: find_cases split: option.splits)
qed

lemma findAll_length_decides:
  assumes "orm_reads matches (orm_of R L)" and "reliable_orm valid a (orm_of R L)"
    and total: "\<And>d r. db_ok d \<Longrightarrow> r \<in> set (rows_of R d) \<Longrightarrow> \<exists>x. deserialize_with R L r = Inr x"
  shows "decides (\<lambda>d. Inr (g (length (filter p (rows_of R d)))))
    (io_bind (findAll R L p) (\<lambda>xs. io_return (g (length xs))))"
proof (rule decidesI)
  fix w :: world assume ok: "db_ok (store w)"
  obtain rs where rs: "orm_find (orm_of R L) (calls w) p (rows_of R (store w)) = Inr rs"
    using reliable_find [OF assms(2)] by blast
  have "set rs \<subseteq> set (rows_of R (store w))"
    using mset_eq_set [OF orm_find_mset [OF assms(1) rs]] by auto
  with total [OF ok] obtain xs where xs: "traverse (deserialize_with R L) rs = Inr xs"
    using traverse_total [of rs "deserialize_with R L"] by blast
  then have run: "findAll R L p w = (Inr xs, tick w)" using rs by (simp add: findAll_cases)
  then have "length xs = length (filter p (rows_of R (store w)))"
    by (intro findAll_length [OF assms(1)]) simp
  with run show "\<exists>w'. io_bind (findAll R L p) (\<lambda>xs. io_return (g (length xs))) w =
      (Inr (g (length (filter p (rows_of R (store w))))), w') \<and> store w' = store w"
    by (simp add: io_bind_apply)
qed

definition criteria_in :: "ext \<Rightarrow> db \<Rightarrow> string \<Rightarrow> IRebateCriteria option" where
  "criteria_in L d i =
     map_option (\<lambda>r. projr (RebateCriteriaSerializer_deserialize L r))
       (List.find (\<lambda>r. cr_id r = i) (rebate_criteria d))"

definition user_in :: "ext \<Rightarrow> db \<Rightarrow> string \<Rightarrow> IUser option" where
  "user_in L d i =
     map_option (\<lambda>r. projr (UserSerializer_deserialize L r)) (List.find (\<lambda>r. ur_id r = i) (users d))"

lemma criteria_decides:
  assumes "ext_ok L" and "reliable L"
  shows "decides (\<lambda>d. Inr (criteria_in L d i)) (find RebateCriteriaRepository L i)"
  by (rule decides_cong [OF find_decides [OF criteria_reads_repo [OF assms(1)],
          where valid = "\<lambda>_. True" and a = "\<lambda>_. True"]])
    (auto simp: RebateCriteriaRepository_def reliable_criteria assms(2) db_ok_def criteria_in_def
      RebateCriteriaSerializer_deserialize_def Let_def distinct_map inj_on_def split: option.splits)

lemma users_reads_repo: "ext_ok L \<Longrightarrow> orm_reads (\<lambda>i r. ur_id r = i) (orm_of UserRepository L)"
  by (simp add: UserRepository_def users_reads)

lemma user_decides:
  assumes "ext_ok L" and "reliable L"
  shows "decides (\<lambda>d. Inr (user_in L d i)) (find UserRepository L i)"
  by (rule decides_cong [OF find_decides [OF users_reads_repo [OF assms(1)], where valid = "\<lambda>_. True" and a = "\<lambda>_. True"]])
    (auto simp: UserRepository_def reliable_users assms(2) db_ok_def user_in_def
      UserSerializer_deserialize_def distinct_map inj_on_def split: option.splits)

lemma reliable_rebates_repo: "reliable L \<Longrightarrow> reliable_orm (\<lambda>i. int_key i \<noteq> None) (\<lambda>_. True) (orm_of RebateRepository L)"
  unfolding RebateRepository_def repository.simps by (rule reliable_rebates)

lemma rebates_length_decides:
  assumes "ext_ok L" and "reliable L"
  shows "decides (\<lambda>d. Inr (g (length (filter p (rebates d)))))
    (io_bind (findAll RebateRepository L p) (\<lambda>xs. io_return (g (length xs))))"
proof -
  have "decides (\<lambda>d. Inr (g (length (filter p (rows_of RebateRepository d)))))
    (io_bind (findAll RebateRepository L p) (\<lambda>xs. io_return (g (length xs))))"
    by (rule findAll_length_decides [OF rebates_reads_repo [OF assms(1)]
          reliable_rebates_repo [OF assms(2)]])
      (auto simp: RebateRepository_def db_ok_def RebateSerializer_deserialize_def split: option.splits)
  then show ?thesis by (simp add: RebateRepository_def)
qed

lemma findAll_rebates_replies:
  assumes "ext_ok L" and "reliable L" and "db_ok (store w)"
  shows "\<exists>ys w'. findAll RebateRepository L p w = (Inr ys, w')"
  using decidesD [OF rebates_length_decides [OF assms(1,2), where g = id] assms(3)] by (metis io_bind_InrE)

text \<open>
  What the ledger says of an offer for a client on a day: whether the client's latest entry up to the end
  of the day lists the offer.
\<close>

definition ledger_upto :: "ext \<Rightarrow> string \<Rightarrow> date \<Rightarrow> UserLedgerRecord \<Rightarrow> bool" where
  "ledger_upto L user t r \<longleftrightarrow> lr_user_id r = user \<and> lr_update_timestamp r \<le> end_of_day L t"

definition ledger_says :: "(user_info \<Rightarrow> string list option) \<Rightarrow> ext \<Rightarrow> db \<Rightarrow> string \<Rightarrow> date \<Rightarrow> string \<Rightarrow> bool" where
  "ledger_says f L d user t offer \<longleftrightarrow>
     (\<exists>r\<in>set (userledger d). ledger_upto L user t r \<and>
        (\<forall>s\<in>set (userledger d). ledger_upto L user t s \<longrightarrow> lr_update_timestamp s \<le> lr_update_timestamp r) \<and>
        (\<exists>os. f (lr_user_info r) = Some os \<and> offer \<in> set os))"

lemma ledger_latest:
  assumes "db_ok d" and "mset (r # rs) = mset (filter (ledger_upto L user t) (userledger d))"
    and "sorted (map (\<lambda>r. - lr_update_timestamp r) (r # rs))"
  shows "ledger_says f L d user t offer \<longleftrightarrow> (\<exists>os. f (lr_user_info r) = Some os \<and> offer \<in> set os)"
proof -
  let ?up = "ledger_upto L user t"
  have rows: "set (r # rs) = {x \<in> set (userledger d). ?up x}"
    using mset_eq_set [OF assms(2)] by simp
  have latest: "\<forall>s\<in>set (userledger d). ?up s \<longrightarrow> lr_update_timestamp s \<le> lr_update_timestamp r"
    using assms(3) rows by auto
  have inj: "inj_on (\<lambda>r. (lr_user_id r, lr_update_timestamp r)) (set (userledger d))"
    using assms(1) by (simp add: db_ok_def distinct_map)
  have r: "r \<in> set (userledger d)" "?up r" using rows by auto
  have "s = r" if "s \<in> set (userledger d)" "?up s" "lr_update_timestamp r \<le> lr_update_timestamp s" for s
    using inj_onD [OF inj, of s r] that r latest by (fastforce simp: ledger_upto_def)
  with r latest show ?thesis unfolding ledger_says_def by blast
qed

lemma ledger_decides:
  assumes "ext_ok L" and "reliable L"
    and g: "\<And>r u. UserLedgerSerializer_deserialize L r = Inr u \<Longrightarrow> g u = f (lr_user_info r)"
  shows "decides (\<lambda>d. Inr (ledger_says f L d user t offer))
    (io_try (io_bind (getStateAtDate L user t) (\<lambda>u. io_lift (case g u of None \<Rightarrow> Inl TypeError | Some os \<Rightarrow> Inr (offer \<in> set os)))) (\<lambda>_. io_return False))"
proof (rule decidesI)
  fix w :: world assume ok: "db_ok (store w)"
  let ?p = "\<lambda>r. lr_user_id r = user \<and> lr_update_timestamp r \<le> end_of_day L t"
  have p: "?p = ledger_upto L user t" by (simp add: fun_eq_iff ledger_upto_def)
  obtain rs where rs: "orm_find_by (userledger_orm L) (calls w) ?p (\<lambda>r. - lr_update_timestamp r)
      (userledger (store w)) = Inr rs"
    using reliable_find_by [OF reliable_ledger [OF assms(2)]] by blast
  have run: "getStateAtDate L user t w = (result_of (first_ledger L rs) (tick w), tick w)"
    using rs
    by (simp add: getStateAtDate_def ledger_rows_def io_bind_apply query_apply UserLedgerRepository_def
        first_ledger_def split: list.split)
  note ms = orm_find_by_mset [OF ledger_reads [OF assms(1)] rs]
  note so = orm_find_by_sorted [OF ledger_reads [OF assms(1)] rs]
  show "\<exists>w'. io_try (io_bind (getStateAtDate L user t) (\<lambda>u. io_lift (case g u of None \<Rightarrow> Inl TypeError | Some os \<Rightarrow> Inr (offer \<in> set os))))
      (\<lambda>_. io_return False) w = (Inr (ledger_says f L (store w) user t offer), w') \<and> store w' = store w"
  proof (cases rs)
    case Nil
    with ms have "\<not> ledger_says f L (store w) user t offer"
      by (auto simp: ledger_says_def p filter_empty_conv)
    with Nil run show ?thesis by (simp add: io_try_apply io_bind_apply first_ledger_def)
  next
    case (Cons r rs')
    have "ledger_says f L (store w) user t offer \<longleftrightarrow> (\<exists>os. f (lr_user_info r) = Some os \<and> offer \<in> set os)"
      by (rule ledger_latest [OF ok]) (use Cons ms so p in simp_all)
    moreover obtain u where u: "UserLedgerSerializer_deserialize L r = Inr u"
      by (simp add: UserLedgerSerializer_deserialize_def Let_def)
    ultimately show ?thesis using Cons run g [OF u]
      by (auto simp: io_try_apply io_bind_apply first_ledger_def split: option.splits)
  qed
qed

end
