(* ===== verification/Validation.thy ===== *)
theory Validation
  imports Verdict
begin

text \<open>
  What fulfillments and refunds share: a list of states, the first of which that matches the context gives
  the transaction its status (\<open>FulfillmentValidation.result\<close>, \<open>RefundValidation.result\<close>), the update of
  the transaction (\<open>TransactionUpdate\<close>), and the events sent to Kafka
  (\<open>app/kafka/events/event_builder.ts\<close>, \<open>app/kafka/producers\<close>).

  Locale \<open>state_table\<close> is the contract of a list of states; both lists interpret it.
\<close>

section \<open>States in order\<close>

type_synonym 'c state_matcher = "'c \<Rightarrow> (bool \<times> 'c) action"

fun matching_status :: "('c state_matcher \<times> TransactionStatus) list \<Rightarrow> 'c \<Rightarrow> (TransactionStatus \<times> 'c) action" where
  "matching_status [] c = io_return (UnknownIssue, c)"
| "matching_status ((matcher, status) # states) c =
     io_bind (matcher c) (\<lambda>(matched, c'). if matched then io_return (status, c') else matching_status states c')"

definition validation_result ::
  "('c state_matcher \<times> TransactionStatus) list \<Rightarrow> 'c \<Rightarrow> (TransactionStatus \<times> 'c) action" where
  "validation_result states c =
     io_bind (matching_status states c)
       (\<lambda>(status, c'). if status = UnknownIssue then io_throw (JsError ''Cannot determine the state'')
                       else io_return (status, c'))"

locale state_table =
  fixes states :: "('c state_matcher \<times> TransactionStatus) list"
  assumes reads_only: "(matcher, status) \<in> set states \<Longrightarrow> frames store (matcher c)"
    and known: "(matcher, status) \<in> set states \<Longrightarrow> status \<noteq> UnknownIssue"
begin

lemma matching_status_in:
  "set ss \<subseteq> set states \<Longrightarrow> matching_status ss c w = (Inr (status, c'), w') \<Longrightarrow>
    status = UnknownIssue \<or> status \<in> snd ` set states"
proof (induction ss arbitrary: c w)
  case Nil
  then show ?case by simp
next
  case (Cons s ss)
  obtain m st where s: "s = (m, st)" by (cases s)
  with Cons.prems(2) obtain b c1 w1 where "m c w = (Inr (b, c1), w1)"
    and rest: "(if b then io_return (st, c1) else matching_status ss c1) w1 = (Inr (status, c'), w')"
    by (auto elim!: io_bind_InrE)
  show ?case
  proof (cases b)
    case True
    with rest Cons.prems(1) s show ?thesis by (force simp: image_iff)
  next
    case False
    with rest Cons show ?thesis by auto
  qed
qed

lemma frames_matching_status: "set ss \<subseteq> set states \<Longrightarrow> frames store (matching_status ss c)"
proof (induction ss arbitrary: c)
  case Nil
  show ?case unfolding matching_status.simps by (rule frames_return)
next
  case (Cons s ss)
  obtain m st where s: "s = (m, st)" by (cases s)
  with Cons.prems have "(m, st) \<in> set states" by simp
  with Cons s show ?case by (auto intro!: frames_bind frames_if frames_return reads_only)
qed

lemma validation_reads_only: "frames store (validation_result states c)"
  unfolding validation_result_def
  by (intro frames_bind frames_matching_status order_refl) (auto intro!: frames_throw frames_return)

text \<open>A validation that returns has found one of the table's statuses.\<close>

lemma validation_status:
  assumes "validation_result states c w = (Inr (status, c'), w')"
  shows "status \<in> snd ` set states"
  using assms
  by (force simp: validation_result_def image_iff elim!: io_bind_InrE split: if_splits
      dest!: matching_status_in [OF order_refl])

end

section \<open>Tables with a specification\<close>

text \<open>
  A test is what a state says of the database, when it can say it, and the status it stands for.  The
  status a list of tests gives a database is that of the first that holds.
\<close>

type_synonym status_test = "(db \<Rightarrow> bool) \<times> (db \<Rightarrow> bool) \<times> TransactionStatus"

fun first_status :: "status_test list \<Rightarrow> db \<Rightarrow> TransactionStatus" where
  "first_status [] d = UnknownIssue"
| "first_status ((f, g, status) # tests) d = (if f d then status else first_status tests d)"

fun can_tell :: "status_test list \<Rightarrow> db \<Rightarrow> bool" where
  "can_tell [] d = True"
| "can_tell ((f, g, status) # tests) d \<longleftrightarrow> g d \<and> (\<not> f d \<longrightarrow> can_tell tests d)"

text \<open>
  \<open>agrees d c\<close>: the context \<open>c\<close> is what the look-ups in \<open>d\<close> gave.  A matcher that returns says what its test
  says; one whose test can tell returns.
\<close>

definition tells_of :: "(db \<Rightarrow> 'c \<Rightarrow> bool) \<Rightarrow> (db \<Rightarrow> bool) \<Rightarrow> 'c state_matcher \<Rightarrow> bool" where
  "tells_of agrees f matcher \<longleftrightarrow>
     (\<forall>w c b c' w'. agrees (store w) c \<longrightarrow> matcher c w = (Inr (b, c'), w') \<longrightarrow>
        b = f (store w) \<and> agrees (store w) c')"

definition replies_of :: "(db \<Rightarrow> 'c \<Rightarrow> bool) \<Rightarrow> (db \<Rightarrow> bool) \<Rightarrow> 'c state_matcher \<Rightarrow> bool" where
  "replies_of agrees g matcher \<longleftrightarrow>
     (\<forall>w c. agrees (store w) c \<longrightarrow> g (store w) \<longrightarrow> (\<exists>r w'. matcher c w = (Inr r, w')))"

lemma tells_ofI:
  "(\<And>w c b c' w'. agrees (store w) c \<Longrightarrow> matcher c w = (Inr (b, c'), w') \<Longrightarrow>
     b = f (store w) \<and> agrees (store w) c') \<Longrightarrow> tells_of agrees f matcher"
  unfolding tells_of_def by blast

lemma tells_ofD:
  "tells_of agrees f matcher \<Longrightarrow> agrees (store w) c \<Longrightarrow> matcher c w = (Inr (b, c'), w') \<Longrightarrow>
    b = f (store w) \<and> agrees (store w) c'"
  unfolding tells_of_def by blast

lemma replies_ofI:
  "(\<And>w c. agrees (store w) c \<Longrightarrow> g (store w) \<Longrightarrow> \<exists>r w'. matcher c w = (Inr r, w')) \<Longrightarrow>
    replies_of agrees g matcher"
  unfolding replies_of_def by blast

lemma replies_ofD:
  "replies_of agrees g matcher \<Longrightarrow> agrees (store w) c \<Longrightarrow> g (store w) \<Longrightarrow> \<exists>r w'. matcher c w = (Inr r, w')"
  unfolding replies_of_def by blast

definition specified ::
  "(db \<Rightarrow> 'c \<Rightarrow> bool) \<Rightarrow> ('c state_matcher \<times> TransactionStatus) list \<Rightarrow> status_test list \<Rightarrow> bool" where
  "specified agrees =
     list_all2 (\<lambda>(m, s) (f, g, s'). s = s' \<and> tells_of agrees f m \<and> replies_of agrees g m)"

locale decided_table = state_table states for states :: "('c state_matcher \<times> TransactionStatus) list" +
  fixes tests :: "status_test list" and agrees :: "db \<Rightarrow> 'c \<Rightarrow> bool"
  assumes table_specified: "specified agrees states tests"
begin

lemma matching_tells:
  assumes "specified agrees ss ts" and "set ss \<subseteq> set states"
    and "agrees (store w) c" and "matching_status ss c w = (Inr (status, c'), w')"
  shows "status = first_status ts (store w) \<and> agrees (store w) c'"
  using assms unfolding specified_def
proof (induction ss ts arbitrary: c w rule: list_all2_induct)
  case Nil
  then show ?case by simp
next
  case (Cons s ss t ts)
  obtain m st f g where s: "s = (m, st)" and t: "t = (f, g, st)" and m: "tells_of agrees f m"
    using Cons.hyps(1) by (cases s; cases t) auto
  obtain b c1 w1 where run: "m c w = (Inr (b, c1), w1)"
    and rest: "(if b then io_return (st, c1) else matching_status ss c1) w1 = (Inr (status, c'), w')"
    using Cons.prems(3) s by (auto elim!: io_bind_InrE)
  from tells_ofD [OF m Cons.prems(2) run] have b: "b = f (store w)" and agrees: "agrees (store w) c1" by simp_all
  have w1: "store w1 = store w" using reads_only frames_step run Cons.prems(1) s by (metis list.set_intros(1) subsetD)
  show ?case using rest b agrees w1 Cons.IH [of w1 c1] Cons.prems(1) t by (auto split: if_splits)
qed

lemma matching_replies:
  assumes "specified agrees ss ts" and "set ss \<subseteq> set states"
    and "agrees (store w) c" and "can_tell ts (store w)"
  shows "\<exists>r w'. matching_status ss c w = (Inr r, w')"
  using assms unfolding specified_def
proof (induction ss ts arbitrary: c w rule: list_all2_induct)
  case Nil
  then show ?case by simp
next
  case (Cons s ss t ts)
  obtain m st f g where s: "s = (m, st)" and t: "t = (f, g, st)" and m: "tells_of agrees f m" "replies_of agrees g m"
    using Cons.hyps(1) by (cases s; cases t) auto
  obtain b c1 w1 where run: "m c w = (Inr (b, c1), w1)"
    using replies_ofD [OF m(2) Cons.prems(2)] Cons.prems(3) t by force
  from tells_ofD [OF m(1) Cons.prems(2) run] have b: "b = f (store w)" and agrees: "agrees (store w) c1" by simp_all
  have w1: "store w1 = store w" using reads_only frames_step run Cons.prems(1) s by (metis list.set_intros(1) subsetD)
  show ?case
    using s run b agrees w1 Cons.IH [of w1 c1] Cons.prems t by (cases b) (auto simp: io_bind_Inr)
qed

text \<open>A validation that returns gives the status of the first test that holds.\<close>

lemma validation_tells:
  assumes "agrees (store w) c" and "validation_result states c w = (Inr (status, c'), w')"
  shows "status = first_status tests (store w)" and "agrees (store w) c'"
proof -
  obtain w1 where "matching_status states c w = (Inr (status, c'), w1)"
    using assms(2) by (auto simp: validation_result_def elim!: io_bind_InrE split: if_splits)
  from matching_tells [OF table_specified order_refl assms(1) this]
  show "status = first_status tests (store w)" and "agrees (store w) c'" by simp_all
qed

lemma validation_replies:
  assumes "agrees (store w) c" and "can_tell tests (store w)" and "first_status tests (store w) \<noteq> UnknownIssue"
  obtains c' w' where "validation_result states c w = (Inr (first_status tests (store w), c'), w')"
    and "agrees (store w) c'" and "store w' = store w"
proof -
  obtain status c' w' where m: "matching_status states c w = (Inr (status, c'), w')"
    using matching_replies [OF table_specified order_refl assms(1,2)] by fastforce
  note t = matching_tells [OF table_specified order_refl assms(1) m]
  then have v: "validation_result states c w = (Inr (status, c'), w')"
    using m assms(3) by (auto simp: validation_result_def io_bind_Inr)
  from that [of c' w'] v t frames_step [OF validation_reads_only v] show thesis by simp
qed

end

section \<open>Updating the transaction\<close>

definition TransactionUpdate_perform ::
  "ext \<Rightarrow> ITransactionForRebateCriteria \<Rightarrow> TransactionStatus \<Rightarrow> unit action" where
  "TransactionUpdate_perform L transaction result =
     io_bind (now L)
       (\<lambda>t. update TransactionForRebateCriteriaRepository L (id_text (tx_id transaction))
         [ProcessedAt t, Status result])"

lemma update_replies:
  assumes "\<And>n f rs. \<exists>us rs'. orm_update_id (orm_of R L) n i f rs = Inr (us, rs')"
  shows "\<exists>w'. update R L i ps w = (Inr (), w')"
proof -
  obtain us rs' where "orm_update_id (orm_of R L) (calls w) i (serializePartial R ps) (rows_of R (store w)) =
      Inr (us, rs')"
    using assms by blast
  then show ?thesis by (simp add: update_def updateRecord_def execute_def io_then_apply)
qed

lemma frames_TransactionUpdate:
  "(\<And>rs d. v (d\<lparr>transactions := rs\<rparr>) = v d) \<Longrightarrow>
    frames (\<lambda>w. v (store w)) (TransactionUpdate_perform L transaction result)"
  unfolding TransactionUpdate_perform_def
  by (intro frames_bind frames_comp [OF frames_now] frames_update)
    (simp add: TransactionForRebateCriteriaRepository_def)

section \<open>Rebate events\<close>

definition buildRebateEvent :: "IRebate \<Rightarrow> IRebatePayload" where
  "buildRebateEvent rebate =
     \<lparr>pl_id = rb_id rebate, pl_userId = rb_userId rebate, pl_accountId = rb_accountId rebate,
       pl_offerId = rb_rebateCriteriaId rebate, pl_amount = rb_amount rebate,
       pl_rewardType = rb_rewardType rebate, pl_fulfilledAt = rb_fulfilledDate rebate,
       pl_issuedAt = rb_issuedAt rebate, pl_qualifiedTransactionId = rb_accountTransactionId rebate,
       pl_fulfilledTransactionId = rb_fulfilledTransactionId rebate, pl_status = rb_status rebate,
       pl_qualifyingTransaction = rb_qualifyingTransaction rebate,
       pl_fulfillmentTransaction = rb_fulfillmentTransaction rebate\<rparr>"

text \<open>
  \<open>Producer.dispatch\<close>: the event goes through the publishing transform; an error of the stream is logged.
\<close>

definition Producer_dispatch :: "ext \<Rightarrow> IRebate \<Rightarrow> unit action" where
  "Producer_dispatch L rebate =
     (\<lambda>w. let event = buildRebateEvent rebate
          in (Inr (), if kafka_accepts L (calls w) event
                      then (tick w)\<lparr>store := (store w)\<lparr>published := published (store w) @ [event]\<rparr>\<rparr>
                      else tick w))"

lemma Producer_dispatch_returns: "Producer_dispatch L rebate w = (Inr (), state_of (Producer_dispatch L rebate) w)"
  by (simp add: Producer_dispatch_def Let_def)

lemma frames_dispatch:
  "(\<And>es d. v (d\<lparr>published := es\<rparr>) = v d) \<Longrightarrow> frames (\<lambda>w. v (store w)) (Producer_dispatch L rebate)"
  by (simp add: frames_def Producer_dispatch_def Let_def)

section \<open>Errors as text\<close>

text \<open>\<open>new Error(e)\<close>.\<close>

fun exn_text :: "exn \<Rightarrow> string" where
  "exn_text (DbError s) = ''QueryFailedError: '' @ s"
| "exn_text TypeError = ''TypeError''"
| "exn_text NumberError = ''[big.js] Invalid number''"
| "exn_text (JsError s) = ''Error: '' @ s"
| "exn_text (ServiceError s) = ''Error: '' @ s"

definition rethrow :: "exn \<Rightarrow> ('w, 'a) io" where
  "rethrow e = io_throw (JsError (exn_text e))"

end
