(* ===== verification/Fulfillment.thy ===== *)
theory Fulfillment
  imports Validation
begin

text \<open>
  Fulfillment transactions (\<open>fulfillment_strategy.ts\<close>, \<open>fulfillment_validation.ts\<close>,
  \<open>fulfillment/\<close>, \<open>successful_fulfilled_rebate.ts\<close>, \<open>report/rebate_journal_update.ts\<close>): the bank reports
  that a rebate was credited; the transaction is matched with its rebate, gets the status of the first
  state that applies, and when it is the last one the rebate and its journal record are updated and an
  event is sent.
\<close>

section \<open>The context\<close>

text \<open>The rebate is looked up once; the object is then shared and updated in place.\<close>

record fulfillment_context =
  fc_transaction :: ITransactionForRebateCriteria
  fc_rebate :: "IRebate option"

definition new_fulfillment :: "ITransactionForRebateCriteria \<Rightarrow> fulfillment_context" where
  "new_fulfillment transaction = \<lparr>fc_transaction = transaction, fc_rebate = None\<rparr>"

text \<open>A missing identifier is never looked up: the first state stops the validation.\<close>

definition rebate_key :: "ITransactionForRebateCriteria \<Rightarrow> string" where
  "rebate_key transaction = (case tx_rebateId transaction of None \<Rightarrow> '''' | Some i \<Rightarrow> i)"

definition findRebate :: "ext \<Rightarrow> fulfillment_context \<Rightarrow> IRebate option action" where
  "findRebate L c = find RebateRepository L (rebate_key (fc_transaction c))"

definition getRebate :: "ext \<Rightarrow> fulfillment_context \<Rightarrow> (IRebate option \<times> fulfillment_context) action" where
  "getRebate L c =
     (case fc_rebate c of
        Some rebate \<Rightarrow> io_return (Some rebate, c)
      | None \<Rightarrow> io_bind (findRebate L c) (\<lambda>rebate. io_return (rebate, c\<lparr>fc_rebate := rebate\<rparr>)))"

section \<open>The states\<close>

definition RebateIdNotFound_matches :: "fulfillment_context state_matcher" where
  "RebateIdNotFound_matches c =
     io_return (rebate_key (fc_transaction c) = '''', c)"

definition FulfillmentUsed_matches :: "ext \<Rightarrow> fulfillment_context state_matcher" where
  "FulfillmentUsed_matches L c =
     io_bind (findAll RebateRepository L
         (\<lambda>r. rr_fulfilled_transaction_id r = Some (tx_transactionId (fc_transaction c))))
       (\<lambda>others. io_return (others \<noteq> [], c))"

definition ClientNotFound_matches :: "ext \<Rightarrow> fulfillment_context state_matcher" where
  "ClientNotFound_matches L c =
     io_bind (find UserRepository L (tx_userId (fc_transaction c))) (\<lambda>user. io_return (user = None, c))"

definition RebateNotFound_matches :: "ext \<Rightarrow> fulfillment_context state_matcher" where
  "RebateNotFound_matches L c = io_bind (getRebate L c) (\<lambda>(rebate, c'). io_return (rebate = None, c'))"

text \<open>A test of the rebate; the fields of \<open>undefined\<close> cannot be read.\<close>

definition rebate_test :: "ext \<Rightarrow> (IRebate \<Rightarrow> ITransactionForRebateCriteria \<Rightarrow> bool) \<Rightarrow> fulfillment_context state_matcher" where
  "rebate_test L test c =
     io_bind (getRebate L c)
       (\<lambda>(rebate, c'). io_bind (defined rebate) (\<lambda>r. io_return (test r (fc_transaction c'), c')))"

definition AccountMismatch_matches :: "ext \<Rightarrow> fulfillment_context state_matcher" where
  "AccountMismatch_matches L = rebate_test L (\<lambda>rebate transaction. rb_accountId rebate \<noteq> tx_accountId transaction)"

definition AmountMismatch_matches :: "ext \<Rightarrow> fulfillment_context state_matcher" where
  "AmountMismatch_matches L = rebate_test L (\<lambda>rebate transaction. rb_amount rebate \<noteq> tx_amount transaction)"

definition StatusMismatch_matches :: "ext \<Rightarrow> fulfillment_context state_matcher" where
  "StatusMismatch_matches L = rebate_test L (\<lambda>rebate transaction. rb_status rebate \<noteq> PendingFulfillment)"

definition FulfillmentSuccessful_matches :: "fulfillment_context state_matcher" where
  "FulfillmentSuccessful_matches c = io_return (True, c)"

definition fulfillment_states :: "ext \<Rightarrow> (fulfillment_context state_matcher \<times> TransactionStatus) list" where
  "fulfillment_states L =
     [(RebateIdNotFound_matches, RebateIdNotFound), (FulfillmentUsed_matches L, FulfilledTransUsedAlready),
      (ClientNotFound_matches L, CannotFindClient), (RebateNotFound_matches L, RebateNotFound),
      (AccountMismatch_matches L, FulfilledTransHasDiffAccount),
      (AmountMismatch_matches L, FulfilledTransHasWrongAmount), (StatusMismatch_matches L, RebateNotPending),
      (FulfillmentSuccessful_matches, FulfilledTransSuccessful)]"

definition FulfillmentValidation_result ::
  "ext \<Rightarrow> fulfillment_context \<Rightarrow> (TransactionStatus \<times> fulfillment_context) action" where
  "FulfillmentValidation_result L = validation_result (fulfillment_states L)"

section \<open>The rebate is fulfilled\<close>

definition fulfilled_fields ::
  "ITransactionForRebateCriteria \<Rightarrow> TransactionStatus \<Rightarrow> date \<Rightarrow> date \<Rightarrow> rebate_entry list" where
  "fulfilled_fields transaction result fulfilledDate dispatchedAt =
     [FulfilledTransactionId (tx_transactionId transaction), FulfilledAmount (tx_amount transaction),
      FulfilledDate fulfilledDate, FulfillmentTransaction transaction, DispatchedAt dispatchedAt,
      RebateStatus result]"

text \<open>\<open>Object.assign(rebate, updatedFields)\<close>.\<close>

definition fulfilled_rebate ::
  "ITransactionForRebateCriteria \<Rightarrow> TransactionStatus \<Rightarrow> date \<Rightarrow> date \<Rightarrow> IRebate \<Rightarrow> IRebate" where
  "fulfilled_rebate transaction result fulfilledDate dispatchedAt rebate =
     rebate\<lparr>rb_fulfilledTransactionId := Some (tx_transactionId transaction),
       rb_fulfilledAmount := Some (tx_amount transaction), rb_fulfilledDate := Some fulfilledDate,
       rb_fulfillmentTransaction := Some transaction, rb_dispatchedAt := dispatchedAt, rb_status := result\<rparr>"

definition SuccessfulFulfilledRebate_perform ::
  "ext \<Rightarrow> TransactionStatus \<Rightarrow> fulfillment_context \<Rightarrow> fulfillment_context action" where
  "SuccessfulFulfilledRebate_perform L result c =
     io_try (io_try
       (io_bind (getRebate L c) (\<lambda>(r, c').
          io_bind (now L) (\<lambda>fulfilledDate.
          io_bind (now L) (\<lambda>dispatchedAt.
          io_bind (defined r) (\<lambda>rebate.
            let updated = fulfilled_rebate (fc_transaction c') result fulfilledDate dispatchedAt rebate
            in io_then
                 (update RebateRepository L (rb_id rebate)
                   (fulfilled_fields (fc_transaction c') result fulfilledDate dispatchedAt))
                 (io_then (Producer_dispatch L updated) (io_return (c'\<lparr>fc_rebate := Some updated\<rparr>))))))))
       rethrow) rethrow"

section \<open>The journal record\<close>

definition getExistingReport :: "ext \<Rightarrow> IRebate \<Rightarrow> IRebateJournalReport action" where
  "getExistingReport L rebate =
     io_bind (findAll RebateJournalReportRepository L
         (\<lambda>r. jr_client_id__c r = tx_userId (rb_qualifyingTransaction rebate) \<and>
              jr_rebate_status_v3__c r = PendingFulfillment \<and>
              jr_rebate_transaction_id__c r = rb_id rebate))
       (\<lambda>result. case result of
            [] \<Rightarrow> io_throw (JsError ''Could not find existing report!'')
          | report # _ \<Rightarrow> io_return report)"

definition journal_update :: "ITransactionForRebateCriteria \<Rightarrow> IRebate \<Rightarrow> journal_entry list" where
  "journal_update transaction rebate =
     [jr_base_points__c_update (\<lambda>_. tx_basePoints transaction),
      jr_cc_credit_amount__c_update
        (\<lambda>_. if tx_cardType transaction = CreditCard then parseFloat (rb_amount rebate) else Num 0),
      jr_client_id__c_update (\<lambda>_. tx_userId transaction),
      jr_currency__c_update (\<lambda>_. tx_transactionCurrency transaction),
      jr_fulfilled_date__c_update
        (\<lambda>t. case rb_fulfilledDate rebate of None \<Rightarrow> t | Some t' \<Rightarrow> Some t'),
      jr_masked_client_account__c_update (\<lambda>_. tx_card transaction),
      jr_pba_credit_amount__c_update
        (\<lambda>_. if tx_cardType transaction = CheckingAccount then parseFloat (rb_amount rebate) else Num 0),
      jr_qualifying_transaction_date__c_update
        (\<lambda>_. Some (tx_transactionDate (rb_qualifyingTransaction rebate))),
      jr_qualifying_transaction_value__c_update (\<lambda>_. parseFloat (tx_amount (rb_qualifyingTransaction rebate))),
      jr_rebate_status_v3__c_update (\<lambda>_. rb_status rebate),
      jr_rebate_transaction_id__c_update (\<lambda>_. rb_id rebate),
      jr_rebate_type__c_update (\<lambda>_. rb_rewardType rebate),
      jr_transaction_type__c_update (\<lambda>_. tx_cardType transaction),
      jr_rebate_points__c_update
        (\<lambda>_. if rb_rewardType rebate = Points then parseFloat (tx_amount transaction) else Num 0),
      jr_rebate_dollars__c_update
        (\<lambda>_. if rb_rewardType rebate = Dollars then parseFloat (tx_amount transaction) else Num 0)]"

definition RebateJournalReportUpdate_perform ::
  "ext \<Rightarrow> ITransactionForRebateCriteria \<Rightarrow> IRebate \<Rightarrow> unit action" where
  "RebateJournalReportUpdate_perform L transaction rebate =
     io_bind (getExistingReport L rebate)
       (\<lambda>existingReport. update RebateJournalReportRepository L (id_text (rj_id existingReport))
          (journal_update transaction rebate))"

definition updateJournalReport :: "ext \<Rightarrow> fulfillment_context \<Rightarrow> unit action" where
  "updateJournalReport L c =
     io_bind (getRebate L c)
       (\<lambda>(r, c'). io_bind (defined r) (\<lambda>rebate. RebateJournalReportUpdate_perform L (fc_transaction c') rebate))"

section \<open>The strategy\<close>

definition FulfillmentStrategy_matches :: "ITransactionForRebateCriteria \<Rightarrow> bool" where
  "FulfillmentStrategy_matches transaction \<longleftrightarrow> tx_transactionType transaction = Fulfillment"

definition FulfillmentStrategy_perform :: "ext \<Rightarrow> ITransactionForRebateCriteria \<Rightarrow> unit action" where
  "FulfillmentStrategy_perform L transaction =
     io_try
       (io_bind (FulfillmentValidation_result L (new_fulfillment transaction))
         (\<lambda>(result, c).
            io_then (TransactionUpdate_perform L transaction result)
              (if result = FulfilledTransSuccessful
               then io_bind (SuccessfulFulfilledRebate_perform L result c) (updateJournalReport L)
               else io_return ())))
       (\<lambda>_. io_return ())"

section \<open>What each state says\<close>

text \<open>The row the transaction names, and the object the look-up makes of it.\<close>

definition rebate_row :: "db \<Rightarrow> ITransactionForRebateCriteria \<Rightarrow> RebateRecord option" where
  "rebate_row d x = List.find (serial_matches rr_id (rebate_key x)) (rebates d)"

definition rebate_of :: "ext \<Rightarrow> RebateRecord \<Rightarrow> IRebate" where
  "rebate_of L r = projr (RebateSerializer_deserialize L r)"

text \<open>The status a fulfillment transaction deserves: the first complaint that applies.\<close>

definition fulfillment_status :: "db \<Rightarrow> ITransactionForRebateCriteria \<Rightarrow> TransactionStatus" where
  "fulfillment_status d x =
     (if rebate_key x = '''' then RebateIdNotFound
      else if \<exists>r\<in>set (rebates d). rr_fulfilled_transaction_id r = Some (tx_transactionId x)
        then FulfilledTransUsedAlready
      else if \<forall>u\<in>set (users d). ur_id u \<noteq> tx_userId x then CannotFindClient
      else case rebate_row d x of
          None \<Rightarrow> RebateNotFound
        | Some r \<Rightarrow>
            if rr_account_id r \<noteq> tx_accountId x then FulfilledTransHasDiffAccount
            else if rr_amount r \<noteq> tx_amount x then FulfilledTransHasWrongAmount
            else if rr_status r \<noteq> PendingFulfillment then RebateNotPending
            else FulfilledTransSuccessful)"

definition row_differs :: "(RebateRecord \<Rightarrow> bool) \<Rightarrow> ITransactionForRebateCriteria \<Rightarrow> db \<Rightarrow> bool" where
  "row_differs p x d \<longleftrightarrow> (case rebate_row d x of None \<Rightarrow> False | Some r \<Rightarrow> p r)"

definition can_find :: "ext \<Rightarrow> ITransactionForRebateCriteria \<Rightarrow> bool" where
  "can_find L x \<longleftrightarrow> reliable L \<and> int_key (rebate_key x) \<noteq> None"

definition fulfillment_tests :: "ext \<Rightarrow> ITransactionForRebateCriteria \<Rightarrow> status_test list" where
  "fulfillment_tests L x =
     [(\<lambda>d. rebate_key x = '''', \<lambda>d. True, RebateIdNotFound),
      (\<lambda>d. \<exists>r\<in>set (rebates d). rr_fulfilled_transaction_id r = Some (tx_transactionId x),
         \<lambda>d. reliable L, FulfilledTransUsedAlready),
      (\<lambda>d. \<forall>u\<in>set (users d). ur_id u \<noteq> tx_userId x, \<lambda>d. reliable L, CannotFindClient),
      (\<lambda>d. rebate_row d x = None, \<lambda>d. can_find L x, RebateNotFound),
      (row_differs (\<lambda>r. rr_account_id r \<noteq> tx_accountId x) x,
         \<lambda>d. can_find L x \<and> rebate_row d x \<noteq> None, FulfilledTransHasDiffAccount),
      (row_differs (\<lambda>r. rr_amount r \<noteq> tx_amount x) x,
         \<lambda>d. can_find L x \<and> rebate_row d x \<noteq> None, FulfilledTransHasWrongAmount),
      (row_differs (\<lambda>r. rr_status r \<noteq> PendingFulfillment) x,
         \<lambda>d. can_find L x \<and> rebate_row d x \<noteq> None, RebateNotPending),
      (\<lambda>d. True, \<lambda>d. True, FulfilledTransSuccessful)]"

lemma fulfillment_status_tests: "first_status (fulfillment_tests L x) d = fulfillment_status d x"
  by (simp add: fulfillment_tests_def fulfillment_status_def row_differs_def split: option.split)

text \<open>The context of \<open>x\<close> in \<open>d\<close>: the rebate is not looked up yet or is the one the row stands for.\<close>

definition fulfillment_inv :: "ext \<Rightarrow> ITransactionForRebateCriteria \<Rightarrow> db \<Rightarrow> fulfillment_context \<Rightarrow> bool" where
  "fulfillment_inv L x d c \<longleftrightarrow>
     ext_ok L \<and> db_ok d \<and> fc_transaction c = x \<and>
     (\<forall>y. fc_rebate c = Some y \<longrightarrow> map_option (rebate_of L) (rebate_row d x) = Some y)"

lemma rebate_row_unique:
  assumes "db_ok d" and "r \<in> set (rebates d)" and "serial_matches rr_id (rebate_key x) r"
  shows "rebate_row d x = Some r"
proof -
  obtain s where s: "rebate_row d x = Some s"
    using assms(2,3) by (cases "rebate_row d x") (auto simp: rebate_row_def find_None_iff)
  then have "s \<in> set (rebates d)" "rr_id s = rr_id r"
    using assms(3) by (auto simp: rebate_row_def find_Some_iff serial_matches_def)
  with assms(1,2) s show ?thesis by (simp add: db_ok_def distinct_map inj_on_def)
qed

lemma rebate_row_fields:
  assumes "db_ok d" and "rebate_row d x = Some r"
  shows "r \<in> set (rebates d)" and "rr_id r \<noteq> None" and "rr_id r = int_key (rebate_key x)"
    and "RebateSerializer_deserialize L r = Inr (rebate_of L r)"
  using assms
  by (auto simp: rebate_row_def find_Some_iff serial_matches_def db_ok_def rebate_of_def
      RebateSerializer_deserialize_def split: option.splits)

lemma rebate_of_fields:
  assumes "rr_id r = Some k"
  shows "rb_id (rebate_of L r) = show_nat k" and "rb_accountId (rebate_of L r) = rr_account_id r"
    and "rb_amount (rebate_of L r) = rr_amount r" and "rb_status (rebate_of L r) = rr_status r"
  using assms by (simp_all add: rebate_of_def RebateSerializer_deserialize_def)

lemma findRebate_tells:
  assumes "fulfillment_inv L x (store w) c" and "findRebate L c w = (Inr y, w')"
  shows "y = map_option (rebate_of L) (rebate_row (store w) x)"
proof (cases y)
  case None
  have c: "ext_ok L" "fc_transaction c = x" using assms(1) by (simp_all add: fulfillment_inv_def)
  have "\<forall>r\<in>set (rows_of RebateRepository (store w)). \<not> serial_matches rr_id (rebate_key x) r"
    by (rule find_None [OF rebates_reads_repo [OF c(1)]]) (use assms(2) None c(2) in \<open>simp add: findRebate_def\<close>)
  with None show ?thesis by (auto simp: rebate_row_def RebateRepository_def find_None_iff)
next
  case (Some b)
  have c: "ext_ok L" "fc_transaction c = x" "db_ok (store w)"
    using assms(1) by (simp_all add: fulfillment_inv_def)
  obtain r where "r \<in> set (rows_of RebateRepository (store w))" "serial_matches rr_id (rebate_key x) r"
      "deserialize_with RebateRepository L r = Inr b"
    by (rule find_Some [OF rebates_reads_repo [OF c(1)], of "rebate_key x" w b])
      (use assms(2) Some c(2) in \<open>simp_all add: findRebate_def\<close>)
  with rebate_row_unique [OF c(3)] Some show ?thesis by (simp add: RebateRepository_def rebate_of_def)
qed

lemma getRebate_tells:
  assumes "fulfillment_inv L x (store w) c" and "getRebate L c w = (Inr (y, c'), w')"
  shows "y = map_option (rebate_of L) (rebate_row (store w) x)" and "fulfillment_inv L x (store w) c'"
    and "y \<noteq> None \<Longrightarrow> fc_rebate c' = y"
  using assms findRebate_tells [OF assms(1)]
  by (auto simp: getRebate_def fulfillment_inv_def split: option.splits elim!: io_bind_InrE)

lemma getRebate_replies:
  assumes "fulfillment_inv L x (store w) c" and "can_find L x"
  shows "\<exists>y w'. getRebate L c w = (Inr y, w')"
proof (cases "fc_rebate c")
  case None
  have c: "ext_ok L" "fc_transaction c = x" "db_ok (store w)"
    using assms(1) by (simp_all add: fulfillment_inv_def)
  obtain y where y: "orm_findOne (rebates_orm L) (calls w) (rebate_key x) (rebates (store w)) = Inr y"
    using reliable_findOne [OF reliable_rebates] assms(2) by (fastforce simp: can_find_def)
  have "\<exists>b. RebateSerializer_deserialize L r = Inr b" if "y = Some r" for r
    using that orm_findOne_Some [OF rebates_reads [OF c(1)], of "calls w" "rebate_key x" "rebates (store w)" r] y c(3)
    by (auto simp: db_ok_def RebateSerializer_deserialize_def split: option.splits)
  with y None c(2) show ?thesis
    by (cases y) (auto simp: getRebate_def findRebate_def find_cases io_bind_apply RebateRepository_def)
next
  case (Some b)
  then show ?thesis by (simp add: getRebate_def)
qed

section \<open>The table of states\<close>

lemma frames_getRebate [io_frame]: "frames store (getRebate L c)"
  unfolding getRebate_def findRebate_def
  by (auto split: option.split intro!: frames_return frames_bind frames_find)

lemma frames_rebate_test: "frames store (rebate_test L test c)"
  unfolding rebate_test_def by (auto intro!: frames_bind frames_getRebate frames_defined frames_return)

lemma rebate_test_tells:
  assumes "fulfillment_inv L x (store w) c" and "rebate_test L test c w = (Inr (b, c'), w')"
    and test: "\<And>r. rr_id r \<noteq> None \<Longrightarrow> test (rebate_of L r) x = p r"
  shows "b = row_differs p x (store w) \<and> fulfillment_inv L x (store w) c'"
proof -
  obtain q w1 where "getRebate L c w = (Inr q, w1)" and "(case q of (rebate, c') \<Rightarrow>
      io_bind (defined rebate) (\<lambda>r. io_return (test r (fc_transaction c'), c'))) w1 = (Inr (b, c'), w')"
    using assms(2) unfolding rebate_test_def by (rule io_bind_InrE)
  then obtain y c1 where g: "getRebate L c w = (Inr (y, c1), w1)"
    and r: "io_bind (defined y) (\<lambda>r. io_return (test r (fc_transaction c1), c1)) w1 = (Inr (b, c'), w')"
    by (cases q) simp
  note t = getRebate_tells [OF assms(1) g]
  obtain row where row: "rebate_row (store w) x = Some row" and y: "y = Some (rebate_of L row)"
    using t(1) r by (cases "rebate_row (store w) x") (auto simp: defined_def io_bind_apply)
  have "db_ok (store w)" "fc_transaction c1 = x" using t(2) assms(1) by (simp_all add: fulfillment_inv_def)
  with rebate_row_fields(2) [OF this(1) row] r y row t(2) test show ?thesis
    by (auto simp: defined_def io_bind_apply row_differs_def)
qed

lemma rebate_test_replies:
  assumes "fulfillment_inv L x (store w) c" and "can_find L x" and "rebate_row (store w) x \<noteq> None"
  shows "\<exists>r w'. rebate_test L test c w = (Inr r, w')"
proof -
  obtain y c1 w1 where g: "getRebate L c w = (Inr (y, c1), w1)"
    using getRebate_replies [OF assms(1,2)] by fastforce
  have "y \<noteq> None" using getRebate_tells(1) [OF assms(1) g] assms(3) by simp
  with g show ?thesis by (auto simp: rebate_test_def io_bind_Inr defined_def)
qed

section \<open>The table of states\<close>

lemmas fulfillment_matchers =
  RebateIdNotFound_matches_def FulfillmentUsed_matches_def ClientNotFound_matches_def RebateNotFound_matches_def
  AccountMismatch_matches_def AmountMismatch_matches_def StatusMismatch_matches_def
  FulfillmentSuccessful_matches_def

lemma FulfillmentUsed_tells:
  assumes "fulfillment_inv L x (store w) c" and "FulfillmentUsed_matches L c w = (Inr (b, c'), w')"
  shows "b = (\<exists>r\<in>set (rebates (store w)). rr_fulfilled_transaction_id r = Some (tx_transactionId x)) \<and>
    fulfillment_inv L x (store w) c'"
proof -
  have c: "ext_ok L" "fc_transaction c = x" using assms(1) by (simp_all add: fulfillment_inv_def)
  let ?p = "\<lambda>r. rr_fulfilled_transaction_id r = Some (tx_transactionId (fc_transaction c))"
  obtain ys where f: "result_of (findAll RebateRepository L ?p) w = Inr ys" and "b = (ys \<noteq> [])" and "c' = c"
    using assms(2) by (fastforce simp: FulfillmentUsed_matches_def elim!: io_bind_InrE)
  then show ?thesis
    using findAll_empty [OF rebates_reads_repo [OF c(1)] f] c(2) assms(1) by (auto simp: RebateRepository_def)
qed

lemma FulfillmentUsed_replies:
  assumes "fulfillment_inv L x (store w) c" and "reliable L"
  shows "\<exists>r w'. FulfillmentUsed_matches L c w = (Inr r, w')"
proof -
  have c: "ext_ok L" "db_ok (store w)" using assms(1) by (simp_all add: fulfillment_inv_def)
  from findAll_rebates_replies [OF c(1) assms(2) c(2),
      of "\<lambda>r. rr_fulfilled_transaction_id r = Some (tx_transactionId (fc_transaction c))"] show ?thesis
    by (auto simp: FulfillmentUsed_matches_def io_bind_apply)
qed

lemma ClientNotFound_tells:
  assumes "fulfillment_inv L x (store w) c" and "ClientNotFound_matches L c w = (Inr (b, c'), w')"
  shows "b = (\<forall>u\<in>set (users (store w)). ur_id u \<noteq> tx_userId x) \<and> fulfillment_inv L x (store w) c'"
proof -
  have c: "ext_ok L" "fc_transaction c = x" using assms(1) by (simp_all add: fulfillment_inv_def)
  obtain y where f: "result_of (find UserRepository L (tx_userId x)) w = Inr y" and b: "b = (y = None)"
    and c': "c' = c"
    using assms(2) c(2) by (fastforce simp: ClientNotFound_matches_def elim!: io_bind_InrE)
  show ?thesis
  proof (cases y)
    case None
    have "\<forall>u\<in>set (rows_of UserRepository (store w)). ur_id u \<noteq> tx_userId x"
      by (rule find_None [OF users_reads_repo [OF c(1)]]) (use f None in simp)
    with None b c' assms(1) show ?thesis by (simp add: UserRepository_def)
  next
    case (Some u)
    obtain r where "r \<in> set (rows_of UserRepository (store w))" "ur_id r = tx_userId x"
      by (rule find_Some [OF users_reads_repo [OF c(1)], of "tx_userId x" w u]) (use f Some in simp_all)
    with Some b c' assms(1) show ?thesis by (auto simp: UserRepository_def)
  qed
qed

lemma ClientNotFound_replies:
  assumes "fulfillment_inv L x (store w) c" and "reliable L"
  shows "\<exists>r w'. ClientNotFound_matches L c w = (Inr r, w')"
proof -
  have c: "ext_ok L" "db_ok (store w)" using assms(1) by (simp_all add: fulfillment_inv_def)
  from decidesD [OF user_decides [OF c(1) assms(2)] c(2), of "tx_userId (fc_transaction c)"] show ?thesis
    by (auto simp: ClientNotFound_matches_def io_bind_apply)
qed

lemma RebateNotFound_tells:
  assumes "fulfillment_inv L x (store w) c" and "RebateNotFound_matches L c w = (Inr (b, c'), w')"
  shows "b = (rebate_row (store w) x = None) \<and> fulfillment_inv L x (store w) c'"
proof -
  obtain q where g: "getRebate L c w = (Inr q, w')" and "q = (fst q, c')" "b = (fst q = None)"
    using assms(2) unfolding RebateNotFound_matches_def by (rule io_bind_InrE) (auto split: prod.splits)
  then show ?thesis using getRebate_tells [OF assms(1), of "fst q" c' w'] by simp
qed

lemma RebateNotFound_replies:
  assumes "fulfillment_inv L x (store w) c" and "can_find L x"
  shows "\<exists>r w'. RebateNotFound_matches L c w = (Inr r, w')"
proof -
  obtain y c1 w1 where "getRebate L c w = (Inr (y, c1), w1)" using getRebate_replies [OF assms] by fastforce
  then show ?thesis by (simp add: RebateNotFound_matches_def io_bind_Inr)
qed

text \<open>Every status of the list is known, every matcher reads only and says what its test says.\<close>

interpretation fulfillment_states: state_table "fulfillment_states L"
proof
  fix matcher status and c :: fulfillment_context
  assume "(matcher, status) \<in> set (fulfillment_states L)"
  then show "frames store (matcher c)"
    by (auto simp: fulfillment_states_def RebateIdNotFound_matches_def FulfillmentUsed_matches_def
        ClientNotFound_matches_def RebateNotFound_matches_def AccountMismatch_matches_def
        AmountMismatch_matches_def StatusMismatch_matches_def FulfillmentSuccessful_matches_def
        simp del: io_return_apply
        intro!: frames_bind frames_findAll frames_find frames_getRebate frames_rebate_test frames_return)
next
  fix matcher status
  assume "(matcher, status) \<in> set (fulfillment_states L)"
  then show "status \<noteq> UnknownIssue" by (auto simp: fulfillment_states_def)
qed

lemma tell_simple:
  "tells_of (fulfillment_inv L x) (\<lambda>d. rebate_key x = '''') RebateIdNotFound_matches"
  "tells_of (fulfillment_inv L x) (\<lambda>d. True) FulfillmentSuccessful_matches"
  "replies_of (fulfillment_inv L x) (\<lambda>d. True) RebateIdNotFound_matches"
  "replies_of (fulfillment_inv L x) (\<lambda>d. True) FulfillmentSuccessful_matches"
  by (auto simp: RebateIdNotFound_matches_def FulfillmentSuccessful_matches_def fulfillment_inv_def
      tells_of_def replies_of_def)

lemma tell_rebate_test:
  "tells_of (fulfillment_inv L x) (row_differs (\<lambda>r. rr_account_id r \<noteq> tx_accountId x) x) (AccountMismatch_matches L)"
  "tells_of (fulfillment_inv L x) (row_differs (\<lambda>r. rr_amount r \<noteq> tx_amount x) x) (AmountMismatch_matches L)"
  "tells_of (fulfillment_inv L x) (row_differs (\<lambda>r. rr_status r \<noteq> PendingFulfillment) x) (StatusMismatch_matches L)"
  unfolding AccountMismatch_matches_def AmountMismatch_matches_def StatusMismatch_matches_def
  by (rule tells_ofI, erule (1) rebate_test_tells, auto simp: rebate_of_fields)+

lemma reply_rebate_test:
  "replies_of (fulfillment_inv L x) (\<lambda>d. can_find L x \<and> rebate_row d x \<noteq> None) (AccountMismatch_matches L)"
  "replies_of (fulfillment_inv L x) (\<lambda>d. can_find L x \<and> rebate_row d x \<noteq> None) (AmountMismatch_matches L)"
  "replies_of (fulfillment_inv L x) (\<lambda>d. can_find L x \<and> rebate_row d x \<noteq> None) (StatusMismatch_matches L)"
  unfolding AccountMismatch_matches_def AmountMismatch_matches_def StatusMismatch_matches_def
  by (rule replies_ofI, erule rebate_test_replies, simp_all only: simp_thms)+

lemma tell_look_ups:
  "tells_of (fulfillment_inv L x)
     (\<lambda>d. \<exists>r\<in>set (rebates d). rr_fulfilled_transaction_id r = Some (tx_transactionId x)) (FulfillmentUsed_matches L)"
  "tells_of (fulfillment_inv L x) (\<lambda>d. \<forall>u\<in>set (users d). ur_id u \<noteq> tx_userId x) (ClientNotFound_matches L)"
  "tells_of (fulfillment_inv L x) (\<lambda>d. rebate_row d x = None) (RebateNotFound_matches L)"
  by (rule tells_ofI, erule (1) FulfillmentUsed_tells, rule tells_ofI, erule (1) ClientNotFound_tells,
      rule tells_ofI, erule (1) RebateNotFound_tells)

lemma reply_look_ups:
  "replies_of (fulfillment_inv L x) (\<lambda>d. reliable L) (FulfillmentUsed_matches L)"
  "replies_of (fulfillment_inv L x) (\<lambda>d. reliable L) (ClientNotFound_matches L)"
  "replies_of (fulfillment_inv L x) (\<lambda>d. can_find L x) (RebateNotFound_matches L)"
  by (rule replies_ofI, erule (1) FulfillmentUsed_replies, rule replies_ofI, erule (1) ClientNotFound_replies,
      rule replies_ofI, erule (1) RebateNotFound_replies)

interpretation fulfillment_table:
  decided_table "fulfillment_states L" "fulfillment_tests L x" "fulfillment_inv L x"
  by unfold_locales
    (simp only: specified_def fulfillment_states_def fulfillment_tests_def list.rel_inject prod.case
      tell_simple tell_rebate_test reply_rebate_test tell_look_ups reply_look_ups list_all2_Nil simp_thms)

end
