(* ===== verification/Refinement.thy ===== *)
theory Refinement
  imports Verdict
begin

text \<open>
  \<open>QualifyingStrategy\<close> implements \<open>qualifying_verdict\<close>: on a well-formed database whose requests succeed,
  the database after \<open>perform\<close> is the one the verdict on the database before prescribes
  (\<open>qualifying_perform_implements_verdict\<close>).  The twelve gates are run by \<open>pass_gates\<close>, their
  specifications by \<open>run_specs\<close>; \<open>corresponds\<close> relates a gate to its specification.
\<close>

section \<open>The verdict\<close>

datatype verdict = Stuck | Reject TransactionStatus | NoRebateDue | Issue rat RewardType

definition targeted :: "ext \<Rightarrow> db \<Rightarrow> ITransactionForRebateCriteria \<Rightarrow> IRebateCriteria \<Rightarrow> bool" where
  "targeted L d x criteria \<longleftrightarrow>
     rc_requiresCustomerToBeTargeted criteria \<and> rc_redemptionBasedOn criteria \<noteq> PreLoadedOptInFile \<longrightarrow>
     ledger_says ui_targeted_offers L d (tx_userId x) (tx_transactionDate x) (rc_id criteria)"

definition linked :: "ext \<Rightarrow> db \<Rightarrow> ITransactionForRebateCriteria \<Rightarrow> IRebateCriteria \<Rightarrow> user_product \<Rightarrow> exn + bool" where
  "linked L d x criteria product =
     (if \<not> rc_requiresCustomerToBeLinked criteria then Inr True
      else case shouldCheckLinkingToPrimary (Some product) criteria of
          Inl e \<Rightarrow> Inl e
        | Inr atPrimary \<Rightarrow>
            (let user = (if atPrimary then p_primaryAccountHashSRF product else Value (tx_userId x))
             in Inr (\<not> (atPrimary \<and> user \<in> {Null, Value ''''}) \<and>
                     ledger_says ui_linked_offers L d (template_text user) (tx_transactionDate x) (rc_id criteria))))"

definition limit_reached :: "db \<Rightarrow> ITransactionForRebateCriteria \<Rightarrow> IRebateCriteria \<Rightarrow> bool" where
  "limit_reached d x criteria \<longleftrightarrow>
     rc_redemptionLimit criteria \<noteq> 0 \<and>
     rc_redemptionLimit criteria \<le> int (length (filter
       (\<lambda>r. rr_rebate_criteria_id r = tx_rebateCriteriaId x \<and> rr_user_id r = tx_userId x \<and>
            (rc_redemptionLimitType criteria = Value PerCard \<longrightarrow> rr_card r = tx_card x)) (rebates d)))"

definition transaction_rewarded :: "db \<Rightarrow> ITransactionForRebateCriteria \<Rightarrow> bool" where
  "transaction_rewarded d x \<longleftrightarrow> (\<exists>r\<in>set (rebates d). rr_account_transaction_id r = tx_transactionId x)"

definition owner_may_redeem :: "ITransactionForRebateCriteria \<Rightarrow> IRebateCriteria \<Rightarrow> user_product \<Rightarrow> bool" where
  "owner_may_redeem x criteria product \<longleftrightarrow>
     rc_redemptionBasedOn criteria = ProductOwnerShipBased \<longrightarrow>
     (\<exists>types. getOfferOwnershipTypes criteria x (p_code product) (p_accountId product) = Some types \<and>
        p_ownershipType product \<in> set types)"

definition in_opt_in_file :: "ITransactionForRebateCriteria \<Rightarrow> IRebateCriteria \<Rightarrow> IUser \<Rightarrow> bool" where
  "in_opt_in_file x criteria user \<longleftrightarrow>
     rc_redemptionBasedOn criteria = PreLoadedOptInFile \<longrightarrow>
     (\<exists>r\<in>set (u_optInFileOffers user). opted_in criteria x r = Inr True)"

definition product_verdict ::
  "ext \<Rightarrow> db \<Rightarrow> ITransactionForRebateCriteria \<Rightarrow> IRebateCriteria \<Rightarrow> IUser \<Rightarrow> user_product \<Rightarrow> verdict" where
  "product_verdict L d x criteria user product =
     (if p_isEligibleClientProduct product \<noteq> ''1'' then Reject ProductHasBlockCode
      else if \<not> targeted L d x criteria then Reject ClientIsNotTargeted
      else case linked L d x criteria product of
          Inl e \<Rightarrow> Stuck
        | Inr is_linked \<Rightarrow>
            if \<not> is_linked then Reject ClientIsNotLinked
            else if limit_reached d x criteria then
              Reject (if rc_redemptionLimitType criteria = Value PerCard
                then ClientReachedCardRedLimit else ClientReachedOverallRedLimit)
            else if transaction_rewarded d x then Reject QualifiedTransUsedAlready
            else if \<not> owner_may_redeem x criteria product then
              Reject (if tx_cardType x = CreditCard
                then CreditCardOwnerNotAuthorized else DebitCardOwnerNotAuthorized)
            else if \<not> in_opt_in_file x criteria user then Reject ClientNotInOptInFile
            else case RebateCalculation_result L x (rc_rewardCalculation criteria) of
                Inl e \<Rightarrow> Stuck
              | Inr calculation \<Rightarrow>
                  if calc_amount calculation = 0 then NoRebateDue
                  else Issue (calc_amount calculation) (reward_unit (rc_rewardCalculation criteria)))"

definition qualifying_verdict :: "ext \<Rightarrow> db \<Rightarrow> ITransactionForRebateCriteria \<Rightarrow> verdict" where
  "qualifying_verdict L d x =
     (case criteria_in L d (tx_rebateCriteriaId x) of
        None \<Rightarrow> Reject OfferNotFound
      | Some criteria \<Rightarrow>
         (case user_in L d (tx_userId x) of
            None \<Rightarrow> Reject CannotFindClient
          | Some user \<Rightarrow>
              if \<not> isWithinRedemptionPeriod L criteria x then Reject OfferNotWithinRedemptionPeriod
              else if u_isBlacklisted user then Reject ClientBlacklisted
              else case products_for (tx_cardType x) user of
                  Inl e \<Rightarrow> Stuck
                | Inr products \<Rightarrow>
                   (case filter (\<lambda>p. p_code p = tx_productCodeExternal x \<and> p_accountId p = tx_accountId x)
                      products of
                      [] \<Rightarrow> Reject UserProductForOfferNotFound
                    | product # _ \<Rightarrow> product_verdict L d x criteria user product)))"

section \<open>Gates and their specifications\<close>

type_synonym gate_spec =
  "(db \<Rightarrow> qualifying_context \<Rightarrow> exn + bool \<times> qualifying_context) \<times> (qualifying_context \<Rightarrow> exn + TransactionStatus)"

datatype outcome = Halt | Rejected TransactionStatus | Passed qualifying_context

fun run_specs :: "gate_spec list \<Rightarrow> db \<Rightarrow> qualifying_context \<Rightarrow> outcome" where
  "run_specs [] d c = Passed c"
| "run_specs (s # ss) d c =
     (case fst s d c of
        Inl e \<Rightarrow> Halt
      | Inr (accepted, c') \<Rightarrow>
          if accepted then run_specs ss d c'
          else (case snd s c' of Inl e \<Rightarrow> Halt | Inr status \<Rightarrow> Rejected status))"

definition corresponds :: "gate \<Rightarrow> gate_spec \<Rightarrow> bool" where
  "corresponds g s \<longleftrightarrow>
     (\<forall>c. decides (\<lambda>d. fst s d c) (fst g c)) \<and> (\<forall>c w. snd g c w = (snd s c, w)) \<and>
     (\<forall>c d b c'. fst s d c = Inr (b, c') \<longrightarrow> cx_transaction c' = cx_transaction c)"

definition meets :: "ext \<Rightarrow> (qualifying_context option \<times> world) \<Rightarrow> outcome \<Rightarrow> world \<Rightarrow> qualifying_context \<Rightarrow> bool" where
  "meets L rw out w c \<longleftrightarrow>
     (case out of
        Halt \<Rightarrow> fst rw = None \<and> store (snd rw) = store w
      | Rejected status \<Rightarrow> fst rw = None \<and>
          (\<exists>c' w1. store w1 = store w \<and> cx_transaction c' = cx_transaction c \<and>
             snd rw = state_of (markAsProcessed L status c') w1)
      | Passed c' \<Rightarrow> fst rw = Some c' \<and> store (snd rw) = store w)"

lemma pass_gate_spec:
  assumes "corresponds g s" and ok: "db_ok (store w)"
  shows "case fst s (store w) c of
      Inl e \<Rightarrow> \<exists>w'. pass_gate L g c w = (Inr None, w') \<and> store w' = store w
    | Inr (accepted, c') \<Rightarrow>
        \<exists>w1. store w1 = store w \<and>
          pass_gate L g c w =
            (if accepted then (Inr (Some c'), w1)
             else case snd s c' of
                 Inl e \<Rightarrow> (Inr None, w1)
               | Inr status \<Rightarrow> (Inr None, state_of (markAsProcessed L status c') w1))"
proof -
  have "decides (\<lambda>d. fst s d c) (fst g c)" and st: "\<And>c w. snd g c w = (snd s c, w)"
    using assms(1) by (auto simp: corresponds_def)
  then obtain w1 where g: "fst g c w = (fst s (store w) c, w1)" and w1: "store w1 = store w"
    using decidesD [OF _ ok] by blast
  show ?thesis
  proof (cases "fst s (store w) c")
    case (Inl e)
    with g w1 show ?thesis by (simp add: pass_gate_def io_try_apply io_bind_apply)
  next
    case (Inr b)
    obtain accepted c' where b: "b = (accepted, c')" by (cases b)
    show ?thesis
    proof (cases "snd s c'")
      case (Inl e)
      with g w1 st Inr b show ?thesis by (auto simp: pass_gate_def io_try_apply io_bind_apply)
    next
      case status: (Inr status)
      obtain c2 w2 where "markAsProcessed L status c' w1 = (Inr c2, w2)" by (rule markAsProcessed_result)
      with g w1 st Inr b status show ?thesis
        by (auto simp: pass_gate_def io_try_apply io_bind_apply io_then_apply markAsIneligble_def)
    qed
  qed
qed

lemma pass_gates_spec:
  assumes "list_all2 corresponds gs ss" and "db_ok (store w)"
  shows "\<exists>r w'. pass_gates L gs c w = (Inr r, w') \<and> meets L (r, w') (run_specs ss (store w) c) w c"
  using assms
proof (induction gs ss arbitrary: c w rule: list_all2_induct)
  case Nil
  then show ?case by (simp add: meets_def)
next
  case (Cons g gs s ss)
  note gate = pass_gate_spec [OF Cons.hyps(1) Cons.prems, where c = c and L = L]
  show ?case
  proof (cases "fst s (store w) c")
    case (Inl e)
    with gate show ?thesis by (auto simp: io_bind_apply meets_def)
  next
    case (Inr b)
    obtain accepted c1 where b: "b = (accepted, c1)" by (cases b)
    have tx: "cx_transaction c1 = cx_transaction c"
      using Cons.hyps(1) Inr b by (auto simp: corresponds_def)
    obtain w1 where w1: "store w1 = store w"
      and run: "pass_gate L g c w =
            (if accepted then (Inr (Some c1), w1)
             else case snd s c1 of
                 Inl e \<Rightarrow> (Inr None, w1)
               | Inr status \<Rightarrow> (Inr None, state_of (markAsProcessed L status c1) w1))"
      using gate Inr b by auto
    show ?thesis
    proof (cases accepted)
      case True
      have "db_ok (store w1)" using Cons.prems w1 by simp
      from Cons.IH [OF this, where c = c1] obtain r w' where "pass_gates L gs c1 w1 = (Inr r, w')"
        and "meets L (r, w') (run_specs ss (store w1) c1) w1 c1" by blast
      with True run w1 tx Inr b show ?thesis
        by (simp add: io_bind_apply meets_def split: outcome.splits)
    next
      case False
      with run w1 tx Inr b show ?thesis
        by (auto simp: io_bind_apply meets_def split: sum.split)
    qed
  qed
qed

section \<open>The specification of every gate\<close>

definition need :: "'a option \<Rightarrow> ('a \<Rightarrow> exn + 'b) \<Rightarrow> exn + 'b" where
  "need x k = (case x of None \<Rightarrow> Inl TypeError | Some y \<Rightarrow> k y)"

definition asks :: "(db \<Rightarrow> qualifying_context \<Rightarrow> exn + bool) \<Rightarrow> db \<Rightarrow> qualifying_context \<Rightarrow>
    exn + bool \<times> qualifying_context" where
  "asks f d c = (case f d c of Inl e \<Rightarrow> Inl e | Inr b \<Rightarrow> Inr (b, c))"

definition criteria_spec where
  "criteria_spec L d c = Inr (case criteria_in L d (tx_rebateCriteriaId (cx_transaction c)) of
       None \<Rightarrow> (False, c) | Some x \<Rightarrow> (True, c\<lparr>cx_criteria := Some x\<rparr>))"

definition user_spec where
  "user_spec L d c = Inr (case user_in L d (tx_userId (cx_transaction c)) of
       None \<Rightarrow> (False, c) | Some x \<Rightarrow> (True, c\<lparr>cx_user := Some x\<rparr>))"

definition period_spec where
  "period_spec L d c = need (cx_criteria c) (\<lambda>cr. Inr (isWithinRedemptionPeriod L cr (cx_transaction c)))"

definition blacklist_spec where
  "blacklist_spec d c = need (cx_user c) (\<lambda>u. Inr (\<not> u_isBlacklisted u))"

definition product_spec where
  "product_spec d c =
     (case (case tx_cardType (cx_transaction c) of
          OtherCardType t \<Rightarrow> Inl (JsError ''[RM] Card type not recognized'')
        | t \<Rightarrow> need (cx_user c) (products_for t)) of
        Inl e \<Rightarrow> Inl e
      | Inr products \<Rightarrow> Inr (case filter (\<lambda>p. p_code p = tx_productCodeExternal (cx_transaction c) \<and>
            p_accountId p = tx_accountId (cx_transaction c)) products of
          [] \<Rightarrow> (False, c) | p # _ \<Rightarrow> (True, c\<lparr>cx_product := Some p\<rparr>)))"

definition block_spec where
  "block_spec d c = need (cx_product c) (\<lambda>p. Inr (p_isEligibleClientProduct p = ''1''))"

definition targeting_spec where
  "targeting_spec L d c = need (cx_criteria c)
     (\<lambda>cr. if \<not> rc_requiresCustomerToBeTargeted cr \<or> rc_redemptionBasedOn cr = PreLoadedOptInFile then Inr True
       else case user_in L d (tx_userId (cx_transaction c)) of
           None \<Rightarrow> Inr False
         | Some _ \<Rightarrow> Inr (ledger_says ui_targeted_offers L d (tx_userId (cx_transaction c))
             (tx_transactionDate (cx_transaction c)) (rc_id cr)))"

definition linking_spec where
  "linking_spec L d c = need (cx_criteria c)
     (\<lambda>cr. if \<not> rc_requiresCustomerToBeLinked cr then Inr True
       else case cx_user c of
           None \<Rightarrow> Inr False
         | Some _ \<Rightarrow>
            (case shouldCheckLinkingToPrimary (cx_product c) cr of
               Inl e \<Rightarrow> Inl e
             | Inr atPrimary \<Rightarrow>
                (case (if atPrimary then need (cx_product c) (\<lambda>p. Inr (p_primaryAccountHashSRF p))
                       else Inr (Value (tx_userId (cx_transaction c)))) of
                   Inl e \<Rightarrow> Inl e
                 | Inr user \<Rightarrow>
                     if atPrimary \<and> (user = Null \<or> user = Value '''') then Inr False
                     else Inr (ledger_says ui_linked_offers L d (template_text user)
                       (tx_transactionDate (cx_transaction c)) (rc_id cr)))))"

definition limit_spec where
  "limit_spec d c = need (cx_criteria c) (\<lambda>cr. Inr (\<not> limit_reached d (cx_transaction c) cr))"

definition used_spec where
  "used_spec d c = Inr (\<not> transaction_rewarded d (cx_transaction c))"

definition ownership_spec where
  "ownership_spec d c = need (cx_criteria c)
     (\<lambda>cr. if rc_redemptionBasedOn cr \<noteq> ProductOwnerShipBased then Inr True
       else need (cx_product c) (\<lambda>p. Inr
         (case getOfferOwnershipTypes cr (cx_transaction c) (p_code p) (p_accountId p) of
            None \<Rightarrow> False | Some types \<Rightarrow> p_ownershipType p \<in> set types)))"

definition opt_in_spec where
  "opt_in_spec d c = need (cx_criteria c)
     (\<lambda>cr. if rc_redemptionBasedOn cr \<noteq> PreLoadedOptInFile then Inr True
       else need (cx_user c)
         (\<lambda>u. case traverse (opted_in cr (cx_transaction c)) (u_optInFileOffers u) of
            Inl e \<Rightarrow> Inl e | Inr xs \<Rightarrow> Inr (True \<in> set xs)))"

definition limit_status_spec where
  "limit_status_spec c = need (cx_criteria c)
     (\<lambda>cr. Inr (if rc_redemptionLimitType cr = Value PerCard
        then ClientReachedCardRedLimit else ClientReachedOverallRedLimit))"

definition ownership_status_spec where
  "ownership_status_spec c = Inr (if tx_cardType (cx_transaction c) = CreditCard
     then CreditCardOwnerNotAuthorized else DebitCardOwnerNotAuthorized)"

definition specs :: "ext \<Rightarrow> gate_spec list" where
  "specs L =
     [(criteria_spec L, \<lambda>_. Inr OfferNotFound), (user_spec L, \<lambda>_. Inr CannotFindClient),
      (asks (period_spec L), \<lambda>_. Inr OfferNotWithinRedemptionPeriod),
      (asks blacklist_spec, \<lambda>_. Inr ClientBlacklisted),
      (product_spec, \<lambda>_. Inr UserProductForOfferNotFound),
      (asks block_spec, \<lambda>_. Inr ProductHasBlockCode),
      (asks (targeting_spec L), \<lambda>_. Inr ClientIsNotTargeted),
      (asks (linking_spec L), \<lambda>_. Inr ClientIsNotLinked),
      (asks limit_spec, limit_status_spec), (asks used_spec, \<lambda>_. Inr QualifiedTransUsedAlready),
      (asks ownership_spec, ownership_status_spec), (asks opt_in_spec, \<lambda>_. Inr ClientNotInOptInFile)]"

lemma decides_need: "(\<And>y. decides (g y) (k y)) \<Longrightarrow>
    decides (\<lambda>d. need x (\<lambda>y. g y d)) (io_bind (defined x) k)"
  by (cases x) (auto simp: need_def defined_def decides_def io_bind_apply)

lemma decides_ask: "decides (\<lambda>d. f d c) (check c) \<Longrightarrow> decides (\<lambda>d. asks f d c) (ask check c)"
  unfolding ask_def asks_def by (intro decides_bind decides_return)

lemmas decides_rules =
  decides_need decides_bind decides_try decides_if decides_case_option decides_return decides_throw decides_lift

lemma decides_findCriteria:
  assumes "ext_ok L" and "reliable L" shows "decides (\<lambda>d. criteria_spec L d c) (findCriteria L c)"
  unfolding findCriteria_def criteria_spec_def
  by (rule decides_cong [OF decides_bind [OF criteria_decides [OF assms] decides_return]]) simp

lemma decides_findUser:
  assumes "ext_ok L" and "reliable L" shows "decides (\<lambda>d. user_spec L d c) (findUser L c)"
  unfolding findUser_def user_spec_def
  by (rule decides_cong [OF decides_bind [OF user_decides [OF assms] decides_return]]) simp

lemma decides_period: "decides (\<lambda>d. period_spec L d c) (OfferRedemptionPeriod_doesAccept L c)"
  unfolding OfferRedemptionPeriod_doesAccept_def period_spec_def by (intro decides_need decides_return)

lemma decides_blacklist: "decides (\<lambda>d. blacklist_spec d c) (Blacklist_doesAccept c)"
  unfolding Blacklist_doesAccept_def blacklist_spec_def by (intro decides_need decides_return)

lemma decides_findProduct: "decides (\<lambda>d. product_spec d c) (findProduct c)"
  unfolding findProduct_def product_spec_def
  by (intro decides_bind decides_return)
    (auto split: CardType.split intro: decides_throw intro!: decides_need decides_lift)

lemma decides_block: "decides (\<lambda>d. block_spec d c) (ProductBlockCode_doesAccept c)"
  unfolding ProductBlockCode_doesAccept_def block_spec_def by (intro decides_need decides_return)

lemma decides_targeting:
  assumes "ext_ok L" and "reliable L"
  shows "decides (\<lambda>d. targeting_spec L d c) (OfferTargeting_doesAccept L c)"
proof -
  have ledger: "decides (\<lambda>d. Inr (ledger_says ui_targeted_offers L d u t q))
      (io_try (io_bind (getStateAtDate L u t) (\<lambda>s. io_lift (checkUserTargetingInLedger s q)))
        (\<lambda>_. io_return False))" for u t q
    unfolding checkUserTargetingInLedger_def
    by (rule ledger_decides [OF assms]) (auto simp: UserLedgerSerializer_deserialize_def Let_def)
  have "decides (\<lambda>d. case Inr (user_in L d i) of Inl e \<Rightarrow> Inl e
        | Inr u \<Rightarrow> (case u of None \<Rightarrow> Inr False | Some _ \<Rightarrow> Inr (ledger_says ui_targeted_offers L d i t q)))
      (io_bind (find UserRepository L i) (\<lambda>user. case user of None \<Rightarrow> io_return False
        | Some _ \<Rightarrow> io_try (io_bind (getStateAtDate L i t)
            (\<lambda>s. io_lift (checkUserTargetingInLedger s q))) (\<lambda>_. io_return False)))" for i t q
    by (rule decides_bind [OF user_decides [OF assms]], rule decides_case_option) (rule decides_return ledger)+
  then show ?thesis
    unfolding OfferTargeting_doesAccept_def targeting_spec_def
    by (intro decides_need decides_if decides_return) simp
qed

lemma decides_linking:
  assumes "ext_ok L" and "reliable L"
  shows "decides (\<lambda>d. linking_spec L d c) (OfferLinking_doesAccept L c)"
proof -
  have ledger: "decides (\<lambda>d. Inr (ledger_says ui_linked_offers L d u t q))
      (io_try (io_bind (getStateAtDate L u t) (\<lambda>s. io_lift (checkUserLinkedInLedger s q)))
        (\<lambda>_. io_return False))" for u t q
    unfolding checkUserLinkedInLedger_def
    by (rule ledger_decides [OF assms]) (auto simp: UserLedgerSerializer_deserialize_def Let_def)
  show ?thesis
    unfolding OfferLinking_doesAccept_def linking_spec_def linking_user_id_def
    by (intro decides_need decides_if decides_case_option decides_bind decides_lift decides_return ledger)
qed

lemma decides_limit:
  assumes "ext_ok L" and "reliable L"
  shows "decides (\<lambda>d. limit_spec d c) (RedemptionLimitValidation_transactionCheck L c)"
  unfolding RedemptionLimitValidation_transactionCheck_def limit_spec_def
    getRebatesByRedemptionLimitType_def findRebatesForUserForRebateCriteria_def
  by (intro decides_need, rule decides_cong [OF rebates_length_decides [OF assms]])
    (auto simp: limit_reached_def checkRebateCanBeRedeemed_def)

lemma decides_used:
  assumes "ext_ok L" and "reliable L"
  shows "decides (\<lambda>d. used_spec d c) (TransactionUsed_doesAccept L c)"
  unfolding TransactionUsed_doesAccept_def used_spec_def length_0_conv [symmetric]
  by (rule decides_cong [OF rebates_length_decides [OF assms]])
    (auto simp: transaction_rewarded_def filter_empty_conv)

lemma decides_ownership: "decides (\<lambda>d. ownership_spec d c) (OfferProductOwnership_doesAccept c)"
  unfolding OfferProductOwnership_doesAccept_def ownership_spec_def
  by (intro decides_need decides_if decides_return)

lemma decides_opt_in: "decides (\<lambda>d. opt_in_spec d c) (OfferOptInFile_doesAccept c)"
  unfolding OfferOptInFile_doesAccept_def opt_in_spec_def
  by (intro decides_need decides_if decides_bind decides_lift decides_return)

section \<open>The gates meet their specifications\<close>

lemma corresponds_ask:
  "(\<And>c. decides (\<lambda>d. f d c) (check c)) \<Longrightarrow> (\<And>c w. st c w = (sts c, w)) \<Longrightarrow> corresponds (ask check, st) (asks f, sts)"
  by (auto simp: corresponds_def asks_def decides_ask [unfolded asks_def] split: sum.splits)

lemma gates_correspond:
  assumes "ext_ok L" and "reliable L"
  shows "list_all2 corresponds (gates L) (specs L)"
proof -
  have criteria: "corresponds (findCriteria L, \<lambda>_. io_return OfferNotFound) (criteria_spec L, \<lambda>_. Inr OfferNotFound)"
    using decides_findCriteria [OF assms]
    by (auto simp: corresponds_def criteria_spec_def split: option.splits)
  have user: "corresponds (findUser L, \<lambda>_. io_return CannotFindClient) (user_spec L, \<lambda>_. Inr CannotFindClient)"
    using decides_findUser [OF assms] by (auto simp: corresponds_def user_spec_def split: option.splits)
  have product: "corresponds (findProduct, \<lambda>_. io_return UserProductForOfferNotFound)
      (product_spec, \<lambda>_. Inr UserProductForOfferNotFound)"
    using decides_findProduct
    by (auto simp: corresponds_def product_spec_def split: sum.splits list.splits)
  have limit: "limitStatus c w = (limit_status_spec c, w)" for c w
    by (simp add: limitStatus_def limit_status_spec_def need_def defined_def io_bind_apply split: option.split)
  have ownership: "ownershipStatus c w = (ownership_status_spec c, w)" for c w
    by (simp add: ownershipStatus_def ownership_status_spec_def)
  show ?thesis
    unfolding gates_def later_gates_def specs_def list.rel_inject
    by (intro conjI criteria user product corresponds_ask decides_period decides_blacklist decides_block
        decides_targeting decides_linking decides_limit decides_used decides_ownership decides_opt_in
        assms limit ownership list.rel_intros io_return_apply)
qed

text \<open>What the specifications of the gates amount to.\<close>

definition settled :: "ext \<Rightarrow> db \<Rightarrow> ITransactionForRebateCriteria \<Rightarrow> outcome \<Rightarrow> verdict" where
  "settled L d x out =
     (case out of
        Halt \<Rightarrow> Stuck
      | Rejected status \<Rightarrow> Reject status
      | Passed c \<Rightarrow>
         (case cx_criteria c of
            None \<Rightarrow> Stuck
          | Some criteria \<Rightarrow>
             (case RebateCalculation_result L x (rc_rewardCalculation criteria) of
                Inl e \<Rightarrow> Stuck
              | Inr calculation \<Rightarrow>
                  if calc_amount calculation = 0 then NoRebateDue
                  else Issue (calc_amount calculation) (reward_unit (rc_rewardCalculation criteria)))))"

lemma traverse_opted_in:
  assumes "\<forall>t. tx_cardType x \<noteq> OtherCardType t"
  shows "traverse (opted_in criteria x) rs = Inr (map (\<lambda>r. opted_in criteria x r = Inr True) rs)"
proof -
  have "\<exists>b. opted_in criteria x r = Inr b" for r
    using assms by (cases "tx_cardType x") (auto simp: opted_in_def Let_def)
  then have "opted_in criteria x r = Inr (opted_in criteria x r = Inr True)" for r
    by (metis (full_types))
  then show ?thesis by (auto simp: traverse_Inr)
qed

lemma product_specs:
  assumes "\<forall>t. tx_cardType x \<noteq> OtherCardType t" and "user_in L d (tx_userId x) = Some user"
  shows "settled L d x
     (run_specs (drop 5 (specs L)) d
        \<lparr>cx_transaction = x, cx_criteria = Some criteria, cx_user = Some user, cx_product = Some product\<rparr>) =
     product_verdict L d x criteria user product"
  unfolding specs_def product_verdict_def
  using assms
  by (auto simp: settled_def asks_def block_spec_def targeting_spec_def linking_spec_def limit_spec_def
      used_spec_def ownership_spec_def opt_in_spec_def limit_status_spec_def ownership_status_spec_def
      need_def targeted_def linked_def Let_def owner_may_redeem_def in_opt_in_file_def traverse_opted_in
      image_iff split: sum.splits option.splits if_splits)

lemma verdict_specs: "settled L d x (run_specs (specs L) d (new_context x)) = qualifying_verdict L d x"
proof -
  have split5: "specs L =
     (criteria_spec L, \<lambda>_. Inr OfferNotFound) # (user_spec L, \<lambda>_. Inr CannotFindClient) #
     (asks (period_spec L), \<lambda>_. Inr OfferNotWithinRedemptionPeriod) #
     (asks blacklist_spec, \<lambda>_. Inr ClientBlacklisted) #
     (product_spec, \<lambda>_. Inr UserProductForOfferNotFound) # drop 5 (specs L)"
    by (simp add: specs_def)
  show ?thesis
  proof (cases "criteria_in L d (tx_rebateCriteriaId x)")
    case None
    then show ?thesis
      by (subst split5) (simp add: criteria_spec_def new_context_def qualifying_verdict_def settled_def)
  next
    case criteria: (Some criteria)
    show ?thesis
    proof (cases "user_in L d (tx_userId x)")
      case None
      with criteria show ?thesis
        by (subst split5)
          (simp add: criteria_spec_def user_spec_def new_context_def qualifying_verdict_def settled_def)
    next
      case (Some user)
      have card: "\<forall>t. tx_cardType x \<noteq> OtherCardType t" if "products_for (tx_cardType x) user = Inr ps" for ps
        using that by (auto simp: products_for_def)
      show ?thesis
        using criteria Some
        by (subst split5)
          (auto simp: criteria_spec_def user_spec_def asks_def period_spec_def blacklist_spec_def
            product_spec_def need_def new_context_def qualifying_verdict_def
            product_specs [symmetric] card products_for_def
            settled_def [of _ _ _ Halt] settled_def [of _ _ _ "Rejected s" for s]
            split: sum.split list.split CardType.split)
    qed
  qed
qed

section \<open>What the verdict prescribes\<close>

definition mark ::
  "ext \<Rightarrow> TransactionStatus \<Rightarrow> date \<Rightarrow> ITransactionForRebateCriteria \<Rightarrow>
    TransactionForRebateCriteriaRecord \<Rightarrow> TransactionForRebateCriteriaRecord" where
  "mark L status t x r =
     (if tr_id r = tx_id x
      then transaction_columns L (r\<lparr>tr_processed_at := Some t, tr_status := status\<rparr>) else r)"

text \<open>From \<open>d\<close> to \<open>d'\<close>, the transaction's row gets a status and a date, and nothing else changes.\<close>

definition marked ::
  "ext \<Rightarrow> TransactionStatus \<Rightarrow> date \<Rightarrow> ITransactionForRebateCriteria \<Rightarrow> db \<Rightarrow> db \<Rightarrow> bool" where
  "marked L status t x d d' \<longleftrightarrow>
     mset (transactions d') = mset (map (mark L status t x) (transactions d)) \<and>
     d' = d\<lparr>transactions := transactions d'\<rparr>"

definition prescribes :: "ext \<Rightarrow> verdict \<Rightarrow> ITransactionForRebateCriteria \<Rightarrow> db \<Rightarrow> db \<Rightarrow> bool" where
  "prescribes L v x d d' \<longleftrightarrow>
     (case v of
        Stuck \<Rightarrow> d' = d
      | Reject status \<Rightarrow> \<exists>t. marked L status t x d d'
      | NoRebateDue \<Rightarrow> \<exists>t. marked L RebateNotDue t x d d'
      | Issue amount rewardType \<Rightarrow>
          \<exists>t t1 t2 k d1. marked L RebateCreated t x d d1 \<and>
            (\<forall>r\<in>set (rebates d). rr_id r \<noteq> Some k) \<and>
            mset (rebates d') =
              add_mset (issued_row L (x\<lparr>tx_processedAt := Some t, tx_status := RebateCreated\<rparr>)
                amount rewardType t1 t2 k) (mset (rebates d)) \<and>
            d' = d1\<lparr>rebates := rebates d'\<rparr>)"

lemma only_transactions:
  assumes "d\<lparr>transactions := []\<rparr> = d'\<lparr>transactions := []\<rparr>" shows "d' = d\<lparr>transactions := transactions d'\<rparr>"
  using assms by (cases d, cases d') simp

lemma only_rebates:
  assumes "d\<lparr>rebates := []\<rparr> = d'\<lparr>rebates := []\<rparr>" shows "d' = d\<lparr>rebates := rebates d'\<rparr>"
  using assms by (cases d, cases d') simp

lemma transaction_patch:
  "serializePartial TransactionForRebateCriteriaRepository [ProcessedAt t, Status s] =
    (\<lambda>r. r\<lparr>tr_processed_at := Some t, tr_status := s\<rparr>)"
  by (simp add: fun_eq_iff serializePartial_def TransactionForRebateCriteriaRepository_def)

lemma markAsProcessed_reliable:
  assumes "ext_ok L" and "reliable L" and "tx_id (cx_transaction c) \<noteq> None"
  obtains t w' where
    "markAsProcessed L status c w =
       (Inr (c\<lparr>cx_transaction := (cx_transaction c)\<lparr>tx_processedAt := Some t, tx_status := status\<rparr>\<rparr>), w')"
    and "marked L status t (cx_transaction c) (store w) (store w')"
proof -
  let ?T = TransactionForRebateCriteriaRepository and ?i = "id_text (tx_id (cx_transaction c))"
  let ?t = "clock L (calls w)" and ?x = "cx_transaction c"
  have v: "int_key ?i \<noteq> None" using assms(3) by auto
  obtain us rs where q: "orm_update_id (transactions_orm L) (calls (tick w)) ?i
      (serializePartial ?T [ProcessedAt ?t, Status status]) (transactions (store (tick w))) = Inr (us, rs)"
    using reliable_update_id [OF reliable_transactions [OF assms(2)], where i = ?i] v by blast
  let ?w' = "(tick (tick w))\<lparr>store := (store w)\<lparr>transactions := rs\<rparr>\<rparr>"
  have u: "update ?T L ?i [ProcessedAt ?t, Status status] (tick w) = (Inr (), ?w')"
    using q by (simp add: update_def updateRecord_def execute_def io_then_apply
        TransactionForRebateCriteriaRepository_def)
  have "mset rs = mset (map (mark L status ?t ?x) (transactions (store w)))"
    using orm_update_id_rows [OF transactions_updates [OF assms(1)] q] assms(3)
    unfolding transaction_patch mark_def [abs_def] by simp
  then have "marked L status ?t ?x (store w) (store ?w')" by (simp add: marked_def)
  then show thesis using that [of ?t ?w'] u by (simp add: markAsProcessed_cases)
qed

lemma issuance_returns:
  assumes "ext_ok L" and "reliable L"
  obtains y where "result_of (PendingRebateIssuance_perform L x a rt) w = Inr y"
proof -
  define p where "p = pending_rebate L x a rt (clock L (calls w)) (clock L (Suc (calls w)))"
  define w2 where "w2 = tick (tick w)"
  have run: "PendingRebateIssuance_perform L x a rt w = insert RebateRepository L p w2"
    by (simp add: PendingRebateIssuance_perform_def io_bind_apply now_apply p_def w2_def)
  obtain r' rs' where saved: "orm_save (rebates_orm L) (calls w2) (RebateSerializer_serialize p)
      (rebates (store w2)) = Inr (r', rs')"
    using reliable_save [OF reliable_rebates [OF assms(2)]] by blast
  obtain k where "r' = (RebateSerializer_serialize p)\<lparr>rr_id := Some k\<rparr>"
    by (rule orm_save_serial [OF rebates_saves [OF assms(1)] _ saved]) (simp add: RebateSerializer_serialize_def)
  then obtain y where "RebateSerializer_deserialize L r' = Inr y" by (simp add: RebateSerializer_deserialize_def)
  then have "result_of (insert RebateRepository L p) w2 = Inr y"
    using saved by (simp add: insert_def insertRecord_def execute_def io_bind_apply RebateRepository_def)
  with run show thesis using that by simp
qed

lemma issuance_reliable:
  assumes "ext_ok L" and "reliable L"
  obtains t1 t2 k where "\<forall>r\<in>set (rebates (store w)). rr_id r \<noteq> Some k"
    and "mset (rebates (store (state_of (PendingRebateIssuance_perform L x a rt) w))) =
        add_mset (issued_row L x a rt t1 t2 k) (mset (rebates (store w)))"
    and "store (state_of (PendingRebateIssuance_perform L x a rt) w) =
        (store w)\<lparr>rebates := rebates (store (state_of (PendingRebateIssuance_perform L x a rt) w))\<rparr>"
proof -
  have frame: "frames (\<lambda>w. (store w)\<lparr>rebates := []\<rparr>) (PendingRebateIssuance_perform L x a rt)"
    unfolding PendingRebateIssuance_perform_def
    by (intro frames_bind frames_comp [OF frames_now] frames_insert) (simp add: RebateRepository_def)
  have only: "store (state_of (PendingRebateIssuance_perform L x a rt) w) =
        (store w)\<lparr>rebates := rebates (store (state_of (PendingRebateIssuance_perform L x a rt) w))\<rparr>"
    by (rule only_rebates) (rule framesD [OF frame, symmetric])
  obtain y where y: "result_of (PendingRebateIssuance_perform L x a rt) w = Inr y"
    by (rule issuance_returns [OF assms])
  show thesis
    by (cases rule: issuance_cases [OF assms(1), of x a rt w]) (use y only that in auto)
qed

lemma settle_settled:
  assumes "ext_ok L" and "reliable L" and "tx_id x \<noteq> None" and c: "cx_transaction c = x"
  shows "prescribes L (settled L d x (Passed c)) x (store w) (store (state_of (settle L c) w))"
proof (cases "cx_criteria c")
  case None
  then show ?thesis by (simp add: settled_def prescribes_def settle_def defined_def io_bind_apply)
next
  case (Some criteria)
  show ?thesis
  proof (cases "RebateCalculation_result L x (rc_rewardCalculation criteria)")
    case (Inl e)
    with Some c show ?thesis by (simp add: settled_def prescribes_def settle_def defined_def io_bind_apply)
  next
    case (Inr calc)
    let ?a = "calc_amount calc" and ?rt = "reward_unit (rc_rewardCalculation criteria)"
    have run: "settle L c w = (if ?a = 0 then markAsNoRebateDue L c w else issueRebate L ?a ?rt c w)"
      using Some Inr c by (simp add: settle_def io_bind_apply defined_def)
    have id: "tx_id (cx_transaction c) \<noteq> None" using assms(3) c by simp
    show ?thesis
    proof (cases "?a = 0")
      case True
      from markAsProcessed_reliable [OF assms(1,2) id, of RebateNotDue w] obtain t w' where
        "markAsProcessed L RebateNotDue c w = (Inr (c\<lparr>cx_transaction := (cx_transaction c)
           \<lparr>tx_processedAt := Some t, tx_status := RebateNotDue\<rparr>\<rparr>), w')"
        and "marked L RebateNotDue t (cx_transaction c) (store w) (store w')" .
      with True run Some Inr c show ?thesis
        by (auto simp: settled_def prescribes_def markAsNoRebateDue_def io_then_apply)
    next
      case False
      from markAsProcessed_reliable [OF assms(1,2) id, of RebateCreated w] obtain t w' where
        m: "markAsProcessed L RebateCreated c w = (Inr (c\<lparr>cx_transaction := (cx_transaction c)
           \<lparr>tx_processedAt := Some t, tx_status := RebateCreated\<rparr>\<rparr>), w')"
        and mk: "marked L RebateCreated t x (store w) (store w')" using c by metis
      let ?x = "x\<lparr>tx_processedAt := Some t, tx_status := RebateCreated\<rparr>"
      let ?d = "store (state_of (PendingRebateIssuance_perform L ?x ?a ?rt) w')"
      have d: "store (state_of (settle L c) w) = ?d"
        using False run m c
        by (auto simp: issueRebate_def io_bind_apply io_then_apply split: prod.splits sum.splits)
      have rb: "rebates (store w') = rebates (store w)" using mk by (simp add: marked_def) (metis db.select_convs(4) db.update_convs(3) db.surjective)
      obtain t1 t2 k where "\<forall>r\<in>set (rebates (store w')). rr_id r \<noteq> Some k"
        and "mset (rebates ?d) = add_mset (issued_row L ?x ?a ?rt t1 t2 k) (mset (rebates (store w')))"
        and "?d = (store w')\<lparr>rebates := rebates ?d\<rparr>"
        by (rule issuance_reliable [OF assms(1,2)])
      with False Some Inr mk rb d show ?thesis
        by (simp add: settled_def prescribes_def) blast
    qed
  qed
qed

lemma qualifying_verdict_prescribed:
  assumes "ext_ok L" and "reliable L" and "db_ok (store w)" and "tx_id x \<noteq> None"
  shows "prescribes L (qualifying_verdict L (store w) x) x (store w)
    (store (state_of (QualifyingStrategy_perform L x) w))"
proof -
  obtain r w1 where run: "pass_gates L (gates L) (new_context x) w = (Inr r, w1)"
    and meets: "meets L (r, w1) (run_specs (specs L) (store w) (new_context x)) w (new_context x)"
    using pass_gates_spec [OF gates_correspond [OF assms(1,2)] assms(3)] by blast
  note v = verdict_specs [of L "store w" x, symmetric]
  show ?thesis
  proof (cases "run_specs (specs L) (store w) (new_context x)")
    case Halt
    with meets run v show ?thesis
      by (simp add: meets_def settled_def prescribes_def QualifyingStrategy_perform_def io_bind_apply)
  next
    case (Rejected status)
    then obtain c' w2 where r: "r = None" and w2: "store w2 = store w" and c': "cx_transaction c' = x"
      and w1: "w1 = state_of (markAsProcessed L status c') w2"
      using meets by (auto simp: meets_def new_context_def)
    have "tx_id (cx_transaction c') \<noteq> None" using assms(4) c' by simp
    from markAsProcessed_reliable [OF assms(1,2) this, of status w2] obtain t w3 where
      "markAsProcessed L status c' w2 = (Inr (c'\<lparr>cx_transaction := x\<lparr>tx_processedAt := Some t, tx_status := status\<rparr>\<rparr>), w3)"
      and "marked L status t x (store w) (store w3)"
      using c' w2 by metis
    with r run w1 v Rejected show ?thesis
      by (auto simp: settled_def prescribes_def QualifyingStrategy_perform_def io_bind_apply)
  next
    case (Passed c)
    then have r: "r = Some c" and w1: "store w1 = store w" using meets by (auto simp: meets_def)
    have c: "cx_transaction c = x" using gates_passed run r by metis
    have p: "store (state_of (QualifyingStrategy_perform L x) w) = store (state_of (settle L c) w1)"
      using run r
      by (auto simp: QualifyingStrategy_perform_def io_bind_apply io_try_apply split: prod.splits sum.splits)
    show ?thesis
      unfolding p v Passed using settle_settled [OF assms(1,2,4) c, of "store w" w1] w1 by simp
  qed
qed

text \<open>
  C1.  Processing a qualifying transaction does what the offer's rules say.  On a well-formed database whose
  requests succeed, the database after \<open>QualifyingStrategy.perform\<close> is the one \<open>qualifying_verdict\<close> of the
  database before prescribes: on a rejection the transaction's row carries the status of the first rule it
  breaks, and nothing else changes; when no rebate is due it carries that status; when a rebate is due it is
  marked as such and exactly one rebate row, with a new number and the calculated amount, is added; and
  where the verdict is \<open>Stuck\<close> nothing changes at all.
\<close>

theorem qualifying_perform_implements_verdict:
  assumes "ext_ok L" and "reliable L" and "db_ok (store w)" and "tx_id x \<noteq> None"
  shows "prescribes L (qualifying_verdict L (store w) x) x (store w)
    (store (state_of (QualifyingStrategy_perform L x) w))"
  by (rule qualifying_verdict_prescribed [OF assms])

lemma qualifying_perform_implements_verdict_witness:
  "prescribes ref_ext (qualifying_verdict ref_ext sample_db sample_transaction) sample_transaction sample_db
    (store (state_of (QualifyingStrategy_perform ref_ext sample_transaction) sample_world))"
proof -
  have s: "store sample_world = sample_db" by (simp add: sample_world_def)
  have "db_ok sample_db"
    by (simp add: db_ok_def sample_db_def empty_db_def TransactionForRebateCriteriaSerializer_serialize_def
        sample_transaction_def)
  then show ?thesis
    using qualifying_perform_implements_verdict [OF ref_ext_ok ref_reliable, of sample_world sample_transaction]
    by (simp add: s sample_transaction_def)
qed

end
