(* ===== verification/FulfillmentRefinement.thy ===== *)
theory FulfillmentRefinement
  imports Fulfillment Refinement
begin

text \<open>
  What processing a fulfillment transaction does to the database: whatever requests fail, at most the one
  pending rebate that matches the transaction is paid and no other rebate changes; when the database
  answers, the transaction gets the status \<open>fulfillment_status\<close> says, and a successful one pays the rebate,
  brings its journal record up to date and sends its event.
\<close>

section \<open>The transaction is marked\<close>

lemma update_transaction_cases:
  assumes "ext_ok L" and "db_ok (store w)"
    and run: "update TransactionForRebateCriteriaRepository L (id_text i) ps w = (r, w')"
  shows "(\<exists>e. r = Inl e) \<and> store w' = store w \<or>
    r = Inr () \<and> store w' = (store w)\<lparr>transactions := transactions (store w')\<rparr> \<and>
    mset (transactions (store w')) = mset (map (\<lambda>q. if tr_id q = i
      then transaction_columns L (serializePartial TransactionForRebateCriteriaRepository ps q) else q)
      (transactions (store w)))"
proof (cases r)
  case (Inl e)
  then show ?thesis using transaction_table.update_raised [of L "id_text i" ps w e] run by simp
next
  case (Inr u)
  let ?T = TransactionForRebateCriteriaRepository
  have keys: "tr_id q \<noteq> None" if "q \<in> set (transactions (store w))" for q
    using assms(2) that by (simp add: db_ok_def)
  have "mset (rows_of ?T (store w')) = mset (map (\<lambda>q. if serial_matches tr_id (id_text i) q
      then transaction_columns L (serializePartial ?T ps q) else q) (rows_of ?T (store w)))"
    using transaction_table.update_rows [of "serial_matches tr_id" "transaction_columns L" L "id_text i" ps w u]
      run Inr transactions_updates [OF assms(1)] by (simp add: TransactionForRebateCriteriaRepository_def)
  also have "rows_of ?T (store w) = transactions (store w)"
    by (simp add: TransactionForRebateCriteriaRepository_def)
  also have "map (\<lambda>q. if serial_matches tr_id (id_text i) q
      then transaction_columns L (serializePartial ?T ps q) else q) (transactions (store w)) =
      map (\<lambda>q. if tr_id q = i then transaction_columns L (serializePartial ?T ps q) else q) (transactions (store w))"
    by (rule map_cong [OF refl]) (auto dest: keys)
  finally have m: "mset (transactions (store w')) = mset (map (\<lambda>q. if tr_id q = i
      then transaction_columns L (serializePartial ?T ps q) else q) (transactions (store w)))"
    by (simp add: TransactionForRebateCriteriaRepository_def)
  have "frames (\<lambda>w. (store w)\<lparr>transactions := []\<rparr>) (update ?T L (id_text i) ps)"
    by (rule frames_update) (simp add: TransactionForRebateCriteriaRepository_def)
  then have "store w' = (store w)\<lparr>transactions := transactions (store w')\<rparr>"
    using only_transactions frames_step run by metis
  with m Inr show ?thesis by simp
qed

lemma TransactionUpdate_cases:
  assumes "ext_ok L" and "db_ok (store w)" and "TransactionUpdate_perform L x s w = (r, w')"
  shows "(\<exists>e. r = Inl e) \<and> store w' = store w \<or> r = Inr () \<and> (\<exists>t. marked L s t x (store w) (store w'))"
proof -
  have "update TransactionForRebateCriteriaRepository L (id_text (tx_id x))
      [ProcessedAt (clock L (calls w)), Status s] (tick w) = (r, w')"
    using assms(3) by (simp add: TransactionUpdate_perform_def io_bind_apply now_apply)
  from update_transaction_cases [OF assms(1) _ this] assms(2) show ?thesis
    unfolding store_tick transaction_patch marked_def mark_def [abs_def] by blast
qed

lemma TransactionUpdate_replies:
  assumes "reliable L" and "tx_id x \<noteq> None"
  shows "\<exists>w'. TransactionUpdate_perform L x s w = (Inr (), w')"
proof -
  let ?T = TransactionForRebateCriteriaRepository and ?ps = "[ProcessedAt (clock L (calls w)), Status s]"
  have "int_key (id_text (tx_id x)) \<noteq> None" using assms(2) by auto
  then obtain us rs where "orm_update_id (transactions_orm L) (calls (tick w)) (id_text (tx_id x))
      (serializePartial ?T ?ps) (transactions (store (tick w))) = Inr (us, rs)"
    using reliable_update_id [OF reliable_transactions [OF assms(1)]] by blast
  then show ?thesis
    by (simp add: TransactionUpdate_perform_def io_bind_apply now_apply update_def updateRecord_def execute_def
        io_then_apply TransactionForRebateCriteriaRepository_def)
qed

lemma db_ok_transactions:
  assumes m: "mset (transactions d') = mset (map f (transactions d))" and ids: "\<And>r. tr_id (f r) = tr_id r"
    and d': "d' = d\<lparr>transactions := transactions d'\<rparr>" and "db_ok d"
  shows "db_ok d'"
proof -
  have same: "map tr_id (map f (transactions d)) = map tr_id (transactions d)" by (simp add: ids)
  have "distinct (map tr_id (transactions d'))"
    using distinct_map_mset [OF m, of tr_id] assms(4) unfolding same by (simp add: db_ok_def)
  moreover have "tr_id ` set (transactions d') = tr_id ` set (transactions d)"
    using mset_eq_set [OF m] same by (metis image_set)
  then have "None \<notin> tr_id ` set (transactions d')" using assms(4) by (force simp: db_ok_def)
  ultimately have "(\<forall>r\<in>set (transactions d'). tr_id r \<noteq> None) \<and> distinct (map tr_id (transactions d'))"
    by (metis image_eqI)
  then show ?thesis using assms(4) by (subst d') (simp add: db_ok_def)
qed

lemma marked_db_ok: "marked L s t x d d' \<Longrightarrow> db_ok d \<Longrightarrow> db_ok d'"
  by (rule db_ok_transactions [of d' "mark L s t x"]) (auto simp: marked_def mark_def transaction_columns_def)

lemma marked_same [simp]:
  assumes "marked L s t x d d'"
  shows "rebates d' = rebates d" and "rebate_journal d' = rebate_journal d" and "published d' = published d"
    and "rebate_row d' x = rebate_row d x"
proof -
  have d': "d' = d\<lparr>transactions := transactions d'\<rparr>" using assms by (simp add: marked_def)
  show "rebates d' = rebates d" "rebate_journal d' = rebate_journal d" "published d' = published d"
    by (subst d', simp)+
  then show "rebate_row d' x = rebate_row d x" by (simp add: rebate_row_def)
qed

section \<open>The rebate is paid\<close>

definition paid_row ::
  "ext \<Rightarrow> ITransactionForRebateCriteria \<Rightarrow> date \<Rightarrow> date \<Rightarrow> RebateRecord \<Rightarrow> RebateRecord" where
  "paid_row L x t1 t2 r =
     rebate_columns L
       (r\<lparr>rr_fulfilled_transaction_id := Some (tx_transactionId x), rr_fulfilled_amount := Some (tx_amount x),
         rr_fulfilled_date := Some t1, rr_fulfillment_transaction := Some x, rr_dispatched_at := t2,
         rr_status := FulfilledTransSuccessful\<rparr>)"

text \<open>From \<open>d\<close> to \<open>d'\<close> the rebate of row \<open>r\<close> is paid by the transaction; every other rebate is as it was.\<close>

definition paid ::
  "ext \<Rightarrow> ITransactionForRebateCriteria \<Rightarrow> date \<Rightarrow> date \<Rightarrow> RebateRecord \<Rightarrow> db \<Rightarrow> db \<Rightarrow> bool" where
  "paid L x t1 t2 r d d' \<longleftrightarrow>
     mset (rebates d') = mset (map (\<lambda>q. if rr_id q = rr_id r then paid_row L x t1 t2 q else q) (rebates d))"

lemma fulfilled_patch:
  "rebate_columns L (serializePartial RebateRepository
     (fulfilled_fields x FulfilledTransSuccessful t1 t2) r) = paid_row L x t1 t2 r"
  by (simp add: serializePartial_def RebateRepository_def fulfilled_fields_def paid_row_def)

text \<open>The event of a paid rebate.\<close>

definition paid_event :: "ext \<Rightarrow> ITransactionForRebateCriteria \<Rightarrow> date \<Rightarrow> date \<Rightarrow> RebateRecord \<Rightarrow> IRebatePayload" where
  "paid_event L x t1 t2 r =
     buildRebateEvent (fulfilled_rebate x FulfilledTransSuccessful t1 t2 (rebate_of L r))"

text \<open>The event has been sent once, in some request: it is published, unless Kafka refused it there.\<close>

definition event_sent :: "ext \<Rightarrow> IRebatePayload \<Rightarrow> IRebatePayload list \<Rightarrow> IRebatePayload list \<Rightarrow> bool" where
  "event_sent L event es es' \<longleftrightarrow> (\<exists>k. es' = es @ (if kafka_accepts L k event then [event] else []))"

lemma SuccessfulFulfilledRebate_cases:
  assumes "fulfillment_inv L x (store w) c" and "rebate_row (store w) x = Some r"
    and "SuccessfulFulfilledRebate_perform L FulfilledTransSuccessful c w = (res, w')"
  shows "(\<exists>e. res = Inl e) \<and> store w' = store w \<or>
    (\<exists>t1 t2 c'. res = Inr c' \<and> paid L x t1 t2 r (store w) (store w') \<and>
       fc_transaction c' = x \<and>
       fc_rebate c' = Some (fulfilled_rebate x FulfilledTransSuccessful t1 t2 (rebate_of L r)) \<and>
       event_sent L (paid_event L x t1 t2 r) (published (store w)) (published (store w')) \<and>
       store w' = (store w)\<lparr>rebates := rebates (store w'), published := published (store w')\<rparr>)"
proof -
  have ok: "ext_ok L" "db_ok (store w)" using assms(1) by (simp_all add: fulfillment_inv_def)
  obtain y w1 where g: "getRebate L c w = (y, w1)" by (cases "getRebate L c w")
  have w1: "store w1 = store w" using frames_step [OF frames_getRebate g] .
  show ?thesis
  proof (cases y)
    case (Inl e)
    with assms(3) g w1 show ?thesis
      by (auto simp: SuccessfulFulfilledRebate_perform_def io_try_apply io_bind_apply rethrow_def)
  next
    case (Inr q)
    obtain b c1 where q: "q = (b, c1)" by (cases q)
    note t = getRebate_tells [OF assms(1) g [unfolded Inr q]]
    have b: "b = Some (rebate_of L r)" and c1: "fc_transaction c1 = x"
      using t assms(2) by (simp_all add: fulfillment_inv_def)
    obtain k where k: "rr_id r = Some k" using rebate_row_fields(2) [OF ok(2) assms(2)] by auto
    let ?t1 = "clock L (calls w1)" and ?t2 = "clock L (Suc (calls w1))"
    let ?f = "fulfilled_fields x FulfilledTransSuccessful ?t1 ?t2"
    let ?u = "update RebateRepository L (show_nat k) ?f (tick (tick w1))"
    show ?thesis
    proof (cases "fst ?u")
      case (Inl e)
      then have "store (snd ?u) = store w"
        using rebate_table.update_raised [OF Inl] w1 by simp
      with Inl assms(3) g \<open>y = Inr q\<close> q b c1 rebate_of_fields(1) [OF k] show ?thesis
        by (cases ?u) (auto simp: SuccessfulFulfilledRebate_perform_def io_try_apply io_bind_apply io_then_apply
            now_apply defined_def rethrow_def Let_def)
    next
      case Ok: (Inr u)
      let ?d = "store (snd ?u)"
      have "mset (rows_of RebateRepository ?d) = mset (map (\<lambda>q. if serial_matches rr_id (show_nat k) q
          then rebate_columns L (serializePartial RebateRepository ?f q) else q)
          (rows_of RebateRepository (store (tick (tick w1)))))"
        by (rule rebate_table.update_rows [OF _ Ok])
          (simp add: RebateRepository_def rebates_updates [OF ok(1)])
      then have p: "paid L x ?t1 ?t2 r (store w) ?d"
        unfolding fulfilled_patch by (simp add: paid_def RebateRepository_def w1 k)
      have "frames (\<lambda>w. (store w)\<lparr>rebates := []\<rparr>) (update RebateRepository L (show_nat k) ?f)"
        by (rule frames_update) (simp add: RebateRepository_def)
      from only_rebates [OF framesD [OF this, where w = "tick (tick w1)", symmetric]]
      have o: "?d = (store w)\<lparr>rebates := rebates ?d\<rparr>" unfolding store_tick w1 .
      let ?new = "fulfilled_rebate x FulfilledTransSuccessful ?t1 ?t2 (rebate_of L r)"
      obtain w3 where u: "?u = (Inr u, w3)" using Ok by (cases ?u) simp
      have "SuccessfulFulfilledRebate_perform L FulfilledTransSuccessful c w =
          (Inr (c1\<lparr>fc_rebate := Some ?new\<rparr>), snd (Producer_dispatch L ?new w3))"
        using g Inr q u
        by (simp add: SuccessfulFulfilledRebate_perform_def io_try_apply io_bind_apply io_then_apply
            now_apply defined_def b c1 rebate_of_fields(1) [OF k] Let_def Producer_dispatch_def)
      then have run: "res = Inr (c1\<lparr>fc_rebate := Some ?new\<rparr>)"
        and w': "w' = snd (Producer_dispatch L ?new (snd ?u))"
        using assms(3) u by simp_all
      have "rebates (store w') = rebates ?d" and pub: "event_sent L (buildRebateEvent ?new) (published ?d) (published (store w'))"
        and s: "store w' = ?d\<lparr>published := published (store w')\<rparr>"
        by (auto simp: w' Producer_dispatch_def Let_def event_sent_def split: if_splits)
      then have "paid L x ?t1 ?t2 r (store w) (store w')" using p by (simp add: paid_def)
      moreover have "published ?d = published (store w)" by (subst o) simp
      moreover have "store w' = (store w)\<lparr>rebates := rebates (store w'), published := published (store w')\<rparr>"
        using s o \<open>rebates (store w') = rebates ?d\<close> by (metis db.update_convs(4))
      ultimately show ?thesis using run c1 pub by (auto simp: paid_event_def)
    qed
  qed
qed

section \<open>The whole strategy\<close>

lemma frames_updateJournalReport:
  "(\<And>rs d. v (d\<lparr>rebate_journal := rs\<rparr>) = v d) \<Longrightarrow> frames (\<lambda>w. v (store w)) (updateJournalReport L c)"
  unfolding updateJournalReport_def RebateJournalReportUpdate_perform_def getExistingReport_def case_prod_unfold
  by (intro frames_bind frames_comp [OF frames_getRebate] frames_comp [OF frames_defined]
      frames_comp [OF frames_findAll] frames_case_list frames_throw frames_return frames_update)
    (simp add: RebateJournalReportRepository_def)

lemma new_fulfillment_inv: "ext_ok L \<Longrightarrow> db_ok d \<Longrightarrow> fulfillment_inv L x d (new_fulfillment x)"
  by (simp add: fulfillment_inv_def new_fulfillment_def)

lemma fulfillment_inv_marked:
  "fulfillment_inv L x d c \<Longrightarrow> marked L s t x d d' \<Longrightarrow> fulfillment_inv L x d' c"
  by (simp add: fulfillment_inv_def marked_db_ok)

text \<open>The rebate a transaction may pay: the one it names, when nothing speaks against it.\<close>

definition payable :: "db \<Rightarrow> ITransactionForRebateCriteria \<Rightarrow> RebateRecord \<Rightarrow> bool" where
  "payable d x r \<longleftrightarrow>
     r \<in> set (rebates d) \<and> rr_id r = int_key (rebate_key x) \<and> rr_id r \<noteq> None \<and>
     rr_status r = PendingFulfillment \<and> rr_account_id r = tx_accountId x \<and> rr_amount r = tx_amount x \<and>
     (\<forall>q\<in>set (rebates d). rr_fulfilled_transaction_id q \<noteq> Some (tx_transactionId x))"

lemma fulfillment_status_successful:
  assumes "db_ok d" and "fulfillment_status d x = FulfilledTransSuccessful"
  obtains r where "rebate_row d x = Some r" and "payable d x r"
proof -
  obtain r where r: "rebate_row d x = Some r"
    using assms(2) by (auto simp: fulfillment_status_def split: if_splits option.splits)
  with assms(2) rebate_row_fields [OF assms(1) r] have "payable d x r"
    by (auto simp: fulfillment_status_def payable_def split: if_splits)
  with r that show thesis by simp
qed

lemma fulfillment_body_raised:
  "\<lbrakk>m w = (Inl e, w')\<rbrakk> \<Longrightarrow> state_of (io_try (io_bind m k) (\<lambda>_. io_return ())) w = w'"
  by (simp add: io_try_apply io_bind_apply)

text \<open>The run in three parts: the validation, the update of the transaction, the payment.\<close>

lemma fulfillment_perform_cases:
  assumes "ext_ok L" and "db_ok (store w)"
  obtains
    (untouched) "store (state_of (FulfillmentStrategy_perform L x) w) = store w"
  | (complaint) s t where "s = fulfillment_status (store w) x" and "s \<noteq> FulfilledTransSuccessful"
      and "marked L s t x (store w) (store (state_of (FulfillmentStrategy_perform L x) w))"
  | (payment) t r c w2 where "payable (store w) x r" and "rebate_row (store w) x = Some r"
      and "fulfillment_status (store w) x = FulfilledTransSuccessful"
      and "marked L FulfilledTransSuccessful t x (store w) (store w2)" and "fulfillment_inv L x (store w2) c"
      and "state_of (FulfillmentStrategy_perform L x) w =
        state_of (io_bind (SuccessfulFulfilledRebate_perform L FulfilledTransSuccessful c) (updateJournalReport L)) w2"
proof -
  note agrees = new_fulfillment_inv [OF assms, of x]
  let ?v = "FulfillmentValidation_result L (new_fulfillment x)"
  obtain y w1 where v: "?v w = (y, w1)" by (cases "?v w")
  have w1: "store w1 = store w"
    using frames_step [OF fulfillment_states.validation_reads_only] v by (simp add: FulfillmentValidation_result_def)
  show thesis
  proof (cases y)
    case (Inl e)
    with v w1 show thesis
      by (intro untouched) (simp add: FulfillmentStrategy_perform_def io_try_apply io_bind_apply)
  next
    case (Inr q)
    obtain s c where q: "q = (s, c)" by (cases q)
    have s: "s = fulfillment_status (store w) x" and c: "fulfillment_inv L x (store w) c"
      using fulfillment_table.validation_tells [OF agrees] v Inr q
      by (simp_all add: FulfillmentValidation_result_def fulfillment_status_tests)
    obtain z w2 where u: "TransactionUpdate_perform L x s w1 = (z, w2)" by (cases "TransactionUpdate_perform L x s w1")
    have run: "FulfillmentStrategy_perform L x w =
      io_try (io_then (TransactionUpdate_perform L x s)
        (if s = FulfilledTransSuccessful
         then io_bind (SuccessfulFulfilledRebate_perform L s c) (updateJournalReport L) else io_return ()))
        (\<lambda>_. io_return ()) w1"
      using v Inr q by (simp add: FulfillmentStrategy_perform_def io_try_apply io_bind_apply)
    have "db_ok (store w1)" using assms(2) w1 by simp
    from TransactionUpdate_cases [OF assms(1) this u]
    consider (failed) e where "z = Inl e" "store w2 = store w"
      | (marks) t where "z = Inr ()" "marked L s t x (store w) (store w2)"
      using w1 by auto
    then show thesis
    proof cases
      case failed
      with run u show thesis by (intro untouched) (simp add: io_try_apply io_then_apply)
    next
      case marks
      show thesis
      proof (cases "s = FulfilledTransSuccessful")
        case False
        with run u marks s show thesis by (intro complaint [of s t]) (simp_all add: io_try_apply io_then_apply)
      next
        case True
        obtain r where r: "rebate_row (store w) x = Some r" "payable (store w) x r"
          using fulfillment_status_successful [OF assms(2)] s True by metis
        have "state_of (FulfillmentStrategy_perform L x) w =
            state_of (io_bind (SuccessfulFulfilledRebate_perform L FulfilledTransSuccessful c) (updateJournalReport L)) w2"
          using run u marks True by (auto simp: io_try_apply io_then_apply split: prod.splits sum.splits)
        with payment [OF r(2,1)] s True marks(2) fulfillment_inv_marked [OF c marks(2)] show thesis by simp
      qed
    qed
  qed
qed

lemma payment_rebates:
  assumes "fulfillment_inv L x (store w) c" and "rebate_row (store w) x = Some r"
  shows "let d' = store (state_of (io_bind (SuccessfulFulfilledRebate_perform L FulfilledTransSuccessful c)
      (updateJournalReport L)) w)
    in rebates d' = rebates (store w) \<or> (\<exists>t1 t2. paid L x t1 t2 r (store w) d')"
proof -
  obtain res w1 where s: "SuccessfulFulfilledRebate_perform L FulfilledTransSuccessful c w = (res, w1)"
    by (cases "SuccessfulFulfilledRebate_perform L FulfilledTransSuccessful c w")
  have j: "rebates (store (state_of (updateJournalReport L c') w1)) = rebates (store w1)" for c'
    by (rule framesD [OF frames_updateJournalReport]) simp
  from SuccessfulFulfilledRebate_cases [OF assms s] s j show ?thesis
    by (cases res) (auto simp: io_bind_apply paid_def Let_def)
qed

lemma fulfillment_rebates:
  assumes "ext_ok L" and "db_ok (store w)"
  shows "let d' = store (state_of (FulfillmentStrategy_perform L x) w)
    in rebates d' = rebates (store w) \<or>
       (\<exists>r t1 t2. payable (store w) x r \<and> paid L x t1 t2 r (store w) d')"
proof (cases rule: fulfillment_perform_cases [OF assms, of x, case_names untouched complaint payment])
  case untouched
  then show ?thesis by simp
next
  case (complaint s t)
  then show ?thesis by simp
next
  case (payment t r c w2)
  from payment_rebates [OF payment(5), of r] payment(1,2,4,6) show ?thesis
    by (auto simp: Let_def paid_def)
qed

text \<open>
  C13.  No money moves but to the rebate a fulfillment transaction names: whatever requests fail, after
  \<open>FulfillmentStrategy.perform\<close> the rebates are the ones before, or exactly one of them has been paid, and
  that one was pending, has the transaction's account and amount, and no rebate had been paid by the
  transaction before.  Every other rebate is unchanged.
\<close>

theorem fulfillment_pays_only_the_matching_rebate:
  assumes "ext_ok L" and "db_ok (store w)"
  shows "let d' = store (state_of (FulfillmentStrategy_perform L x) w)
    in rebates d' = rebates (store w) \<or>
       (\<exists>r t1 t2. payable (store w) x r \<and> paid L x t1 t2 r (store w) d')"
  by (rule fulfillment_rebates [OF assms])

text \<open>A pending rebate with the sample transaction's account and amount, and the transaction that pays it.\<close>

definition sample_pending_rebate :: RebateRecord where
  "sample_pending_rebate =
     \<lparr>rr_id = Some 7, rr_user_id = ''user1'', rr_rebate_criteria_id = ''100'', rr_account_id = ''acc1'',
       rr_account_transaction_id = ''t1'', rr_fulfilled_transaction_id = None, rr_fulfilled_date = None,
       rr_fulfilled_amount = None, rr_amount = ''5.00'', rr_reward_type = Dollars, rr_issued_at = 86400000,
       rr_status = PendingFulfillment, rr_delivered_at = None, rr_dispatched_at = 86400000, rr_card = ''4510'',
       rr_card_type = CreditCard, rr_last_mop_sync = None, rr_qualifying_transaction = sample_transaction,
       rr_fulfillment_transaction = None\<rparr>"

definition sample_fulfillment :: ITransactionForRebateCriteria where
  "sample_fulfillment = sample_transaction
     \<lparr>tx_id := Some 2, tx_transactionId := ''t2'', tx_rebateId := Some ''7'', tx_amount := ''5.00'',
      tx_transactionType := Fulfillment\<rparr>"

definition fulfillment_db :: db where
  "fulfillment_db = sample_db
     \<lparr>transactions := [TransactionForRebateCriteriaSerializer_serialize sample_transaction,
        TransactionForRebateCriteriaSerializer_serialize sample_fulfillment],
      rebates := [sample_pending_rebate]\<rparr>"

definition fulfillment_world :: world where
  "fulfillment_world = \<lparr>calls = 0, store = fulfillment_db\<rparr>"

lemma fulfillment_db_ok: "db_ok fulfillment_db"
  by (simp add: db_ok_def fulfillment_db_def sample_db_def empty_db_def sample_transaction_def
      TransactionForRebateCriteriaSerializer_serialize_def sample_fulfillment_def sample_pending_rebate_def)

lemma store_fulfillment_world [simp]: "store fulfillment_world = fulfillment_db"
  by (simp add: fulfillment_world_def)

lemma fulfillment_pays_only_the_matching_rebate_witness:
  "let d' = store (state_of (FulfillmentStrategy_perform ref_ext sample_fulfillment) fulfillment_world)
   in rebates d' = rebates fulfillment_db \<or>
      (\<exists>r t1 t2. payable fulfillment_db sample_fulfillment r \<and>
         paid ref_ext sample_fulfillment t1 t2 r fulfillment_db d')"
  using fulfillment_pays_only_the_matching_rebate [OF ref_ext_ok, of fulfillment_world sample_fulfillment]
  by (simp add: fulfillment_db_ok)

text \<open>No two rebates paid by one transaction.\<close>

definition fulfilled_once :: "db \<Rightarrow> bool" where
  "fulfilled_once d \<longleftrightarrow>
     (\<forall>r\<in>set (rebates d). \<forall>s\<in>set (rebates d).
        rr_fulfilled_transaction_id r \<noteq> None \<longrightarrow>
        rr_fulfilled_transaction_id r = rr_fulfilled_transaction_id s \<longrightarrow> rr_id r = rr_id s)"

lemma paid_row_fields [simp]:
  "rr_id (paid_row L x t1 t2 r) = rr_id r"
  "rr_fulfilled_transaction_id (paid_row L x t1 t2 r) = Some (tx_transactionId x)"
  by (simp_all add: paid_row_def rebate_columns_def)

lemma fulfillment_fulfilled_once:
  assumes "ext_ok L" and "db_ok (store w)" and "fulfilled_once (store w)"
  shows "fulfilled_once (store (state_of (FulfillmentStrategy_perform L x) w))"
proof -
  let ?d' = "store (state_of (FulfillmentStrategy_perform L x) w)"
  consider "rebates ?d' = rebates (store w)"
    | r t1 t2 where "payable (store w) x r" "paid L x t1 t2 r (store w) ?d'"
    using fulfillment_rebates [OF assms(1,2), of x] by (auto simp: Let_def)
  then show ?thesis
  proof cases
    case 1
    with assms(3) show ?thesis by (simp add: fulfilled_once_def)
  next
    case (2 r t1 t2)
    have "set (rebates ?d') = (\<lambda>q. if rr_id q = rr_id r then paid_row L x t1 t2 q else q) ` set (rebates (store w))"
      using mset_eq_set [OF 2(2) [unfolded paid_def]] by simp
    then have old: "\<exists>q'\<in>set (rebates (store w)). rr_id q' = rr_id q \<and>
        (q = q' \<and> rr_id q \<noteq> rr_id r \<or> rr_id q = rr_id r \<and> rr_fulfilled_transaction_id q = Some (tx_transactionId x))"
      if "q \<in> set (rebates ?d')" for q
      using that by (auto split: if_splits)
    have fresh: "rr_fulfilled_transaction_id q \<noteq> Some (tx_transactionId x)" if "q \<in> set (rebates (store w))" for q
      using 2(1) that by (simp add: payable_def)
    show ?thesis unfolding fulfilled_once_def
    proof (intro ballI impI)
      fix p q assume pq: "p \<in> set (rebates ?d')" "q \<in> set (rebates ?d')" "rr_fulfilled_transaction_id p \<noteq> None"
        "rr_fulfilled_transaction_id p = rr_fulfilled_transaction_id q"
      from old [OF pq(1)] old [OF pq(2)] pq(3,4) fresh assms(3) show "rr_id p = rr_id q"
        unfolding fulfilled_once_def by metis
    qed
  qed
qed

text \<open>
  C14.  A transaction never pays two rebates: when no two rebates carry the same fulfilling transaction, no two
  do after any run of \<open>FulfillmentStrategy.perform\<close>, whatever requests fail.
\<close>

theorem fulfillment_keeps_fulfilled_once:
  assumes "ext_ok L" and "db_ok (store w)" and "fulfilled_once (store w)"
  shows "fulfilled_once (store (state_of (FulfillmentStrategy_perform L x) w))"
  by (rule fulfillment_fulfilled_once [OF assms])

lemma fulfillment_keeps_fulfilled_once_witness:
  "fulfilled_once (store (state_of (FulfillmentStrategy_perform ref_ext sample_fulfillment) fulfillment_world))"
  by (rule fulfillment_keeps_fulfilled_once [OF ref_ext_ok])
    (simp_all add: fulfillment_db_ok, simp add: fulfilled_once_def fulfillment_db_def)

section \<open>The journal record\<close>

definition journal_row_of :: "IRebate \<Rightarrow> RebateJournalRecord \<Rightarrow> bool" where
  "journal_row_of rebate j \<longleftrightarrow>
     jr_client_id__c j = tx_userId (rb_qualifyingTransaction rebate) \<and>
     jr_rebate_status_v3__c j = PendingFulfillment \<and> jr_rebate_transaction_id__c j = rb_id rebate"

definition journal_settled :: "ITransactionForRebateCriteria \<Rightarrow> IRebate \<Rightarrow> db \<Rightarrow> db \<Rightarrow> bool" where
  "journal_settled x rebate d d' \<longleftrightarrow>
     (if \<exists>j\<in>set (rebate_journal d). journal_row_of rebate j
      then \<exists>j\<in>set (rebate_journal d). journal_row_of rebate j \<and>
        mset (rebate_journal d') =
          mset (map (\<lambda>q. if jr_id q = jr_id j then fold (\<lambda>f. f) (journal_update x rebate) q else q) (rebate_journal d))
      else rebate_journal d' = rebate_journal d)"

lemma journal_rows [simp]:
  "rows_of RebateJournalReportRepository d = rebate_journal d"
  "orm_of RebateJournalReportRepository = rebate_journal_orm"
  by (simp_all add: RebateJournalReportRepository_def)

lemma journal_patch:
  "serializePartial RebateJournalReportRepository ps = fold (\<lambda>f. f) ps"
  by (simp add: serializePartial_def [abs_def] RebateJournalReportRepository_def)

lemma only_journal:
  assumes "d\<lparr>rebate_journal := []\<rparr> = d'\<lparr>rebate_journal := []\<rparr>"
  shows "d' = d\<lparr>rebate_journal := rebate_journal d'\<rparr>"
  using assms by (cases d, cases d') simp

lemma updateJournalReport_only:
  "store (state_of (updateJournalReport L c) w) =
    (store w)\<lparr>rebate_journal := rebate_journal (store (state_of (updateJournalReport L c) w))\<rparr>"
proof -
  have "frames (\<lambda>w. (store w)\<lparr>rebate_journal := []\<rparr>) (updateJournalReport L c)"
    by (rule frames_updateJournalReport) simp
  from only_journal [OF framesD [OF this, symmetric]] show ?thesis .
qed

text \<open>The record found is one of the rebate's, as the row stands.\<close>

lemma getExistingReport_cases:
  assumes "ext_ok L" and "reliable L"
  obtains (found) j where "j \<in> set (rebate_journal (store w))" and "journal_row_of rebate j"
      and "\<exists>report. rj_id report = jr_id j \<and> getExistingReport L rebate w = (Inr report, tick w)"
    | (missing) e where "\<forall>j\<in>set (rebate_journal (store w)). \<not> journal_row_of rebate j"
      and "getExistingReport L rebate w = (Inl e, tick w)"
proof -
  let ?R = RebateJournalReportRepository
  obtain rs where rs: "orm_find (orm_of ?R L) (calls w) (journal_row_of rebate) (rebate_journal (store w)) = Inr rs"
    unfolding journal_rows using reliable_find [OF reliable_journal [OF assms(2)]] by blast
  have m: "set rs = {j \<in> set (rebate_journal (store w)). journal_row_of rebate j}"
    using mset_eq_set [OF orm_find_mset [OF journal_reads [OF assms(1)], of "calls w" "journal_row_of rebate"
          "rebate_journal (store w)" rs]] rs by (auto simp: RebateJournalReportRepository_def)
  have total: "traverse (deserialize_with ?R L) rs = Inr (map (\<lambda>r. projr (deserialize_with ?R L r)) rs)"
    by (simp add: traverse_Inr RebateJournalReportRepository_def RebateJournalSerializer_deserialize_def)
  have f: "findAll ?R L (journal_row_of rebate) w = (Inr (map (\<lambda>r. projr (deserialize_with ?R L r)) rs), tick w)"
    using rs total by (simp add: findAll_cases)
  have run: "getExistingReport L rebate w =
      (case map (\<lambda>r. projr (deserialize_with ?R L r)) rs of
         [] \<Rightarrow> (Inl (JsError ''Could not find existing report!''), tick w) | y # _ \<Rightarrow> (Inr y, tick w))"
    using f unfolding getExistingReport_def journal_row_of_def [abs_def] by (simp add: io_bind_Inr split: list.split)
  show thesis
  proof (cases rs)
    case Nil
    with m run show thesis by (intro missing) auto
  next
    case (Cons j js)
    with m have j: "j \<in> set (rebate_journal (store w))" "journal_row_of rebate j" by auto
    with Cons run show thesis
      by (intro found [OF j]) (simp add: RebateJournalReportRepository_def RebateJournalSerializer_deserialize_def)
  qed
qed

lemma updateJournalReport_settles:
  assumes "ext_ok L" and "reliable L" and "fc_rebate c = Some rebate" and "fc_transaction c = x"
    and keys: "\<forall>j\<in>set (rebate_journal (store w)). jr_id j \<noteq> None"
  shows "journal_settled x rebate (store w) (store (state_of (updateJournalReport L c) w))"
proof -
  let ?R = RebateJournalReportRepository and ?ps = "journal_update x rebate"
  have run: "updateJournalReport L c w = RebateJournalReportUpdate_perform L x rebate w"
    using assms(3,4) by (simp add: updateJournalReport_def getRebate_def io_bind_apply defined_def)
  show ?thesis
  proof (cases rule: getExistingReport_cases [OF assms(1,2), of w rebate, case_names found missing])
    case (missing e)
    with run show ?thesis by (simp add: RebateJournalReportUpdate_perform_def io_bind_Inl journal_settled_def)
  next
    case (found j)
    obtain k where k: "jr_id j = Some k" using keys found(1) by blast
    have d: "state_of (updateJournalReport L c) w = state_of (update ?R L (show_nat k) ?ps) (tick w)"
      using run found(3) k by (auto simp: RebateJournalReportUpdate_perform_def io_bind_Inr)
    obtain us rs where "orm_update_id (orm_of ?R L) (calls (tick w)) (show_nat k) (serializePartial ?R ?ps)
        (rebate_journal (store (tick w))) = Inr (us, rs)"
      unfolding journal_rows using reliable_update_id [OF reliable_journal [OF assms(2)], of "show_nat k"]
      by (metis int_key_show_nat option.distinct(1))
    then have "result_of (update ?R L (show_nat k) ?ps) (tick w) = Inr ()"
      by (simp add: update_def updateRecord_def execute_def io_then_apply)
    from journal_table.update_rows [OF _ this, of "serial_matches jr_id" "\<lambda>r. r"]
    have "mset (rebate_journal (store (state_of (updateJournalReport L c) w))) =
        mset (map (\<lambda>q. if jr_id q = jr_id j then fold (\<lambda>f. f) ?ps q else q) (rebate_journal (store w)))"
      unfolding d journal_patch using journal_updates [OF assms(1)] k by simp
    with found(1,2) show ?thesis by (auto simp: journal_settled_def)
  qed
qed

section \<open>The status is implemented\<close>

lemma SuccessfulFulfilledRebate_replies:
  assumes "fulfillment_inv L x (store w) c" and "rebate_row (store w) x = Some r" and "can_find L x"
  shows "\<exists>c' w'. SuccessfulFulfilledRebate_perform L FulfilledTransSuccessful c w = (Inr c', w')"
proof -
  obtain y c1 w1 where g: "getRebate L c w = (Inr (y, c1), w1)"
    using getRebate_replies [OF assms(1,3)] by fastforce
  have y: "y = Some (rebate_of L r)" using getRebate_tells(1) [OF assms(1) g] assms(2) by simp
  have "db_ok (store w)" using assms(1) by (simp add: fulfillment_inv_def)
  then obtain k where k: "rr_id r = Some k" using rebate_row_fields(2) assms(2) by blast
  have "int_key (show_nat k) \<noteq> None" by simp
  from reliable_update_id [OF reliable_rebates this] assms(3) have
    "\<exists>us rs'. orm_update_id (rebates_orm L) n (show_nat k) f rs = Inr (us, rs')" for n f rs
    by (simp add: can_find_def)
  then have "\<exists>w'. update RebateRepository L (show_nat k) ps v = (Inr (), w')" for ps v
    by (intro update_replies) (simp add: RebateRepository_def)
  then obtain w2 where u: "update RebateRepository L (show_nat k) (fulfilled_fields (fc_transaction c1)
      FulfilledTransSuccessful (clock L (calls w1)) (clock L (Suc (calls w1)))) (tick (tick w1)) = (Inr (), w2)"
    by blast
  then show ?thesis
    using g by (simp add: SuccessfulFulfilledRebate_perform_def io_try_apply io_bind_apply io_then_apply now_apply
        defined_def y rebate_of_fields(1) [OF k] Let_def Producer_dispatch_def)
qed

text \<open>What a successful fulfillment does: the transaction, the rebate, its journal record and its event.\<close>

definition settles_fulfillment :: "ext \<Rightarrow> ITransactionForRebateCriteria \<Rightarrow> db \<Rightarrow> db \<Rightarrow> bool" where
  "settles_fulfillment L x d d' \<longleftrightarrow>
     (\<exists>t t1 t2 r d1. payable d x r \<and> marked L FulfilledTransSuccessful t x d d1 \<and> paid L x t1 t2 r d d' \<and>
        journal_settled x (fulfilled_rebate x FulfilledTransSuccessful t1 t2 (rebate_of L r)) d d' \<and>
        event_sent L (paid_event L x t1 t2 r) (published d) (published d') \<and>
        d' = d1\<lparr>rebates := rebates d', rebate_journal := rebate_journal d', published := published d'\<rparr>)"

lemma can_tell_fulfillment:
  assumes "reliable L" and "rebate_key x = '''' \<or> int_key (rebate_key x) \<noteq> None"
  shows "can_tell (fulfillment_tests L x) d"
  using assms by (auto simp: fulfillment_tests_def can_find_def row_differs_def)

lemma payment_settles:
  assumes "fulfillment_inv L x (store w) c" and r: "rebate_row (store w) x = Some r" and "can_find L x"
    and "\<forall>j\<in>set (rebate_journal (store w)). jr_id j \<noteq> None"
  shows "let d = store w; d' = store (state_of (io_bind
        (SuccessfulFulfilledRebate_perform L FulfilledTransSuccessful c) (updateJournalReport L)) w)
    in \<exists>t1 t2. paid L x t1 t2 r d d' \<and>
        journal_settled x (fulfilled_rebate x FulfilledTransSuccessful t1 t2 (rebate_of L r)) d d' \<and>
        event_sent L (paid_event L x t1 t2 r) (published d) (published d') \<and>
        d' = d\<lparr>rebates := rebates d', rebate_journal := rebate_journal d', published := published d'\<rparr>"
proof -
  have ok: "ext_ok L" "reliable L" using assms(1,3) by (simp_all add: fulfillment_inv_def can_find_def)
  obtain c' w1 where s: "SuccessfulFulfilledRebate_perform L FulfilledTransSuccessful c w = (Inr c', w1)"
    using SuccessfulFulfilledRebate_replies [OF assms(1) r assms(3)] by blast
  from SuccessfulFulfilledRebate_cases [OF assms(1) r s] obtain t1 t2 where
    p: "paid L x t1 t2 r (store w) (store w1)" and x: "fc_transaction c' = x"
    and b: "fc_rebate c' = Some (fulfilled_rebate x FulfilledTransSuccessful t1 t2 (rebate_of L r))"
    and e: "event_sent L (paid_event L x t1 t2 r) (published (store w)) (published (store w1))"
    and o: "store w1 = (store w)\<lparr>rebates := rebates (store w1), published := published (store w1)\<rparr>"
    by auto
  have j: "rebate_journal (store w1) = rebate_journal (store w)" by (subst o) simp
  let ?d' = "store (state_of (updateJournalReport L c') w1)"
  note only = updateJournalReport_only [of L c' w1]
  have same: "rebates ?d' = rebates (store w1)" "published ?d' = published (store w1)" by (subst only, simp)+
  have "journal_settled x (fulfilled_rebate x FulfilledTransSuccessful t1 t2 (rebate_of L r)) (store w) ?d'"
    using updateJournalReport_settles [OF ok b x, of w1] assms(4) unfolding journal_settled_def j by blast
  moreover have "?d' = (store w)\<lparr>rebates := rebates ?d', rebate_journal := rebate_journal ?d',
      published := published ?d'\<rparr>"
    using only o same by (cases "store w", cases "store w1", cases ?d') simp
  ultimately show ?thesis using p e same s by (auto simp: Let_def io_bind_Inr paid_def)
qed

lemma payment_after_mark:
  assumes "fulfillment_inv L x (store w) c" and "reliable L"
    and "rebate_key x = '''' \<or> int_key (rebate_key x) \<noteq> None"
    and m: "marked L FulfilledTransSuccessful t x (store w) (store w2)"
    and "fulfillment_status (store w) x = FulfilledTransSuccessful"
    and "\<forall>j\<in>set (rebate_journal (store w)). jr_id j \<noteq> None"
  shows "settles_fulfillment L x (store w) (store (state_of (io_bind
    (SuccessfulFulfilledRebate_perform L FulfilledTransSuccessful c) (updateJournalReport L)) w2))"
proof -
  let ?d' = "store (state_of (io_bind (SuccessfulFulfilledRebate_perform L FulfilledTransSuccessful c) (updateJournalReport L)) w2)"
  have ok: "ext_ok L" "db_ok (store w)" using assms(1) by (simp_all add: fulfillment_inv_def)
  obtain r where r: "rebate_row (store w) x = Some r" and p: "payable (store w) x r"
    using fulfillment_status_successful [OF ok(2) assms(5)] by blast
  have "rebate_key x \<noteq> ''''" using p by (auto simp: payable_def)
  then have "can_find L x" using ok(1) assms(2,3) by (simp add: can_find_def)
  moreover have "fulfillment_inv L x (store w2) c" using assms(1) by (rule fulfillment_inv_marked) (rule m)
  ultimately have "\<exists>t1 t2. paid L x t1 t2 r (store w2) ?d' \<and>
      journal_settled x (fulfilled_rebate x FulfilledTransSuccessful t1 t2 (rebate_of L r)) (store w2) ?d' \<and>
      event_sent L (paid_event L x t1 t2 r) (published (store w2)) (published ?d') \<and>
      ?d' = (store w2)\<lparr>rebates := rebates ?d', rebate_journal := rebate_journal ?d', published := published ?d'\<rparr>"
    using payment_settles [of L x w2 c r] r assms(6) unfolding Let_def marked_same [OF m] by blast
  then show ?thesis
    using m p unfolding settles_fulfillment_def paid_def journal_settled_def marked_same [OF m] by blast
qed

lemma fulfillment_status_settled:
  assumes "ext_ok L" and "reliable L" and "db_ok (store w)" and "tx_id x \<noteq> None"
    and "rebate_key x = '''' \<or> int_key (rebate_key x) \<noteq> None"
    and "\<forall>j\<in>set (rebate_journal (store w)). jr_id j \<noteq> None"
  shows "let d = store w; d' = store (state_of (FulfillmentStrategy_perform L x) w); s = fulfillment_status d x
    in if s = FulfilledTransSuccessful then settles_fulfillment L x d d' else \<exists>t. marked L s t x d d'"
proof -
  note agrees = new_fulfillment_inv [OF assms(1,3), of x]
  let ?s = "fulfillment_status (store w) x"
  have "?s \<noteq> UnknownIssue" by (simp add: fulfillment_status_def split: option.split)
  then obtain c w1 where v: "FulfillmentValidation_result L (new_fulfillment x) w = (Inr (?s, c), w1)"
    and w1: "store w1 = store w"
    using fulfillment_table.validation_replies [OF agrees can_tell_fulfillment [OF assms(2,5)]]
    by (metis FulfillmentValidation_result_def fulfillment_status_tests)
  obtain w2 where u: "TransactionUpdate_perform L x ?s w1 = (Inr (), w2)"
    using TransactionUpdate_replies [OF assms(2,4)] by blast
  have "db_ok (store w1)" using assms(3) w1 by simp
  from TransactionUpdate_cases [OF assms(1) this u] obtain t where m: "marked L ?s t x (store w) (store w2)"
    using w1 by auto
  have run: "state_of (FulfillmentStrategy_perform L x) w =
      state_of (if ?s = FulfilledTransSuccessful
        then io_bind (SuccessfulFulfilledRebate_perform L ?s c) (updateJournalReport L) else io_return ()) w2"
    using v u by (auto simp: FulfillmentStrategy_perform_def io_try_apply io_bind_Inr io_then_Inr
        split: prod.splits sum.splits)
  show ?thesis
  proof (cases "?s = FulfilledTransSuccessful")
    case False
    with run m show ?thesis by (auto simp: Let_def)
  next
    case True
    have "fulfillment_inv L x (store w) c"
      using fulfillment_table.validation_tells(2) [OF agrees] v by (simp add: FulfillmentValidation_result_def)
    from payment_after_mark [OF this assms(2,5) m [unfolded True] True assms(6)] run show ?thesis
      by (simp add: True Let_def)
  qed
qed

text \<open>
  C7.  A fulfillment transaction gets the status it deserves.  When the database answers and the rebate's
  identifier is missing or a number, \<open>FulfillmentStrategy.perform\<close> marks the transaction with
  \<open>fulfillment_status\<close> of the database before; a complaint changes nothing else; a success pays the matching
  rebate, brings one of its journal records up to date if there is any, sends the event of the paid rebate, which is
  published once unless Kafka refuses it, and changes nothing else.
\<close>

theorem fulfillment_perform_implements_status:
  assumes "ext_ok L" and "reliable L" and "db_ok (store w)" and "tx_id x \<noteq> None"
    and "rebate_key x = '''' \<or> int_key (rebate_key x) \<noteq> None"
    and "\<forall>j\<in>set (rebate_journal (store w)). jr_id j \<noteq> None"
  shows "let d = store w; d' = store (state_of (FulfillmentStrategy_perform L x) w); s = fulfillment_status d x
    in if s = FulfilledTransSuccessful then settles_fulfillment L x d d' else \<exists>t. marked L s t x d d'"
  by (rule fulfillment_status_settled [OF assms])

lemma fulfillment_perform_implements_status_witness:
  "let d' = store (state_of (FulfillmentStrategy_perform ref_ext sample_fulfillment) fulfillment_world)
   in settles_fulfillment ref_ext sample_fulfillment fulfillment_db d'"
proof -
  have s: "fulfillment_status fulfillment_db sample_fulfillment = FulfilledTransSuccessful"
    by (simp add: fulfillment_status_def fulfillment_db_def sample_db_def empty_db_def sample_fulfillment_def
        sample_transaction_def sample_pending_rebate_def rebate_key_def rebate_row_def serial_matches_def
        int_key_def trim_def trim_start_def is_space_def is_digit_def digit_value_def nat_of_digits_def UserSerializer_serialize_def sample_user_def)
  show ?thesis
    using fulfillment_perform_implements_status [OF ref_ext_ok ref_reliable, of fulfillment_world sample_fulfillment] s
    by (simp add: fulfillment_db_ok, simp add: fulfillment_db_def sample_db_def empty_db_def sample_fulfillment_def
        sample_transaction_def rebate_key_def int_key_def trim_def trim_start_def is_space_def is_digit_def)
qed

end
