(* ===== verification/Refund.thy ===== *)
theory Refund
  imports FulfillmentRefinement
begin

text \<open>
  Refund transactions (\<open>refund_strategy.ts\<close>, \<open>refund_validation.ts\<close>, \<open>refund/\<close>,
  \<open>report/refund_create.ts\<close>): a refund is tracked when the offer still watches refunds on the day, and from
  the second tracked refund of a client for an offer on, the refunds and the qualifying transactions behind
  them are reported to Salesforce, each once.
\<close>

section \<open>The context\<close>

record refund_context =
  rx_transaction :: ITransactionForRebateCriteria
  rx_optionalRebateCriteria :: "IRebateCriteria option"

definition rebateCriteriaIsMissing :: "refund_context \<Rightarrow> bool" where
  "rebateCriteriaIsMissing c \<longleftrightarrow> rx_optionalRebateCriteria c = None"

definition isCurrentlyValid :: "ext \<Rightarrow> ITransactionForRebateCriteria \<Rightarrow> IRebateCriteria \<Rightarrow> bool" where
  "isCurrentlyValid L transaction criteria =
     (let refundTo = add_days L (rc_validToDate criteria) (rc_refundPeriodInDays criteria)
      in range_contains L (rc_validFromDate criteria) refundTo (tx_transactionDate transaction))"

definition isTrackingRefunds :: "ext \<Rightarrow> refund_context \<Rightarrow> bool action" where
  "isTrackingRefunds L c =
     io_bind (defined (rx_optionalRebateCriteria c))
       (\<lambda>criteria. io_return (isCurrentlyValid L (rx_transaction c) criteria \<and>
          rc_hasBeenActivated criteria \<and> rc_isRedeemable criteria))"

section \<open>The states\<close>

definition OfferNotFound_matches :: "refund_context state_matcher" where
  "OfferNotFound_matches c = io_return (rebateCriteriaIsMissing c, c)"

definition NoRebate_matches :: "ext \<Rightarrow> refund_context state_matcher" where
  "NoRebate_matches L c =
     io_bind (findQualifyingTransactions L (rx_transaction c)) (\<lambda>rebates. io_return (rebates = [], c))"

definition RefundNotTracked_matches :: "ext \<Rightarrow> refund_context state_matcher" where
  "RefundNotTracked_matches L c = io_bind (isTrackingRefunds L c) (\<lambda>b. io_return (\<not> b, c))"

definition RefundTracked_matches :: "ext \<Rightarrow> refund_context state_matcher" where
  "RefundTracked_matches L c = io_bind (isTrackingRefunds L c) (\<lambda>b. io_return (b, c))"

definition refund_states :: "ext \<Rightarrow> (refund_context state_matcher \<times> TransactionStatus) list" where
  "refund_states L =
     [(OfferNotFound_matches, OfferNotFound), (NoRebate_matches L, RebateNotFound),
      (RefundNotTracked_matches L, RefundNotTrackedForReporting),
      (RefundTracked_matches L, RefundTrackedForReporting)]"

definition RefundValidation_result :: "ext \<Rightarrow> refund_context \<Rightarrow> (TransactionStatus \<times> refund_context) action" where
  "RefundValidation_result L = validation_result (refund_states L)"

section \<open>The reports\<close>

definition refund_tracked :: "ITransactionForRebateCriteria \<Rightarrow> TransactionForRebateCriteriaRecord \<Rightarrow> bool" where
  "refund_tracked transaction r \<longleftrightarrow>
     tr_user_id r = tx_userId transaction \<and> tr_rebate_criteria_id r = tx_rebateCriteriaId transaction \<and>
     tr_status r = RefundTrackedForReporting"

definition getRefundTransactionsForClientOffer ::
  "ext \<Rightarrow> ITransactionForRebateCriteria \<Rightarrow> ITransactionForRebateCriteria list action" where
  "getRefundTransactionsForClientOffer L transaction =
     findAll TransactionForRebateCriteriaRepository L (refund_tracked transaction)"

definition qualifying_to_report :: "ITransactionForRebateCriteria \<Rightarrow> TransactionForRebateCriteriaRecord \<Rightarrow> bool" where
  "qualifying_to_report transaction r \<longleftrightarrow>
     tr_user_id r = tx_userId transaction \<and> tr_rebate_criteria_id r = tx_rebateCriteriaId transaction \<and>
     tr_transaction_type r = Qualifying \<and>
     tr_status r \<in> {PendingExtraction, PendingFulfillment, FulfilledTransSuccessful, RebateCreated} \<and>
     \<not> tr_refund_report_created r"

definition getAssociatedQualifyingTransactions ::
  "ext \<Rightarrow> ITransactionForRebateCriteria \<Rightarrow> ITransactionForRebateCriteria list action" where
  "getAssociatedQualifyingTransactions L transaction =
     findAll TransactionForRebateCriteriaRepository L (qualifying_to_report transaction)"

definition refund_report :: "IRebateCriteria \<Rightarrow> ITransactionForRebateCriteria \<Rightarrow> IRefundReport" where
  "refund_report rebateCriteria transaction =
     \<lparr>rf_clientAccountNumber = tx_accountId transaction, rf_clientHashSRF = tx_userId transaction,
       rf_id = None, rf_merchantId = rc_merchantId rebateCriteria,
       rf_offerId = parseInt (tx_rebateCriteriaId transaction), rf_transactionAmount = Number (tx_amount transaction),
       rf_transactionDate = tx_transactionDate transaction, rf_transactionType = tx_transactionType transaction\<rparr>"

definition insertRefundReportFromTransaction ::
  "ext \<Rightarrow> IRebateCriteria \<Rightarrow> ITransactionForRebateCriteria \<Rightarrow> unit action" where
  "insertRefundReportFromTransaction L rebateCriteria transaction =
     (if \<not> tx_refundReportCreated transaction
      then io_bind (insert RefundReportRepository L (refund_report rebateCriteria transaction))
        (\<lambda>reportCreated. update TransactionForRebateCriteriaRepository L (id_text (tx_id transaction))
           [RefundReportCreated True])
      else io_return ())"

definition RefundReportCreate_perform :: "ext \<Rightarrow> ITransactionForRebateCriteria \<Rightarrow> IRebateCriteria \<Rightarrow> unit action" where
  "RefundReportCreate_perform L transaction rebateCriteria =
     io_bind (getRefundTransactionsForClientOffer L transaction)
       (\<lambda>refundsAlreadyCreated.
          if 2 \<le> length refundsAlreadyCreated
          then io_bind (getAssociatedQualifyingTransactions L transaction)
            (\<lambda>associated.
               io_then (io_for refundsAlreadyCreated (insertRefundReportFromTransaction L rebateCriteria))
                 (io_for associated (insertRefundReportFromTransaction L rebateCriteria)))
          else io_return ())"

section \<open>The strategy\<close>

definition RefundStrategy_matches :: "ITransactionForRebateCriteria \<Rightarrow> bool" where
  "RefundStrategy_matches transaction \<longleftrightarrow> tx_transactionType transaction = Refund"

definition createRefundReport :: "ext \<Rightarrow> refund_context \<Rightarrow> unit action" where
  "createRefundReport L c =
     (case rx_optionalRebateCriteria c of
        None \<Rightarrow> io_return ()
      | Some criteria \<Rightarrow> RefundReportCreate_perform L (rx_transaction c) criteria)"

definition RefundStrategy_perform :: "ext \<Rightarrow> ITransactionForRebateCriteria \<Rightarrow> unit action" where
  "RefundStrategy_perform L transaction =
     io_try
       (io_bind (find RebateCriteriaRepository L (tx_rebateCriteriaId transaction))
         (\<lambda>rebateCriteria.
            io_bind (RefundValidation_result L
                \<lparr>rx_transaction = transaction, rx_optionalRebateCriteria = rebateCriteria\<rparr>)
              (\<lambda>(result, c). io_then (TransactionUpdate_perform L transaction result) (createRefundReport L c))))
       (\<lambda>_. io_return ())"

section \<open>What each state says\<close>

text \<open>A refund is tracked from the first day of the offer to the end of its refund period.\<close>

definition tracks_refunds :: "IRebateCriteria \<Rightarrow> ITransactionForRebateCriteria \<Rightarrow> bool" where
  "tracks_refunds criteria x \<longleftrightarrow>
     rc_validFromDate criteria \<le> tx_transactionDate x \<and>
     tx_transactionDate x \<le> rc_validToDate criteria + rc_refundPeriodInDays criteria * 86400000 \<and>
     rc_hasBeenActivated criteria \<and> rc_isRedeemable criteria"

definition has_rebate :: "ITransactionForRebateCriteria \<Rightarrow> db \<Rightarrow> bool" where
  "has_rebate x d \<longleftrightarrow>
     (\<exists>r\<in>set (rebates d). rr_rebate_criteria_id r = tx_rebateCriteriaId x \<and> rr_user_id r = tx_userId x)"

definition refund_status :: "IRebateCriteria option \<Rightarrow> db \<Rightarrow> ITransactionForRebateCriteria \<Rightarrow> TransactionStatus" where
  "refund_status offer d x =
     (case offer of
        None \<Rightarrow> OfferNotFound
      | Some criteria \<Rightarrow>
          if \<not> has_rebate x d then RebateNotFound
          else if tracks_refunds criteria x then RefundTrackedForReporting else RefundNotTrackedForReporting)"

definition refund_tests :: "ext \<Rightarrow> ITransactionForRebateCriteria \<Rightarrow> IRebateCriteria option \<Rightarrow> status_test list" where
  "refund_tests L x offer =
     [(\<lambda>d. offer = None, \<lambda>d. True, OfferNotFound), (\<lambda>d. \<not> has_rebate x d, \<lambda>d. reliable L, RebateNotFound),
      (\<lambda>d. \<not> (case offer of None \<Rightarrow> False | Some criteria \<Rightarrow> tracks_refunds criteria x), \<lambda>d. offer \<noteq> None,
         RefundNotTrackedForReporting),
      (\<lambda>d. case offer of None \<Rightarrow> False | Some criteria \<Rightarrow> tracks_refunds criteria x, \<lambda>d. offer \<noteq> None,
         RefundTrackedForReporting)]"

lemma refund_status_tests: "first_status (refund_tests L x offer) d = refund_status offer d x"
  by (auto simp: refund_tests_def refund_status_def split: option.split)

definition refund_inv ::
  "ext \<Rightarrow> ITransactionForRebateCriteria \<Rightarrow> IRebateCriteria option \<Rightarrow> db \<Rightarrow> refund_context \<Rightarrow> bool" where
  "refund_inv L x offer d c \<longleftrightarrow>
     ext_ok L \<and> db_ok d \<and> c = \<lparr>rx_transaction = x, rx_optionalRebateCriteria = offer\<rparr>"

lemma isTrackingRefunds_cases:
  assumes "refund_inv L x offer (store w) c"
  shows "isTrackingRefunds L c w =
    (case offer of None \<Rightarrow> Inl TypeError | Some criteria \<Rightarrow> Inr (tracks_refunds criteria x), w)"
proof -
  have "date_laws L" and "c = \<lparr>rx_transaction = x, rx_optionalRebateCriteria = offer\<rparr>"
    using assms ext_date by (auto simp: refund_inv_def)
  then show ?thesis
    by (auto simp: isTrackingRefunds_def isCurrentlyValid_def tracks_refunds_def date_laws_def io_bind_apply
        defined_def Let_def split: option.split)
qed

lemma NoRebate_tells:
  assumes "refund_inv L x offer (store w) c" and "NoRebate_matches L c w = (Inr (b, c'), w')"
  shows "b = (\<not> has_rebate x (store w)) \<and> refund_inv L x offer (store w) c'"
proof -
  have c: "ext_ok L" "rx_transaction c = x" using assms(1) by (auto simp: refund_inv_def)
  obtain ys where f: "result_of (findQualifyingTransactions L x) w = Inr ys" and b: "b = (ys = [])" "c' = c"
    using assms(2) c(2) by (fastforce simp: NoRebate_matches_def elim!: io_bind_InrE)
  from findAll_empty [OF rebates_reads_repo [OF c(1)] f [unfolded findQualifyingTransactions_def]] b assms(1)
  show ?thesis by (simp add: has_rebate_def RebateRepository_def)
qed

lemma NoRebate_replies:
  assumes "refund_inv L x offer (store w) c" and "reliable L"
  shows "\<exists>r w'. NoRebate_matches L c w = (Inr r, w')"
proof -
  have c: "ext_ok L" "db_ok (store w)" using assms(1) by (simp_all add: refund_inv_def)
  from findAll_rebates_replies [OF c(1) assms(2) c(2), of "\<lambda>r. rr_rebate_criteria_id r =
      tx_rebateCriteriaId (rx_transaction c) \<and> rr_user_id r = tx_userId (rx_transaction c)"]
  show ?thesis by (auto simp: NoRebate_matches_def findQualifyingTransactions_def io_bind_apply)
qed

lemma tell_refund:
  "tells_of (refund_inv L x offer) (\<lambda>d. offer = None) OfferNotFound_matches"
  "tells_of (refund_inv L x offer)
     (\<lambda>d. \<not> (case offer of None \<Rightarrow> False | Some criteria \<Rightarrow> tracks_refunds criteria x)) (RefundNotTracked_matches L)"
  "tells_of (refund_inv L x offer)
     (\<lambda>d. case offer of None \<Rightarrow> False | Some criteria \<Rightarrow> tracks_refunds criteria x) (RefundTracked_matches L)"
  "replies_of (refund_inv L x offer) (\<lambda>d. True) OfferNotFound_matches"
  "replies_of (refund_inv L x offer) (\<lambda>d. offer \<noteq> None) (RefundNotTracked_matches L)"
  "replies_of (refund_inv L x offer) (\<lambda>d. offer \<noteq> None) (RefundTracked_matches L)"
  by (auto simp: tells_of_def replies_of_def OfferNotFound_matches_def RefundNotTracked_matches_def
      RefundTracked_matches_def rebateCriteriaIsMissing_def io_bind_apply isTrackingRefunds_cases
      split: option.splits) (auto simp: refund_inv_def)

lemma tell_NoRebate:
  "tells_of (refund_inv L x offer) (\<lambda>d. \<not> has_rebate x d) (NoRebate_matches L)"
  "replies_of (refund_inv L x offer) (\<lambda>d. reliable L) (NoRebate_matches L)"
  by (rule tells_ofI, erule (1) NoRebate_tells, rule replies_ofI, erule (1) NoRebate_replies)

interpretation refund_states: state_table "refund_states L"
proof
  fix matcher status and c :: refund_context
  assume "(matcher, status) \<in> set (refund_states L)"
  then show "frames store (matcher c)"
    by (auto simp: refund_states_def OfferNotFound_matches_def NoRebate_matches_def RefundNotTracked_matches_def
        RefundTracked_matches_def isTrackingRefunds_def simp del: io_return_apply
        intro!: frames_bind frames_findQualifyingTransactions frames_defined frames_return)
next
  fix matcher :: "refund_context state_matcher" and status
  assume "(matcher, status) \<in> set (refund_states L)"
  then show "status \<noteq> UnknownIssue" by (auto simp: refund_states_def)
qed

interpretation refund_decided: decided_table "refund_states L" "refund_tests L x offer" "refund_inv L x offer"
  by unfold_locales
    (simp only: specified_def refund_states_def refund_tests_def list.rel_inject prod.case tell_refund
      tell_NoRebate list_all2_Nil simp_thms)

end
