(* ===== verification/Processing.thy ===== *)
theory Processing
  imports QualifyingStrategy Fulfillment Refund
begin

text \<open>
  \<open>TransactionProcessing\<close> (\<open>app/transaction_processing/index.ts\<close>): the pending transactions, or those of one
  worker, each given to the strategy for its type.  This is the sequential mode, the default; \<open>Parallel\<close> has the other one.
\<close>

record strategy =
  strategy_matches :: "ITransactionForRebateCriteria \<Rightarrow> bool"
  strategy_perform :: "ITransactionForRebateCriteria \<Rightarrow> unit action"

definition STRATEGIES :: "ext \<Rightarrow> strategy list" where
  "STRATEGIES L =
     [\<lparr>strategy_matches = QualifyingStrategy_matches, strategy_perform = QualifyingStrategy_perform L\<rparr>,
      \<lparr>strategy_matches = FulfillmentStrategy_matches, strategy_perform = FulfillmentStrategy_perform L\<rparr>,
      \<lparr>strategy_matches = RefundStrategy_matches, strategy_perform = RefundStrategy_perform L\<rparr>]"

definition findStrategyFor :: "ext \<Rightarrow> ITransactionForRebateCriteria \<Rightarrow> strategy action" where
  "findStrategyFor L transaction =
     (case List.find (\<lambda>s. strategy_matches s transaction) (STRATEGIES L) of
        None \<Rightarrow> io_throw (JsError ''Can't find strategy'')
      | Some s \<Rightarrow> io_return s)"

definition processTransaction :: "ext \<Rightarrow> ITransactionForRebateCriteria \<Rightarrow> unit action" where
  "processTransaction L transaction =
     io_try
       (io_bind (findStrategyFor L transaction) (\<lambda>s. strategy_perform s transaction))
       (\<lambda>e. io_return ())"

text \<open>A worker number that is zero counts as none.\<close>

definition pending_for :: "ext \<Rightarrow> nat option \<Rightarrow> ITransactionForRebateCriteria list action" where
  "pending_for L workerNumber =
     (case workerNumber of
        None \<Rightarrow> findAllPending L
      | Some n \<Rightarrow> if n = 0 then findAllPending L else getTransactionsAssignedToProcess L n)"

definition process_pending :: "ext \<Rightarrow> nat option \<Rightarrow> unit action" where
  "process_pending L workerNumber =
     io_bind (pending_for L workerNumber) (\<lambda>pending. io_for pending (processTransaction L))"

definition TransactionProcessing_perform :: "ext \<Rightarrow> nat option \<Rightarrow> unit action" where
  "TransactionProcessing_perform L workerNumber =
     io_then (request (kafka_connect L)) (process_pending L workerNumber)"

section \<open>The strategy of a transaction\<close>

text \<open>A transaction of another type has none; it is left as it is.\<close>

definition run_strategy :: "ext \<Rightarrow> ITransactionForRebateCriteria \<Rightarrow> unit action" where
  "run_strategy L x =
     (case tx_transactionType x of
        Qualifying \<Rightarrow> QualifyingStrategy_perform L x
      | Fulfillment \<Rightarrow> FulfillmentStrategy_perform L x
      | Refund \<Rightarrow> RefundStrategy_perform L x
      | OtherTransactionType _ \<Rightarrow> io_return ())"

lemma processTransaction_type: "state_of (processTransaction L x) w = state_of (run_strategy L x) w"
  unfolding processTransaction_def findStrategyFor_def STRATEGIES_def run_strategy_def
  by (cases "tx_transactionType x")
    (simp_all add: QualifyingStrategy_matches_def FulfillmentStrategy_matches_def RefundStrategy_matches_def
      io_simps split: prod.splits sum.splits)

lemma processTransaction_returns: "never_raises (processTransaction L x)"
  unfolding processTransaction_def by (intro never_raises_try never_raises_return)

lemma processing_returns: "never_raises (io_for pending (processTransaction L))"
  by (intro never_raises_for processTransaction_returns)

text \<open>What every strategy keeps, a run keeps.\<close>

lemma keeps_processTransaction:
  assumes "\<And>x. keeps P (QualifyingStrategy_perform L x)" and "\<And>x. keeps P (FulfillmentStrategy_perform L x)"
    and "\<And>x. keeps P (RefundStrategy_perform L x)"
  shows "keeps P (processTransaction L x)"
  using assms by (cases "tx_transactionType x") (simp_all add: keeps_def processTransaction_type run_strategy_def)

lemma frames_pending [io_frame]: "frames store (pending_for L n)"
  unfolding pending_for_def findAllPending_def getTransactionsAssignedToProcess_def
  by (auto intro!: frames_bind frames_query frames_lift frames_findAll split: option.split)

lemma keeps_processing:
  assumes "\<And>x. keeps (\<lambda>w. P (store w)) (processTransaction L x)"
  shows "keeps (\<lambda>w. P (store w)) (TransactionProcessing_perform L n)"
  unfolding TransactionProcessing_perform_def process_pending_def
  by (intro keeps_then keeps_bind keeps_for assms frames_keeps [OF frames_request] frames_keeps [OF frames_pending])

end
