(* ===== verification/Objects.thy ===== *)
theory Objects
  imports Externals
begin

text \<open>
  Methods of an object with fields of its own.  The fields survive a thrown error, as the database does, so
  they are part of the state: a method is a computation on the object and the world.
\<close>

type_synonym ('s, 'a) object_action = "('s \<times> world, 'a) io"

text \<open>What the method does outside of the object.\<close>

definition outside :: "'a action \<Rightarrow> ('s, 'a) object_action" where
  "outside m = (\<lambda>(self, w). case m w of (r, w') \<Rightarrow> (r, (self, w')))"

definition field :: "('s \<Rightarrow> 'a) \<Rightarrow> ('s, 'a) object_action" where
  "field f = (\<lambda>(self, w). (Inr (f self), (self, w)))"

definition assign :: "('s \<Rightarrow> 's) \<Rightarrow> ('s, unit) object_action" where
  "assign f = (\<lambda>(self, w). (Inr (), (f self, w)))"

text \<open>A method of an object held in a field.\<close>

definition inside :: "('s \<Rightarrow> 'p) \<Rightarrow> ('p \<Rightarrow> 's \<Rightarrow> 's) \<Rightarrow> ('p, 'a) object_action \<Rightarrow> ('s, 'a) object_action" where
  "inside get put m = (\<lambda>(self, w). case m (get self, w) of (r, (p, w')) \<Rightarrow> (r, (put p self, w')))"

text \<open>A new object that nothing refers to afterwards.\<close>

definition with_new :: "'s \<Rightarrow> ('s, 'a) object_action \<Rightarrow> 'a action" where
  "with_new self m = (\<lambda>w. case m (self, w) of (r, (_, w')) \<Rightarrow> (r, w'))"

section \<open>Evaluation\<close>

lemma outside_apply [io_simps]: "outside m (self, w) = (result_of m w, (self, state_of m w))"
  by (simp add: outside_def split: prod.splits)

lemma field_apply [io_simps]: "field f (self, w) = (Inr (f self), (self, w))"
  by (simp add: field_def)

lemma assign_apply [io_simps]: "assign f (self, w) = (Inr (), (f self, w))"
  by (simp add: assign_def)

lemma inside_apply [io_simps]:
  "inside get put m (self, w) =
     (result_of m (get self, w), (put (fst (state_of m (get self, w))) self, snd (state_of m (get self, w))))"
  by (simp add: inside_def split: prod.splits)

lemma with_new_apply [io_simps]: "with_new self m w = (result_of m (self, w), snd (state_of m (self, w)))"
  by (simp add: with_new_def split: prod.splits)

section \<open>Frames\<close>

lemma frames_outside: "frames v m \<Longrightarrow> frames (\<lambda>(self, w). v w) (outside m)"
  by (auto simp: frames_def outside_def split: prod.splits) (metis snd_conv)

lemma frames_field [io_frame]: "frames v (field f)"
  by (simp add: frames_def field_def split: prod.splits)

lemma frames_assign: "frames (\<lambda>(self, w). v w) (assign f)"
  by (simp add: frames_def assign_def split: prod.splits)

lemma frames_inside:
  "frames (\<lambda>(self, w). v w) m \<Longrightarrow> frames (\<lambda>(self, w). v w) (inside get put m)"
  by (auto simp: frames_def inside_def split: prod.splits) (metis snd_conv)

lemma frames_with_new: "frames (\<lambda>(self, w). v w) m \<Longrightarrow> frames v (with_new self m)"
  by (auto simp: frames_def with_new_def split: prod.splits) (metis snd_conv)

text \<open>An invariant of the world and one of the object with the world.\<close>

lemma keeps_outside: "keeps P m \<Longrightarrow> keeps (\<lambda>(self, w). P w) (outside m)"
  by (auto simp: keeps_def outside_apply)

lemma keeps_with_new: "keeps (\<lambda>(self, w). P w) m \<Longrightarrow> keeps P (with_new self m)"
  by (auto simp: keeps_def with_new_apply split: prod.splits) (metis prod.collapse)

end
