(* ===== verification/Sftp.thy ===== *)
theory Sftp
  imports Objects Paths Validation
begin

text \<open>
  The SFTP client of \<open>lib/remote_sftp_client\<close>: a connection (\<open>RemoteSFTPClient\<close>) with the flag that says
  whether it is connected, the client made of a connection to read and one to write (\<open>SFTPClient\<close>), and
  the uploader of \<open>app/exports/sftp_uploader.ts\<close> that uses it.  The library \<open>ssh2-sftp-client\<close> answers
  through \<open>sftp_connect\<close>, \<open>sftp_end\<close>, \<open>sftp_list\<close> and \<open>sftp_put\<close>.
\<close>

section \<open>A connection\<close>

record RemoteSFTPClient =
  connected :: bool

definition new_RemoteSFTPClient :: RemoteSFTPClient where
  "new_RemoteSFTPClient = \<lparr>connected = False\<rparr>"

definition RemoteSFTPClient_connect :: "ext \<Rightarrow> (RemoteSFTPClient, unit) object_action" where
  "RemoteSFTPClient_connect L =
     io_then (outside (request (sftp_connect L))) (assign (\<lambda>self. self\<lparr>connected := True\<rparr>))"

definition RemoteSFTPClient_disconnect :: "ext \<Rightarrow> (RemoteSFTPClient, unit) object_action" where
  "RemoteSFTPClient_disconnect L =
     io_then (outside (request (sftp_end L))) (assign (\<lambda>self. self\<lparr>connected := False\<rparr>))"

definition isConnected :: "(RemoteSFTPClient, bool) object_action" where
  "isConnected = field connected"

definition existsOnFtp :: "ext \<Rightarrow> string \<Rightarrow> (RemoteSFTPClient, bool) object_action" where
  "existsOnFtp L path =
     io_bind (outside (request (\<lambda>n. sftp_list L n (dirname path))))
       (\<lambda>listings. io_return (basename path \<in> set listings))"

text \<open>The remote file holds what the local one holds.\<close>

definition placeFileOnFTP :: "ext \<Rightarrow> string \<Rightarrow> string \<Rightarrow> (RemoteSFTPClient, unit) object_action" where
  "placeFileOnFTP L localPath remotePath =
     outside (\<lambda>w. case sftp_put L (calls w) (local_zip (store w) localPath) remotePath of
         Inl e \<Rightarrow> (Inl e, tick w)
       | Inr content \<Rightarrow>
           (Inr (), (tick w)\<lparr>store := (store w)\<lparr>uploaded := uploaded (store w) @ [(remotePath, content)]\<rparr>\<rparr>))"

section \<open>The client\<close>

record SFTPClient =
  ftpReadClient :: RemoteSFTPClient
  ftpWriteClient :: RemoteSFTPClient

definition new_SFTPClient :: SFTPClient where
  "new_SFTPClient = \<lparr>ftpReadClient = new_RemoteSFTPClient, ftpWriteClient = new_RemoteSFTPClient\<rparr>"

definition on_read :: "(RemoteSFTPClient, 'a) object_action \<Rightarrow> (SFTPClient, 'a) object_action" where
  "on_read = inside ftpReadClient (\<lambda>c self. self\<lparr>ftpReadClient := c\<rparr>)"

definition on_write :: "(RemoteSFTPClient, 'a) object_action \<Rightarrow> (SFTPClient, 'a) object_action" where
  "on_write = inside ftpWriteClient (\<lambda>c self. self\<lparr>ftpWriteClient := c\<rparr>)"

definition SFTPClient_connect :: "ext \<Rightarrow> (SFTPClient, unit) object_action" where
  "SFTPClient_connect L =
     io_then
       (io_bind (on_read isConnected)
         (\<lambda>b. if \<not> b then on_read (RemoteSFTPClient_connect L) else io_return ()))
       (io_bind (on_write isConnected)
         (\<lambda>b. if \<not> b then on_write (RemoteSFTPClient_connect L) else io_return ()))"

definition SFTPClient_disconnect :: "ext \<Rightarrow> (SFTPClient, unit) object_action" where
  "SFTPClient_disconnect L =
     io_then
       (io_bind (on_read isConnected)
         (\<lambda>b. if b then on_read (RemoteSFTPClient_disconnect L) else io_return ()))
       (io_bind (on_write isConnected)
         (\<lambda>b. if b then on_write (RemoteSFTPClient_disconnect L) else io_return ()))"

definition fileExistsRemotely :: "ext \<Rightarrow> string \<Rightarrow> (SFTPClient, bool) object_action" where
  "fileExistsRemotely L remotePath = io_try (on_read (existsOnFtp L remotePath)) io_throw"

definition uploadFile :: "ext \<Rightarrow> string \<Rightarrow> string \<Rightarrow> (SFTPClient, unit) object_action" where
  "uploadFile L localFilePath remoteFilePath =
     io_try (on_write (placeFileOnFTP L localFilePath remoteFilePath)) io_throw"

section \<open>The uploader\<close>

definition SFTPUploader_perform :: "ext \<Rightarrow> string \<Rightarrow> string \<Rightarrow> unit action" where
  "SFTPUploader_perform L sourceFilePath remoteFilePath =
     io_try
       (with_new new_SFTPClient
         (io_then (SFTPClient_connect L)
         (io_then (uploadFile L sourceFilePath remoteFilePath)
         (SFTPClient_disconnect L))))
       (\<lambda>err. io_throw (JsError (''[RM] - Error uploading to SFTP... '' @ exn_text err)))"

section \<open>What the operations do\<close>

lemmas sftp_defs =
  RemoteSFTPClient_connect_def RemoteSFTPClient_disconnect_def isConnected_def existsOnFtp_def
  placeFileOnFTP_def on_read_def on_write_def SFTPClient_connect_def SFTPClient_disconnect_def
  fileExistsRemotely_def uploadFile_def new_SFTPClient_def new_RemoteSFTPClient_def

definition both_connected :: "SFTPClient \<Rightarrow> bool" where
  "both_connected c \<longleftrightarrow> connected (ftpReadClient c) \<and> connected (ftpWriteClient c)"

definition none_connected :: "SFTPClient \<Rightarrow> bool" where
  "none_connected c \<longleftrightarrow> \<not> connected (ftpReadClient c) \<and> \<not> connected (ftpWriteClient c)"

text \<open>A connect that returns leaves both connections open; on an open client it asks nothing.\<close>

lemma connect_connects:
  assumes "SFTPClient_connect L (c, w) = (Inr (), (c', w'))"
  shows "both_connected c'"
  using assms
  by (auto simp: sftp_defs io_simps both_connected_def split: sum.splits if_splits)

lemma connect_again:
  assumes "both_connected c"
  shows "SFTPClient_connect L (c, w) = (Inr (), (c, w))"
  using assms by (simp add: sftp_defs io_simps both_connected_def)

lemma disconnect_disconnects:
  assumes "SFTPClient_disconnect L (c, w) = (Inr (), (c', w'))"
  shows "none_connected c'"
  using assms
  by (auto simp: sftp_defs io_simps none_connected_def split: sum.splits if_splits)

lemma disconnect_again:
  assumes "none_connected c"
  shows "SFTPClient_disconnect L (c, w) = (Inr (), (c, w))"
  using assms by (simp add: sftp_defs io_simps none_connected_def)

text \<open>
  The upload changes nothing but the uploaded files, and those only by adding the local file; when it
  returns, it has added it.
\<close>

definition puts :: "db \<Rightarrow> string \<Rightarrow> string \<Rightarrow> db \<Rightarrow> bool" where
  "puts d localPath remotePath d' \<longleftrightarrow>
     (\<exists>content. local_zip d localPath = Some content \<and>
        d' = d\<lparr>uploaded := uploaded d @ [(remotePath, content)]\<rparr>)"

lemma frames_connect: "frames (\<lambda>(self, w). store w) (SFTPClient_connect L)"
  by (auto simp: frames_def sftp_defs io_simps split: sum.splits if_splits)

lemma frames_disconnect: "frames (\<lambda>(self, w). store w) (SFTPClient_disconnect L)"
  by (auto simp: frames_def sftp_defs io_simps split: sum.splits if_splits)

lemma uploadFile_cases:
  assumes "file_laws L"
  shows "uploadFile L p q (c, w) = (r, (c', w')) \<Longrightarrow>
    c' = c \<and> ((\<exists>e. r = Inl e) \<and> store w' = store w \<or> r = Inr () \<and> puts (store w) p q (store w'))"
proof -
  assume "uploadFile L p q (c, w) = (r, (c', w'))"
  moreover have "local_zip (store w) p = Some x" if "sftp_put L (calls w) (local_zip (store w) p) q = Inr x" for x
    using that assms unfolding file_laws_def by blast
  ultimately show ?thesis
    by (fastforce simp: sftp_defs io_simps puts_def split: sum.splits)
qed

lemma uploader_cases:
  assumes "file_laws L" and "SFTPUploader_perform L p q w = (r, w')"
  shows "(\<exists>e. r = Inl e) \<and> (store w' = store w \<or> puts (store w) p q (store w')) \<or>
    r = Inr () \<and> puts (store w) p q (store w')"
proof -
  obtain r1 c1 w1 where 1: "SFTPClient_connect L (new_SFTPClient, w) = (r1, (c1, w1))" by (metis prod_cases3)
  have s1: "store w1 = store w" using framesD [OF frames_connect, of L "(new_SFTPClient, w)"] 1 by simp
  show ?thesis
  proof (cases r1)
    case (Inl e)
    with assms(2) 1 s1 show ?thesis by (auto simp: SFTPUploader_perform_def io_simps)
  next
    case (Inr u)
    obtain r2 c2 w2 where 2: "uploadFile L p q (c1, w1) = (r2, (c2, w2))" by (metis prod_cases3)
    obtain r3 c3 w3 where 3: "SFTPClient_disconnect L (c2, w2) = (r3, (c3, w3))" by (metis prod_cases3)
    have s3: "store w3 = store w2" using framesD [OF frames_disconnect, of L "(c2, w2)"] 3 by simp
    from uploadFile_cases [OF assms(1) 2] assms(2) 1 2 3 s1 s3 Inr show ?thesis
      by (cases r2; cases r3) (auto simp: SFTPUploader_perform_def io_simps)
  qed
qed

text \<open>Without failures the upload returns.\<close>

lemma uploader_reliable:
  assumes "reliable_files L" and "local_zip (store w) p = Some content"
  shows "\<exists>w'. SFTPUploader_perform L p q w = (Inr (), w')"
  using assms by (simp add: reliable_files_def SFTPUploader_perform_def sftp_defs io_simps)

end
