(* ===== verification/Reports.thy ===== *)
theory Reports
  imports Validation
begin

text \<open>
  The two Salesforce records a rebate gets when it is exported (\<open>report/unfulfilled_rebate_create.ts\<close>,
  \<open>report/rebate_journal_create.ts\<close>), with what each does to the database.
\<close>

section \<open>The offer of a rebate\<close>

definition report_criteria :: "ext \<Rightarrow> IRebate \<Rightarrow> IRebateCriteria action" where
  "report_criteria L rebate =
     io_bind (find RebateCriteriaRepository L (tx_rebateCriteriaId (rb_qualifyingTransaction rebate)))
       (\<lambda>criteria. case criteria of
            None \<Rightarrow> io_throw (JsError (''Couln not find rebate criteria: '' @
              tx_rebateCriteriaId (rb_qualifyingTransaction rebate)))
          | Some c \<Rightarrow> io_return c)"

section \<open>The unfulfilled rebate\<close>

definition unfulfilled_report :: "IRebate \<Rightarrow> IRebateCriteria \<Rightarrow> IUnfulfilledRebateReport" where
  "unfulfilled_report rebate criteria =
     (let x = rb_qualifyingTransaction rebate in
     \<lparr>uf_currency = tx_transactionCurrency x, uf_id = None, uf_instructionSentDate = tx_processedAt x,
       uf_maskedClientAccount = tx_card x, uf_merchantId = Number (rc_merchantId criteria),
       uf_offerId = rc_id criteria, uf_qualifyingTransactionDate = tx_transactionDate x,
       uf_qualifyingTransactionValue = Number (tx_amount x), uf_rebateStatus = rb_status rebate,
       uf_rebateTransactionId = rb_id rebate, uf_rebateType = rb_rewardType rebate,
       uf_transactionType = tx_cardType x, uf_unfulfilledDays = None, uf_rebate = parseFloat (rb_amount rebate)\<rparr>)"

definition UnfulfilledRebateReportCreate_perform :: "ext \<Rightarrow> IRebate \<Rightarrow> unit action" where
  "UnfulfilledRebateReportCreate_perform L rebate =
     io_bind (report_criteria L rebate)
       (\<lambda>criteria. io_then (insert UnfilfilledRebateReportRepository L (unfulfilled_report rebate criteria))
          (io_return ()))"

section \<open>The journal record\<close>

definition getProductSfIdFromProductCode :: "ext \<Rightarrow> string \<Rightarrow> string action" where
  "getProductSfIdFromProductCode L code =
     io_bind (getProductFromProductCodeExternal L code)
       (\<lambda>product. io_return (case product of None \<Rightarrow> '''' | Some p \<Rightarrow> pr_sfId p))"

definition journal_report :: "IRebate \<Rightarrow> IRebateCriteria \<Rightarrow> date \<Rightarrow> string \<Rightarrow> IRebateJournalReport" where
  "journal_report rebate criteria instructionSentDate product =
     (let x = rb_qualifyingTransaction rebate; amount = parseFloat (rb_amount rebate) in
     \<lparr>rj_UCINExternalId = None, rj_basePoints = tx_basePoints x,
       rj_ccCreditAmount = (if tx_cardType x = CreditCard then amount else Num 0),
       rj_clientId = tx_userId x, rj_currency = tx_transactionCurrency x,
       rj_fulfilledDate = rb_fulfilledDate rebate, rj_fulfilledWmResults = None, rj_id = None,
       rj_instructionSentDate = Some instructionSentDate, rj_maskedClientAccount = tx_card x,
       rj_merchantId = rc_merchantId criteria, rj_offerId = parseInt (rc_id criteria),
       rj_pbaCreditAmount = (if tx_cardType x = CheckingAccount then amount else Num 0),
       rj_product = product, rj_qualifyingTransactionDate = Some (tx_transactionDate x),
       rj_qualifyingTransactionValue = parseFloat (tx_amount x), rj_rebateStatus = rb_status rebate,
       rj_rebateTransactionId = rb_id rebate, rj_rebateType = rb_rewardType rebate,
       rj_transactionType = tx_cardType x,
       rj_rebateDollars = (if rb_rewardType rebate = Dollars then amount else Num 0),
       rj_rebatePoints = (if rb_rewardType rebate = Points then amount else Num 0)\<rparr>)"

definition RebateJournalReportCreate_perform :: "ext \<Rightarrow> IRebate \<Rightarrow> unit action" where
  "RebateJournalReportCreate_perform L rebate =
     io_bind (report_criteria L rebate) (\<lambda>criteria.
     io_bind (now L) (\<lambda>instructionSentDate.
     io_bind (getProductSfIdFromProductCode L (tx_productCodeExternal (rb_qualifyingTransaction rebate))) (\<lambda>product.
     io_then (insert RebateJournalReportRepository L (journal_report rebate criteria instructionSentDate product))
       (io_return ()))))"

section \<open>What they leave alone\<close>

lemma frames_report_criteria [io_frame]: "frames store (report_criteria L rebate)"
  unfolding report_criteria_def by (intro frames_bind frames_find frames_case_option frames_throw frames_return)

lemma frames_unfulfilled:
  "(\<And>rs d. v (d\<lparr>unfulfilled_reports := rs\<rparr>) = v d) \<Longrightarrow>
    frames (\<lambda>w. v (store w)) (UnfulfilledRebateReportCreate_perform L rebate)"
  unfolding UnfulfilledRebateReportCreate_perform_def
  by (intro frames_bind frames_then frames_return frames_comp [OF frames_report_criteria] frames_insert)
    (simp add: UnfilfilledRebateReportRepository_def)

lemma frames_journal:
  "(\<And>rs d. v (d\<lparr>rebate_journal := rs\<rparr>) = v d) \<Longrightarrow>
    frames (\<lambda>w. v (store w)) (RebateJournalReportCreate_perform L rebate)"
  unfolding RebateJournalReportCreate_perform_def getProductSfIdFromProductCode_def
  by (intro frames_bind frames_then frames_return frames_comp [OF frames_report_criteria] frames_comp [OF frames_now]
      frames_comp [OF frames_getProduct] frames_insert)
    (simp add: RebateJournalReportRepository_def)

end
