(* ===== verification/Triples.thy ===== *)
theory Triples
  imports Objects
begin

text \<open>
  A logic for computations that may raise: \<open>triple P m Q E\<close> says that \<open>m\<close>, begun in a state with \<open>P\<close>,
  ends in a state with \<open>Q\<close> of its result when it returns, and in one with \<open>E\<close> when it raises.  With
  \<open>E\<close> false it also says that the computation returns.
\<close>

definition triple :: "('w \<Rightarrow> bool) \<Rightarrow> ('w, 'a) io \<Rightarrow> ('a \<Rightarrow> 'w \<Rightarrow> bool) \<Rightarrow> ('w \<Rightarrow> bool) \<Rightarrow> bool" where
  "triple P m Q E \<longleftrightarrow> (\<forall>w. P w \<longrightarrow> (case m w of (Inl e, w') \<Rightarrow> E w' | (Inr x, w') \<Rightarrow> Q x w'))"

lemma tripleI: "(\<And>w. P w \<Longrightarrow> (case m w of (Inl e, w') \<Rightarrow> E w' | (Inr x, w') \<Rightarrow> Q x w')) \<Longrightarrow> triple P m Q E"
  by (simp add: triple_def)

lemma tripleD: "triple P m Q E \<Longrightarrow> P w \<Longrightarrow> (case m w of (Inl e, w') \<Rightarrow> E w' | (Inr x, w') \<Rightarrow> Q x w')"
  by (simp add: triple_def)

lemma triple_Inr: "triple P m Q E \<Longrightarrow> P w \<Longrightarrow> m w = (Inr x, w') \<Longrightarrow> Q x w'"
  by (drule (1) tripleD) simp

lemma triple_Inl: "triple P m Q E \<Longrightarrow> P w \<Longrightarrow> m w = (Inl e, w') \<Longrightarrow> E w'"
  by (drule (1) tripleD) simp

lemma triple_result:
  assumes "triple P m Q (\<lambda>_. False)" and "P w"
  obtains x where "m w = (Inr x, state_of m w)" and "Q x (state_of m w)"
  using tripleD [OF assms] by (cases "m w"; cases "result_of m w") (auto intro: that)

lemma triple_state:
  assumes "triple P m (\<lambda>_. Q) Q" and "P w"
  shows "Q (state_of m w)"
  using tripleD [OF assms] by (cases "m w"; cases "result_of m w") auto

section \<open>Rules\<close>

lemma triple_conseq:
  assumes "triple P' m Q' E'" and "\<And>w. P w \<Longrightarrow> P' w" and "\<And>x w. Q' x w \<Longrightarrow> Q x w" and "\<And>w. E' w \<Longrightarrow> E w"
  shows "triple P m Q E"
  unfolding triple_def
proof (intro allI impI)
  fix w
  assume "P w"
  from tripleD [OF assms(1) assms(2) [OF this]]
  show "case m w of (Inl e, w') \<Rightarrow> E w' | (Inr x, w') \<Rightarrow> Q x w'"
    using assms(3,4) by (auto split: prod.splits sum.splits)
qed

lemma triple_pre: "triple P' m Q E \<Longrightarrow> (\<And>w. P w \<Longrightarrow> P' w) \<Longrightarrow> triple P m Q E"
  by (rule triple_conseq)

lemma triple_post: "triple P m Q' E \<Longrightarrow> (\<And>x w. Q' x w \<Longrightarrow> Q x w) \<Longrightarrow> triple P m Q E"
  by (rule triple_conseq)

lemma triple_bind: "triple P m R E \<Longrightarrow> (\<And>x. triple (R x) (k x) Q E) \<Longrightarrow> triple P (io_bind m k) Q E"
  by (fastforce simp: triple_def io_bind_apply split: prod.splits sum.splits)

lemma triple_then: "triple P m (\<lambda>_. R) E \<Longrightarrow> triple R k Q E \<Longrightarrow> triple P (io_then m k) Q E"
  unfolding io_then_def by (rule triple_bind)

lemma triple_try: "triple P m Q F \<Longrightarrow> (\<And>e. triple F (h e) Q E) \<Longrightarrow> triple P (io_try m h) Q E"
  by (fastforce simp: triple_def io_try_apply split: prod.splits sum.splits)

lemma triple_return: "(\<And>w. P w \<Longrightarrow> Q x w) \<Longrightarrow> triple P (io_return x) Q E"
  by (simp add: triple_def)

lemma triple_throw: "(\<And>w. P w \<Longrightarrow> E w) \<Longrightarrow> triple P (io_throw e) Q E"
  by (simp add: triple_def)

lemma triple_if:
  "(b \<Longrightarrow> triple P m Q E) \<Longrightarrow> (\<not> b \<Longrightarrow> triple P k Q E) \<Longrightarrow> triple P (if b then m else k) Q E"
  by simp

lemma triple_case_option:
  "(x = None \<Longrightarrow> triple P m Q E) \<Longrightarrow> (\<And>y. x = Some y \<Longrightarrow> triple P (k y) Q E) \<Longrightarrow>
    triple P (case x of None \<Rightarrow> m | Some y \<Rightarrow> k y) Q E"
  by (cases x) simp_all

lemma triple_for_prefix:
  "(\<And>ys x zs. xs = ys @ x # zs \<Longrightarrow> triple (I ys) (f x) (\<lambda>_. I (ys @ [x])) E) \<Longrightarrow>
    triple (I []) (io_for xs f) (\<lambda>_. I xs) E"
proof (induction xs arbitrary: I)
  case Nil
  show ?case unfolding io_for.simps by (rule triple_return)
next
  case (Cons x xs)
  have "triple (I []) (f x) (\<lambda>_. I [x]) E" using Cons.prems [of "[]" x xs] by simp
  moreover have "triple (I [x]) (io_for xs f) (\<lambda>_. I (x # xs)) E"
  proof (rule Cons.IH [of "\<lambda>ys. I (x # ys)"])
    fix ys y zs
    assume "xs = ys @ y # zs"
    then show "triple (I (x # ys)) (f y) (\<lambda>_. I (x # ys @ [y])) E" using Cons.prems [of "x # ys" y zs] by simp
  qed
  ultimately show ?case by (simp add: triple_then)
qed

lemma triple_for: "(\<And>x. x \<in> set xs \<Longrightarrow> triple I (f x) (\<lambda>_. I) E) \<Longrightarrow> triple I (io_for xs f) (\<lambda>_. I) E"
  by (rule triple_for_prefix [of xs "\<lambda>_. I"]) auto

text \<open>A computation that leaves a view alone keeps what is known of the view.\<close>

lemma triple_frames: "frames v m \<Longrightarrow> triple (\<lambda>w. P (v w)) m (\<lambda>_ w. P (v w)) (\<lambda>w. P (v w))"
  by (rule tripleI) (auto split: prod.splits sum.splits dest: frames_step [of v m])

lemma triple_framesE: "frames v m \<Longrightarrow> (\<And>w. P (v w) \<Longrightarrow> E w) \<Longrightarrow> triple (\<lambda>w. P (v w)) m (\<lambda>_ w. P (v w)) E"
  by (rule triple_conseq [OF triple_frames [of v m P]]) auto

lemma triple_conj:
  assumes "triple P m Q E" and "triple P' m Q' E'"
  shows "triple (\<lambda>w. P w \<and> P' w) m (\<lambda>x w. Q x w \<and> Q' x w) (\<lambda>w. E w \<and> E' w)"
  using assms unfolding triple_def by (fastforce split: prod.splits sum.splits)

section \<open>Methods\<close>

lemma triple_outside:
  assumes "\<And>self. triple (\<lambda>w. P (self, w)) m (\<lambda>x w. Q x (self, w)) (\<lambda>w. E (self, w))"
  shows "triple P (outside m) Q E"
proof (rule tripleI)
  fix s
  assume "P s"
  moreover obtain self w where "s = (self, w)" by (cases s)
  ultimately show "case outside m s of (Inl e, w') \<Rightarrow> E w' | (Inr x, w') \<Rightarrow> Q x w'"
    using tripleD [OF assms [of self], of w] by (auto simp: outside_def split: prod.splits sum.splits)
qed

lemma triple_methodI:
  assumes "\<And>self w. P self w \<Longrightarrow>
    (case m (self, w) of (Inl e, (self', w')) \<Rightarrow> E self' w' | (Inr x, (self', w')) \<Rightarrow> Q x self' w')"
  shows "triple (\<lambda>(self, w). P self w) m (\<lambda>x (self, w). Q x self w) (\<lambda>(self, w). E self w)"
proof (rule tripleI)
  fix s
  assume "case s of (self, w) \<Rightarrow> P self w"
  moreover obtain self w where "s = (self, w)" by (cases s)
  ultimately show "case m s of (Inl e, s') \<Rightarrow> (case s' of (self, w) \<Rightarrow> E self w)
      | (Inr x, s') \<Rightarrow> (case s' of (self, w) \<Rightarrow> Q x self w)"
    using assms [of self w] by (auto split: prod.splits sum.splits)
qed

lemma triple_outside_self:
  assumes "triple P m Q E"
  shows "triple (\<lambda>(self, w). S self \<and> P w) (outside m) (\<lambda>x (self, w). S self \<and> Q x w) (\<lambda>(self, w). S self \<and> E w)"
  by (rule triple_outside, rule tripleI)
    (auto split: prod.splits sum.splits dest: triple_Inl [OF assms] triple_Inr [OF assms])

lemma triple_field: "(\<And>self w. P (self, w) \<Longrightarrow> Q (f self) (self, w)) \<Longrightarrow> triple P (field f) Q E"
  by (auto simp: triple_def field_def split: prod.splits)

lemma triple_assign: "(\<And>self w. P (self, w) \<Longrightarrow> Q () (f self, w)) \<Longrightarrow> triple P (assign f) Q E"
  by (auto simp: triple_def assign_def split: prod.splits)

lemma triple_with_new:
  assumes "triple P m (\<lambda>x (self, w). Q x w) (\<lambda>(self, w). E w)"
  shows "triple (\<lambda>w. P (self, w)) (with_new self m) Q E"
proof (rule tripleI)
  fix w
  assume "P (self, w)"
  from tripleD [OF assms this]
  show "case with_new self m w of (Inl e, w') \<Rightarrow> E w' | (Inr x, w') \<Rightarrow> Q x w'"
    by (auto simp: with_new_def split: prod.splits sum.splits)
qed

section \<open>Rows rewritten\<close>

text \<open>\<open>related P rs rs'\<close>: \<open>rs'\<close> has, for every row of \<open>rs\<close>, one related to it, and no others.\<close>

definition related :: "('r \<Rightarrow> 'r \<Rightarrow> bool) \<Rightarrow> 'r list \<Rightarrow> 'r list \<Rightarrow> bool" where
  "related P rs rs' \<longleftrightarrow> (\<exists>f. mset rs' = image_mset f (mset rs) \<and> (\<forall>r\<in>set rs. P r (f r)))"

lemma related_refl: "(\<And>r. r \<in> set rs \<Longrightarrow> P r r) \<Longrightarrow> related P rs rs"
  unfolding related_def by (rule exI [of _ "\<lambda>r. r"]) simp

lemma related_map:
  assumes "related P rs rs1" and "mset rs2 = mset (map g rs1)"
    and "\<And>r r1. r \<in> set rs \<Longrightarrow> r1 \<in> set rs1 \<Longrightarrow> P r r1 \<Longrightarrow> Q r (g r1)"
  shows "related Q rs rs2"
proof -
  obtain f where f: "mset rs1 = image_mset f (mset rs)" "\<forall>r\<in>set rs. P r (f r)"
    using assms(1) unfolding related_def by blast
  have "set rs1 = f ` set rs" using f(1) by (metis set_image_mset set_mset_mset)
  then have "Q r ((g \<circ> f) r)" if "r \<in> set rs" for r using that f(2) assms(3) by simp
  moreover have "mset rs2 = image_mset (g \<circ> f) (mset rs)"
    using assms(2) f(1) by (simp add: image_mset.compositionality)
  ultimately show ?thesis unfolding related_def by blast
qed

lemma related_mono:
  "related P rs rs1 \<Longrightarrow> (\<And>r r1. r \<in> set rs \<Longrightarrow> r1 \<in> set rs1 \<Longrightarrow> P r r1 \<Longrightarrow> Q r r1) \<Longrightarrow> related Q rs rs1"
  by (rule related_map [of P rs rs1 rs1 "\<lambda>r. r"]) simp_all

lemma related_length: "related P rs rs' \<Longrightarrow> length rs' = length rs"
  unfolding related_def by (metis size_image_mset size_mset)

end
