(* ===== verification/Export.thy ===== *)
theory Export
  imports Sftp Reports Triples
begin

text \<open>
  The export of rebates (\<open>app/exports\<close>): the CSV and zip files, and the object \<open>RebateExport\<close> with its
  fields.  A getter of a file name reads the clock every time it is read, so the names of one run are
  the same only while the day is.
\<close>

section \<open>The files\<close>

definition CSVGenerator_perform :: "ext \<Rightarrow> IRebateExport list \<Rightarrow> string \<Rightarrow> unit action" where
  "CSVGenerator_perform L fileContents filePath =
     io_then
       (io_try (request (\<lambda>n. jsonexport L n fileContents))
         (\<lambda>err. io_throw (JsError (''[RM] - Error generating CSV... '' @ exn_text err))))
       (\<lambda>w. case csv_write L (calls w) filePath of
           Inl e \<Rightarrow> (Inl e, tick w)
         | Inr _ \<Rightarrow> (Inr (), (tick w)\<lparr>store := (store w)
             \<lparr>local_csv := (local_csv (store w))(filePath \<mapsto> fileContents)\<rparr>\<rparr>))"

definition ZipGenerator_perform :: "ext \<Rightarrow> string \<Rightarrow> string \<Rightarrow> unit action" where
  "ZipGenerator_perform L sourceFilePath targetFilePath =
     io_try
       (\<lambda>w. case zip_write L (calls w) targetFilePath (local_csv (store w) sourceFilePath) of
           Inl e \<Rightarrow> (Inl e, tick w)
         | Inr content \<Rightarrow> (Inr (), (tick w)\<lparr>store := (store w)
             \<lparr>local_zip := (local_zip (store w))(targetFilePath \<mapsto> content)\<rparr>\<rparr>))
       (\<lambda>err. io_throw (JsError (''[RM] - Error generating Zip... '' @ exn_text err)))"

section \<open>The object\<close>

record RebateExport =
  remoteFileZipPath :: string
  cachedRebates :: "IRebateExport list option"
  exportDetails :: "ITransferDetails option"
  uploadedToSFTP :: bool

definition new_RebateExport :: "string \<Rightarrow> RebateExport" where
  "new_RebateExport path =
     \<lparr>remoteFileZipPath = path, cachedRebates = None, exportDetails = None, uploadedToSFTP = False\<rparr>"

definition timestampForFile :: "ext \<Rightarrow> string action" where
  "timestampForFile L = io_bind (now L) (\<lambda>t. io_return (format_date L ''YYYY-MM-DD'' t))"

definition stamped :: "string \<Rightarrow> string \<Rightarrow> string" where
  "stamped filePath timestamp =
     (let fileName = basename filePath;
          fileNameWithTimestamp = file_name fileName @ ''-'' @ timestamp @ file_ext fileName
      in replace_first filePath fileName fileNameWithTimestamp)"

definition remoteFilePathWithTimestamp :: "ext \<Rightarrow> (RebateExport, string) object_action" where
  "remoteFilePathWithTimestamp L =
     io_bind (field remoteFileZipPath)
       (\<lambda>filePath. io_bind (outside (timestampForFile L)) (\<lambda>t. io_return (stamped filePath t)))"

definition sourceFileName :: "ext \<Rightarrow> (RebateExport, string) object_action" where
  "sourceFileName L = io_bind (remoteFilePathWithTimestamp L) (\<lambda>p. io_return (file_name p))"

definition sourceFileCSVPath :: "ext \<Rightarrow> (RebateExport, string) object_action" where
  "sourceFileCSVPath L =
     io_bind (sourceFileName L) (\<lambda>n. io_return (path_join (tmpdir L) (n @ ''.csv'')))"

definition sourceFileZipPath :: "ext \<Rightarrow> (RebateExport, string) object_action" where
  "sourceFileZipPath L =
     io_bind (sourceFileName L) (\<lambda>n. io_return (path_join (tmpdir L) (n @ ''.zip'')))"

section \<open>The steps\<close>

definition rebatesToExport :: "ext \<Rightarrow> (RebateExport, IRebateExport list) object_action" where
  "rebatesToExport L =
     io_bind (field cachedRebates)
       (\<lambda>cached. case cached of
            Some lines \<Rightarrow> io_return lines
          | None \<Rightarrow>
              io_bind (outside (rebatesPendingExportStart L))
                (\<lambda>lines. io_then (assign (\<lambda>self. self\<lparr>cachedRebates := Some lines\<rparr>)) (io_return lines)))"

text \<open>The field is set when a step below reads it.\<close>

definition cached_rebates :: "(RebateExport, IRebateExport list) object_action" where
  "cached_rebates =
     io_bind (field cachedRebates)
       (\<lambda>cached. case cached of None \<Rightarrow> io_throw TypeError | Some lines \<Rightarrow> io_return lines)"

definition generateCSV :: "ext \<Rightarrow> (RebateExport, unit) object_action" where
  "generateCSV L =
     io_bind cached_rebates (\<lambda>lines.
     io_bind (sourceFileCSVPath L) (\<lambda>path.
     outside (CSVGenerator_perform L lines path)))"

definition generateZip :: "ext \<Rightarrow> (RebateExport, unit) object_action" where
  "generateZip L =
     io_bind (sourceFileCSVPath L) (\<lambda>source.
     io_bind (sourceFileZipPath L) (\<lambda>target.
     outside (ZipGenerator_perform L source target)))"

definition uploadToSFTP :: "ext \<Rightarrow> (RebateExport, unit) object_action" where
  "uploadToSFTP L =
     io_bind (sourceFileZipPath L) (\<lambda>source.
     io_bind (remoteFilePathWithTimestamp L) (\<lambda>target.
     io_then (outside (SFTPUploader_perform L source target))
       (assign (\<lambda>self. self\<lparr>uploadedToSFTP := True\<rparr>))))"

definition createJournalRecords :: "ext \<Rightarrow> (RebateExport, unit) object_action" where
  "createJournalRecords L =
     io_bind (outside (getRebatesPendingExport L))
       (\<lambda>rebatesToWrite. outside (io_for rebatesToWrite
          (\<lambda>rebate. io_then
             (UnfulfilledRebateReportCreate_perform L (rebate\<lparr>rb_status := PendingFulfillment\<rparr>))
             (RebateJournalReportCreate_perform L (rebate\<lparr>rb_status := PendingFulfillment\<rparr>)))))"

definition updateExportedRebates :: "ext \<Rightarrow> (RebateExport, string list) object_action" where
  "updateExportedRebates L = outside (rebatesPendingExportEnd L)"

definition publishRebates :: "ext \<Rightarrow> string list \<Rightarrow> (RebateExport, unit) object_action" where
  "publishRebates L ids =
     outside
       (io_then (request (kafka_connect L))
         (io_for ids
           (\<lambda>rebateId. io_try
              (io_bind (findOrFail RebateRepository L rebateId) (Producer_dispatch L))
              (\<lambda>e. io_return ()))))"

definition getTotal :: "(RebateExport, nat) object_action" where
  "getTotal = io_bind cached_rebates (\<lambda>lines. io_return (length lines))"

definition recordExportStart :: "ext \<Rightarrow> (RebateExport, unit) object_action" where
  "recordExportStart L =
     io_bind (outside (now L)) (\<lambda>startTime.
     io_bind getTotal (\<lambda>n.
     io_bind (outside (insert ExportDetailsRepository L
         \<lparr>td_id = None, td_startedAt = startTime, td_finishedAt = None, td_status = InProgress,
          td_numberOfItems = Some n\<rparr>)) (\<lambda>details.
     assign (\<lambda>self. self\<lparr>exportDetails := Some details\<rparr>))))"

definition recordExportEnd :: "ext \<Rightarrow> TransferStatus \<Rightarrow> (RebateExport, unit) object_action" where
  "recordExportEnd L result =
     io_bind (outside (now L)) (\<lambda>endTime.
     io_bind (field uploadedToSFTP) (\<lambda>sent.
     io_then (if result = Failed \<and> \<not> sent then outside (resetRebatesOnError L) else io_return ())
     (io_bind (field exportDetails) (\<lambda>details. case details of
          None \<Rightarrow> io_throw TypeError
        | Some x \<Rightarrow> outside (update ExportDetailsRepository L (id_text (td_id x))
             [FinishedAt endTime, TransferStatusOf result])))))"

definition export_steps :: "ext \<Rightarrow> (RebateExport, unit) object_action" where
  "export_steps L =
     io_then (recordExportStart L)
     (io_then (generateCSV L)
     (io_then (generateZip L)
     (io_then (uploadToSFTP L)
     (io_then (createJournalRecords L)
     (io_bind (updateExportedRebates L) (\<lambda>updatedRebateIds.
     io_then (publishRebates L updatedRebateIds)
     (recordExportEnd L Complete)))))))"

definition perform_export :: "ext \<Rightarrow> (RebateExport, unit) object_action" where
  "perform_export L =
     io_try
       (io_bind (rebatesToExport L)
         (\<lambda>lines. if 0 < length lines then export_steps L else io_return ()))
       (\<lambda>err. io_then (recordExportEnd L Failed)
          (io_throw (JsError (''[RM] - Error during export... '' @ exn_text err))))"

definition RebateExport_perform :: "ext \<Rightarrow> string \<Rightarrow> RebateExport action" where
  "RebateExport_perform L path =
     with_new (new_RebateExport path) (io_then (perform_export L) (field (\<lambda>self. self)))"

section \<open>The file names of a day\<close>

text \<open>All the times the clock shows are of one day.\<close>

definition one_day :: "ext \<Rightarrow> string \<Rightarrow> bool" where
  "one_day L day \<longleftrightarrow> (\<forall>n. format_date L ''YYYY-MM-DD'' (clock L n) = day)"

definition csv_path :: "ext \<Rightarrow> string \<Rightarrow> string \<Rightarrow> string" where
  "csv_path L path day = path_join (tmpdir L) (file_name (stamped path day) @ ''.csv'')"

definition zip_path :: "ext \<Rightarrow> string \<Rightarrow> string \<Rightarrow> string" where
  "zip_path L path day = path_join (tmpdir L) (file_name (stamped path day) @ ''.zip'')"

lemmas file_name_defs =
  timestampForFile_def remoteFilePathWithTimestamp_def sourceFileName_def sourceFileCSVPath_def
  sourceFileZipPath_def

lemma file_names:
  assumes "one_day L day"
  shows "remoteFilePathWithTimestamp L (self, w) = (Inr (stamped (remoteFileZipPath self) day), (self, tick w))"
    and "sourceFileCSVPath L (self, w) = (Inr (csv_path L (remoteFileZipPath self) day), (self, tick w))"
    and "sourceFileZipPath L (self, w) = (Inr (zip_path L (remoteFileZipPath self) day), (self, tick w))"
  using assms
  by (simp_all add: one_day_def file_name_defs io_simps csv_path_def zip_path_def)

end
