(* ===== verification/Promises.thy ===== *)
theory Promises
  imports Repository
begin

text \<open>
  \<open>Promise.all\<close> over jobs that run side by side.  A job is a computation that stops at each \<open>await\<close>; a
  schedule, a list of numbers of jobs, says which job goes on next, so a theorem for all schedules holds for
  every order in which the answers may come.
\<close>

datatype ('w, 'a) job = Settled "exn + 'a" | Await "'w \<Rightarrow> ('w, 'a) job \<times> 'w"

definition await :: "('w, 'b) io \<Rightarrow> ('b \<Rightarrow> ('w, 'a) job) \<Rightarrow> ('w, 'a) job" where
  "await m k = Await (\<lambda>w. case m w of (Inl e, w') \<Rightarrow> (Settled (Inl e), w') | (Inr x, w') \<Rightarrow> (k x, w'))"

fun advance :: "('w, 'a) job \<Rightarrow> 'w \<Rightarrow> ('w, 'a) job \<times> 'w" where
  "advance (Settled r) w = (Settled r, w)"
| "advance (Await f) w = f w"

text \<open>A job run to its end.\<close>

primrec complete :: "('w, 'a) job \<Rightarrow> ('w, 'a) io" where
  "complete (Settled r) = (\<lambda>w. (r, w))"
| "complete (Await f) = (\<lambda>w. let p = (map_prod complete id \<circ> f) w in fst p (snd p))"

text \<open>The first rejection is the one that counts; jobs that are still running go on.\<close>

fun rejection :: "exn option \<Rightarrow> ('w, 'a) job \<Rightarrow> exn option" where
  "rejection (Some e) j = Some e"
| "rejection None (Settled (Inl e)) = Some e"
| "rejection None j = None"

fun run_schedule ::
  "nat list \<Rightarrow> exn option \<Rightarrow> ('w, 'a) job list \<Rightarrow> 'w \<Rightarrow> exn option \<times> ('w, 'a) job list \<times> 'w" where
  "run_schedule [] e js w = (e, js, w)"
| "run_schedule (i # is) e js w =
     (if i < length js
      then case advance (js ! i) w of (j, w') \<Rightarrow> run_schedule is (rejection e j) (js[i := j]) w'
      else run_schedule is e js w)"

text \<open>
  When the schedule ends without a rejection, the jobs left are run in order.  After a rejection the
  promise is rejected, and what the schedule still lets run is all that runs.
\<close>

definition promise_all :: "nat list \<Rightarrow> ('w, 'a) job list \<Rightarrow> ('w, 'a list) io" where
  "promise_all schedule jobs =
     (\<lambda>w. case run_schedule schedule None jobs w of
        (Some e, _, w') \<Rightarrow> (Inl e, w')
      | (None, js, w') \<Rightarrow> io_map complete js w')"

lemma complete_Await: "complete (Await f) w = (case f w of (j, w') \<Rightarrow> complete j w')"
  by (simp add: case_prod_unfold)

section \<open>An invariant of the jobs and the state\<close>

text \<open>Every step of a job keeps \<open>I\<close>, and under \<open>I\<close> no job has failed: then the promise is fulfilled.\<close>

locale job_invariant =
  fixes I :: "('w, 'a) job list \<Rightarrow> 'w \<Rightarrow> bool"
  assumes step: "I js w \<Longrightarrow> i < length js \<Longrightarrow> js ! i = Await f \<Longrightarrow> f w = (j, w') \<Longrightarrow> I (js[i := j]) w'"
    and unfailed: "I js w \<Longrightarrow> Settled r \<in> set js \<Longrightarrow> \<exists>x. r = Inr x"
begin

lemma advance_inv:
  assumes "I js w" and "i < length js" and "advance (js ! i) w = (j, w')"
  shows "I (js[i := j]) w'" and "rejection None j = None"
proof -
  show 1: "I (js[i := j]) w'"
  proof (cases "js ! i")
    case (Settled r)
    with assms(1,3) show ?thesis by (simp add: list_update_same_conv [THEN iffD2, OF assms(2)])
  next
    case (Await f)
    with assms step [OF assms(1,2) Await] show ?thesis by simp
  qed
  show "rejection None j = None"
  proof (cases j)
    case (Settled r)
    then have "Settled r \<in> set (js[i := j])" using set_update_memI [OF assms(2), of j] by simp
    from unfailed [OF 1 this] Settled show ?thesis by auto
  qed simp
qed

lemma run_schedule_inv:
  "I js w \<Longrightarrow> \<exists>js' w'. run_schedule schedule None js w = (None, js', w') \<and> I js' w'"
proof (induction schedule arbitrary: js w)
  case Nil
  then show ?case by simp
next
  case (Cons i "is")
  show ?case
  proof (cases "i < length js")
    case False
    with Cons show ?thesis by simp
  next
    case True
    obtain j w1 where a: "advance (js ! i) w = (j, w1)" by fastforce
    from advance_inv [OF Cons.prems True a] True a Cons.IH show ?thesis by simp
  qed
qed

lemma complete_inv:
  "I js w \<Longrightarrow> i < length js \<Longrightarrow> js ! i = j \<Longrightarrow>
    \<exists>x w'. complete j w = (Inr x, w') \<and> I (js[i := Settled (Inr x)]) w'"
proof (induction j arbitrary: js w)
  case (Settled r)
  then have "Settled r \<in> set js" by (metis nth_mem)
  with unfailed [OF Settled.prems(1)] obtain x where "r = Inr x" by auto
  with Settled show ?case by (simp add: list_update_same_conv [THEN iffD2, OF Settled.prems(2)])
next
  case (Await f)
  obtain j w1 where f: "f w = (j, w1)" by fastforce
  have I1: "I (js[i := j]) w1" by (rule step [OF Await.prems f])
  have "f w \<in> range f" and "j \<in> Basic_BNFs.fsts (f w)" by (rule rangeI) (simp add: f)
  from Await.IH [OF this I1] Await.prems(2)
  have "\<exists>x w'. complete j w1 = (Inr x, w') \<and> I (js[i := Settled (Inr x)]) w'" by simp
  with f show ?case by (simp add: complete_Await del: complete.simps)
qed

lemma complete_all_inv:
  "I js w \<Longrightarrow> js = ds @ ks \<Longrightarrow>
    \<exists>xs w'. io_map complete ks w = (Inr xs, w') \<and> I (ds @ map (Settled \<circ> Inr) xs) w'"
proof (induction ks arbitrary: js ds w)
  case Nil
  then show ?case by simp
next
  case (Cons k ks)
  have "length ds < length js" and "js ! length ds = k" using Cons.prems(2) by simp_all
  from complete_inv [OF Cons.prems(1) this] obtain x w1 where
    x: "complete k w = (Inr x, w1)" and I1: "I (js[length ds := Settled (Inr x)]) w1" by auto
  have "js[length ds := Settled (Inr x)] = (ds @ [Settled (Inr x)]) @ ks" using Cons.prems(2) by simp
  from Cons.IH [OF I1 this] obtain xs w2 where "io_map complete ks w1 = (Inr xs, w2)"
    and "I ((ds @ [Settled (Inr x)]) @ map (Settled \<circ> Inr) xs) w2" by blast
  with x show ?case by (intro exI [of _ "x # xs"]) (simp add: io_bind_apply comp_def)
qed

lemma promise_all_fulfilled:
  assumes "I jobs w"
  obtains xs w' where "promise_all schedule jobs w = (Inr xs, w')" and "I (map (Settled \<circ> Inr) xs) w'"
proof -
  obtain js w1 where r: "run_schedule schedule None jobs w = (None, js, w1)" and I1: "I js w1"
    using run_schedule_inv [OF assms] by blast
  from complete_all_inv [OF I1, of "[]"] obtain xs w' where
    "io_map complete js w1 = (Inr xs, w')" and "I (map (Settled \<circ> Inr) xs) w'" by auto
  with r that show thesis by (simp add: promise_all_def)
qed

end

section \<open>Jobs that are lists of steps\<close>

fun in_turn :: "('w, unit) io list \<Rightarrow> ('w, unit) job" where
  "in_turn [] = Settled (Inr ())"
| "in_turn (m # ms) = await m (\<lambda>_. in_turn ms)"

lemma in_turn_drop:
  "in_turn (drop k ms) =
     (if k < length ms then await (ms ! k) (\<lambda>_. in_turn (drop (Suc k) ms)) else Settled (Inr ()))"
  by (simp flip: Cons_nth_drop_Suc)

text \<open>\<open>J st w\<close>: the state when job \<open>i\<close> has done \<open>st i\<close> of its steps.\<close>

definition turns :: "(nat \<Rightarrow> nat) \<Rightarrow> (nat \<Rightarrow> ('w, unit) io list) \<Rightarrow> nat \<Rightarrow> ('w, unit) job list" where
  "turns st steps n = map (\<lambda>i. in_turn (drop (st i) (steps i))) [0..<n]"

locale step_invariant =
  fixes J :: "(nat \<Rightarrow> nat) \<Rightarrow> 'w \<Rightarrow> bool" and steps :: "nat \<Rightarrow> ('w, unit) io list" and n :: nat
  assumes step: "J st w \<Longrightarrow> i < n \<Longrightarrow> st i < length (steps i) \<Longrightarrow>
    \<exists>w'. (steps i ! st i) w = (Inr (), w') \<and> J (st(i := Suc (st i))) w'"

sublocale step_invariant \<subseteq> jobs: job_invariant
  "\<lambda>js w. \<exists>st. J st w \<and> (\<forall>i<n. st i \<le> length (steps i)) \<and> js = turns st steps n"
proof unfold_locales
  let ?I = "\<lambda>js w. \<exists>st. J st w \<and> (\<forall>i<n. st i \<le> length (steps i)) \<and> js = turns st steps n"
  show "?I (js[i := j]) w'"
    if I: "?I js w" and i: "i < length js" and a: "js ! i = Await f" and f: "f w = (j, w')" for js w i f j w'
  proof -
    from I obtain st where J: "J st w" and st: "\<forall>i<n. st i \<le> length (steps i)" and js: "js = turns st steps n"
      by blast
    have n: "i < n" using i js by (simp add: turns_def)
    have e: "Await f = in_turn (drop (st i) (steps i))" using a n js by (simp add: turns_def)
    then have k: "st i < length (steps i)" using in_turn_drop [of "st i" "steps i"] by (auto split: if_splits)
    from step [OF J n k] obtain w1 where m: "(steps i ! st i) w = (Inr (), w1)"
      and J1: "J (st(i := Suc (st i))) w1" by blast
    have "(j, w') = (in_turn (drop (Suc (st i)) (steps i)), w1)"
      using e f m k by (simp add: in_turn_drop [of "st i"] await_def)
    with J1 k st n js show "?I (js[i := j]) w'"
      by (intro exI [of _ "st(i := Suc (st i))"]) (auto simp: turns_def list_eq_iff_nth_eq nth_list_update)
  qed
  show "\<exists>x. r = Inr x" if "?I js w" and "Settled r \<in> set js" for js w r
    using that by (auto simp: turns_def in_turn_drop await_def split: if_splits)
qed

context step_invariant begin

lemma promise_all_steps:
  assumes "J (\<lambda>_. 0) w"
  shows "\<exists>xs w' st. promise_all schedule (map (\<lambda>i. in_turn (steps i)) [0..<n]) w = (Inr xs, w') \<and>
    J st w' \<and> (\<forall>i<n. st i = length (steps i))"
proof -
  have "turns (\<lambda>_. 0) steps n = map (\<lambda>i. in_turn (steps i)) [0..<n]" by (simp add: turns_def)
  with assms have "\<exists>st. J st w \<and> (\<forall>i<n. st i \<le> length (steps i)) \<and>
      map (\<lambda>i. in_turn (steps i)) [0..<n] = turns st steps n" by (intro exI [of _ "\<lambda>_. 0"]) simp
  from jobs.promise_all_fulfilled [OF this, of schedule] obtain xs w' where
    r: "promise_all schedule (map (\<lambda>i. in_turn (steps i)) [0..<n]) w = (Inr xs, w')"
    and I: "\<exists>st. J st w' \<and> (\<forall>i<n. st i \<le> length (steps i)) \<and> map (Settled \<circ> Inr) xs = turns st steps n" .
  from I obtain st where J: "J st w'" and st: "\<forall>i<n. st i \<le> length (steps i)"
    and js: "map (Settled \<circ> Inr) xs = turns st steps n" by (elim exE conjE)
  have "st i = length (steps i)" if "i < n" for i
  proof (rule ccontr)
    assume "st i \<noteq> length (steps i)"
    with st that have "st i < length (steps i)" by (simp add: le_neq_implies_less)
    moreover have "Settled (Inr (xs ! i)) = in_turn (drop (st i) (steps i))"
      using arg_cong [OF js, of "\<lambda>l. l ! i"] arg_cong [OF js, of length] that by (simp add: turns_def)
    ultimately show False by (simp add: in_turn_drop await_def)
  qed
  with r J show ?thesis by blast
qed

end

end
