(* ===== verification/Reliable.thy ===== *)
theory Reliable
  imports Repositories
begin

text \<open>
  What the operations of a table do when the database answers: each returns, and the new rows are known.
  The client of a table gets them from the interpretations of \<open>table\<close>.
\<close>

lemma find_reliable:
  assumes "orm_reads matches (orm_of R L)" and "reliable_orm v a (orm_of R L)" and "v i"
    and "q \<in> set (rows_of R (store w))" and "matches i q"
    and "\<And>r. r \<in> set (rows_of R (store w)) \<Longrightarrow> matches i r \<Longrightarrow> \<exists>x. deserialize_with R L r = Inr x"
  obtains r x where "find R L i w = (Inr (Some x), tick w)" and "r \<in> set (rows_of R (store w))"
    and "matches i r" and "deserialize_with R L r = Inr x"
proof -
  obtain a where a: "orm_findOne (orm_of R L) (calls w) i (rows_of R (store w)) = Inr a"
    using reliable_findOne [where i = i, OF assms(2,3)] by blast
  then obtain r where r: "a = Some r"
    using orm_findOne_None [OF assms(1)] assms(4,5) by (cases a) auto
  from orm_findOne_Some [OF assms(1) a [unfolded r]]
  have m: "r \<in> set (rows_of R (store w))" "matches i r" by blast+
  with assms(6) obtain x where "deserialize_with R L r = Inr x" by blast
  with m a r show thesis by (intro that [of x r]) (simp_all add: find_cases)
qed

lemma findAll_reliable:
  assumes "orm_reads matches (orm_of R L)" and "reliable_orm v a (orm_of R L)"
    and "\<And>r. r \<in> set (rows_of R (store w)) \<Longrightarrow> p r \<Longrightarrow> \<exists>x. deserialize_with R L r = Inr x"
  obtains rs xs where "findAll R L p w = (Inr xs, tick w)" and "mset rs = mset (filter p (rows_of R (store w)))"
    and "map (deserialize_with R L) rs = map Inr xs"
proof -
  obtain rs where q: "orm_find (orm_of R L) (calls w) p (rows_of R (store w)) = Inr rs"
    using reliable_find [OF assms(2)] by blast
  note m = orm_find_mset [OF assms(1) q]
  have "\<exists>x. deserialize_with R L r = Inr x" if "r \<in> set rs" for r
    using that assms(3) mset_eq_set [OF m] by simp
  then obtain xs where t: "traverse (deserialize_with R L) rs = Inr xs" using traverse_total by metis
  then have "map (deserialize_with R L) rs = map Inr xs" by (simp add: traverse_Inr)
  with m show thesis by (rule that [rotated]) (simp add: findAll_cases q t)
qed

context table begin

lemma insert_reliable:
  assumes "orm_saves_serial key with_key coerce (orm_of R L)" and "reliable_orm v a (orm_of R L)"
    and "a (serialize_with R x)"
    and "key (serialize_with R x) = None"
    and "\<And>k. \<exists>y. deserialize_with R L (with_key k (serialize_with R x)) = Inr y"
  obtains k y w' rs where "insert R L x w = (Inr y, w')" and "store w' = put_rows R rs (store w)"
    and "mset rs = add_mset (coerce (with_key k (serialize_with R x))) (mset (rows_of R (store w)))"
    and "\<forall>r\<in>set (rows_of R (store w)). key r \<noteq> Some k"
    and "deserialize_with R L (with_key k (serialize_with R x)) = Inr y"
proof -
  obtain r' rs where q: "orm_save (orm_of R L) (calls w) (serialize_with R x) (rows_of R (store w)) = Inr (r', rs)"
    using reliable_save [OF assms(2,3)] by blast
  from orm_save_serial [OF assms(1,4) q] obtain k where k: "r' = with_key k (serialize_with R x)"
    "\<forall>r\<in>set (rows_of R (store w)). key r \<noteq> Some k" "mset rs = add_mset (coerce r') (mset (rows_of R (store w)))"
    by blast
  obtain y where "deserialize_with R L r' = Inr y" using assms(5) k(1) by blast
  with q k show thesis
    by (intro that [of y "(tick w)\<lparr>store := put_rows R rs (store w)\<rparr>" rs k])
      (simp_all add: insert_def insertRecord_def execute_def io_simps)
qed

lemma update_reliable:
  assumes "orm_updates matches coerce (orm_of R L)" and "reliable_orm v a (orm_of R L)" and "v i"
  obtains w' rs where "update R L i ps w = (Inr (), w')" and "store w' = put_rows R rs (store w)"
    and "mset rs = mset (map (\<lambda>r. if matches i r then coerce (serializePartial R ps r) else r)
      (rows_of R (store w)))"
proof -
  obtain us rs where q: "orm_update_id (orm_of R L) (calls w) i (serializePartial R ps) (rows_of R (store w)) = Inr (us, rs)"
    using reliable_update_id [where i = i, OF assms(2,3)] by blast
  with orm_update_id_rows [OF assms(1) q] show thesis
    by (intro that [of "(tick w)\<lparr>store := put_rows R rs (store w)\<rparr>" rs])
      (simp_all add: update_def updateRecord_def execute_def io_simps)
qed

lemma updateWhere_reliable:
  assumes "orm_updates matches coerce (orm_of R L)" and "reliable_orm v a (orm_of R L)"
  obtains us w' rs where "updateWhere R L p ps w = (Inr us, w')" and "store w' = put_rows R rs (store w)"
    and "mset rs = mset (map (\<lambda>r. if p r then coerce (serializePartial R ps r) else r) (rows_of R (store w)))"
    and "mset us = mset (map (\<lambda>r. coerce (serializePartial R ps r)) (filter p (rows_of R (store w))))"
proof -
  obtain us rs where q: "orm_update (orm_of R L) (calls w) p (serializePartial R ps) (rows_of R (store w)) = Inr (us, rs)"
    using reliable_update [OF assms(2)] by blast
  with orm_update_rows [OF assms(1) q] orm_update_written [OF assms(1) q] show thesis
    by (intro that [of us "(tick w)\<lparr>store := put_rows R rs (store w)\<rparr>" rs])
      (simp_all add: updateWhere_def execute_def)
qed

end

end
