(* ===== verification/MopSync.thy ===== *)
theory MopSync
  imports Promises Reliable Triples FulfillmentRefinement
begin

text \<open>
  \<open>syncTotalsToMOP\<close> (\<open>app/database/repositories/offer_repository.ts\<close>): the count and the sum of the paid
  rebates of an offer that are not yet synced are added to the offer's running totals, and the rebates are
  marked as synced.  The jobs of the offers run side by side, in any order.
\<close>

section \<open>The operation\<close>

record totals =
  tt_count :: nat
  tt_sum :: string
  tt_rebateCriteriaId :: string

definition totals_job :: "ext \<Rightarrow> IRebateCriteria \<Rightarrow> (world, totals) job" where
  "totals_job L rebateCriteria =
     await (totalRedeemedCountForUpdate L (rc_id rebateCriteria)) (\<lambda>n.
       await (totalRedeemedSumForUpdate L (rc_id rebateCriteria)) (\<lambda>s.
         Settled (Inr \<lparr>tt_count = n, tt_sum = s, tt_rebateCriteriaId = rc_id rebateCriteria\<rparr>)))"

definition add_totals :: "ext \<Rightarrow> totals \<Rightarrow> OfferRecord \<Rightarrow> OfferRecord" where
  "add_totals L t r =
     r\<lparr>or_running_redemption_amount_v3__c :=
         Some (double_plus L (case or_running_redemption_amount_v3__c r of None \<Rightarrow> 0 | Some x \<Rightarrow> x)
                 (sql_numeric L (tt_sum t))),
       or_running_redemption_count__c :=
         Some ((case or_running_redemption_count__c r of None \<Rightarrow> 0 | Some k \<Rightarrow> k) + tt_count t)\<rparr>"

definition addTotals :: "ext \<Rightarrow> totals \<Rightarrow> unit action" where
  "addTotals L t =
     io_then
       (execute OfferRepository (\<lambda>n.
          orm_update (offers_orm L) n (\<lambda>r. or_offer_id__c r = tt_rebateCriteriaId t) (add_totals L t)))
       (io_return ())"

definition sync_steps :: "ext \<Rightarrow> totals \<Rightarrow> unit action list" where
  "sync_steps L t = [addTotals L t, setRebatesAsSynced L (tt_rebateCriteriaId t)]"

text \<open>The two schedules are the orders in which the jobs of the two \<open>Promise.all\<close> go on.\<close>

definition syncTotalsToMOP :: "ext \<Rightarrow> nat list \<Rightarrow> nat list \<Rightarrow> bool action" where
  "syncTotalsToMOP L schedule1 schedule2 =
     io_bind (findAll RebateCriteriaRepository L (\<lambda>_. True)) (\<lambda>rebateCriterias.
       io_bind (promise_all schedule1 (map (totals_job L) rebateCriterias)) (\<lambda>withTotals.
         io_then (promise_all schedule2 (map (\<lambda>t. in_turn (sync_steps L t)) withTotals)) (io_return True)))"

section \<open>What there is to add\<close>

definition unsynced :: "string \<Rightarrow> RebateRecord \<Rightarrow> bool" where
  "unsynced i r \<longleftrightarrow>
     rr_rebate_criteria_id r = i \<and> rr_status r = FulfilledTransSuccessful \<and> rr_last_mop_sync r = None"

definition new_count :: "db \<Rightarrow> string \<Rightarrow> nat" where
  "new_count d i = length (filter (unsynced i) (rebates d))"

definition new_sum :: "ext \<Rightarrow> db \<Rightarrow> string \<Rightarrow> rat" where
  "new_sum L d i = round_half_up 2 (sum_values L (fulfilled_amounts (filter (unsynced i) (rebates d))))"

text \<open>The offer with the totals of its rebates, as they are in \<open>d\<close>, added.\<close>

definition credit :: "ext \<Rightarrow> db \<Rightarrow> OfferRecord \<Rightarrow> OfferRecord" where
  "credit L d r =
     r\<lparr>or_running_redemption_amount_v3__c :=
         Some (double_plus L (case or_running_redemption_amount_v3__c r of None \<Rightarrow> 0 | Some x \<Rightarrow> x)
                 (new_sum L d (or_offer_id__c r))),
       or_running_redemption_count__c :=
         Some ((case or_running_redemption_count__c r of None \<Rightarrow> 0 | Some k \<Rightarrow> k) + new_count d (or_offer_id__c r))\<rparr>"

definition right_totals :: "ext \<Rightarrow> db \<Rightarrow> string \<Rightarrow> totals \<Rightarrow> bool" where
  "right_totals L d i t \<longleftrightarrow>
     tt_rebateCriteriaId t = i \<and> tt_count t = new_count d i \<and> sql_numeric L (tt_sum t) = new_sum L d i"

lemma add_right_totals:
  "right_totals L d (or_offer_id__c r) t \<Longrightarrow> add_totals L t r = credit L d r"
  by (simp add: add_totals_def credit_def right_totals_def)

section \<open>The first jobs: counts and sums\<close>

lemma count_for_update:
  assumes "ext_ok L" and "reliable L"
  shows "totalRedeemedCountForUpdate L i w = (Inr (new_count (store w) i), tick w)"
proof -
  obtain k where k: "orm_count (rebates_orm L) (calls w) (unsynced i) (rebates (store w)) = Inr k"
    using reliable_count [OF reliable_rebates [OF assms(2)]] by blast
  with orm_count_length [OF rebates_reads [OF assms(1)] k] show ?thesis
    by (simp add: totalRedeemedCountForUpdate_def count_apply RebateRepository_def new_count_def unsynced_def [abs_def])
qed

lemma sum_for_update:
  assumes "ext_ok L" and "reliable L"
  shows "\<exists>s. totalRedeemedSumForUpdate L i w = (Inr s, tick w) \<and> sql_numeric L s = new_sum L (store w) i"
proof -
  have p: "(\<lambda>r. rr_rebate_criteria_id r = i \<and> rr_last_mop_sync r = None \<and> rr_status r = FulfilledTransSuccessful) = unsynced i"
    by (auto simp: unsynced_def fun_eq_iff)
  obtain xs where q: "sql_sum L (calls w) (unsynced i) (rebates (store w)) = Inr xs"
    using assms(2) unfolding reliable_def by blast
  obtain c where xs: "xs = [c]"
    and none: "c = None \<longleftrightarrow> fulfilled_amounts (filter (unsynced i) (rebates (store w))) = []"
    and some: "\<And>t. c = Some t \<Longrightarrow> big_new L t = Inr (sum_values L (fulfilled_amounts (filter (unsynced i) (rebates (store w)))))"
    using ext_sql [OF assms(1)] q unfolding sql_laws_def by blast
  show ?thesis
  proof (cases c)
    case None
    with none have "new_sum L (store w) i = 0" using round_half_up_of_int [of 2 0] by (simp add: new_sum_def sum_values_def)
    with None q xs ext_sql [OF assms(1)] show ?thesis
      by (simp add: totalRedeemedSumForUpdate_def callRedeemedSum_def p io_simps RebateRepository_def sql_laws_def)
  next
    case (Some t)
    let ?x = "sum_values L (fulfilled_amounts (filter (unsynced i) (rebates (store w))))"
    have "is_decimal ?x" by (rule big_new_decimal [OF ext_big [OF assms(1)] some [OF Some]])
    then have "sql_numeric L (big_toFixed2 L ?x) = new_sum L (store w) i"
      using ext_sql [OF assms(1)] by (simp add: sql_laws_def new_sum_def)
    with Some q xs some [OF Some] show ?thesis
      by (simp add: totalRedeemedSumForUpdate_def callRedeemedSum_def p io_simps RebateRepository_def)
  qed
qed

definition gathering :: "ext \<Rightarrow> db \<Rightarrow> string \<Rightarrow> (world, totals) job \<Rightarrow> bool" where
  "gathering L d i j \<longleftrightarrow>
     (\<exists>c. rc_id c = i \<and> j = totals_job L c) \<or>
     j = await (totalRedeemedSumForUpdate L i)
           (\<lambda>s. Settled (Inr \<lparr>tt_count = new_count d i, tt_sum = s, tt_rebateCriteriaId = i\<rparr>)) \<or>
     (\<exists>t. right_totals L d i t \<and> j = Settled (Inr t))"

lemma gathering_step:
  assumes "ext_ok L" and "reliable L" and "gathering L d i (Await f)" and "store w = d" and "f w = (j, w')"
  shows "gathering L d i j \<and> store w' = d"
proof -
  from assms(3) consider c where "rc_id c = i" "Await f = totals_job L c"
    | "Await f = await (totalRedeemedSumForUpdate L i)
        (\<lambda>s. Settled (Inr \<lparr>tt_count = new_count d i, tt_sum = s, tt_rebateCriteriaId = i\<rparr>))"
    by (auto simp: gathering_def)
  then show ?thesis
  proof cases
    case 1
    with assms(4,5) count_for_update [OF assms(1,2), of i w] show ?thesis
      by (auto simp: totals_job_def await_def gathering_def)
  next
    case 2
    obtain s where "totalRedeemedSumForUpdate L i w = (Inr s, tick w)" "sql_numeric L s = new_sum L d i"
      using sum_for_update [OF assms(1,2), of i w] assms(4) by blast
    with 2 assms(4,5) show ?thesis by (auto simp: await_def gathering_def right_totals_def)
  qed
qed

definition gather_inv :: "ext \<Rightarrow> string list \<Rightarrow> db \<Rightarrow> (world, totals) job list \<Rightarrow> world \<Rightarrow> bool" where
  "gather_inv L is d js w \<longleftrightarrow> ext_ok L \<and> reliable L \<and> store w = d \<and> list_all2 (gathering L d) is js"

interpretation gathering: job_invariant "gather_inv L is d"
proof unfold_locales
  show "gather_inv L is d (js[i := j]) w'"
    if "gather_inv L is d js w" "i < length js" "js ! i = Await f" "f w = (j, w')" for js w i f j w'
    using that gathering_step [of L d "is ! i" f w j w']
    by (auto simp: gather_inv_def list_all2_conv_all_nth nth_list_update)
  show "\<exists>x. r = Inr x" if "gather_inv L is d js w" "Settled r \<in> set js" for js w r
    using that by (auto simp: gather_inv_def list_all2_conv_all_nth in_set_conv_nth gathering_def totals_job_def await_def)
      fastforce
qed

lemma gather_totals:
  assumes "ext_ok L" and "reliable L"
  obtains ts w' where "promise_all schedule (map (totals_job L) cs) w = (Inr ts, w')" and "store w' = store w"
    and "list_all2 (right_totals L (store w)) (map rc_id cs) ts"
proof -
  have "gather_inv L (map rc_id cs) (store w) (map (totals_job L) cs) w"
    using assms by (auto simp: gather_inv_def gathering_def list_all2_conv_all_nth)
  then obtain ts w' where "promise_all schedule (map (totals_job L) cs) w = (Inr ts, w')"
    and I: "gather_inv L (map rc_id cs) (store w) (map (Settled \<circ> Inr) ts) w'"
    by (rule gathering.promise_all_fulfilled)
  moreover from I have "list_all2 (right_totals L (store w)) (map rc_id cs) ts" and "store w' = store w"
    by (auto simp: gather_inv_def list_all2_conv_all_nth gathering_def totals_job_def await_def)
  ultimately show thesis by (intro that)
qed

section \<open>The second jobs: the updates\<close>

definition reached :: "totals list \<Rightarrow> (nat \<Rightarrow> nat) \<Rightarrow> nat \<Rightarrow> string set" where
  "reached ts st k = {tt_rebateCriteriaId (ts ! i) |i. i < length ts \<and> k \<le> st i}"

lemma reached_step:
  assumes "distinct (map tt_rebateCriteriaId ts)" and "i < length ts"
  shows "reached ts (st(i := Suc (st i))) k =
      (if k = Suc (st i) then Set.insert (tt_rebateCriteriaId (ts ! i)) (reached ts st k) else reached ts st k)"
    and "k = Suc (st i) \<Longrightarrow> tt_rebateCriteriaId (ts ! i) \<notin> reached ts st k"
  using assms by (fastforce simp: reached_def distinct_conv_nth split: if_splits)+

definition synced_row :: "ext \<Rightarrow> string set \<Rightarrow> RebateRecord \<Rightarrow> RebateRecord \<Rightarrow> bool" where
  "synced_row L S r r' \<longleftrightarrow>
     (if rr_status r = FulfilledTransSuccessful \<and> rr_rebate_criteria_id r \<in> S
      then \<exists>t. r' = rebate_columns L (r\<lparr>rr_last_mop_sync := Some t\<rparr>) else r' = r)"

definition synced_offer :: "ext \<Rightarrow> db \<Rightarrow> string set \<Rightarrow> OfferRecord \<Rightarrow> OfferRecord" where
  "synced_offer L d S r = (if or_offer_id__c r \<in> S then credit L d r else r)"

lemma synced_offer_none [simp]: "synced_offer L d {} = (\<lambda>r. r)"
  by (simp add: synced_offer_def fun_eq_iff)

text \<open>The totals of the offers in \<open>S\<close> are added, the rebates of those in \<open>T\<close> are marked, nothing else is changed.\<close>

definition synced :: "ext \<Rightarrow> string set \<Rightarrow> string set \<Rightarrow> db \<Rightarrow> db \<Rightarrow> bool" where
  "synced L S T d d' \<longleftrightarrow>
     mset (offers d') = mset (map (synced_offer L d S) (offers d)) \<and>
     related (synced_row L T) (rebates d) (rebates d') \<and>
     d'\<lparr>offers := offers d, rebates := rebates d\<rparr> = d"

lemma addTotals_reliable:
  assumes "ext_ok L" and "reliable L" and "right_totals L d (tt_rebateCriteriaId t) t"
    and "synced L S T d (store w)" and "tt_rebateCriteriaId t \<notin> S"
  obtains w' where "addTotals L t w = (Inr (), w')"
    and "synced L (Set.insert (tt_rebateCriteriaId t) S) T d (store w')"
proof -
  let ?i = "tt_rebateCriteriaId t"
  obtain us rs where q: "orm_update (offers_orm L) (calls w) (\<lambda>r. or_offer_id__c r = ?i) (add_totals L t) (offers (store w)) = Inr (us, rs)"
    using reliable_update [OF reliable_offers [OF assms(2)]] by blast
  have "add_totals L t r = credit L d r" if "or_offer_id__c r = ?i" for r
    using add_right_totals [of L d r t] assms(3) that by simp
  then have e: "(if or_offer_id__c (synced_offer L d S r) = ?i then add_totals L t (synced_offer L d S r)
      else synced_offer L d S r) = synced_offer L d (Set.insert ?i S) r" for r
    using assms(5) by (auto simp: synced_offer_def credit_def)
  have "mset rs = image_mset (\<lambda>r. if or_offer_id__c r = ?i then add_totals L t r else r) (mset (offers (store w)))"
    using orm_update_rows [OF offers_updates [OF assms(1)] q] by simp
  also have "\<dots> = mset (map (synced_offer L d (Set.insert ?i S)) (offers d))"
    using assms(4) unfolding synced_def by (simp only: mset_map image_mset.compositionality comp_def e)
  finally show thesis
    using q assms(4)
    by (intro that [of "(tick w)\<lparr>store := (store w)\<lparr>offers := rs\<rparr>\<rparr>"])
      (simp_all add: addTotals_def io_simps execute_def OfferRepository_def synced_def)
qed

lemma setSynced_reliable:
  assumes "ext_ok L" and "reliable L" and "synced L S T d (store w)" and "i \<notin> T"
  obtains w' where "setRebatesAsSynced L i w = (Inr (), w')" and "synced L S (Set.insert i T) d (store w')"
proof -
  let ?p = "\<lambda>r. rr_rebate_criteria_id r = i \<and> rr_status r = FulfilledTransSuccessful"
  let ?t = "clock L (calls w)"
  have upd: "orm_updates (serial_matches rr_id) (rebate_columns L) (orm_of RebateRepository L)"
    and rel: "reliable_orm (\<lambda>i. int_key i \<noteq> None) (\<lambda>_. True) (orm_of RebateRepository L)"
    using rebates_updates [OF assms(1)] reliable_rebates [OF assms(2)] by (simp_all add: RebateRepository_def)
  obtain us w' rs where u: "updateWhere RebateRepository L ?p [LastMopSync ?t] (tick w) = (Inr us, w')"
    "store w' = put_rows RebateRepository rs (store (tick w))"
    "mset rs = mset (map (\<lambda>r. if ?p r then rebate_columns L (serializePartial RebateRepository [LastMopSync ?t] r) else r)
      (rows_of RebateRepository (store (tick w))))"
    by (rule rebate_table.updateWhere_reliable [OF upd rel])
  have mark: "serializePartial RebateRepository [LastMopSync ?t] r = r\<lparr>rr_last_mop_sync := Some ?t\<rparr>" for r
    by (simp add: serializePartial_def RebateRepository_def)
  have row: "synced_row L (Set.insert i T) r (if ?p q then rebate_columns L (q\<lparr>rr_last_mop_sync := Some ?t\<rparr>) else q)"
    if "synced_row L T r q" for r q
  proof (cases "rr_status r = FulfilledTransSuccessful \<and> rr_rebate_criteria_id r \<in> T")
    case True
    with that obtain t where q: "q = rebate_columns L (r\<lparr>rr_last_mop_sync := Some t\<rparr>)" by (auto simp: synced_row_def)
    then have "rr_rebate_criteria_id q = rr_rebate_criteria_id r" by (simp add: rebate_columns_def)
    with True assms(4) have "rr_rebate_criteria_id q \<noteq> i" by auto
    with True q show ?thesis by (auto simp: synced_row_def)
  next
    case False
    with that have "q = r" by (simp add: synced_row_def)
    with False show ?thesis by (auto simp: synced_row_def)
  qed
  have "related (synced_row L T) (rebates d) (rebates (store w))" using assms(3) by (simp add: synced_def)
  moreover have "mset rs = mset (map (\<lambda>q. if ?p q then rebate_columns L (q\<lparr>rr_last_mop_sync := Some ?t\<rparr>) else q) (rebates (store w)))"
    using u(3) unfolding mark by (simp add: RebateRepository_def)
  ultimately have "related (synced_row L (Set.insert i T)) (rebates d) rs"
    by (rule related_map) (rule row)
  with u(1,2) assms(3) show thesis
    by (intro that [of w']) (simp_all add: setRebatesAsSynced_def io_simps RebateRepository_def synced_def)
qed

definition sync_inv :: "ext \<Rightarrow> totals list \<Rightarrow> db \<Rightarrow> (nat \<Rightarrow> nat) \<Rightarrow> world \<Rightarrow> bool" where
  "sync_inv L ts d st w \<longleftrightarrow>
     ext_ok L \<and> reliable L \<and> distinct (map tt_rebateCriteriaId ts) \<and>
     (\<forall>t\<in>set ts. right_totals L d (tt_rebateCriteriaId t) t) \<and>
     synced L (reached ts st 1) (reached ts st 2) d (store w)"

interpretation syncing: step_invariant "sync_inv L ts d" "\<lambda>i. sync_steps L (ts ! i)" "length ts"
proof unfold_locales
  fix st w i
  assume I: "sync_inv L ts d st w" and i: "i < length ts" and k: "st i < length (sync_steps L (ts ! i))"
  let ?t = "ts ! i"
  from I have ok: "ext_ok L" "reliable L" and dist: "distinct (map tt_rebateCriteriaId ts)"
    and s: "synced L (reached ts st 1) (reached ts st 2) d (store w)"
    by (simp_all add: sync_inv_def)
  have t: "right_totals L d (tt_rebateCriteriaId ?t) ?t" using I i by (simp add: sync_inv_def)
  note step = reached_step [OF dist i]
  from k have "st i = 0 \<or> st i = 1" by (auto simp: sync_steps_def)
  then show "\<exists>w'. (sync_steps L ?t ! st i) w = (Inr (), w') \<and> sync_inv L ts d (st(i := Suc (st i))) w'"
  proof
    assume 0: "st i = 0"
    obtain w' where "addTotals L ?t w = (Inr (), w')"
      and "synced L (Set.insert (tt_rebateCriteriaId ?t) (reached ts st 1)) (reached ts st 2) d (store w')"
      by (rule addTotals_reliable [OF ok t s]) (use step(2) [of 1] 0 in simp_all)
    with I step(1) [of st 1] step(1) [of st 2] 0 show ?thesis
      by (intro exI [of _ w']) (simp add: sync_inv_def sync_steps_def)
  next
    assume 1: "st i = 1"
    obtain w' where "setRebatesAsSynced L (tt_rebateCriteriaId ?t) w = (Inr (), w')"
      and "synced L (reached ts st 1) (Set.insert (tt_rebateCriteriaId ?t) (reached ts st 2)) d (store w')"
      by (rule setSynced_reliable [OF ok s, of "tt_rebateCriteriaId ?t"]) (use step(2) [of 2] 1 in simp_all)
    with I step(1) [of st 1] step(1) [of st 2] 1 show ?thesis
      by (intro exI [of _ w']) (simp add: sync_inv_def sync_steps_def numeral_2_eq_2)
  qed
qed

section \<open>A whole run\<close>

lemma sync_reliable:
  assumes "ext_ok L" and "reliable L" and "distinct (map cr_id (rebate_criteria (store w)))"
  obtains w' where "syncTotalsToMOP L schedule1 schedule2 w = (Inr True, w')"
    and "synced L (cr_id ` set (rebate_criteria (store w))) (cr_id ` set (rebate_criteria (store w))) (store w) (store w')"
proof -
  let ?R = RebateCriteriaRepository and ?ids = "cr_id ` set (rebate_criteria (store w))"
  obtain rs cs where f: "findAll ?R L (\<lambda>_. True) w = (Inr cs, tick w)"
    and rs: "mset rs = mset (rebate_criteria (store w))" and cs: "map (RebateCriteriaSerializer_deserialize L) rs = map Inr cs"
    by (rule findAll_reliable [where R = ?R and L = L and w = w and p = "\<lambda>_. True" and matches = "\<lambda>i r. cr_id r = i"
        and v = "\<lambda>_. True"])
      (use criteria_reads [OF assms(1)] reliable_criteria [OF assms(2)] in
        \<open>simp_all add: RebateCriteriaRepository_def RebateCriteriaSerializer_deserialize_def Let_def\<close>)
  have "map rc_id cs = map cr_id rs"
  proof -
    have "map (\<lambda>x. rc_id (projr x)) (map (RebateCriteriaSerializer_deserialize L) rs) = map cr_id rs"
      by (simp add: RebateCriteriaSerializer_deserialize_def Let_def comp_def)
    then show ?thesis unfolding cs by (simp add: comp_def)
  qed
  then have ids: "distinct (map rc_id cs)" and set: "set (map rc_id cs) = ?ids"
    using assms(3) rs mset_eq_set [OF rs] distinct_map_mset [OF rs, of cr_id] by simp_all
  obtain ts w1 where g: "promise_all schedule1 (map (totals_job L) cs) (tick w) = (Inr ts, w1)"
    and w1: "store w1 = store w" and ts: "list_all2 (right_totals L (store w)) (map rc_id cs) ts"
    using gather_totals [OF assms(1,2), of schedule1 cs "tick w"] by auto
  have tids: "map tt_rebateCriteriaId ts = map rc_id cs"
    using ts by (auto simp: list_all2_conv_all_nth list_eq_iff_nth_eq right_totals_def)
  have "right_totals L (store w) (tt_rebateCriteriaId t) t" if "t \<in> set ts" for t
    using that ts by (auto simp: list_all2_conv_all_nth in_set_conv_nth right_totals_def)
  moreover have "synced L {} {} (store w) (store w1)"
    by (auto simp: synced_def w1 synced_offer_def synced_row_def intro!: related_refl)
  ultimately have "sync_inv L ts (store w) (\<lambda>_. 0) w1"
    using assms(1,2) ids tids by (simp add: sync_inv_def reached_def)
  from syncing.promise_all_steps [OF this, of schedule2] obtain xs w2 st where
    p: "promise_all schedule2 (map (\<lambda>i. in_turn (sync_steps L (ts ! i))) [0..<length ts]) w1 = (Inr xs, w2)"
    and I: "sync_inv L ts (store w) st w2" and st: "\<forall>i<length ts. st i = length (sync_steps L (ts ! i))"
    by (elim exE conjE)
  have "map (\<lambda>i. in_turn (sync_steps L (ts ! i))) [0..<length ts] = map (\<lambda>t. in_turn (sync_steps L t)) ts"
    by (rule nth_equalityI) simp_all
  moreover have "reached ts st k = ?ids" if "k \<le> 2" for k
  proof -
    have "i < length ts \<and> k \<le> st i \<longleftrightarrow> i < length ts" for i
      using that st by (auto simp: sync_steps_def)
    then have "reached ts st k = {tt_rebateCriteriaId (ts ! i) |i. i < length ts}" unfolding reached_def by simp
    also have "\<dots> = set (map tt_rebateCriteriaId ts)" by (force simp: set_conv_nth image_iff)
    finally show ?thesis unfolding tids set .
  qed
  ultimately show thesis
    using f g p I by (intro that [of w2]) (simp_all add: syncTotalsToMOP_def io_simps sync_inv_def)
qed

lemma synced_counts:
  assumes "synced L S T d d'" and "i \<in> T"
  shows "filter (unsynced i) (rebates d') = []"
proof -
  obtain f where f: "mset (rebates d') = image_mset f (mset (rebates d))" "\<forall>r\<in>set (rebates d). synced_row L T r (f r)"
    using assms(1) unfolding synced_def related_def by blast
  have "\<not> unsynced i q" if "q \<in> set (rebates d')" for q
  proof -
    from that have "q \<in># mset (rebates d')" by simp
    then obtain r where "r \<in> set (rebates d)" "q = f r" unfolding f(1) by auto
    with f(2) have "synced_row L T r q" by blast
    with assms(2) show ?thesis by (auto simp: synced_row_def unsynced_def rebate_columns_def split: if_splits)
  qed
  then show ?thesis by (simp add: filter_empty_conv)
qed

lemma credited_offer:
  assumes "ext_ok L" and "new_count d' (or_offer_id__c r) = 0" and "new_sum L d' (or_offer_id__c r) = 0"
  shows "credit L d' (credit L d r) = credit L d r"
  using ext_sql [OF assms(1)] assms(2,3) by (simp add: credit_def sql_laws_def)

text \<open>
  C25.  When the requests are answered, in whatever order, a sync adds to the running totals of every offer
  the number and the sum of its paid rebates that were not synced, once; it marks those rebates and changes
  nothing else.  No rebate is left to count.
\<close>

theorem sync_adds_the_new_totals:
  assumes "ext_ok L" and "reliable L" and "distinct (map cr_id (rebate_criteria (store w)))"
  shows "\<exists>w'. syncTotalsToMOP L schedule1 schedule2 w = (Inr True, w') \<and>
    synced L (cr_id ` set (rebate_criteria (store w))) (cr_id ` set (rebate_criteria (store w))) (store w) (store w') \<and>
    (\<forall>c\<in>set (rebate_criteria (store w)). new_count (store w') (cr_id c) = 0)"
proof -
  obtain w' where "syncTotalsToMOP L schedule1 schedule2 w = (Inr True, w')"
    and s: "synced L (cr_id ` set (rebate_criteria (store w))) (cr_id ` set (rebate_criteria (store w))) (store w) (store w')"
    by (rule sync_reliable [OF assms])
  moreover have "new_count (store w') (cr_id c) = 0" if "c \<in> set (rebate_criteria (store w))" for c
    using synced_counts [OF s] that by (simp add: new_count_def)
  ultimately show ?thesis by blast
qed

definition mop_db :: db where
  "mop_db = sample_db
     \<lparr>rebates := [sample_pending_rebate\<lparr>rr_status := FulfilledTransSuccessful, rr_fulfilled_amount := Some ''5.00''\<rparr>],
      offers := [\<lparr>or_id = Num 1, or_offer_id__c = ''100'', or_isdeleted = False, or_name = ''Dining'',
        or_running_redemption_amount_v3__c = None, or_running_redemption_count__c = Some 3, or_sfid = ''a01''\<rparr>]\<rparr>"

definition mop_world :: world where
  "mop_world = \<lparr>calls = 0, store = mop_db\<rparr>"

lemma mop_criteria [simp]: "store mop_world = mop_db" "map cr_id (rebate_criteria mop_db) = [''100'']"
  by (simp_all add: mop_world_def mop_db_def sample_db_def RebateCriteriaSerializer_serialize_def sample_criteria_def)

lemma sync_adds_the_new_totals_witness:
  "new_count mop_db ''100'' = 1 \<and>
   (\<exists>w'. syncTotalsToMOP ref_ext [0, 0] [0] mop_world = (Inr True, w') \<and> new_count (store w') ''100'' = 0)"
proof -
  have "new_count mop_db ''100'' = 1"
    by (simp add: new_count_def unsynced_def mop_db_def sample_pending_rebate_def)
  moreover have "\<exists>c\<in>set (rebate_criteria mop_db). cr_id c = ''100''"
    using arg_cong [OF mop_criteria(2), of set] by (metis image_iff list.set_intros(1) list.set_map)
  ultimately show ?thesis
    using sync_adds_the_new_totals [OF ref_ext_ok ref_reliable, of mop_world "[0, 0]" "[0]"] by (metis distinct_singleton mop_criteria)
qed

text \<open>
  C26.  A second sync adds nothing: the offers are as after the first, since the rebates of the first are not
  counted again.
\<close>

theorem sync_again_adds_nothing:
  assumes "ext_ok L" and "reliable L" and "distinct (map cr_id (rebate_criteria (store w)))"
    and "syncTotalsToMOP L schedule1 schedule2 w = (res1, w1)" and "syncTotalsToMOP L schedule3 schedule4 w1 = (res2, w2)"
  shows "mset (offers (store w2)) = mset (offers (store w1))"
proof -
  let ?ids = "cr_id ` set (rebate_criteria (store w))"
  have s1: "synced L ?ids ?ids (store w) (store w1)"
    using sync_reliable [OF assms(1-3), of schedule1 schedule2] assms(4) by (metis prod.inject)
  have c: "rebate_criteria (store w1) = rebate_criteria (store w)"
    using arg_cong [of _ _ rebate_criteria, OF s1 [unfolded synced_def, THEN conjunct2, THEN conjunct2]] by simp
  have s2: "synced L ?ids ?ids (store w1) (store w2)"
    using sync_reliable [OF assms(1,2), of w1 schedule3 schedule4] assms(3,5) unfolding c by (metis prod.inject)
  have "synced_offer L (store w1) ?ids (synced_offer L (store w) ?ids r) = synced_offer L (store w) ?ids r" for r
  proof (cases "or_offer_id__c r \<in> ?ids")
    case True
    then have "filter (unsynced (or_offer_id__c r)) (rebates (store w1)) = []" by (rule synced_counts [OF s1])
    then have "new_count (store w1) (or_offer_id__c r) = 0" "new_sum L (store w1) (or_offer_id__c r) = 0"
      using round_half_up_of_int [of 2 0] by (simp_all add: new_count_def new_sum_def sum_values_def fulfilled_amounts_def)
    from credited_offer [OF assms(1) this] True show ?thesis by (simp add: synced_offer_def credit_def)
  next
    case False
    then show ?thesis by (simp add: synced_offer_def)
  qed
  with s1 s2 show ?thesis unfolding synced_def by (simp add: image_mset.compositionality comp_def)
qed

lemma sync_again_adds_nothing_witness:
  "mset (offers (store (state_of (syncTotalsToMOP ref_ext [] [])
      (state_of (syncTotalsToMOP ref_ext [0] []) mop_world)))) =
    mset (offers (store (state_of (syncTotalsToMOP ref_ext [0] []) mop_world)))"
proof -
  have "distinct (map cr_id (rebate_criteria (store mop_world)))" by simp
  from sync_again_adds_nothing [OF ref_ext_ok ref_reliable this prod.collapse [symmetric] prod.collapse [symmetric]]
  show ?thesis .
qed

end
