(* ===== verification/Scheduler.thy ===== *)
theory Scheduler
  imports Processing Export MopSync
begin

text \<open>
  The job runner (\<open>app/scheduler/job_runner.ts\<close>, \<open>config/boot.ts\<close>).  A process ends by \<open>process.exit\<close>, or
  its promise is rejected, or it goes on for ever: a process is a function to an optional ending, \<open>None\<close> for
  one that never ends.  What happens while the process waits is the field \<open>meanwhile\<close>: what the other processes do
  to the world, and whether the process is ended from outside, as the pool it belongs to does after a signal
  (\<open>forceKill\<close> of \<open>throng_fork.ts\<close>).
\<close>

datatype ending = Exit nat | Rejected exn

type_synonym 'a process = "world \<Rightarrow> ((ending + 'a) \<times> world) option"

definition proc_then :: "'a process \<Rightarrow> 'b process \<Rightarrow> 'b process" where
  "proc_then m k = (\<lambda>w. case m w of
     None \<Rightarrow> None | Some (Inl x, w') \<Rightarrow> Some (Inl x, w') | Some (Inr _, w') \<Rightarrow> k w')"

definition proc_return :: "'a \<Rightarrow> 'a process" where
  "proc_return x = (\<lambda>w. Some (Inr x, w))"

definition process_exit :: "nat \<Rightarrow> 'a process" where
  "process_exit n = (\<lambda>w. Some (Inl (Exit n), w))"

text \<open>An action whose error nothing catches, and one whose error ends the process.\<close>

definition proc_await :: "'a action \<Rightarrow> 'a process" where
  "proc_await m = (\<lambda>w. case m w of (r, w') \<Rightarrow> Some (map_sum Rejected id r, w'))"

definition proc_or_exit :: "'a action \<Rightarrow> 'a process" where
  "proc_or_exit m = (\<lambda>w. case m w of (r, w') \<Rightarrow> Some (map_sum (\<lambda>_. Exit 1) id r, w'))"

record scheduler =
  connections :: "nat \<Rightarrow> exn + unit"        \<comment> \<open>the engine check and the database connections\<close>
  meanwhile :: "nat \<Rightarrow> world \<Rightarrow> (ending + unit) \<times> world"
                                             \<comment> \<open>what happens during the wait of this number\<close>
  sync_order1 :: "nat list"                  \<comment> \<open>the orders in which the jobs of a sync go on\<close>
  sync_order2 :: "nat list"
  export_path :: string

record command_args =
  ca_type :: "string option"
  ca_id :: nat
  ca_workers :: "nat option"
  ca_workerProcesses :: bool                 \<comment> \<open>whether they are given\<close>

section \<open>The jobs\<close>

definition boot :: "scheduler \<Rightarrow> unit process" where
  "boot S = proc_or_exit (request (connections S))"

definition doTransactionProcessing :: "ext \<Rightarrow> nat option \<Rightarrow> unit process" where
  "doTransactionProcessing L workerNumber = proc_or_exit (TransactionProcessing_perform L workerNumber)"

definition doMCExport :: "ext \<Rightarrow> scheduler \<Rightarrow> unit process" where
  "doMCExport L S = proc_then (proc_or_exit (RebateExport_perform L (export_path S))) (proc_return ())"

definition doMOPSync :: "ext \<Rightarrow> scheduler \<Rightarrow> unit process" where
  "doMOPSync L S = proc_then (proc_or_exit (syncTotalsToMOP L (sync_order1 S) (sync_order2 S))) (proc_return ())"

definition workerProcess :: "ext \<Rightarrow> nat \<Rightarrow> unit process" where
  "workerProcess L workerNum = doTransactionProcessing L (Some workerNum)"

section \<open>The master\<close>

text \<open>The loop: \<open>k\<close> counts the waits, each of which may be the last thing the process does.\<close>

partial_function (option) wait_for_workers :: "ext \<Rightarrow> scheduler \<Rightarrow> nat \<Rightarrow> unit process" where
  "wait_for_workers L S k w =
     (case meanwhile S k w of
        (Inl x, w1) \<Rightarrow> Some (Inl x, w1)
      | (Inr _, w1) \<Rightarrow>
          (case numPending L w1 of
             (Inl e, w') \<Rightarrow> Some (Inl (Rejected e), w')
           | (Inr numLeft, w') \<Rightarrow> if numLeft \<noteq> Num 0 then wait_for_workers L S (Suc k) w' else Some (Inr (), w')))"

text \<open>Nothing ends the process while it waits.\<close>

definition undisturbed :: "(nat \<Rightarrow> world \<Rightarrow> world) \<Rightarrow> nat \<Rightarrow> world \<Rightarrow> (ending + unit) \<times> world" where
  "undisturbed f = (\<lambda>k w. (Inr (), f k w))"

lemma undisturbed_apply [simp]: "undisturbed f k w = (Inr (), f k w)"
  by (simp add: undisturbed_def)

text \<open>
  Without a number of workers the statement has \<open>undefined\<close> for it, the name of no column; without workers
  \<open>forEach\<close> is called on \<open>undefined\<close>.
\<close>

definition assign_workers :: "ext \<Rightarrow> nat option \<Rightarrow> unit action" where
  "assign_workers L numWorkers =
     (case numWorkers of
        None \<Rightarrow> request (\<lambda>_. Inl (DbError ''column undefined does not exist''))
      | Some n \<Rightarrow> assignWorkerProcesses L n)"

definition masterProcess :: "ext \<Rightarrow> scheduler \<Rightarrow> nat option \<Rightarrow> bool \<Rightarrow> unit process" where
  "masterProcess L S numWorkers workerProcesses =
     proc_then (proc_await (assign_workers L numWorkers))
       (proc_then (proc_await (if workerProcesses then io_return () else io_throw TypeError))
         (proc_then (wait_for_workers L S 0)
           (proc_then (doMCExport L S) (doMOPSync L S))))"

section \<open>The command\<close>

definition to_upper :: "char \<Rightarrow> char" where
  "to_upper c = (let n = of_char c :: nat in if 97 \<le> n \<and> n \<le> 122 then char_of (n - 32) else c)"

definition run_command :: "ext \<Rightarrow> scheduler \<Rightarrow> command_args \<Rightarrow> string \<Rightarrow> unit process" where
  "run_command L S args type =
     (if type = ''MASTER'' then masterProcess L S (ca_workers args) (ca_workerProcesses args)
      else if type = ''WORKER'' then workerProcess L (ca_id args)
      else if type \<in> {''TRANSACTION_PROCESSING'', ''T_P''} then doTransactionProcessing L None
      else if type \<in> {''MC_EXPORT'', ''MC_E''} then doMCExport L S
      else if type = ''MOP_SYNC'' then doMOPSync L S
      else if type = ''FULL_PROCESS''
        then proc_then (doTransactionProcessing L None) (proc_then (doMCExport L S) (doMOPSync L S))
      else proc_return ())"

definition JobRunner_start :: "ext \<Rightarrow> scheduler \<Rightarrow> command_args \<Rightarrow> unit process" where
  "JobRunner_start L S args =
     proc_then (boot S)
       (case ca_type args of
          None \<Rightarrow> process_exit 1
        | Some type \<Rightarrow> if type = '''' then process_exit 1
            else proc_then (run_command L S args (map to_upper type)) (process_exit 0))"

section \<open>How a job ends\<close>

named_theorems proc_simps \<open>evaluation of processes\<close>

lemma proc_then_apply [proc_simps]:
  "proc_then m k w = (case m w of
     None \<Rightarrow> None | Some (Inl x, w') \<Rightarrow> Some (Inl x, w') | Some (Inr _, w') \<Rightarrow> k w')"
  by (simp add: proc_then_def)

lemma proc_return_apply [proc_simps]: "proc_return x w = Some (Inr x, w)"
  by (simp add: proc_return_def)

lemma process_exit_apply [proc_simps]: "process_exit n w = Some (Inl (Exit n), w)"
  by (simp add: process_exit_def)

lemma proc_await_apply [proc_simps]:
  "proc_await m w = Some (map_sum Rejected id (result_of m w), state_of m w)"
  by (simp add: proc_await_def case_prod_unfold)

lemma proc_or_exit_apply [proc_simps]:
  "proc_or_exit m w = Some (map_sum (\<lambda>_. Exit 1) id (result_of m w), state_of m w)"
  by (simp add: proc_or_exit_def case_prod_unfold)

lemmas job_defs = boot_def doTransactionProcessing_def doMCExport_def doMOPSync_def workerProcess_def

text \<open>The part of a full process after another one, and when it ends with 0.\<close>

lemma proc_or_exit_0:
  "proc_then (proc_or_exit m) k w = Some (Inl (Exit 0), w') \<longleftrightarrow>
     (\<exists>x w1. m w = (Inr x, w1) \<and> k w1 = Some (Inl (Exit 0), w'))"
  by (cases "m w"; cases "result_of m w") (auto simp: proc_simps)

lemma proc_then_assoc: "proc_then (proc_then m k) l = proc_then m (proc_then k l)"
  by (auto simp: fun_eq_iff proc_simps split: option.split sum.split)

lemma proc_then_return: "proc_then (proc_return x) k = k"
  by (simp add: fun_eq_iff proc_simps)

text \<open>
  A full process ends with the code 0 exactly when the connections are made and the processing of the
  transactions, the export and the sync have all returned, one after the other; any failure ends the process
  with another ending, before the next step.
\<close>

lemma full_process_ends_with_0:
  assumes "map to_upper type = ''FULL_PROCESS''"
  shows "JobRunner_start L S (args\<lparr>ca_type := Some type\<rparr>) w = Some (Inl (Exit 0), w') \<longleftrightarrow>
    connections S (calls w) = Inr () \<and>
    (\<exists>w1 self w2. TransactionProcessing_perform L None (tick w) = (Inr (), w1) \<and>
      RebateExport_perform L (export_path S) w1 = (Inr self, w2) \<and>
      (\<exists>b. syncTotalsToMOP L (sync_order1 S) (sync_order2 S) w2 = (Inr b, w')))"
proof -
  have "type \<noteq> ''''" using assms by auto
  then have "JobRunner_start L S (args\<lparr>ca_type := Some type\<rparr>) =
      proc_then (proc_or_exit (request (connections S)))
        (proc_then (proc_or_exit (TransactionProcessing_perform L None))
          (proc_then (proc_or_exit (RebateExport_perform L (export_path S)))
            (proc_then (proc_or_exit (syncTotalsToMOP L (sync_order1 S) (sync_order2 S))) (process_exit 0))))"
    by (simp add: JobRunner_start_def run_command_def assms job_defs proc_then_assoc proc_then_return)
  then show ?thesis
    by (simp add: proc_or_exit_0 process_exit_apply request_apply)
qed

end
