(* ===== verification/Workers.thy ===== *)
theory Workers
  imports Reliable Reference
begin

text \<open>
  How the pending transactions are shared out (\<open>assignWorkerProcesses\<close>, \<open>getTransactionsAssignedToProcess\<close>):
  the worker of a transaction comes from a hash of its user, a 32-bit signed integer, so that the
  transactions of a user go to one worker, oldest first.
\<close>

section \<open>The number of a worker\<close>

lemma process_id_range:
  assumes "0 < n"
  shows "- int n < process_id L n u" and "process_id L n u < int n"
  using smod_int_range [of "int n" "hash_int L u"] assms by (simp_all add: process_id_def)

lemma processor_for_range: "0 < n \<Longrightarrow> processor_for L n u \<in> {1..n}"
  using process_id_range [of n L u] by (auto simp: processor_for_def Let_def)

section \<open>The assignment\<close>

definition assigned_row ::
  "ext \<Rightarrow> nat \<Rightarrow> TransactionForRebateCriteriaRecord \<Rightarrow> TransactionForRebateCriteriaRecord" where
  "assigned_row L n r =
     (if tr_processed_at r = None
      then transaction_columns L (r\<lparr>tr_processor_id := Some (processor_for L n (tr_user_id r))\<rparr>) else r)"

lemma assigned_row_fields [simp]:
  "tr_id (assigned_row L n r) = tr_id r" "tr_user_id (assigned_row L n r) = tr_user_id r"
  "tr_processed_at (assigned_row L n r) = tr_processed_at r"
  "tr_processed_at r = None \<Longrightarrow> tr_processor_id (assigned_row L n r) = Some (processor_for L n (tr_user_id r))"
  by (simp_all add: assigned_row_def transaction_columns_def)

lemma assign_rows:
  assumes "ext_ok L" and "0 < n" and "assignWorkerProcesses L n w = (Inr u, w')"
  shows "mset (transactions (store w')) = mset (map (assigned_row L n) (transactions (store w)))"
proof -
  let ?f = "\<lambda>r. r\<lparr>tr_processor_id := Some (processor_for L n (tr_user_id r))\<rparr>"
  obtain us rs where q: "orm_update (transactions_orm L) (calls w) (\<lambda>r. tr_processed_at r = None) ?f
      (transactions (store w)) = Inr (us, rs)"
    and s: "transactions (store w') = rs"
    using assms(2,3)
    by (auto simp: assignWorkerProcesses_def io_simps execute_def TransactionForRebateCriteriaRepository_def
        split: sum.splits)
  from orm_update_rows [OF transactions_updates [OF assms(1)] q] s show ?thesis
    by (simp add: assigned_row_def [abs_def])
qed

lemma assign_returns:
  assumes "reliable L" and "0 < n"
  obtains w' where "assignWorkerProcesses L n w = (Inr (), w')"
proof -
  let ?f = "\<lambda>r. r\<lparr>tr_processor_id := Some (processor_for L n (tr_user_id r))\<rparr>"
  obtain us rs where "orm_update (transactions_orm L) (calls w) (\<lambda>r. tr_processed_at r = None) ?f
      (transactions (store w)) = Inr (us, rs)"
    using reliable_update [OF reliable_transactions [OF assms(1)]] by blast
  then show thesis
    using assms(2)
    by (intro that) (simp add: assignWorkerProcesses_def io_simps execute_def TransactionForRebateCriteriaRepository_def)
qed

lemma assigned_returns:
  assumes "ext_ok L" and "reliable L"
  obtains rs xs where "getTransactionsAssignedToProcess L k w = (Inr xs, tick w)"
    and "mset rs = mset (filter (\<lambda>r. tr_processed_at r = None \<and> tr_processor_id r = Some k) (transactions (store w)))"
    and "sorted (map tr_transaction_date rs)"
    and "xs = map (\<lambda>r. projr (TransactionForRebateCriteriaSerializer_deserialize L r)) rs"
proof -
  let ?p = "\<lambda>r. tr_processed_at r = None \<and> tr_processor_id r = Some k"
  obtain rs where q: "orm_find_by (transactions_orm L) (calls w) ?p tr_transaction_date (transactions (store w)) = Inr rs"
    using reliable_find_by [OF reliable_transactions [OF assms(2)]] by blast
  have "traverse (TransactionForRebateCriteriaSerializer_deserialize L) rs =
      Inr (map (\<lambda>r. projr (TransactionForRebateCriteriaSerializer_deserialize L r)) rs)"
    by (simp add: traverse_Inr TransactionForRebateCriteriaSerializer_deserialize_def)
  with q have "getTransactionsAssignedToProcess L k w =
      (Inr (map (\<lambda>r. projr (TransactionForRebateCriteriaSerializer_deserialize L r)) rs), tick w)"
    by (simp add: getTransactionsAssignedToProcess_def io_simps TransactionForRebateCriteriaRepository_def)
  with orm_find_by_mset [OF transactions_reads [OF assms(1)] q]
    orm_find_by_sorted [OF transactions_reads [OF assms(1)] q] show thesis by (intro that) simp_all
qed

section \<open>The workers together\<close>

lemma mset_concat_classes:
  "mset (concat (map (\<lambda>k. filter (\<lambda>x. f x = k) xs) [1..<Suc n])) = mset (filter (\<lambda>x. f x \<in> {1..n}) xs)"
proof (induction n)
  case 0
  then show ?case by simp
next
  case (Suc n)
  have "mset (filter (\<lambda>x. f x \<in> {1..Suc n}) xs) =
      mset (filter (\<lambda>x. f x \<in> {1..n}) xs) + mset (filter (\<lambda>x. f x = Suc n) xs)"
    by (induction xs) auto
  with Suc show ?case by (simp del: mset_filter)
qed

lemma mset_concat_cong:
  "(\<And>k. k \<in> set ks \<Longrightarrow> mset (f k) = mset (g k)) \<Longrightarrow> mset (concat (map f ks)) = mset (concat (map g ks))"
  by (induction ks) auto

text \<open>
  After the assignment every pending transaction has the number of a worker, between 1 and the number
  of workers: the remainder of a hash that may be negative, but never 0, which would stand for no worker.
\<close>

theorem worker_numbers_in_range:
  assumes "ext_ok L" and "0 < n" and "assignWorkerProcesses L n w = (Inr u, w')"
    and "r \<in> set (transactions (store w'))" and "tr_processed_at r = None"
  shows "\<exists>k. tr_processor_id r = Some k \<and> 1 \<le> k \<and> k \<le> n"
proof -
  from assms(4) obtain q where "r = assigned_row L n q"
    using mset_eq_set [OF assign_rows [OF assms(1-3)]] by auto
  with assms(2,5) processor_for_range [of n L "tr_user_id q"] show ?thesis by simp
qed

lemma worker_numbers_in_range_witness:
  "\<exists>r k. transactions (store (state_of (assignWorkerProcesses ref_ext 3) sample_world)) = [r] \<and>
    tr_processor_id r = Some k \<and> 1 \<le> k \<and> k \<le> 3"
proof -
  obtain w' where a: "assignWorkerProcesses ref_ext 3 sample_world = (Inr (), w')"
    by (rule assign_returns [OF ref_reliable, where n = 3 and w = sample_world]) simp_all
  let ?row = "TransactionForRebateCriteriaSerializer_serialize sample_transaction"
  have "transactions (store sample_world) = [?row]" by (simp add: sample_world_def sample_db_def)
  then have r: "transactions (store w') = [assigned_row ref_ext 3 ?row]"
    using assign_rows [OF ref_ext_ok _ a] by simp
  have "tr_processed_at (assigned_row ref_ext 3 ?row) = None"
    by (simp add: TransactionForRebateCriteriaSerializer_serialize_def sample_transaction_def)
  with worker_numbers_in_range [OF ref_ext_ok _ a, of "assigned_row ref_ext 3 ?row"] r show ?thesis by (simp add: a)
qed

section \<open>The shares\<close>

definition worker_rows ::
  "ext \<Rightarrow> nat \<Rightarrow> nat \<Rightarrow> TransactionForRebateCriteriaRecord list \<Rightarrow> TransactionForRebateCriteriaRecord list" where
  "worker_rows L n k rs =
     filter (\<lambda>r. processor_for L n (tr_user_id r) = k) (map (assigned_row L n) (filter (\<lambda>r. tr_processed_at r = None) rs))"

lemma assigned_to_worker:
  assumes "mset rs' = mset (map (assigned_row L n) rs)"
  shows "mset (filter (\<lambda>r. tr_processed_at r = None \<and> tr_processor_id r = Some k) rs') = mset (worker_rows L n k rs)"
proof -
  have "mset (filter p rs') = mset (filter p (map (assigned_row L n) rs))" for p
    using assms by (simp only: mset_filter)
  moreover have "filter (\<lambda>r. tr_processed_at r = None \<and> tr_processor_id r = Some k) (map (assigned_row L n) rs) =
      worker_rows L n k rs"
    by (induction rs) (simp_all add: worker_rows_def)
  ultimately show ?thesis by metis
qed

lemma worker_share:
  assumes "ext_ok L" and "reliable L" and "0 < n" and "assignWorkerProcesses L n w = (Inr u, w')"
  shows "\<exists>rs. getTransactionsAssignedToProcess L k w' =
      (Inr (map (\<lambda>r. projr (TransactionForRebateCriteriaSerializer_deserialize L r)) rs), tick w') \<and>
    mset rs = mset (worker_rows L n k (transactions (store w))) \<and> sorted (map tr_transaction_date rs)"
proof -
  obtain rs xs where rs: "getTransactionsAssignedToProcess L k w' = (Inr xs, tick w')"
    "mset rs = mset (filter (\<lambda>r. tr_processed_at r = None \<and> tr_processor_id r = Some k) (transactions (store w')))"
    "sorted (map tr_transaction_date rs)"
    "xs = map (\<lambda>r. projr (TransactionForRebateCriteriaSerializer_deserialize L r)) rs"
    by (rule assigned_returns [OF assms(1,2), where k = k and w = w'])
  from rs(1,3,4) rs(2) [unfolded assigned_to_worker [OF assign_rows [OF assms(1,3,4)]]] show ?thesis by blast
qed

lemma worker_rows_all:
  assumes "0 < n"
  shows "mset (concat (map (\<lambda>k. worker_rows L n k rs) [1..<Suc n])) =
    mset (map (assigned_row L n) (filter (\<lambda>r. tr_processed_at r = None) rs))"
proof -
  have "filter (\<lambda>r. processor_for L n (tr_user_id r) \<in> {1..n}) xs = xs" for xs :: "TransactionForRebateCriteriaRecord list"
    using processor_for_range [OF assms] by (simp add: filter_id_conv)
  with mset_concat_classes [of "\<lambda>r. processor_for L n (tr_user_id r)"] show ?thesis
    unfolding worker_rows_def by metis
qed

lemma deserialized_transaction [simp]:
  "tx_id (projr (TransactionForRebateCriteriaSerializer_deserialize L r)) = tr_id r"
  "tx_userId (projr (TransactionForRebateCriteriaSerializer_deserialize L r)) = tr_user_id r"
  "tx_transactionDate (projr (TransactionForRebateCriteriaSerializer_deserialize L r)) = tr_transaction_date r"
  by (simp_all add: TransactionForRebateCriteriaSerializer_deserialize_def)

text \<open>
  C24.  The workers share the pending transactions: when the requests are answered, the transactions given to
  the workers from 1 to the number of workers are the pending ones, each once; the transactions of a user go
  to one worker, the oldest first.
\<close>

theorem workers_share_pending_transactions:
  assumes "ext_ok L" and "reliable L" and "0 < n"
  shows "\<exists>w' xs. assignWorkerProcesses L n w = (Inr (), w') \<and>
    (\<forall>k. getTransactionsAssignedToProcess L k w' = (Inr (xs k), tick w')) \<and>
    mset (map tx_id (concat (map xs [1..<Suc n]))) =
      mset (map tr_id (filter (\<lambda>r. tr_processed_at r = None) (transactions (store w)))) \<and>
    (\<forall>k. \<forall>x\<in>set (xs k). k = processor_for L n (tx_userId x)) \<and>
    (\<forall>k. sorted (map tx_transactionDate (xs k)))"
proof -
  let ?x = "\<lambda>r. projr (TransactionForRebateCriteriaSerializer_deserialize L r)"
  let ?rows = "transactions (store w)"
  obtain w' where a: "assignWorkerProcesses L n w = (Inr (), w')" by (rule assign_returns [OF assms(2,3)])
  from worker_share [OF assms a] obtain rs where
    run: "\<And>k. getTransactionsAssignedToProcess L k w' = (Inr (map ?x (rs k)), tick w')"
    and ms: "\<And>k. mset (rs k) = mset (worker_rows L n k ?rows)"
    and so: "\<And>k. sorted (map tr_transaction_date (rs k))" by metis
  have "mset (concat (map rs [1..<Suc n])) = mset (concat (map (\<lambda>k. worker_rows L n k ?rows) [1..<Suc n]))"
    by (rule mset_concat_cong) (rule ms)
  from arg_cong [OF this [unfolded worker_rows_all [OF assms(3)]], of "image_mset tr_id"]
  have "mset (map tr_id (concat (map rs [1..<Suc n]))) = mset (map tr_id (filter (\<lambda>r. tr_processed_at r = None) ?rows))"
    by (simp only: mset_map image_mset.compositionality comp_def assigned_row_fields)
  then have ids: "mset (map tx_id (concat (map (\<lambda>k. map ?x (rs k)) [1..<Suc n]))) =
      mset (map tr_id (filter (\<lambda>r. tr_processed_at r = None) ?rows))"
    by (simp only: map_concat map_map comp_def deserialized_transaction)
  moreover have "\<forall>x\<in>set (map ?x (rs k)). k = processor_for L n (tx_userId x)" for k
    using mset_eq_set [OF ms [of k]] by (auto simp: worker_rows_def)
  moreover have "sorted (map tx_transactionDate (map ?x (rs k)))" for k using so [of k] by (simp add: comp_def)
  ultimately show ?thesis using a run by (intro exI [of _ w'] exI [of _ "\<lambda>k. map ?x (rs k)"]) simp
qed

lemma workers_share_pending_transactions_witness:
  "\<exists>w' xs. assignWorkerProcesses ref_ext 2 sample_world = (Inr (), w') \<and>
    (\<forall>k. getTransactionsAssignedToProcess ref_ext k w' = (Inr (xs k), tick w')) \<and>
    length (xs 1) + length (xs 2) = 1"
proof -
  obtain w' xs where a: "assignWorkerProcesses ref_ext 2 sample_world = (Inr (), w')"
    "\<forall>k. getTransactionsAssignedToProcess ref_ext k w' = (Inr (xs k), tick w')"
    and m: "mset (map tx_id (concat (map xs [1..<Suc 2]))) =
      mset (map tr_id (filter (\<lambda>r. tr_processed_at r = None) (transactions (store sample_world))))"
    using workers_share_pending_transactions [OF ref_ext_ok ref_reliable, of 2 sample_world] by auto
  have "length (concat (map xs [1..<Suc 2])) = 1"
    using mset_eq_length [OF m]
    by (simp add: sample_world_def sample_db_def empty_db_def sample_transaction_def
        TransactionForRebateCriteriaSerializer_serialize_def)
  with a show ?thesis by (auto simp: upt_rec numeral_2_eq_2)
qed

end
