(* ===== verification/ExportSafety.thy ===== *)
theory ExportSafety
  imports Export Reference
begin

text \<open>
  What an export does to the rebates when any request may fail: a rebate waiting for its export moves only
  between the statuses of the export, no other rebate is touched, and none is delivered without its line
  in a file put on the server.
\<close>

section \<open>The statuses of the export\<close>

definition in_export :: "TransactionStatus \<Rightarrow> bool" where
  "in_export s \<longleftrightarrow> s = PendingExtraction \<or> s = ExtractionStarted"

definition moved :: "ext \<Rightarrow> RebateRecord \<Rightarrow> TransactionStatus \<Rightarrow> date option \<Rightarrow> RebateRecord" where
  "moved L r s t = rebate_columns L (r\<lparr>rr_status := s, rr_delivered_at := t\<rparr>)"

text \<open>The row is as it was, or was in the export and has changed its status, inside the export.\<close>

definition may_move :: "ext \<Rightarrow> RebateRecord \<Rightarrow> RebateRecord \<Rightarrow> bool" where
  "may_move L r r' \<longleftrightarrow>
     r' = r \<or> in_export (rr_status r) \<and> (\<exists>s. in_export s \<and> r' = moved L r s (rr_delivered_at r))"

definition exported_in :: "ext \<Rightarrow> IRebateExport list \<Rightarrow> RebateRecord \<Rightarrow> bool" where
  "exported_in L lines r \<longleftrightarrow>
     (\<exists>x. RebateSerializer_deserialize L r = Inr x \<and> RebateExportSerializer_serialize L x \<in> set lines)"

definition listed :: "ext \<Rightarrow> IRebateExport list \<Rightarrow> RebateRecord \<Rightarrow> RebateRecord \<Rightarrow> bool" where
  "listed L lines r r' \<longleftrightarrow> may_move L r r' \<and> (rr_status r' = ExtractionStarted \<longrightarrow> exported_in L lines r')"

text \<open>A row that has been delivered was exported, with the line it had then.\<close>

definition delivered :: "ext \<Rightarrow> IRebateExport list \<Rightarrow> RebateRecord \<Rightarrow> RebateRecord \<Rightarrow> bool" where
  "delivered L lines r r' \<longleftrightarrow>
     may_move L r r' \<or>
     (\<exists>r1 t. may_move L r r1 \<and> rr_status r1 = ExtractionStarted \<and> exported_in L lines r1 \<and>
        r' = moved L r1 PendingFulfillment t)"

lemma moved_moved: "column_laws L \<Longrightarrow> moved L (moved L r s t) s' t' = moved L r s' t'"
  by (simp add: moved_def rebate_columns_def column_laws_def option.map_comp comp_def)

lemma moved_status [simp]: "rr_status (moved L r s t) = s" "rr_delivered_at (moved L r s t) = t"
  by (simp_all add: moved_def rebate_columns_def)

lemma may_move_refl [simp]: "may_move L r r"
  by (simp add: may_move_def)

lemma may_move_step:
  assumes "column_laws L" and "may_move L r r1" and "in_export (rr_status r1)" and "in_export s"
  shows "may_move L r (moved L r1 s (rr_delivered_at r1))"
  using assms(2)
proof (cases "r1 = r")
  case True
  then show ?thesis using assms(3,4) by (auto simp: may_move_def)
next
  case False
  then obtain s1 where "in_export (rr_status r)" and "r1 = moved L r s1 (rr_delivered_at r)"
    using assms(2) by (auto simp: may_move_def)
  then have "moved L r1 s (rr_delivered_at r1) = moved L r s (rr_delivered_at r)"
    by (simp add: moved_moved [OF assms(1)])
  with \<open>in_export (rr_status r)\<close> assms(4) show ?thesis by (auto simp: may_move_def)
qed

lemma serial_status:
  "rebate_columns L (serializePartial RebateRepository [RebateStatus s] r) = moved L r s (rr_delivered_at r)"
  by (simp add: serializePartial_def RebateRepository_def moved_def rebate_columns_def)

lemma serial_delivered:
  "rebate_columns L (serializePartial RebateRepository [RebateStatus s, DeliveredAt t] r) = moved L r s (Some t)"
  by (simp add: serializePartial_def RebateRepository_def moved_def rebate_columns_def)

section \<open>The statements of the export\<close>

abbreviation rows_now :: "world \<Rightarrow> RebateRecord list" where
  "rows_now w \<equiv> rebates (store w)"

text \<open>A status update of the rebates: it rewrites the matching rows and nothing else, or nothing.\<close>

definition status_update :: "ext \<Rightarrow> TransactionStatus \<Rightarrow> TransactionStatus \<Rightarrow> RebateRecord \<Rightarrow> RebateRecord" where
  "status_update L a b r = (if rr_status r = a then moved L r b (rr_delivered_at r) else r)"

lemma updateWhere_store:
  "store (state_of (updateWhere RebateRepository L p ps) w) =
     (store w)\<lparr>rebates := rows_now (state_of (updateWhere RebateRepository L p ps) w)\<rparr>"
  by (auto simp: updateWhere_def execute_state RebateRepository_def split: sum.splits)

lemma triple_updateWhere:
  assumes ok: "ext_ok L"
    and "\<And>d rs. P d \<Longrightarrow> mset rs = mset (map (\<lambda>r. if p r then rebate_columns L (serializePartial RebateRepository ps r) else r)
      (rebates d)) \<Longrightarrow> Q (d\<lparr>rebates := rs\<rparr>)"
    and "\<And>d. P d \<Longrightarrow> E d"
  shows "triple (\<lambda>w. P (store w)) (updateWhere RebateRepository L p ps) (\<lambda>_ w. Q (store w)) (\<lambda>w. E (store w))"
proof (rule tripleI)
  fix w :: world
  assume P: "P (store w)"
  let ?m = "updateWhere RebateRepository L p ps"
  show "case ?m w of (Inl e, w') \<Rightarrow> E (store w') | (Inr x, w') \<Rightarrow> Q (store w')"
  proof (cases "result_of ?m w")
    case (Inl e)
    then have "?m w = (Inl e, tick w)" by (auto simp: updateWhere_def execute_def split: sum.splits)
    then show ?thesis using assms(3) [OF P] by simp
  next
    case (Inr us)
    have "orm_updates (serial_matches rr_id) (rebate_columns L) (orm_of RebateRepository L)"
      using rebates_updates [OF ok] by (simp add: RebateRepository_def)
    note rows = rebate_table.updateWhere_rows(1) [OF this Inr]
    have "Q ((store w)\<lparr>rebates := rows_now (state_of ?m w)\<rparr>)"
      by (rule assms(2) [OF P]) (use rows in \<open>simp add: RebateRepository_def\<close>)
    then have "Q (store (state_of ?m w))" by (subst updateWhere_store)
    with Inr show ?thesis by (cases "?m w") simp
  qed
qed

lemma triple_status_update:
  assumes "ext_ok L"
    and "\<And>d rs. P d \<Longrightarrow> mset rs = mset (map (status_update L a b) (rebates d)) \<Longrightarrow> Q (d\<lparr>rebates := rs\<rparr>)"
    and "\<And>d. P d \<Longrightarrow> E d"
  shows "triple (\<lambda>w. P (store w)) (updateWhere RebateRepository L (\<lambda>r. rr_status r = a) [RebateStatus b])
    (\<lambda>_ w. Q (store w)) (\<lambda>w. E (store w))"
proof (rule triple_updateWhere [OF assms(1)])
  fix d rs
  assume "P d" and "mset rs = mset (map (\<lambda>r. if rr_status r = a
    then rebate_columns L (serializePartial RebateRepository [RebateStatus b] r) else r) (rebates d))"
  then show "Q (d\<lparr>rebates := rs\<rparr>)"
    unfolding serial_status using assms(2) by (simp only: status_update_def [abs_def])
qed (rule assms(3))

lemma triple_store: "frames store m \<Longrightarrow> (\<And>d. P d \<Longrightarrow> E d) \<Longrightarrow>
    triple (\<lambda>w. P (store w)) m (\<lambda>_ w. P (store w)) (\<lambda>w. E (store w))"
  by (rule triple_framesE) auto

lemma triple_findAll:
  assumes "ext_ok L"
    and "\<And>d rs xs. P d \<Longrightarrow> mset rs = mset (filter p (rebates d)) \<Longrightarrow>
      map (RebateSerializer_deserialize L) rs = map Inr xs \<Longrightarrow> Q xs d"
    and "\<And>d. P d \<Longrightarrow> E d"
  shows "triple (\<lambda>w. P (store w)) (findAll RebateRepository L p) (\<lambda>xs w. Q xs (store w)) (\<lambda>w. E (store w))"
proof (rule tripleI)
  fix w :: world
  assume P: "P (store w)"
  let ?m = "findAll RebateRepository L p"
  have s: "state_of ?m w = tick w" by simp
  show "case ?m w of (Inl e, w') \<Rightarrow> E (store w') | (Inr xs, w') \<Rightarrow> Q xs (store w')"
  proof (cases "result_of ?m w")
    case (Inl e)
    with s have "?m w = (Inl e, tick w)" by (metis prod.collapse)
    then show ?thesis using assms(3) [OF P] by simp
  next
    case (Inr xs)
    have "orm_reads (serial_matches rr_id) (orm_of RebateRepository L)"
      using rebates_reads [OF assms(1)] by (simp add: RebateRepository_def)
    then obtain rs where "mset rs = mset (filter p (rebates (store w)))"
      and "map (RebateSerializer_deserialize L) rs = map Inr xs"
      using Inr by (rule findAll_Inr) (simp add: RebateRepository_def)
    with assms(2) [OF P] have "Q xs (store w)" by blast
    moreover from s Inr have "?m w = (Inr xs, tick w)" by (metis prod.collapse)
    ultimately show ?thesis by simp
  qed
qed

text \<open>The lines read at the start list every rebate whose extraction has started.\<close>

lemma exported_in_found:
  assumes "mset rs = mset (filter (\<lambda>r. rr_status r = ExtractionStarted) qs)"
    and "map (RebateSerializer_deserialize L) rs = map Inr xs"
    and "r \<in> set qs" and "rr_status r = ExtractionStarted"
  shows "exported_in L (map (RebateExportSerializer_serialize L) xs) r"
proof -
  have "r \<in> set rs" using assms(1,3,4) mset_eq_set [OF assms(1)] by auto
  then have "RebateSerializer_deserialize L r \<in> set (map (RebateSerializer_deserialize L) rs)" by simp
  then obtain x where "x \<in> set xs" and "RebateSerializer_deserialize L r = Inr x"
    unfolding assms(2) by auto
  then show ?thesis by (auto simp: exported_in_def)
qed

lemma listed_started:
  assumes "column_laws L" and "related (may_move L) qs (rebates d)"
    and "mset rs = mset (map (status_update L PendingExtraction ExtractionStarted) (rebates d))"
  shows "related (may_move L) qs rs"
proof (rule related_map [OF assms(2,3)])
  fix r r1
  assume "may_move L r r1"
  with may_move_step [OF assms(1), of r r1 ExtractionStarted]
  show "may_move L r (status_update L PendingExtraction ExtractionStarted r1)"
    by (auto simp: status_update_def in_export_def)
qed

lemma reset_moves:
  assumes "column_laws L" and "related (may_move L) qs (rebates d)"
    and "mset rs = mset (map (status_update L ExtractionStarted PendingExtraction) (rebates d))"
  shows "related (may_move L) qs rs"
proof (rule related_map [OF assms(2,3)])
  fix r r1
  assume "may_move L r r1"
  with may_move_step [OF assms(1), of r r1 PendingExtraction]
  show "may_move L r (status_update L ExtractionStarted PendingExtraction r1)"
    by (auto simp: status_update_def in_export_def)
qed

section \<open>Every step\<close>

text \<open>
  What is known while the object is \<open>self\<close> and the database \<open>d\<close>, of a run that began with the rebates \<open>qs\<close>
  and the uploaded files \<open>us\<close>.
\<close>

definition waiting :: "ext \<Rightarrow> string \<Rightarrow> RebateRecord list \<Rightarrow> (string \<times> IRebateExport list) list \<Rightarrow>
    RebateExport \<Rightarrow> db \<Rightarrow> bool" where
  "waiting L path qs us self d \<longleftrightarrow>
     remoteFileZipPath self = path \<and> \<not> uploadedToSFTP self \<and> related (may_move L) qs (rebates d)"

definition cached_in :: "ext \<Rightarrow> string \<Rightarrow> RebateRecord list \<Rightarrow> (string \<times> IRebateExport list) list \<Rightarrow>
    IRebateExport list \<Rightarrow> RebateExport \<Rightarrow> db \<Rightarrow> bool" where
  "cached_in L path qs us lines self d \<longleftrightarrow>
     remoteFileZipPath self = path \<and> \<not> uploadedToSFTP self \<and> cachedRebates self = Some lines \<and>
     uploaded d = us \<and> related (listed L lines) qs (rebates d)"

definition sent :: "ext \<Rightarrow> string \<Rightarrow> RebateRecord list \<Rightarrow> (string \<times> IRebateExport list) list \<Rightarrow>
    (RebateRecord \<Rightarrow> RebateRecord \<Rightarrow> bool) \<Rightarrow> string \<Rightarrow> IRebateExport list \<Rightarrow> RebateExport \<Rightarrow> db \<Rightarrow> bool" where
  "sent L path qs us P day lines self d \<longleftrightarrow>
     remoteFileZipPath self = path \<and> uploadedToSFTP self \<and> uploaded d = us @ [(stamped path day, lines)] \<and>
     related P qs (rebates d)"

text \<open>What the code that catches an error can rely on.\<close>

definition stopped :: "ext \<Rightarrow> string \<Rightarrow> RebateRecord list \<Rightarrow> (string \<times> IRebateExport list) list \<Rightarrow> string \<Rightarrow>
    RebateExport \<Rightarrow> db \<Rightarrow> bool" where
  "stopped L path qs us day self d \<longleftrightarrow>
     waiting L path qs us self d \<or> (\<exists>lines. sent L path qs us (delivered L lines) day lines self d)"

lemma listed_may_move: "related (listed L lines) qs rs \<Longrightarrow> related (may_move L) qs rs"
  by (erule related_mono) (simp add: listed_def)

lemma listed_delivered: "related (listed L lines) qs rs \<Longrightarrow> related (delivered L lines) qs rs"
  by (erule related_mono) (simp add: listed_def delivered_def)

lemma cached_waiting: "cached_in L path qs us lines self d \<Longrightarrow> stopped L path qs us day self d"
  by (auto simp: cached_in_def stopped_def waiting_def dest: listed_may_move)

lemma sent_stopped: "sent L path qs us (listed L lines) day lines self d \<Longrightarrow> stopped L path qs us day self d"
  by (auto simp: sent_def stopped_def dest: listed_delivered)

text \<open>A step that changes neither the object nor the rebates nor the uploaded files.\<close>

abbreviation sent_files :: "world \<Rightarrow> (string \<times> IRebateExport list) list" where
  "sent_files w \<equiv> uploaded (store w)"

lemma triple_bystander:
  assumes "frames (\<lambda>w. (rows_now w, sent_files w)) m"
    and "\<And>self d d'. rebates d' = rebates d \<Longrightarrow> uploaded d' = uploaded d \<Longrightarrow> P self d \<Longrightarrow> P self d'"
    and "\<And>self d. P self d \<Longrightarrow> E self d"
  shows "triple (\<lambda>(self, w). P self (store w)) (outside m) (\<lambda>_ (self, w). P self (store w)) (\<lambda>(self, w). E self (store w))"
proof (rule triple_outside, unfold prod.case, rule tripleI)
  fix self and w :: world
  assume P: "P self (store w)"
  have "(rows_now (state_of m w), sent_files (state_of m w)) = (rows_now w, sent_files w)"
    by (rule framesD [OF assms(1)])
  then have "P self (store (state_of m w))" using assms(2) [of "store (state_of m w)" "store w"] P by simp
  then show "case m w of (Inl e, w') \<Rightarrow> E self (store w') | (Inr x, w') \<Rightarrow> P self (store w')"
    using assms(3) by (cases "m w"; cases "result_of m w") auto
qed

lemma waiting_bystander:
  "rebates d' = rebates d \<Longrightarrow> uploaded d' = uploaded d \<Longrightarrow>
    cached_in L path qs us lines self d \<Longrightarrow> cached_in L path qs us lines self d'"
  "rebates d' = rebates d \<Longrightarrow> uploaded d' = uploaded d \<Longrightarrow>
    sent L path qs us P day lines self d \<Longrightarrow> sent L path qs us P day lines self d'"
  "rebates d' = rebates d \<Longrightarrow> uploaded d' = uploaded d \<Longrightarrow>
    stopped L path qs us day self d \<Longrightarrow> stopped L path qs us day self d'"
  by (simp_all add: cached_in_def sent_def stopped_def waiting_def)

lemma start_triple:
  assumes ok: "ext_ok L"
  shows "triple (\<lambda>(self, w). self = new_RebateExport path \<and> rows_now w = qs \<and> sent_files w = us)
    (rebatesToExport L) (\<lambda>lines (self, w). cached_in L path qs us lines self (store w))
    (\<lambda>(self, w). waiting L path qs us self (store w))"
proof -
  note columns = ext_columns [OF ok]
  have start: "triple (\<lambda>w. rows_now w = qs \<and> sent_files w = us) (rebatesPendingExportStart L)
    (\<lambda>lines w. related (listed L lines) qs (rows_now w) \<and> sent_files w = us)
    (\<lambda>w. related (may_move L) qs (rows_now w))"
    unfolding rebatesPendingExportStart_def
  proof (rule triple_then)
    show "triple (\<lambda>w. rows_now w = qs \<and> sent_files w = us)
      (updateWhere RebateRepository L (\<lambda>r. rr_status r = PendingExtraction) [RebateStatus ExtractionStarted])
      (\<lambda>_ w. related (may_move L) qs (rows_now w) \<and> sent_files w = us) (\<lambda>w. related (may_move L) qs (rows_now w))"
      by (rule triple_status_update [OF ok])
        (use listed_started [OF columns related_refl] in \<open>auto intro: related_refl\<close>)
    show "triple (\<lambda>w. related (may_move L) qs (rows_now w) \<and> sent_files w = us)
      (io_bind (findAll RebateRepository L (\<lambda>r. rr_status r = ExtractionStarted))
        (\<lambda>xs. io_return (map (RebateExportSerializer_serialize L) xs)))
      (\<lambda>lines w. related (listed L lines) qs (rows_now w) \<and> sent_files w = us)
      (\<lambda>w. related (may_move L) qs (rows_now w))"
    proof (rule triple_bind [where R = "\<lambda>xs w. related (listed L (map (RebateExportSerializer_serialize L) xs))
        qs (rows_now w) \<and> sent_files w = us"], rule triple_findAll [OF ok])
      show "triple (\<lambda>w. related (listed L (map (RebateExportSerializer_serialize L) xs)) qs (rows_now w) \<and> sent_files w = us)
        (io_return (map (RebateExportSerializer_serialize L) xs))
        (\<lambda>lines w. related (listed L lines) qs (rows_now w) \<and> sent_files w = us)
        (\<lambda>w. related (may_move L) qs (rows_now w))" for xs
        by (rule triple_return)
    next
      fix d and rs :: "RebateRecord list" and xs
      assume d: "related (may_move L) qs (rebates d) \<and> uploaded d = us"
        and "mset rs = mset (filter (\<lambda>r. rr_status r = ExtractionStarted) (rebates d))"
        and "map (RebateSerializer_deserialize L) rs = map Inr xs"
      then have "listed L (map (RebateExportSerializer_serialize L) xs) r r1"
        if "r1 \<in> set (rebates d)" and "may_move L r r1" for r r1
        using exported_in_found that by (simp add: listed_def)
      with d show "related (listed L (map (RebateExportSerializer_serialize L) xs)) qs (rebates d) \<and> uploaded d = us"
        by (auto elim: related_mono)
    qed simp
  qed
  show ?thesis
    unfolding rebatesToExport_def
  proof (rule triple_bind)
    show "triple (\<lambda>(self, w). self = new_RebateExport path \<and> rows_now w = qs \<and> sent_files w = us) (field cachedRebates)
      (\<lambda>c (self, w). c = None \<and> self = new_RebateExport path \<and> rows_now w = qs \<and> sent_files w = us)
      (\<lambda>(self, w). waiting L path qs us self (store w))"
      by (rule triple_field) (simp add: new_RebateExport_def)
    show "triple (\<lambda>(self, w). c = None \<and> self = new_RebateExport path \<and> rows_now w = qs \<and> sent_files w = us)
      (case c of
         None \<Rightarrow> io_bind (outside (rebatesPendingExportStart L))
           (\<lambda>lines. io_then (assign (\<lambda>self. self\<lparr>cachedRebates := Some lines\<rparr>)) (io_return lines))
       | Some lines \<Rightarrow> io_return lines)
      (\<lambda>lines (self, w). cached_in L path qs us lines self (store w))
      (\<lambda>(self, w). waiting L path qs us self (store w))" for c
    proof (rule triple_case_option)
      show "triple (\<lambda>(self, w). c = None \<and> self = new_RebateExport path \<and> rows_now w = qs \<and> sent_files w = us)
        (io_bind (outside (rebatesPendingExportStart L))
          (\<lambda>lines. io_then (assign (\<lambda>self. self\<lparr>cachedRebates := Some lines\<rparr>)) (io_return lines)))
        (\<lambda>lines (self, w). cached_in L path qs us lines self (store w))
        (\<lambda>(self, w). waiting L path qs us self (store w))"
      proof (rule triple_bind)
        show "triple (\<lambda>(self, w). c = None \<and> self = new_RebateExport path \<and> rows_now w = qs \<and> sent_files w = us)
          (outside (rebatesPendingExportStart L))
          (\<lambda>lines (self, w). self = new_RebateExport path \<and> related (listed L lines) qs (rows_now w) \<and> sent_files w = us)
          (\<lambda>(self, w). waiting L path qs us self (store w))"
          by (rule triple_conseq [OF triple_outside_self [OF start, of "\<lambda>self. self = new_RebateExport path"]])
            (auto simp: waiting_def new_RebateExport_def)
        show "triple (\<lambda>(self, w). self = new_RebateExport path \<and> related (listed L lines) qs (rows_now w) \<and> sent_files w = us)
          (io_then (assign (\<lambda>self. self\<lparr>cachedRebates := Some lines\<rparr>)) (io_return lines))
          (\<lambda>lines (self, w). cached_in L path qs us lines self (store w))
          (\<lambda>(self, w). waiting L path qs us self (store w))" for lines
          by (rule triple_then [where R = "\<lambda>(self, w). cached_in L path qs us lines self (store w)"])
            (auto simp: cached_in_def new_RebateExport_def intro!: triple_assign triple_return)
      qed
    qed (simp add: triple_def)
  qed
qed

text \<open>A method that puts a value in a field nothing of the above depends on.\<close>

lemma start_details_triple:
  "triple (\<lambda>(self, w). cached_in L path qs us lines self (store w)) (recordExportStart L)
     (\<lambda>_ (self, w). cached_in L path qs us lines self (store w))
     (\<lambda>(self, w). stopped L path qs us day self (store w))"
proof -
  let ?C = "\<lambda>(self, w). cached_in L path qs us lines self (store w)"
  let ?E = "\<lambda>(self, w). stopped L path qs us day self (store w)"
  have total: "triple ?C getTotal (\<lambda>_. ?C) ?E"
    unfolding getTotal_def cached_rebates_def
    by (auto simp: triple_def io_simps cached_in_def)
  have ins: "triple ?C (outside (insert ExportDetailsRepository L x)) (\<lambda>_. ?C) ?E" for x
  proof (rule triple_bystander)
    show "frames (\<lambda>w. (rows_now w, sent_files w)) (insert ExportDetailsRepository L x)"
      using frames_insert [of "\<lambda>d. (rebates d, uploaded d)" ExportDetailsRepository]
      by (simp add: ExportDetailsRepository_def)
  qed (simp_all add: waiting_bystander cached_waiting)
  have put: "triple ?C (assign (\<lambda>self. self\<lparr>exportDetails := Some x\<rparr>)) (\<lambda>_. ?C) ?E" for x
    by (rule triple_assign) (simp add: cached_in_def)
  have time: "triple ?C (outside (now L)) (\<lambda>_. ?C) ?E"
    by (rule triple_bystander [OF frames_comp [OF frames_now]]) (simp_all add: waiting_bystander cached_waiting)
  show ?thesis
    unfolding recordExportStart_def by (intro triple_bind) (rule time total ins put)+
qed

definition filed :: "ext \<Rightarrow> string \<Rightarrow> RebateRecord list \<Rightarrow> (string \<times> IRebateExport list) list \<Rightarrow>
    (db \<Rightarrow> IRebateExport list option) \<Rightarrow> IRebateExport list \<Rightarrow> RebateExport \<Rightarrow> db \<Rightarrow> bool" where
  "filed L path qs us file lines self d \<longleftrightarrow> cached_in L path qs us lines self d \<and> file d = Some lines"

lemma cached_in_files [simp]:
  "cached_in L path qs us lines self (d\<lparr>local_csv := c\<rparr>) = cached_in L path qs us lines self d"
  "cached_in L path qs us lines self (d\<lparr>local_zip := z\<rparr>) = cached_in L path qs us lines self d"
  by (simp_all add: cached_in_def)

lemma csv_triple:
  assumes "one_day L day"
  shows "triple (\<lambda>(self, w). cached_in L path qs us lines self (store w)) (generateCSV L)
     (\<lambda>_ (self, w). filed L path qs us (\<lambda>d. local_csv d (csv_path L path day)) lines self (store w))
     (\<lambda>(self, w). stopped L path qs us day self (store w))"
proof (rule triple_methodI)
  fix self :: RebateExport and w :: world
  assume c: "cached_in L path qs us lines self (store w)"
  then have "cachedRebates self = Some lines" and "remoteFileZipPath self = path"
    by (simp_all add: cached_in_def)
  with file_names(2) [OF assms, of self w] c cached_waiting [OF c]
  show "case generateCSV L (self, w) of
      (Inl e, (self', w')) \<Rightarrow> stopped L path qs us day self' (store w')
    | (Inr u, (self', w')) \<Rightarrow> filed L path qs us (\<lambda>d. local_csv d (csv_path L path day)) lines self' (store w')"
    by (auto simp: generateCSV_def cached_rebates_def CSVGenerator_perform_def io_simps filed_def split: sum.splits)
qed

lemma zip_triple:
  assumes "one_day L day" and "file_laws L"
  shows "triple (\<lambda>(self, w). filed L path qs us (\<lambda>d. local_csv d (csv_path L path day)) lines self (store w))
     (generateZip L)
     (\<lambda>_ (self, w). filed L path qs us (\<lambda>d. local_zip d (zip_path L path day)) lines self (store w))
     (\<lambda>(self, w). stopped L path qs us day self (store w))"
proof (rule triple_methodI)
  fix self :: RebateExport and w :: world
  assume "filed L path qs us (\<lambda>d. local_csv d (csv_path L path day)) lines self (store w)"
  then have c: "cached_in L path qs us lines self (store w)"
    and f: "local_csv (store w) (csv_path L path day) = Some lines"
    by (simp_all add: filed_def)
  then have p: "remoteFileZipPath self = path" by (simp add: cached_in_def)
  have z: "zip_write L n q (Some lines) = Inr content \<Longrightarrow> content = lines" for n q content
    using assms(2) unfolding file_laws_def by (metis option.inject)
  show "case generateZip L (self, w) of
      (Inl e, (self', w')) \<Rightarrow> stopped L path qs us day self' (store w')
    | (Inr u, (self', w')) \<Rightarrow> filed L path qs us (\<lambda>d. local_zip d (zip_path L path day)) lines self' (store w')"
    using file_names(2,3) [OF assms(1), of self] p c f cached_waiting [OF c] z
    by (auto simp: generateZip_def ZipGenerator_perform_def io_simps filed_def split: sum.splits)
qed

lemma upload_triple:
  assumes "one_day L day" and "file_laws L"
  shows "triple (\<lambda>(self, w). filed L path qs us (\<lambda>d. local_zip d (zip_path L path day)) lines self (store w))
     (uploadToSFTP L)
     (\<lambda>_ (self, w). sent L path qs us (listed L lines) day lines self (store w))
     (\<lambda>(self, w). stopped L path qs us day self (store w))"
proof (rule triple_methodI)
  fix self :: RebateExport and w :: world
  assume "filed L path qs us (\<lambda>d. local_zip d (zip_path L path day)) lines self (store w)"
  then have c: "cached_in L path qs us lines self (store w)"
    and f: "local_zip (store w) (zip_path L path day) = Some lines"
    by (simp_all add: filed_def)
  then have p: "remoteFileZipPath self = path" by (simp add: cached_in_def)
  have m: "related (may_move L) qs (rows_now w)" using c by (auto simp: cached_in_def intro: listed_may_move)
  let ?w = "tick (tick w)"
  obtain r w' where u: "SFTPUploader_perform L (zip_path L path day) (stamped path day) ?w = (r, w')" by (cases "SFTPUploader_perform L (zip_path L path day) (stamped path day) ?w")
  from uploader_cases [OF assms(2) u] f
  have cases: "(\<exists>e. r = Inl e) \<and> rebates (store w') = rebates (store w) \<or>
      r = Inr () \<and> store w' = (store w)\<lparr>uploaded := us @ [(stamped path day, lines)]\<rparr>"
    using c by (auto simp: puts_def cached_in_def)
  show "case uploadToSFTP L (self, w) of
      (Inl e, (self', w')) \<Rightarrow> stopped L path qs us day self' (store w')
    | (Inr u, (self', w')) \<Rightarrow> sent L path qs us (listed L lines) day lines self' (store w')"
    using file_names(1,3) [OF assms(1), of self] p c u cases m
    by (auto simp: uploadToSFTP_def io_simps cached_in_def sent_def stopped_def waiting_def)
qed

lemma frames_reports:
  "frames (\<lambda>w. (rows_now w, sent_files w)) (UnfulfilledRebateReportCreate_perform L rebate)"
  "frames (\<lambda>w. (rows_now w, sent_files w)) (RebateJournalReportCreate_perform L rebate)"
  using frames_unfulfilled [of "\<lambda>d. (rebates d, uploaded d)"] frames_journal [of "\<lambda>d. (rebates d, uploaded d)"]
  by simp_all

text \<open>The steps after the upload, with any relation of the rebates to those at the start.\<close>

lemma journal_triple:
  "triple (\<lambda>(self, w). sent L path qs us (listed L lines) day lines self (store w)) (createJournalRecords L)
     (\<lambda>_ (self, w). sent L path qs us (listed L lines) day lines self (store w))
     (\<lambda>(self, w). stopped L path qs us day self (store w))"
proof -
  let ?P = "\<lambda>(self, w). sent L path qs us (listed L lines) day lines self (store w)"
  let ?E = "\<lambda>(self, w). stopped L path qs us day self (store w)"
  have read: "triple ?P (outside (getRebatesPendingExport L)) (\<lambda>_. ?P) ?E"
    unfolding getRebatesPendingExport_def
    by (rule triple_bystander [OF frames_comp [OF frames_findAll]]) (simp_all add: waiting_bystander sent_stopped)
  have loop: "triple ?P (outside (io_for xs (\<lambda>rebate. io_then
        (UnfulfilledRebateReportCreate_perform L (rebate\<lparr>rb_status := PendingFulfillment\<rparr>))
        (RebateJournalReportCreate_perform L (rebate\<lparr>rb_status := PendingFulfillment\<rparr>))))) (\<lambda>_. ?P) ?E" for xs
    by (rule triple_bystander) (intro frames_for frames_then frames_reports, simp_all add: waiting_bystander sent_stopped)
  show ?thesis
    unfolding createJournalRecords_def by (rule triple_bind [OF read loop])
qed

lemma update_triple:
  assumes ok: "ext_ok L"
  shows "triple (\<lambda>(self, w). sent L path qs us (listed L lines) day lines self (store w)) (updateExportedRebates L)
     (\<lambda>_ (self, w). sent L path qs us (delivered L lines) day lines self (store w))
     (\<lambda>(self, w). stopped L path qs us day self (store w))"
proof -
  have final: "triple (\<lambda>w. sent L path qs us (listed L lines) day lines self (store w)) (rebatesPendingExportEnd L)
     (\<lambda>_ w. sent L path qs us (delivered L lines) day lines self (store w))
     (\<lambda>w. stopped L path qs us day self (store w))" for self
    unfolding rebatesPendingExportEnd_def
  proof (rule triple_bind [OF triple_store [OF frames_now]])
    fix t
    show "triple (\<lambda>w. sent L path qs us (listed L lines) day lines self (store w))
      (io_bind (updateWhere RebateRepository L (\<lambda>r. rr_status r = ExtractionStarted)
          [RebateStatus PendingFulfillment, DeliveredAt t]) (\<lambda>raw. io_return (map show_nat (List.map_filter rr_id raw))))
      (\<lambda>_ w. sent L path qs us (delivered L lines) day lines self (store w))
      (\<lambda>w. stopped L path qs us day self (store w))"
    proof (rule triple_bind [OF triple_updateWhere [OF ok]])
      fix d rs
      assume s: "sent L path qs us (listed L lines) day lines self d"
        and m: "mset rs = mset (map (\<lambda>r. if rr_status r = ExtractionStarted then rebate_columns L
          (serializePartial RebateRepository [RebateStatus PendingFulfillment, DeliveredAt t] r) else r) (rebates d))"
      have "related (delivered L lines) qs rs"
      proof (rule related_map [OF _ m [unfolded serial_delivered]])
        show "related (listed L lines) qs (rebates d)" using s by (simp add: sent_def)
      qed (auto simp: listed_def delivered_def)
      with s show "sent L path qs us (delivered L lines) day lines self (d\<lparr>rebates := rs\<rparr>)"
        by (simp add: sent_def)
    qed (rule sent_stopped, assumption, rule triple_return)
  qed (rule sent_stopped)
  show ?thesis
    unfolding updateExportedRebates_def by (rule triple_outside) (simp add: final)
qed

lemma publish_triple:
  "triple (\<lambda>(self, w). sent L path qs us (delivered L lines) day lines self (store w)) (publishRebates L ids)
     (\<lambda>_ (self, w). sent L path qs us (delivered L lines) day lines self (store w))
     (\<lambda>(self, w). stopped L path qs us day self (store w))"
proof -
  have "frames (\<lambda>w. (rows_now w, sent_files w)) (Producer_dispatch L rebate)" for rebate
    using frames_dispatch [of "\<lambda>d. (rebates d, uploaded d)"] by simp
  then have "frames (\<lambda>w. (rows_now w, sent_files w)) (io_then (request (kafka_connect L))
      (io_for ids (\<lambda>rebateId. io_try (io_bind (findOrFail RebateRepository L rebateId) (Producer_dispatch L))
        (\<lambda>e. io_return ()))))"
    by (intro frames_then frames_for frames_try frames_bind frames_return frames_comp [OF frames_request]
        frames_comp [OF frames_findOrFail])
  then show ?thesis
    unfolding publishRebates_def
    by (rule triple_bystander) (auto simp: waiting_bystander stopped_def)
qed

lemma frames_details:
  "frames (\<lambda>w. (rows_now w, sent_files w)) (update ExportDetailsRepository L i ps)"
  using frames_update [of "\<lambda>d. (rebates d, uploaded d)" ExportDetailsRepository]
  by (simp add: ExportDetailsRepository_def)

lemma reset_triple:
  assumes ok: "ext_ok L"
  shows "triple (\<lambda>(self, w). stopped L path qs us day self (store w) \<and> \<not> uploadedToSFTP self)
    (outside (resetRebatesOnError L))
    (\<lambda>_ (self, w). stopped L path qs us day self (store w)) (\<lambda>(self, w). stopped L path qs us day self (store w))"
proof (rule triple_outside, unfold prod.case)
  fix self
  show "triple (\<lambda>w. stopped L path qs us day self (store w) \<and> \<not> uploadedToSFTP self) (resetRebatesOnError L)
    (\<lambda>_ w. stopped L path qs us day self (store w)) (\<lambda>w. stopped L path qs us day self (store w))"
    unfolding resetRebatesOnError_def
  proof (rule triple_then [OF triple_status_update [OF ok]])
    fix d rs
    assume s: "stopped L path qs us day self d \<and> \<not> uploadedToSFTP self"
      and m: "mset rs = mset (map (status_update L ExtractionStarted PendingExtraction) (rebates d))"
    then have "waiting L path qs us self d" by (auto simp: stopped_def sent_def)
    with reset_moves [OF ext_columns [OF ok] _ m]
    show "stopped L path qs us day self (d\<lparr>rebates := rs\<rparr>)" by (simp add: stopped_def waiting_def)
  qed (simp, rule triple_return)
qed

lemma end_triple:
  assumes ok: "ext_ok L"
  shows "triple (\<lambda>(self, w). stopped L path qs us day self (store w)) (recordExportEnd L result)
    (\<lambda>_ (self, w). stopped L path qs us day self (store w)) (\<lambda>(self, w). stopped L path qs us day self (store w))"
proof -
  let ?S = "\<lambda>(self, w). stopped L path qs us day self (store w)"
  have time: "triple ?S (outside (now L)) (\<lambda>_. ?S) ?S"
    by (rule triple_bystander [OF frames_comp [OF frames_now]]) (simp_all add: waiting_bystander)
  have flag: "triple ?S (field uploadedToSFTP) (\<lambda>b (self, w). stopped L path qs us day self (store w) \<and> uploadedToSFTP self = b) ?S"
    by (rule triple_field) simp
  have reset: "triple (\<lambda>(self, w). stopped L path qs us day self (store w) \<and> uploadedToSFTP self = b)
      (if result = Failed \<and> \<not> b then outside (resetRebatesOnError L) else io_return ()) (\<lambda>_. ?S) ?S" for b
  proof (rule triple_if)
    assume "result = Failed \<and> \<not> b"
    then show "triple (\<lambda>(self, w). stopped L path qs us day self (store w) \<and> uploadedToSFTP self = b)
      (outside (resetRebatesOnError L)) (\<lambda>_. ?S) ?S"
      using reset_triple [OF ok] by simp
  qed (rule triple_return, auto)
  have details: "triple ?S (field exportDetails) (\<lambda>_. ?S) ?S" by (rule triple_field) simp
  have finish: "triple ?S (case x of None \<Rightarrow> io_throw TypeError
      | Some x \<Rightarrow> outside (update ExportDetailsRepository L (id_text (td_id x)) [FinishedAt t, TransferStatusOf result]))
      (\<lambda>_. ?S) ?S" for x t
    by (rule triple_case_option)
      (rule triple_throw, simp, rule triple_bystander [OF frames_details], simp_all add: waiting_bystander)
  show ?thesis
    unfolding recordExportEnd_def
    by (rule triple_bind [OF time], rule triple_bind [OF flag], rule triple_then [OF reset],
        rule triple_bind [OF details finish])
qed

lemma export_stopped:
  assumes "ext_ok L" and "file_laws L" and "one_day L day"
  shows "triple (\<lambda>(self, w). self = new_RebateExport path \<and> rows_now w = qs \<and> sent_files w = us) (perform_export L)
    (\<lambda>_ (self, w). stopped L path qs us day self (store w)) (\<lambda>(self, w). stopped L path qs us day self (store w))"
proof -
  let ?S = "\<lambda>(self, w). stopped L path qs us day self (store w)"
  have steps: "triple (\<lambda>(self, w). cached_in L path qs us lines self (store w)) (export_steps L) (\<lambda>_. ?S) ?S" for lines
    unfolding export_steps_def
    by (rule triple_then [OF start_details_triple triple_then [OF csv_triple [OF assms(3)]
          triple_then [OF zip_triple [OF assms(3,2)] triple_then [OF upload_triple [OF assms(3,2)]
          triple_then [OF journal_triple triple_bind [OF update_triple [OF assms(1)]
          triple_then [OF publish_triple triple_pre [OF end_triple [OF assms(1)]]]]]]]]])
      (auto simp: stopped_def)
  have body: "triple (\<lambda>(self, w). self = new_RebateExport path \<and> rows_now w = qs \<and> sent_files w = us)
    (io_bind (rebatesToExport L) (\<lambda>lines. if 0 < length lines then export_steps L else io_return ())) (\<lambda>_. ?S) ?S"
  proof (rule triple_bind)
    show "triple (\<lambda>(self, w). self = new_RebateExport path \<and> rows_now w = qs \<and> sent_files w = us) (rebatesToExport L)
      (\<lambda>lines (self, w). cached_in L path qs us lines self (store w)) ?S"
      by (rule triple_conseq [OF start_triple [OF assms(1)]]) (auto simp: stopped_def)
    show "triple (\<lambda>(self, w). cached_in L path qs us lines self (store w))
      (if 0 < length lines then export_steps L else io_return ()) (\<lambda>_. ?S) ?S" for lines
      by (rule triple_if [OF steps triple_return]) (auto intro: cached_waiting)
  qed
  show ?thesis
    unfolding perform_export_def
    by (rule triple_try [OF body triple_then [OF end_triple [OF assms(1)] triple_throw]])
qed

end
