(* ===== verification/ExportDelivery.thy ===== *)
theory ExportDelivery
  imports ExportSafety Reliable
begin

text \<open>
  What an export does when every request is answered: every rebate that waits for it is in the file on the
  server, has its two Salesforce records and its event, and waits for its fulfillment.
\<close>

section \<open>What is assumed\<close>

definition healthy :: "ext \<Rightarrow> string \<Rightarrow> bool" where
  "healthy L day \<longleftrightarrow> ext_ok L \<and> reliable L \<and> file_laws L \<and> reliable_files L \<and> one_day L day"

text \<open>The rebates to export are rows of the table, and their criteria exist.\<close>

definition exportable :: "db \<Rightarrow> bool" where
  "exportable d \<longleftrightarrow>
     (\<forall>r\<in>set (rebates d). in_export (rr_status r) \<longrightarrow>
        rr_id r \<noteq> None \<and>
        (\<exists>c\<in>set (rebate_criteria d). cr_id c = tx_rebateCriteriaId (rr_qualifying_transaction r)))"

section \<open>The rebates read at the start\<close>

lemma deserialize_rebate: "rr_id r \<noteq> None \<Longrightarrow> \<exists>x. RebateSerializer_deserialize L r = Inr x"
  by (auto simp: RebateSerializer_deserialize_def)

lemma deserialized_rebate:
  assumes "RebateSerializer_deserialize L r = Inr x"
  shows "rb_qualifyingTransaction x = rr_qualifying_transaction r" and "rb_status x = rr_status r"
    and "rr_id r = Some k \<Longrightarrow> rb_id x = show_nat k" and "rr_id r \<noteq> None"
  using assms by (auto simp: RebateSerializer_deserialize_def split: option.splits)

lemma moved_fields [simp]:
  "rr_id (moved L r s t) = rr_id r"
  "rr_qualifying_transaction (moved L r s t) = rr_qualifying_transaction r"
  by (simp_all add: moved_def rebate_columns_def)

lemma status_update_fields [simp]:
  "rr_id (status_update L a b r) = rr_id r"
  "rr_qualifying_transaction (status_update L a b r) = rr_qualifying_transaction r"
  "rr_status (status_update L a b r) = (if rr_status r = a then b else rr_status r)"
  by (simp_all add: status_update_def)

lemma rebate_repository [simp]:
  "orm_of RebateRepository = rebates_orm" "rows_of RebateRepository = rebates"
  "put_rows RebateRepository rs d = d\<lparr>rebates := rs\<rparr>"
  "deserialize_with RebateRepository = RebateSerializer_deserialize"
  by (simp_all add: RebateRepository_def)

lemma start_delivers:
  assumes ok: "ext_ok L" and rel: "reliable L"
    and e: "\<And>r. r \<in> set (rows_now w) \<Longrightarrow> in_export (rr_status r) \<Longrightarrow> rr_id r \<noteq> None"
  obtains rs started xs w' where "rebatesPendingExportStart L w = (Inr (map (RebateExportSerializer_serialize L) xs), w')"
    and "store w' = (store w)\<lparr>rebates := rs\<rparr>"
    and "mset rs = mset (map (status_update L PendingExtraction ExtractionStarted) (rows_now w))"
    and "mset started = mset (filter (\<lambda>r. rr_status r = ExtractionStarted) rs)"
    and "map (RebateSerializer_deserialize L) started = map Inr xs"
proof -
  let ?u = "updateWhere RebateRepository L (\<lambda>r. rr_status r = PendingExtraction) [RebateStatus ExtractionStarted]"
  obtain us w1 rs where u: "?u w = (Inr us, w1)" "store w1 = (store w)\<lparr>rebates := rs\<rparr>"
    and "mset rs = mset (map (\<lambda>r. if rr_status r = PendingExtraction then rebate_columns L
      (serializePartial RebateRepository [RebateStatus ExtractionStarted] r) else r) (rows_now w))"
    by (rule rebate_table.updateWhere_reliable [where w = w and L = L and coerce = "rebate_columns L"
        and matches = "serial_matches rr_id" and v = "\<lambda>i. int_key i \<noteq> None" and ps = "[RebateStatus ExtractionStarted]"
        and p = "\<lambda>r. rr_status r = PendingExtraction"])
      (use rebates_updates [OF ok] reliable_rebates [OF rel] in simp_all)
  then have rs: "mset rs = mset (map (status_update L PendingExtraction ExtractionStarted) (rows_now w))"
    by (simp only: serial_status status_update_def [abs_def])
  have ids: "\<exists>x. RebateSerializer_deserialize L r = Inr x" if "r \<in> set rs" "rr_status r = ExtractionStarted" for r
  proof -
    from that(1) obtain q where "q \<in> set (rows_now w)" "r = status_update L PendingExtraction ExtractionStarted q"
      using mset_eq_set [OF rs] by auto
    with that(2) e [of q] have "rr_id r \<noteq> None" by (auto simp: in_export_def status_update_def split: if_splits)
    then show ?thesis by (rule deserialize_rebate)
  qed
  obtain started xs where f: "findAll RebateRepository L (\<lambda>r. rr_status r = ExtractionStarted) w1 = (Inr xs, tick w1)"
    "mset started = mset (filter (\<lambda>r. rr_status r = ExtractionStarted) rs)"
    "map (RebateSerializer_deserialize L) started = map Inr xs"
    by (rule findAll_reliable [where R = RebateRepository and w = w1 and L = L and matches = "serial_matches rr_id"
        and v = "\<lambda>i. int_key i \<noteq> None" and p = "\<lambda>r. rr_status r = ExtractionStarted"])
      (use rebates_reads [OF ok] reliable_rebates [OF rel] ids u(2) in simp_all)
  show thesis
    by (rule that [of xs "tick w1" rs started]) (use u f rs in \<open>simp_all add: rebatesPendingExportStart_def io_simps\<close>)
qed

section \<open>The identifiers of rows\<close>

definition row_ids :: "RebateRecord list \<Rightarrow> string list" where
  "row_ids rs = map show_nat (List.map_filter rr_id rs)"

lemma row_ids_deserialized: "map (RebateSerializer_deserialize L) rs = map Inr xs \<Longrightarrow> map rb_id xs = row_ids rs"
proof (induction rs arbitrary: xs)
  case Nil
  then show ?case by (simp add: row_ids_def List.map_filter_def)
next
  case (Cons r rs)
  then obtain x ys where xs: "xs = x # ys" "RebateSerializer_deserialize L r = Inr x"
    "map (RebateSerializer_deserialize L) rs = map Inr ys" by (cases xs) auto
  moreover obtain k where "rr_id r = Some k" using deserialized_rebate(4) [OF xs(2)] by blast
  moreover from deserialized_rebate(3) [OF xs(2) this] have "rb_id x = show_nat k" .
  ultimately show ?case using Cons.IH [OF xs(3)] by (simp add: row_ids_def List.map_filter_def)
qed

lemma row_ids_mset: "mset rs = mset (map f qs) \<Longrightarrow> (\<And>r. rr_id (f r) = rr_id r) \<Longrightarrow> mset (row_ids rs) = mset (row_ids qs)"
proof -
  assume m: "mset rs = mset (map f qs)" and f: "\<And>r. rr_id (f r) = rr_id r"
  have ids: "mset (row_ids qs) = image_mset (\<lambda>i. show_nat (the i)) (filter_mset (\<lambda>i. i \<noteq> None) (image_mset rr_id (mset qs)))"
    for qs by (induction qs) (auto simp: row_ids_def List.map_filter_def)
  have "image_mset rr_id (mset rs) = image_mset rr_id (mset qs)"
    unfolding m by (simp add: image_mset.compositionality comp_def f)
  then show ?thesis by (simp only: ids)
qed

section \<open>The two Salesforce records\<close>

lemma criteria_reliable:
  assumes "ext_ok L" and "reliable L"
    and "\<exists>c\<in>set (rebate_criteria (store w)). cr_id c = tx_rebateCriteriaId (rb_qualifyingTransaction x)"
  obtains c where "report_criteria L x w = (Inr c, tick w)"
proof -
  obtain q where q: "q \<in> set (rebate_criteria (store w))" "cr_id q = tx_rebateCriteriaId (rb_qualifyingTransaction x)"
    using assms(3) by blast
  obtain r c where "find RebateCriteriaRepository L (tx_rebateCriteriaId (rb_qualifyingTransaction x)) w = (Inr (Some c), tick w)"
    by (rule find_reliable [where R = RebateCriteriaRepository and L = L and w = w and q = q
        and matches = "\<lambda>i r. cr_id r = i" and v = "\<lambda>_. True" and i = "tx_rebateCriteriaId (rb_qualifyingTransaction x)"])
      (use criteria_reads [OF assms(1)] reliable_criteria [OF assms(2)] q in
        \<open>simp_all add: RebateCriteriaRepository_def RebateCriteriaSerializer_deserialize_def Let_def\<close>)
  then show thesis by (intro that) (simp add: report_criteria_def io_simps)
qed

definition record_key :: "UnfulfilledRebateRecord \<Rightarrow> string \<times> TransactionStatus" where
  "record_key r = (nr_rebate_transaction_id__c r, nr_rebate_status_v3__c r)"

definition journal_key :: "RebateJournalRecord \<Rightarrow> string \<times> TransactionStatus" where
  "journal_key r = (jr_rebate_transaction_id__c r, jr_rebate_status_v3__c r)"

lemma unfulfilled_reliable:
  assumes "ext_ok L" and "reliable L"
    and "\<exists>c\<in>set (rebate_criteria (store w)). cr_id c = tx_rebateCriteriaId (rb_qualifyingTransaction x)"
  obtains w' us where "UnfulfilledRebateReportCreate_perform L x w = (Inr (), w')"
    and "store w' = (store w)\<lparr>unfulfilled_reports := us\<rparr>"
    and "mset (map record_key us) =
      add_mset (rb_id x, rb_status x) (mset (map record_key (unfulfilled_reports (store w))))"
proof -
  obtain c where c: "report_criteria L x w = (Inr c, tick w)" using criteria_reliable [OF assms] .
  let ?R = UnfilfilledRebateReportRepository and ?row = "UnfulfilledRebateSerializer_serialize (unfulfilled_report x c)"
  have key: "record_key (?row\<lparr>nr_id := k\<rparr>) = (rb_id x, rb_status x)" for k
    by (simp add: record_key_def UnfulfilledRebateSerializer_serialize_def unfulfilled_report_def Let_def)
  have none: "nr_id ?row = None"
    by (simp add: UnfulfilledRebateSerializer_serialize_def unfulfilled_report_def Let_def)
  obtain k y w' us where "insert ?R L (unfulfilled_report x c) (tick w) = (Inr y, w')"
    "store w' = put_rows ?R us (store (tick w))"
    "mset us = add_mset (?row\<lparr>nr_id := Some k\<rparr>) (mset (rows_of ?R (store (tick w))))"
    by (rule unfulfilled_table.insert_reliable [where L = L and w = "tick w" and x = "unfulfilled_report x c"
        and key = nr_id and with_key = "\<lambda>k r. r\<lparr>nr_id := Some k\<rparr>" and coerce = "\<lambda>r. r" and v = "\<lambda>i. int_key i \<noteq> None"])
      (use unfulfilled_saves [OF assms(1)] reliable_unfulfilled [OF assms(2)] none in
        \<open>simp_all add: UnfilfilledRebateReportRepository_def UnfulfilledRebateSerializer_deserialize_def\<close>)
  with c key show thesis
    by (intro that [of w' us])
      (simp_all add: UnfulfilledRebateReportCreate_perform_def io_simps UnfilfilledRebateReportRepository_def)
qed

text \<open>The rows that are not of \<open>js\<close> have keys.\<close>

definition numbered_beside :: "RebateJournalRecord list \<Rightarrow> RebateJournalRecord list \<Rightarrow> bool" where
  "numbered_beside js js' \<longleftrightarrow> (\<forall>j\<in>set js'. j \<in> set js \<or> jr_id j \<noteq> None)"

lemma numbered_beside_refl: "numbered_beside js js"
  by (simp add: numbered_beside_def)

lemma numbered_beside_trans: "numbered_beside js js1 \<Longrightarrow> numbered_beside js1 js2 \<Longrightarrow> numbered_beside js js2"
  unfolding numbered_beside_def by blast

lemma numbered_beside_new: "mset js' = add_mset j (mset js) \<Longrightarrow> jr_id j \<noteq> None \<Longrightarrow> numbered_beside js js'"
  by (drule arg_cong [of _ _ set_mset]) (simp add: numbered_beside_def)

lemma journal_reliable:
  assumes "ext_ok L" and "reliable L"
    and "\<exists>c\<in>set (rebate_criteria (store w)). cr_id c = tx_rebateCriteriaId (rb_qualifyingTransaction x)"
  obtains w' js where "RebateJournalReportCreate_perform L x w = (Inr (), w')"
    and "store w' = (store w)\<lparr>rebate_journal := js\<rparr>"
    and "mset (map journal_key js) =
      add_mset (rb_id x, rb_status x) (mset (map journal_key (rebate_journal (store w))))"
    and "numbered_beside (rebate_journal (store w)) js"
proof -
  obtain c where c: "report_criteria L x w = (Inr c, tick w)" using criteria_reliable [OF assms] .
  let ?code = "tx_productCodeExternal (rb_qualifyingTransaction x)"
  let ?w = "tick (tick w)"
  obtain ps where p: "getProductSfIdFromProductCode L ?code ?w = (Inr ps, tick ?w)"
  proof -
    have "orm_reads (\<lambda>i r. int_key i = Some (prr_id r)) (orm_of ProductRepository L)"
      using assms(1) by (simp add: ext_ok_def ProductRepository_def)
    then obtain rs xs where "findAll ProductRepository L
        (\<lambda>r. prr_product_code_external__c r = ?code \<and> \<not> prr_isdeleted r) ?w = (Inr xs, tick ?w)"
      by (rule findAll_reliable [where v = "\<lambda>_. True"])
        (use reliable_products [OF assms(2)] in \<open>simp_all add: ProductRepository_def ProductSerializer_deserialize_def\<close>)
    then show thesis
      by (cases xs) (auto simp: getProductSfIdFromProductCode_def getProductFromProductCodeExternal_def io_simps
          intro: that)
  qed
  let ?R = RebateJournalReportRepository and ?x = "journal_report x c (clock L (calls (tick w))) ps"
  let ?row = "RebateJournalSerializer_serialize ?x"
  have key: "journal_key (?row\<lparr>jr_id := k\<rparr>) = (rb_id x, rb_status x)" for k
    by (simp add: journal_key_def RebateJournalSerializer_serialize_def journal_report_def Let_def)
  have none: "jr_id ?row = None"
    by (simp add: RebateJournalSerializer_serialize_def journal_report_def Let_def)
  obtain k y w' js where "insert ?R L ?x (tick ?w) = (Inr y, w')"
    "store w' = put_rows ?R js (store (tick ?w))"
    "mset js = add_mset (?row\<lparr>jr_id := Some k\<rparr>) (mset (rows_of ?R (store (tick ?w))))"
    by (rule journal_table.insert_reliable [where L = L and w = "tick ?w" and x = ?x
        and key = jr_id and with_key = "\<lambda>k r. r\<lparr>jr_id := Some k\<rparr>" and coerce = "\<lambda>r. r" and v = "\<lambda>i. int_key i \<noteq> None"])
      (use journal_saves [OF assms(1)] reliable_journal [OF assms(2)] none in
        \<open>simp_all add: RebateJournalReportRepository_def RebateJournalSerializer_deserialize_def\<close>)
  with c p key show thesis
    by (intro that [of w' js] numbered_beside_new [where j = "?row\<lparr>jr_id := Some k\<rparr>"])
      (simp_all add: RebateJournalReportCreate_perform_def io_simps RebateJournalReportRepository_def)
qed

abbreviation write_records :: "ext \<Rightarrow> IRebate \<Rightarrow> unit action" where
  "write_records L rebate \<equiv> io_then
     (UnfulfilledRebateReportCreate_perform L (rebate\<lparr>rb_status := PendingFulfillment\<rparr>))
     (RebateJournalReportCreate_perform L (rebate\<lparr>rb_status := PendingFulfillment\<rparr>))"

lemma records_reliable:
  assumes "ext_ok L" and "reliable L"
    and "\<forall>x\<in>set xs. \<exists>c\<in>set (rebate_criteria (store w)). cr_id c = tx_rebateCriteriaId (rb_qualifyingTransaction x)"
  shows "\<exists>w' us js. io_for xs (write_records L) w = (Inr (), w') \<and>
    store w' = (store w)\<lparr>unfulfilled_reports := us, rebate_journal := js\<rparr> \<and>
    mset (map record_key us) = mset (map (\<lambda>x. (rb_id x, PendingFulfillment)) xs) +
      mset (map record_key (unfulfilled_reports (store w))) \<and>
    mset (map journal_key js) = mset (map (\<lambda>x. (rb_id x, PendingFulfillment)) xs) +
      mset (map journal_key (rebate_journal (store w))) \<and>
    numbered_beside (rebate_journal (store w)) js"
  using assms(3)
proof (induction xs arbitrary: w)
  case Nil
  show ?case
    by (rule exI [of _ w], rule exI [of _ "unfulfilled_reports (store w)"], rule exI [of _ "rebate_journal (store w)"])
      (simp add: numbered_beside_refl)
next
  case (Cons x xs)
  let ?x = "x\<lparr>rb_status := PendingFulfillment\<rparr>"
  have c: "\<exists>c\<in>set (rebate_criteria (store w)). cr_id c = tx_rebateCriteriaId (rb_qualifyingTransaction ?x)"
    using Cons.prems by simp
  obtain w1 us1 where 1: "UnfulfilledRebateReportCreate_perform L ?x w = (Inr (), w1)"
    "store w1 = (store w)\<lparr>unfulfilled_reports := us1\<rparr>"
    "mset (map record_key us1) = add_mset (rb_id ?x, rb_status ?x) (mset (map record_key (unfulfilled_reports (store w))))"
    using unfulfilled_reliable [OF assms(1,2) c] .
  have c1: "\<exists>c\<in>set (rebate_criteria (store w1)). cr_id c = tx_rebateCriteriaId (rb_qualifyingTransaction ?x)"
    using c 1(2) by simp
  obtain w2 js1 where 2: "RebateJournalReportCreate_perform L ?x w1 = (Inr (), w2)"
    "store w2 = (store w1)\<lparr>rebate_journal := js1\<rparr>"
    "mset (map journal_key js1) = add_mset (rb_id ?x, rb_status ?x) (mset (map journal_key (rebate_journal (store w1))))"
    "numbered_beside (rebate_journal (store w1)) js1"
    using journal_reliable [OF assms(1,2) c1] .
  have "\<forall>x\<in>set xs. \<exists>c\<in>set (rebate_criteria (store w2)). cr_id c = tx_rebateCriteriaId (rb_qualifyingTransaction x)"
    using Cons.prems 1(2) 2(2) by simp
  from Cons.IH [OF this] obtain w3 us js where 3: "io_for xs (write_records L) w2 = (Inr (), w3)"
    "store w3 = (store w2)\<lparr>unfulfilled_reports := us, rebate_journal := js\<rparr>"
    "mset (map record_key us) = mset (map (\<lambda>x. (rb_id x, PendingFulfillment)) xs) +
      mset (map record_key (unfulfilled_reports (store w2)))"
    "mset (map journal_key js) = mset (map (\<lambda>x. (rb_id x, PendingFulfillment)) xs) +
      mset (map journal_key (rebate_journal (store w2)))"
    "numbered_beside (rebate_journal (store w2)) js" by blast
  have "io_for (x # xs) (write_records L) w = (Inr (), w3)"
    using 1(1) 2(1) 3(1) by (simp add: io_then_apply)
  moreover have "store w3 = (store w)\<lparr>unfulfilled_reports := us, rebate_journal := js\<rparr>"
    using 1(2) 2(2) 3(2) by simp
  moreover have "numbered_beside (rebate_journal (store w)) js"
    using numbered_beside_trans [OF 2(4), of js] 1(2) 2(2) 3(5) by simp
  ultimately show ?case using 1 2 3 by (intro exI [of _ w3] exI [of _ us] exI [of _ js] conjI) simp_all
qed

section \<open>The events\<close>

lemma publish_reliable:
  assumes "ext_ok L" and "reliable L" and "reliable_files L"
    and "set ids \<subseteq> set (row_ids (rows_now w))"
  shows "\<exists>w' es. io_for ids (\<lambda>i. io_try (io_bind (findOrFail RebateRepository L i) (Producer_dispatch L))
      (\<lambda>e. io_return ())) w = (Inr (), w') \<and> store w' = (store w)\<lparr>published := published (store w) @ es\<rparr> \<and>
    map pl_id es = ids"
  using assms(4)
proof (induction ids arbitrary: w)
  case Nil
  show ?case by (rule exI [of _ w], rule exI [of _ "[]"]) simp
next
  case (Cons i ids)
  obtain q k where q: "q \<in> set (rows_now w)" "rr_id q = Some k" "i = show_nat k"
    using Cons.prems by (auto simp: row_ids_def List.map_filter_def)
  obtain r x where f: "find RebateRepository L i w = (Inr (Some x), tick w)" "serial_matches rr_id i r"
    "RebateSerializer_deserialize L r = Inr x"
    by (rule find_reliable [where R = RebateRepository and L = L and w = w and i = i and q = q
        and matches = "serial_matches rr_id" and v = "\<lambda>i. int_key i \<noteq> None"])
      (use rebates_reads [OF assms(1)] reliable_rebates [OF assms(2)] q in
        \<open>auto simp: serial_matches_def intro!: deserialize_rebate\<close>)
  have x: "rb_id x = i" using deserialized_rebate(3) [OF f(3)] f(2) q(3) by simp
  let ?e = "buildRebateEvent x"
  let ?w = "(tick (tick w))\<lparr>store := (store w)\<lparr>published := published (store w) @ [?e]\<rparr>\<rparr>"
  have step: "io_try (io_bind (findOrFail RebateRepository L i) (Producer_dispatch L)) (\<lambda>e. io_return ()) w = (Inr (), ?w)"
    using f(1) assms(3)
    by (simp add: findOrFail_def io_simps Producer_dispatch_def Let_def reliable_files_def)
  have "set ids \<subseteq> set (row_ids (rows_now ?w))" using Cons.prems by simp
  from Cons.IH [OF this] obtain w' es where "io_for ids (\<lambda>i. io_try (io_bind (findOrFail RebateRepository L i)
      (Producer_dispatch L)) (\<lambda>e. io_return ())) ?w = (Inr (), w')"
    and "store w' = (store ?w)\<lparr>published := published (store ?w) @ es\<rparr>" and "map pl_id es = ids" by blast
  moreover have "io_for (i # ids) (\<lambda>i. io_try (io_bind (findOrFail RebateRepository L i) (Producer_dispatch L))
      (\<lambda>e. io_return ())) w = io_for ids (\<lambda>i. io_try (io_bind (findOrFail RebateRepository L i)
      (Producer_dispatch L)) (\<lambda>e. io_return ())) ?w"
    unfolding io_for.simps by (rule io_then_Inr, rule step)
  ultimately show ?case
    using x by (intro exI [of _ w'] exI [of _ "?e # es"]) (simp only:, simp add: buildRebateEvent_def)
qed

section \<open>The record of the export\<close>

definition details_row :: "nat option \<Rightarrow> date \<Rightarrow> date option \<Rightarrow> TransferStatus \<Rightarrow> nat \<Rightarrow> ExportDetailsRecord" where
  "details_row k start finish status n =
     \<lparr>ed_id = k, ed_started_at = start, ed_finished_at = finish, ed_status = status, ed_number_of_items = Some n\<rparr>"

lemma start_details_reliable:
  assumes "ext_ok L" and "reliable L" and "cachedRebates self = Some lines"
  obtains k t x w' es where "recordExportStart L (self, w) = (Inr (), (self\<lparr>exportDetails := Some x\<rparr>, w'))"
    and "store w' = (store w)\<lparr>export_details := es\<rparr>" and "td_id x = Some k"
    and "mset es = add_mset (details_row (Some k) t None InProgress (length lines)) (mset (export_details (store w)))"
    and "\<forall>r\<in>set (export_details (store w)). ed_id r \<noteq> Some k"
proof -
  let ?R = ExportDetailsRepository and ?t = "clock L (calls w)"
  let ?x = "\<lparr>td_id = None, td_startedAt = ?t, td_finishedAt = None, td_status = InProgress, td_numberOfItems = Some (length lines)\<rparr>"
  let ?row = "ExportDetailsSerializer_serialize ?x"
  have row: "?row\<lparr>ed_id := k\<rparr> = details_row k ?t None InProgress (length lines)" for k
    by (simp add: ExportDetailsSerializer_serialize_def details_row_def)
  obtain k y w' es where "insert ?R L ?x (tick w) = (Inr y, w')" "store w' = put_rows ?R es (store (tick w))"
    "mset es = add_mset (?row\<lparr>ed_id := Some k\<rparr>) (mset (rows_of ?R (store (tick w))))"
    "\<forall>r\<in>set (rows_of ?R (store (tick w))). ed_id r \<noteq> Some k"
    "deserialize_with ?R L (?row\<lparr>ed_id := Some k\<rparr>) = Inr y"
    by (rule export_details_table.insert_reliable [where L = L and w = "tick w" and x = ?x
        and key = ed_id and with_key = "\<lambda>k r. r\<lparr>ed_id := Some k\<rparr>" and coerce = "\<lambda>r. r" and v = "\<lambda>i. int_key i \<noteq> None"])
      (use export_details_saves [OF assms(1)] reliable_export_details [OF assms(2)] in
        \<open>simp_all add: ExportDetailsRepository_def ExportDetailsSerializer_serialize_def
          ExportDetailsSerializer_deserialize_def\<close>)
  with assms(3) row show thesis
    by (intro that [of y w' es k ?t])
      (auto simp: recordExportStart_def getTotal_def cached_rebates_def io_simps ExportDetailsRepository_def
        ExportDetailsSerializer_deserialize_def ExportDetailsSerializer_serialize_def details_row_def)
qed

lemma end_details_reliable:
  assumes "ext_ok L" and "reliable L" and "exportDetails self = Some x" and "td_id x = Some k"
    and "mset (export_details (store w)) = add_mset (details_row (Some k) t None InProgress n) (mset old)"
    and "\<forall>r\<in>set old. ed_id r \<noteq> Some k"
  obtains t' w' es where "recordExportEnd L Complete (self, w) = (Inr (), (self, w'))"
    and "store w' = (store w)\<lparr>export_details := es\<rparr>"
    and "mset es = add_mset (details_row (Some k) t (Some t') Complete n) (mset old)"
proof -
  let ?R = ExportDetailsRepository and ?t = "clock L (calls w)"
  let ?ps = "[FinishedAt ?t, TransferStatusOf Complete]"
  let ?f = "\<lambda>r. if ed_id r = Some k then r\<lparr>ed_finished_at := Some ?t, ed_status := Complete\<rparr> else r"
  obtain w' es where u: "update ?R L (show_nat k) ?ps (tick w) = (Inr (), w')"
    "store w' = put_rows ?R es (store (tick w))"
    "mset es = mset (map (\<lambda>r. if serial_matches ed_id (show_nat k) r then serializePartial ?R ?ps r else r)
      (rows_of ?R (store (tick w))))"
    by (rule export_details_table.update_reliable [where L = L and w = "tick w" and i = "show_nat k"
        and matches = "serial_matches ed_id" and coerce = "\<lambda>r. r" and v = "\<lambda>i. int_key i \<noteq> None" and ps = ?ps])
      (use export_details_updates [OF assms(1)] reliable_export_details [OF assms(2)] in
        \<open>simp_all add: ExportDetailsRepository_def\<close>)
  have "serializePartial ?R ?ps r = r\<lparr>ed_finished_at := Some ?t, ed_status := Complete\<rparr>" for r
    by (simp add: serializePartial_def ExportDetailsRepository_def)
  then have "mset es = image_mset ?f (mset (export_details (store w)))"
    using u(3) by (simp only: serial_matches_show_nat mset_map store_tick) (simp add: ExportDetailsRepository_def)
  also have "\<dots> = add_mset (?f (details_row (Some k) t None InProgress n)) (image_mset ?f (mset old))"
    unfolding assms(5) by simp
  also have "image_mset ?f (mset old) = mset old"
    using assms(6) image_mset_cong [of "mset old" ?f "\<lambda>r. r"] by simp
  finally have "mset es = add_mset (details_row (Some k) t (Some ?t) Complete n) (mset old)"
    by (simp add: details_row_def)
  with u(1,2) assms(3,4) show thesis
    by (intro that [of w' es ?t]) (simp_all add: recordExportEnd_def io_simps ExportDetailsRepository_def)
qed

section \<open>The run\<close>

definition deliver :: "ext \<Rightarrow> date \<Rightarrow> RebateRecord \<Rightarrow> RebateRecord" where
  "deliver L t r = (if in_export (rr_status r) then moved L r PendingFulfillment (Some t) else r)"

definition waiting_rows :: "db \<Rightarrow> RebateRecord list" where
  "waiting_rows d = filter (\<lambda>r. in_export (rr_status r)) (rebates d)"

text \<open>
  What one export makes of the database \<open>d\<close>, of which \<open>name\<close> is the name of the remote file.
\<close>

definition export_of :: "ext \<Rightarrow> string \<Rightarrow> db \<Rightarrow> db \<Rightarrow> bool" where
  "export_of L name d d' \<longleftrightarrow>
     (\<exists>t started xs k t0 t1.
        mset (rebates d') = mset (map (deliver L t) (rebates d)) \<and>
        mset started = mset (map (status_update L PendingExtraction ExtractionStarted) (waiting_rows d)) \<and>
        map (RebateSerializer_deserialize L) started = map Inr xs \<and>
        uploaded d' = uploaded d @ [(name, map (RebateExportSerializer_serialize L) xs)] \<and>
        mset (map record_key (unfulfilled_reports d')) =
          mset (map (\<lambda>i. (i, PendingFulfillment)) (row_ids (waiting_rows d))) + mset (map record_key (unfulfilled_reports d)) \<and>
        mset (map journal_key (rebate_journal d')) =
          mset (map (\<lambda>i. (i, PendingFulfillment)) (row_ids (waiting_rows d))) + mset (map journal_key (rebate_journal d)) \<and>
        numbered_beside (rebate_journal d) (rebate_journal d') \<and>
        mset (map pl_id (published d')) = mset (map pl_id (published d)) + mset (row_ids (waiting_rows d)) \<and>
        mset (export_details d') =
          add_mset (details_row (Some k) t0 (Some t1) Complete (length (waiting_rows d))) (mset (export_details d)) \<and>
        d' = d\<lparr>rebates := rebates d', uploaded := uploaded d', unfulfilled_reports := unfulfilled_reports d',
          rebate_journal := rebate_journal d', published := published d', export_details := export_details d',
          local_csv := local_csv d', local_zip := local_zip d'\<rparr>)"

lemma started_rows:
  assumes "mset rs = mset (map (status_update L PendingExtraction ExtractionStarted) qs)"
  shows "mset (filter (\<lambda>r. rr_status r = ExtractionStarted) rs) =
    mset (map (status_update L PendingExtraction ExtractionStarted) (filter (\<lambda>r. in_export (rr_status r)) qs))"
proof -
  have "mset (filter (\<lambda>r. rr_status r = ExtractionStarted) rs) =
    filter_mset (\<lambda>r. rr_status r = ExtractionStarted) (mset (map (status_update L PendingExtraction ExtractionStarted) qs))"
    unfolding assms [symmetric] by simp
  also have "\<dots> = mset (map (status_update L PendingExtraction ExtractionStarted) (filter (\<lambda>r. in_export (rr_status r)) qs))"
    by (induction qs) (auto simp: in_export_def)
  finally show ?thesis .
qed

lemma deliver_started:
  assumes "column_laws L"
  shows "(if rr_status (status_update L PendingExtraction ExtractionStarted r) = ExtractionStarted
      then moved L (status_update L PendingExtraction ExtractionStarted r) PendingFulfillment (Some t)
      else status_update L PendingExtraction ExtractionStarted r) = deliver L t r"
  by (auto simp: deliver_def status_update_def in_export_def moved_moved [OF assms])

lemma exportable_started:
  assumes "exportable d" and "mset started = mset (map (status_update L PendingExtraction ExtractionStarted) (waiting_rows d))"
    and "map (RebateSerializer_deserialize L) started = map Inr xs" and "x \<in> set xs"
  shows "\<exists>c\<in>set (rebate_criteria d). cr_id c = tx_rebateCriteriaId (rb_qualifyingTransaction x)"
proof -
  have "Inr x \<in> set (map (RebateSerializer_deserialize L) started)" using assms(3,4) by simp
  then obtain r where r: "r \<in> set started" "RebateSerializer_deserialize L r = Inr x" by auto
  then obtain q where "q \<in> set (waiting_rows d)" "r = status_update L PendingExtraction ExtractionStarted q"
    using mset_eq_set [OF assms(2)] by auto
  with assms(1) deserialized_rebate(1) [OF r(2)] show ?thesis by (auto simp: exportable_def waiting_rows_def)
qed

lemma files_reliable:
  assumes "healthy L day" and "cachedRebates self = Some lines"
  obtains w1 w2 w3 c z where "generateCSV L (self, w) = (Inr (), (self, w1))"
    and "generateZip L (self, w1) = (Inr (), (self, w2))"
    and "uploadToSFTP L (self, w2) = (Inr (), (self\<lparr>uploadedToSFTP := True\<rparr>, w3))"
    and "store w3 = (store w)\<lparr>local_csv := c, local_zip := z,
      uploaded := uploaded (store w) @ [(stamped (remoteFileZipPath self) day, lines)]\<rparr>"
proof -
  let ?p = "remoteFileZipPath self"
  have files: "file_laws L" "reliable_files L" "one_day L day" using assms(1) by (simp_all add: healthy_def)
  note names = file_names [OF files(3), of self]
  let ?c = "(local_csv (store w))(csv_path L ?p day \<mapsto> lines)"
  let ?w1 = "(tick (tick (tick w)))\<lparr>store := (store w)\<lparr>local_csv := ?c\<rparr>\<rparr>"
  have 1: "generateCSV L (self, w) = (Inr (), (self, ?w1))"
    using names assms(2) files(2)
    by (simp add: generateCSV_def cached_rebates_def CSVGenerator_perform_def io_simps reliable_files_def)
  let ?z = "(local_zip (store w))(zip_path L ?p day \<mapsto> lines)"
  let ?w2 = "(tick (tick (tick ?w1)))\<lparr>store := (store w)\<lparr>local_csv := ?c, local_zip := ?z\<rparr>\<rparr>"
  have 2: "generateZip L (self, ?w1) = (Inr (), (self, ?w2))"
    using names files(2)
    by (simp add: generateZip_def ZipGenerator_perform_def io_simps reliable_files_def)
  have z: "local_zip (store (tick (tick ?w2))) (zip_path L ?p day) = Some lines" by simp
  obtain w3 where u: "SFTPUploader_perform L (zip_path L ?p day) (stamped ?p day) (tick (tick ?w2)) = (Inr (), w3)"
    using uploader_reliable [OF files(2) z] by blast
  from uploader_cases [OF files(1) u] z
  have "store w3 = (store w)\<lparr>local_csv := ?c, local_zip := ?z, uploaded := uploaded (store w) @ [(stamped ?p day, lines)]\<rparr>"
    by (auto simp: puts_def)
  moreover have "uploadToSFTP L (self, ?w2) = (Inr (), (self\<lparr>uploadedToSFTP := True\<rparr>, w3))"
    using names u by (simp add: uploadToSFTP_def io_simps)
  ultimately show thesis using that [OF 1 2] by blast
qed

lemma journals_reliable:
  assumes h: "healthy L day" and e: "exportable d"
    and d: "rebate_criteria (store w) = rebate_criteria d"
    and m: "mset (filter (\<lambda>r. rr_status r = ExtractionStarted) (rows_now w)) =
      mset (map (status_update L PendingExtraction ExtractionStarted) (waiting_rows d))"
  obtains w' us js where "createJournalRecords L (self, w) = (Inr (), (self, w'))"
    and "store w' = (store w)\<lparr>unfulfilled_reports := us, rebate_journal := js\<rparr>"
    and "mset (map record_key us) = mset (map (\<lambda>i. (i, PendingFulfillment)) (row_ids (waiting_rows d))) +
      mset (map record_key (unfulfilled_reports (store w)))"
    and "mset (map journal_key js) = mset (map (\<lambda>i. (i, PendingFulfillment)) (row_ids (waiting_rows d))) +
      mset (map journal_key (rebate_journal (store w)))"
    and "numbered_beside (rebate_journal (store w)) js"
proof -
  have ok: "ext_ok L" and rel: "reliable L" using h by (simp_all add: healthy_def)
  let ?S = "\<lambda>r. rr_status r = ExtractionStarted"
  have total: "\<exists>x. RebateSerializer_deserialize L r = Inr x" if "r \<in> set (rows_now w)" "?S r" for r
  proof -
    have "r \<in> set (filter ?S (rows_now w))" using that by simp
    then obtain q where "q \<in> set (waiting_rows d)" "r = status_update L PendingExtraction ExtractionStarted q"
      using mset_eq_set [OF m] by auto
    with e have "rr_id r \<noteq> None" by (auto simp: exportable_def waiting_rows_def)
    then show ?thesis by (rule deserialize_rebate)
  qed
  obtain rs xs where f: "findAll RebateRepository L ?S w = (Inr xs, tick w)"
    "mset rs = mset (filter ?S (rows_now w))" "map (RebateSerializer_deserialize L) rs = map Inr xs"
    by (rule findAll_reliable [where R = RebateRepository and w = w and L = L and matches = "serial_matches rr_id"
        and v = "\<lambda>i. int_key i \<noteq> None" and p = ?S])
      (use rebates_reads [OF ok] reliable_rebates [OF rel] total in simp_all)
  note started = f(2) [unfolded m]
  have "\<forall>x\<in>set xs. \<exists>c\<in>set (rebate_criteria (store (tick w))). cr_id c = tx_rebateCriteriaId (rb_qualifyingTransaction x)"
    using exportable_started [OF e started f(3)] d by simp
  from records_reliable [OF ok rel this] obtain w' us js where r: "io_for xs (write_records L) (tick w) = (Inr (), w')"
    "store w' = (store (tick w))\<lparr>unfulfilled_reports := us, rebate_journal := js\<rparr>"
    "mset (map record_key us) = mset (map (\<lambda>x. (rb_id x, PendingFulfillment)) xs) +
      mset (map record_key (unfulfilled_reports (store (tick w))))"
    "mset (map journal_key js) = mset (map (\<lambda>x. (rb_id x, PendingFulfillment)) xs) +
      mset (map journal_key (rebate_journal (store (tick w))))"
    "numbered_beside (rebate_journal (store (tick w))) js" by blast
  have "mset (map rb_id xs) = mset (row_ids (waiting_rows d))"
    unfolding row_ids_deserialized [OF f(3)] by (rule row_ids_mset [OF started]) simp
  then have "image_mset (\<lambda>i. (i, PendingFulfillment)) (mset (map rb_id xs)) =
      image_mset (\<lambda>i. (i, PendingFulfillment)) (mset (row_ids (waiting_rows d)))" by (rule arg_cong)
  then have k: "mset (map (\<lambda>x. (rb_id x, PendingFulfillment)) xs) =
      mset (map (\<lambda>i. (i, PendingFulfillment)) (row_ids (waiting_rows d)))"
    by (simp add: image_mset.compositionality comp_def)
  have "createJournalRecords L (self, w) = (Inr (), (self, w'))"
    using f(1) r(1) by (simp add: createJournalRecords_def getRebatesPendingExport_def io_bind_apply outside_apply)
  with r(2) show thesis using r(3,4) [unfolded k] r(5) by (intro that [of w' js us]) simp_all
qed

lemma ends_reliable:
  assumes h: "healthy L day"
    and m: "mset (rows_now w) = mset (map (status_update L PendingExtraction ExtractionStarted) (rebates d))"
  obtains t w' rs ids where "updateExportedRebates L (self, w) = (Inr ids, (self, w'))"
    and "store w' = (store w)\<lparr>rebates := rs\<rparr>" and "mset rs = mset (map (deliver L t) (rebates d))"
    and "mset ids = mset (row_ids (waiting_rows d))" and "set ids \<subseteq> set (row_ids rs)"
proof -
  have ok: "ext_ok L" and rel: "reliable L" using h by (simp_all add: healthy_def)
  let ?t = "clock L (calls w)"
  let ?S = "\<lambda>r. rr_status r = ExtractionStarted" and ?ps = "[RebateStatus PendingFulfillment, DeliveredAt ?t]"
  obtain us w' rs where u: "updateWhere RebateRepository L ?S ?ps (tick w) = (Inr us, w')"
    "store w' = put_rows RebateRepository rs (store (tick w))"
    "mset rs = mset (map (\<lambda>r. if ?S r then rebate_columns L (serializePartial RebateRepository ?ps r) else r) (rows_of RebateRepository (store (tick w))))"
    "mset us = mset (map (\<lambda>r. rebate_columns L (serializePartial RebateRepository ?ps r)) (filter ?S (rows_of RebateRepository (store (tick w)))))"
    by (rule rebate_table.updateWhere_reliable [where w = "tick w" and L = L and coerce = "rebate_columns L"
        and matches = "serial_matches rr_id" and v = "\<lambda>i. int_key i \<noteq> None" and ps = ?ps and p = ?S])
      (use rebates_updates [OF ok] reliable_rebates [OF rel] in simp_all)
  have rs: "mset rs = mset (map (deliver L ?t) (rebates d))"
  proof -
    have "mset rs = image_mset (\<lambda>r. if ?S r then moved L r PendingFulfillment (Some ?t) else r) (mset (rows_now w))"
      using u(3) unfolding serial_delivered by simp
    also have "\<dots> = image_mset (\<lambda>r. (if rr_status (status_update L PendingExtraction ExtractionStarted r) = ExtractionStarted
      then moved L (status_update L PendingExtraction ExtractionStarted r) PendingFulfillment (Some ?t)
      else status_update L PendingExtraction ExtractionStarted r)) (mset (rebates d))"
      unfolding m by (simp only: mset_map image_mset.compositionality comp_def)
    also have "\<dots> = mset (map (deliver L ?t) (rebates d))"
      unfolding deliver_started [OF ext_columns [OF ok]] by simp
    finally show ?thesis .
  qed
  have us: "mset us = mset (map (\<lambda>r. moved L r PendingFulfillment (Some ?t)) (filter ?S (rows_now w)))"
    using u(4) unfolding serial_delivered by simp
  have ids: "mset (row_ids us) = mset (row_ids (waiting_rows d))"
  proof -
    have "mset (row_ids us) = mset (row_ids (filter ?S (rows_now w)))" by (rule row_ids_mset [OF us]) simp
    also have "\<dots> = mset (row_ids (waiting_rows d))"
      unfolding waiting_rows_def by (rule row_ids_mset [OF started_rows [OF m]]) simp
    finally show ?thesis .
  qed
  have "mset (row_ids rs) = mset (row_ids (rebates d))"
    by (rule row_ids_mset [OF rs]) (simp add: deliver_def)
  then have "set (row_ids rs) = set (row_ids (rebates d))" by (rule mset_eq_set)
  moreover have "set (row_ids (waiting_rows d)) \<subseteq> set (row_ids (rebates d))"
    by (auto simp: row_ids_def waiting_rows_def List.map_filter_def)
  ultimately have "set (row_ids us) \<subseteq> set (row_ids rs)" using mset_eq_set [OF ids] by simp
  moreover have "updateExportedRebates L (self, w) = (Inr (row_ids us), (self, w'))"
    using u(1) by (simp add: updateExportedRebates_def rebatesPendingExportEnd_def io_simps row_ids_def)
  ultimately show thesis using u(2) rs ids by (intro that [of "row_ids us" w' rs ?t]) simp_all
qed

lemma export_delivers_all:
  assumes h: "healthy L day" and e: "exportable (store w)" and some: "waiting_rows (store w) \<noteq> []"
  shows "\<exists>self' w'. perform_export L (new_RebateExport path, w) = (Inr (), (self', w')) \<and>
    export_of L (stamped path day) (store w) (store w')"
proof -
  have ok: "ext_ok L" and rel: "reliable L" and files: "reliable_files L" using h by (simp_all add: healthy_def)
  let ?d = "store w" and ?self = "new_RebateExport path"
  obtain rs started xs w1 where 1: "rebatesPendingExportStart L w = (Inr (map (RebateExportSerializer_serialize L) xs), w1)"
    "store w1 = ?d\<lparr>rebates := rs\<rparr>"
    "mset rs = mset (map (status_update L PendingExtraction ExtractionStarted) (rebates ?d))"
    "mset started = mset (filter (\<lambda>r. rr_status r = ExtractionStarted) rs)"
    "map (RebateSerializer_deserialize L) started = map Inr xs"
    by (rule start_delivers [OF ok rel]) (use e in \<open>auto simp: exportable_def\<close>)
  let ?lines = "map (RebateExportSerializer_serialize L) xs"
  have st: "mset started = mset (map (status_update L PendingExtraction ExtractionStarted) (waiting_rows ?d))"
    unfolding 1(4) waiting_rows_def by (rule started_rows [OF 1(3)])
  have len: "length xs = length (waiting_rows ?d)"
    using arg_cong [OF st, of size] arg_cong [OF 1(5), of length] by simp
  let ?self1 = "?self\<lparr>cachedRebates := Some ?lines\<rparr>"
  have first: "rebatesToExport L (?self, w) = (Inr ?lines, (?self1, w1))"
    using 1(1) by (simp add: rebatesToExport_def new_RebateExport_def io_simps)
  obtain k t0 x w2 es where 2: "recordExportStart L (?self1, w1) = (Inr (), (?self1\<lparr>exportDetails := Some x\<rparr>, w2))"
    "store w2 = (store w1)\<lparr>export_details := es\<rparr>" "td_id x = Some k"
    "mset es = add_mset (details_row (Some k) t0 None InProgress (length ?lines)) (mset (export_details (store w1)))"
    "\<forall>r\<in>set (export_details (store w1)). ed_id r \<noteq> Some k"
    by (rule start_details_reliable [OF ok rel, of ?self1 ?lines w1]) (simp, blast)
  let ?self2 = "?self1\<lparr>exportDetails := Some x\<rparr>" and ?self3 = "?self1\<lparr>exportDetails := Some x, uploadedToSFTP := True\<rparr>"
  obtain wa wb w3 c z where 3: "generateCSV L (?self2, w2) = (Inr (), (?self2, wa))"
    "generateZip L (?self2, wa) = (Inr (), (?self2, wb))"
    "uploadToSFTP L (?self2, wb) = (Inr (), (?self3, w3))"
    "store w3 = (store w2)\<lparr>local_csv := c, local_zip := z, uploaded := uploaded (store w2) @ [(stamped path day, ?lines)]\<rparr>"
    by (rule files_reliable [OF h, of ?self2 ?lines w2]) (simp, simp add: new_RebateExport_def)
  have r3: "rows_now w3 = rs" and c3: "rebate_criteria (store w3) = rebate_criteria ?d"
    using 3(4) 2(2) 1(2) by simp_all
  obtain w4 us js where 4: "createJournalRecords L (?self3, w3) = (Inr (), (?self3, w4))"
    "store w4 = (store w3)\<lparr>unfulfilled_reports := us, rebate_journal := js\<rparr>"
    "mset (map record_key us) = mset (map (\<lambda>i. (i, PendingFulfillment)) (row_ids (waiting_rows ?d))) +
      mset (map record_key (unfulfilled_reports (store w3)))"
    "mset (map journal_key js) = mset (map (\<lambda>i. (i, PendingFulfillment)) (row_ids (waiting_rows ?d))) +
      mset (map journal_key (rebate_journal (store w3)))"
    "numbered_beside (rebate_journal (store w3)) js"
    by (rule journals_reliable [OF h e c3, of ?self3]) (use st 1(4) r3 in simp_all)
  have r4: "mset (rows_now w4) = mset (map (status_update L PendingExtraction ExtractionStarted) (rebates ?d))"
    using 4(2) r3 1(3) by simp
  obtain t w5 rs' ids where 5: "updateExportedRebates L (?self3, w4) = (Inr ids, (?self3, w5))"
    "store w5 = (store w4)\<lparr>rebates := rs'\<rparr>" "mset rs' = mset (map (deliver L t) (rebates ?d))"
    "mset ids = mset (row_ids (waiting_rows ?d))" "set ids \<subseteq> set (row_ids rs')"
    by (rule ends_reliable [OF h r4, of ?self3])
  have "set ids \<subseteq> set (row_ids (rows_now (tick w5)))" using 5(2,5) by simp
  from publish_reliable [OF ok rel files this] obtain w6 ps where
    p: "io_for ids (\<lambda>i. io_try (io_bind (findOrFail RebateRepository L i) (Producer_dispatch L)) (\<lambda>e. io_return ()))
      (tick w5) = (Inr (), w6)" and 6: "store w6 = (store w5)\<lparr>published := published (store w5) @ ps\<rparr>" "map pl_id ps = ids"
    by auto
  have pub: "publishRebates L ids (?self3, w5) = (Inr (), (?self3, w6))"
    using p files by (simp add: publishRebates_def outside_apply io_then_apply request_apply reliable_files_def)
  have m6: "mset (export_details (store w6)) = add_mset (details_row (Some k) t0 None InProgress (length ?lines))
      (mset (export_details (store w1)))"
    using 6(1) 5(2) 4(2) 3(4) 2(2,4) by simp
  obtain t1 w7 es' where 7: "recordExportEnd L Complete (?self3, w6) = (Inr (), (?self3, w7))"
    "store w7 = (store w6)\<lparr>export_details := es'\<rparr>"
    "mset es' = add_mset (details_row (Some k) t0 (Some t1) Complete (length ?lines)) (mset (export_details (store w1)))"
    by (rule end_details_reliable [OF ok rel _ 2(3) m6 2(5), of ?self3]) (simp, blast)
  have "0 < length ?lines" using len some by simp
  then have "perform_export L (?self, w) = (Inr (), (?self3, w7))"
    using first 2(1) 3(1-3) 4(1) 5(1) pub 7(1)
    by (simp add: perform_export_def export_steps_def io_bind_apply io_then_apply io_try_apply)
  moreover have "export_of L (stamped path day) ?d (store w7)"
    unfolding export_of_def
    by (rule exI [of _ t], rule exI [of _ started], rule exI [of _ xs], rule exI [of _ k], rule exI [of _ t0], rule exI [of _ t1])
      (use 1 2 3 4 5 6 7 st len in simp)
  ultimately show ?thesis by blast
qed

end
