(* ===== verification/ExportFailure.thy ===== *)
theory ExportFailure
  imports ExportDelivery
begin

text \<open>
  Exports that fail while the database answers: before the file is on the server every rebate goes back to
  wait for the next run; after it, when the offer of a rebate is missing, none does.
\<close>

section \<open>Steps that touch files only\<close>

definition without_files :: "db \<Rightarrow> db" where
  "without_files d = d\<lparr>local_csv := Map.empty, local_zip := Map.empty\<rparr>"

lemma without_files_fields [simp]:
  "rebates (without_files d) = rebates d" "uploaded (without_files d) = uploaded d"
  "export_details (without_files d) = export_details d"
  by (simp_all add: without_files_def)

lemma without_files_update:
  "without_files (d\<lparr>rebates := rs\<rparr>) = (without_files d)\<lparr>rebates := rs\<rparr>"
  "without_files (d\<lparr>export_details := es\<rparr>) = (without_files d)\<lparr>export_details := es\<rparr>"
  by (simp_all add: without_files_def)

lemma frames_names [io_frame]:
  "frames (\<lambda>(self, w). store w) (remoteFilePathWithTimestamp L)"
  "frames (\<lambda>(self, w). store w) (sourceFileCSVPath L)"
  "frames (\<lambda>(self, w). store w) (sourceFileZipPath L)"
  by (auto simp: frames_def file_name_defs io_simps)

lemma frames_generate:
  "frames (\<lambda>(self, w). (self, without_files (store w))) (generateCSV L)"
  "frames (\<lambda>(self, w). (self, without_files (store w))) (generateZip L)"
  by (auto simp: frames_def generateCSV_def generateZip_def cached_rebates_def CSVGenerator_perform_def
      ZipGenerator_perform_def file_name_defs io_simps without_files_def split: option.splits sum.splits)

text \<open>An upload that cannot connect raises and changes nothing.\<close>

lemma upload_unconnected:
  assumes "\<forall>n. \<exists>e. sftp_connect L n = Inl e"
  obtains e w' where "uploadToSFTP L (self, w) = (Inl e, (self, w'))" and "store w' = store w"
proof -
  have "\<exists>e. sftp_connect L (calls (tick (tick w))) = Inl e" using assms by blast
  then show thesis
    by (auto simp: uploadToSFTP_def file_name_defs SFTPUploader_perform_def SFTPClient_connect_def on_read_def
        isConnected_def RemoteSFTPClient_connect_def new_SFTPClient_def new_RemoteSFTPClient_def io_simps intro: that)
qed

definition fails_at :: "('w, 'a) io \<Rightarrow> ('w \<Rightarrow> 'v) \<Rightarrow> 'w \<Rightarrow> bool" where
  "fails_at m v w \<longleftrightarrow> (\<exists>e w'. m w = (Inl e, w') \<and> v w' = v w)"

lemma fails_at_then_first: "fails_at m v w \<Longrightarrow> fails_at (io_then m k) v w"
  by (auto simp: fails_at_def io_then_apply)

lemma fails_at_then:
  assumes "frames v m" and "\<And>w. P (v w) \<Longrightarrow> fails_at k v w" and "P (v w)"
  shows "fails_at (io_then m k) v w"
proof (cases "m w")
  case (Pair r w')
  then have "v w' = v w" by (rule frames_step [OF assms(1)])
  with Pair assms(2) [of w'] assms(3) show ?thesis
    by (cases r) (auto simp: fails_at_def io_then_apply)
qed

section \<open>The record of a failed export\<close>

lemma failed_details_reliable:
  assumes "ext_ok L" and "reliable L" and "exportDetails self = Some x" and "td_id x = Some k"
    and "mset (export_details (store w)) = add_mset (details_row (Some k) t None InProgress n) (mset old)"
    and "\<forall>r\<in>set old. ed_id r \<noteq> Some k"
  obtains t' w' es rs where "recordExportEnd L Failed (self, w) = (Inr (), (self, w'))"
    and "store w' = (store w)\<lparr>rebates := rs, export_details := es\<rparr>"
    and "mset es = add_mset (details_row (Some k) t (Some t') Failed n) (mset old)"
    and "mset rs = (if uploadedToSFTP self then mset (rows_now w)
      else mset (map (status_update L ExtractionStarted PendingExtraction) (rows_now w)))"
proof -
  let ?R = ExportDetailsRepository and ?t = "clock L (calls w)"
  let ?ps = "[FinishedAt ?t, TransferStatusOf Failed]"
  let ?f = "\<lambda>r. if ed_id r = Some k then r\<lparr>ed_finished_at := Some ?t, ed_status := Failed\<rparr> else r"
  obtain w1 rs where 1: "(if uploadedToSFTP self then io_return () else resetRebatesOnError L) (tick w) = (Inr (), w1)"
    "store w1 = (store w)\<lparr>rebates := rs\<rparr>"
    "mset rs = (if uploadedToSFTP self then mset (rows_now w)
      else mset (map (status_update L ExtractionStarted PendingExtraction) (rows_now w)))"
  proof (cases "uploadedToSFTP self")
    case True
    then show thesis by (intro that [of "tick w" "rows_now w"]) simp_all
  next
    case False
    obtain us w1 rs where u: "updateWhere RebateRepository L (\<lambda>r. rr_status r = ExtractionStarted)
        [RebateStatus PendingExtraction] (tick w) = (Inr us, w1)" "store w1 = put_rows RebateRepository rs (store (tick w))"
      "mset rs = mset (map (\<lambda>r. if rr_status r = ExtractionStarted then rebate_columns L
        (serializePartial RebateRepository [RebateStatus PendingExtraction] r) else r) (rows_of RebateRepository (store (tick w))))"
      by (rule rebate_table.updateWhere_reliable [where w = "tick w" and L = L and coerce = "rebate_columns L"
          and matches = "serial_matches rr_id" and v = "\<lambda>i. int_key i \<noteq> None" and ps = "[RebateStatus PendingExtraction]"
          and p = "\<lambda>r. rr_status r = ExtractionStarted"])
        (use rebates_updates [OF assms(1)] reliable_rebates [OF assms(2)] in simp_all)
    from u(3) have "mset rs = mset (map (status_update L ExtractionStarted PendingExtraction) (rows_now w))"
      by (simp only: serial_status status_update_def [abs_def] rebate_repository store_tick)
    with False u(1,2) show thesis by (intro that [of w1 rs]) (simp_all add: resetRebatesOnError_def io_then_apply)
  qed
  obtain w' es where u: "update ?R L (show_nat k) ?ps w1 = (Inr (), w')"
    "store w' = put_rows ?R es (store w1)"
    "mset es = mset (map (\<lambda>r. if serial_matches ed_id (show_nat k) r then serializePartial ?R ?ps r else r)
      (rows_of ?R (store w1)))"
    by (rule export_details_table.update_reliable [where L = L and w = w1 and i = "show_nat k"
        and matches = "serial_matches ed_id" and coerce = "\<lambda>r. r" and v = "\<lambda>i. int_key i \<noteq> None" and ps = ?ps])
      (use export_details_updates [OF assms(1)] reliable_export_details [OF assms(2)] in
        \<open>simp_all add: ExportDetailsRepository_def\<close>)
  have "serializePartial ?R ?ps r = r\<lparr>ed_finished_at := Some ?t, ed_status := Failed\<rparr>" for r
    by (simp add: serializePartial_def ExportDetailsRepository_def)
  then have "mset es = image_mset ?f (mset (export_details (store w1)))"
    using u(3) by (simp only: serial_matches_show_nat mset_map) (simp add: ExportDetailsRepository_def)
  also have "\<dots> = add_mset (?f (details_row (Some k) t None InProgress n)) (image_mset ?f (mset old))"
    using assms(5) 1(2) by simp
  also have "image_mset ?f (mset old) = mset old"
    using assms(6) image_mset_cong [of "mset old" ?f "\<lambda>r. r"] by simp
  finally have es: "mset es = add_mset (details_row (Some k) t (Some ?t) Failed n) (mset old)"
    by (simp add: details_row_def)
  have "recordExportEnd L Failed (self, w) = (Inr (), (self, w'))"
    using 1(1) u(1) assms(3,4)
    by (cases "uploadedToSFTP self") (simp_all add: recordExportEnd_def io_simps)
  with u(2) 1(2,3) es show thesis
    by (intro that [of w' es rs ?t]) (simp_all add: ExportDetailsRepository_def)
qed

section \<open>A failed upload\<close>

text \<open>What a failed export leaves: the rebates wait again, and the record says that it failed.\<close>

definition export_reset :: "ext \<Rightarrow> db \<Rightarrow> db \<Rightarrow> bool" where
  "export_reset L d d' \<longleftrightarrow>
     (\<exists>k t0 t1.
        mset (rebates d') = mset (map (\<lambda>r. if in_export (rr_status r)
          then moved L r PendingExtraction (rr_delivered_at r) else r) (rebates d)) \<and>
        mset (export_details d') =
          add_mset (details_row (Some k) t0 (Some t1) Failed (length (waiting_rows d))) (mset (export_details d)) \<and>
        without_files d' = (without_files d)\<lparr>rebates := rebates d', export_details := export_details d'\<rparr>)"

lemma reset_started:
  assumes "column_laws L"
  shows "status_update L ExtractionStarted PendingExtraction (status_update L PendingExtraction ExtractionStarted r) =
    (if in_export (rr_status r) then moved L r PendingExtraction (rr_delivered_at r) else r)"
  by (auto simp: status_update_def in_export_def moved_moved [OF assms])

lemma files_fail:
  assumes "\<forall>n. \<exists>e. sftp_connect L n = Inl e"
  shows "fails_at (io_then (generateCSV L) (io_then (generateZip L) (io_then (uploadToSFTP L) k)))
    (\<lambda>(self, w). (self, without_files (store w))) s"
proof (rule fails_at_then [OF frames_generate(1), where P = "\<lambda>_. True"])
  fix s :: "RebateExport \<times> world"
  show "fails_at (io_then (generateZip L) (io_then (uploadToSFTP L) k)) (\<lambda>(self, w). (self, without_files (store w))) s"
  proof (rule fails_at_then [OF frames_generate(2), where P = "\<lambda>_. True"])
    fix s :: "RebateExport \<times> world"
    obtain self w where s: "s = (self, w)" by (cases s)
    obtain e w' where "uploadToSFTP L (self, w) = (Inl e, (self, w'))" "store w' = store w"
      by (rule upload_unconnected [OF assms])
    then show "fails_at (io_then (uploadToSFTP L) k) (\<lambda>(self, w). (self, without_files (store w))) s"
      unfolding s by (intro fails_at_then_first) (auto simp: fails_at_def)
  qed simp
qed simp

lemma unconnected_resets:
  assumes ok: "ext_ok L" and rel: "reliable L" and e: "exportable (store w)"
    and some: "waiting_rows (store w) \<noteq> []" and down: "\<forall>n. \<exists>e. sftp_connect L n = Inl e"
  shows "\<exists>msg s w'. perform_export L (new_RebateExport path, w) = (Inl (JsError msg), (s, w')) \<and>
    export_reset L (store w) (store w')"
proof -
  let ?d = "store w" and ?self = "new_RebateExport path"
  obtain rs started xs w1 where 1: "rebatesPendingExportStart L w = (Inr (map (RebateExportSerializer_serialize L) xs), w1)"
    "store w1 = ?d\<lparr>rebates := rs\<rparr>"
    "mset rs = mset (map (status_update L PendingExtraction ExtractionStarted) (rebates ?d))"
    "mset started = mset (filter (\<lambda>r. rr_status r = ExtractionStarted) rs)"
    "map (RebateSerializer_deserialize L) started = map Inr xs"
    by (rule start_delivers [OF ok rel]) (use e in \<open>auto simp: exportable_def\<close>)
  let ?lines = "map (RebateExportSerializer_serialize L) xs"
  have "mset started = mset (map (status_update L PendingExtraction ExtractionStarted) (waiting_rows ?d))"
    unfolding 1(4) waiting_rows_def by (rule started_rows [OF 1(3)])
  from arg_cong [OF this, of size] have len: "length xs = length (waiting_rows ?d)"
    using arg_cong [OF 1(5), of length] by simp
  let ?self1 = "?self\<lparr>cachedRebates := Some ?lines\<rparr>"
  have first: "rebatesToExport L (?self, w) = (Inr ?lines, (?self1, w1))"
    using 1(1) by (simp add: rebatesToExport_def new_RebateExport_def io_simps)
  obtain k t0 x w2 es where 2: "recordExportStart L (?self1, w1) = (Inr (), (?self1\<lparr>exportDetails := Some x\<rparr>, w2))"
    "store w2 = (store w1)\<lparr>export_details := es\<rparr>" "td_id x = Some k"
    "mset es = add_mset (details_row (Some k) t0 None InProgress (length ?lines)) (mset (export_details (store w1)))"
    "\<forall>r\<in>set (export_details (store w1)). ed_id r \<noteq> Some k"
    by (rule start_details_reliable [OF ok rel, of ?self1 ?lines w1]) (simp, blast)
  let ?self2 = "?self1\<lparr>exportDetails := Some x\<rparr>"
  let ?rest = "io_then (createJournalRecords L) (io_bind (updateExportedRebates L) (\<lambda>updatedRebateIds.
     io_then (publishRebates L updatedRebateIds) (recordExportEnd L Complete)))"
  from files_fail [OF down, of ?rest "(?self2, w2)"] obtain e' w3 where
    3: "io_then (generateCSV L) (io_then (generateZip L) (io_then (uploadToSFTP L) ?rest)) (?self2, w2) = (Inl e', (?self2, w3))"
    and files: "without_files (store w3) = without_files (store w2)"
    by (auto simp: fails_at_def)
  have r3: "rebates (store w3) = rs" "export_details (store w3) = es"
    using arg_cong [OF files, of rebates] arg_cong [OF files, of export_details] 2(2) 1(2) by simp_all
  have up: "\<not> uploadedToSFTP ?self2" by (simp add: new_RebateExport_def)
  have m3: "mset (export_details (store w3)) = add_mset (details_row (Some k) t0 None InProgress (length ?lines))
      (mset (export_details (store w1)))" using r3 2(4) by simp
  obtain t1 w4 es' rs' where 4: "recordExportEnd L Failed (?self2, w3) = (Inr (), (?self2, w4))"
    "store w4 = (store w3)\<lparr>rebates := rs', export_details := es'\<rparr>"
    "mset es' = add_mset (details_row (Some k) t0 (Some t1) Failed (length ?lines)) (mset (export_details (store w1)))"
    "mset rs' = (if uploadedToSFTP ?self2 then mset (rows_now w3)
      else mset (map (status_update L ExtractionStarted PendingExtraction) (rows_now w3)))"
    by (rule failed_details_reliable [OF ok rel _ 2(3) m3 2(5), of ?self2]) (simp, blast)
  have "0 < length ?lines" using len some by simp
  then have "perform_export L (?self, w) = (Inl (JsError (''[RM] - Error during export... '' @ exn_text e')), (?self2, w4))"
    using first 2(1) 3 4(1) by (simp add: perform_export_def export_steps_def io_bind_apply io_then_apply io_try_apply)
  moreover have "export_reset L ?d (store w4)"
  proof -
    have "mset rs' = image_mset (status_update L ExtractionStarted PendingExtraction) (mset rs)"
      using 4(4) up r3 by simp
    also have "\<dots> = mset (map (\<lambda>r. if in_export (rr_status r)
        then moved L r PendingExtraction (rr_delivered_at r) else r) (rebates ?d))"
      unfolding 1(3) by (simp add: image_mset.compositionality comp_def reset_started [OF ext_columns [OF ok]])
    finally have "mset rs' = \<dots>" .
    moreover have "without_files (store w4) = (without_files ?d)\<lparr>rebates := rs', export_details := es'\<rparr>"
      unfolding 4(2) without_files_update files 2(2) 1(2) by simp
    ultimately show ?thesis
      unfolding export_reset_def
      by (intro exI [of _ k] exI [of _ t0] exI [of _ t1]) (use 4(2,3) 1(2) len in simp)
  qed
  ultimately show ?thesis by blast
qed

section \<open>A missing offer\<close>

definition has_offer :: "db \<Rightarrow> string \<Rightarrow> bool" where
  "has_offer d i \<longleftrightarrow> (\<exists>c\<in>set (rebate_criteria d). cr_id c = i)"

lemma records_missing:
  assumes ok: "ext_ok L" and rel: "reliable L"
    and "\<exists>x\<in>set xs. \<not> has_offer (store w) (tx_rebateCriteriaId (rb_qualifyingTransaction x))"
  shows "\<exists>e w' us js. io_for xs (write_records L) w = (Inl e, w') \<and>
    store w' = (store w)\<lparr>unfulfilled_reports := us, rebate_journal := js\<rparr>"
  using assms(3)
proof (induction xs arbitrary: w)
  case Nil
  then show ?case by simp
next
  case (Cons x xs)
  let ?i = "tx_rebateCriteriaId (rb_qualifyingTransaction x)"
  show ?case
  proof (cases "has_offer (store w) ?i")
    case True
    then have "\<forall>y\<in>set [x]. \<exists>c\<in>set (rebate_criteria (store w)). cr_id c = tx_rebateCriteriaId (rb_qualifyingTransaction y)"
      by (simp add: has_offer_def)
    from records_reliable [OF ok rel this] obtain w1 us1 js1 where 1: "io_for [x] (write_records L) w = (Inr (), w1)"
      "store w1 = (store w)\<lparr>unfulfilled_reports := us1, rebate_journal := js1\<rparr>" by blast
    have "\<exists>x\<in>set xs. \<not> has_offer (store w1) (tx_rebateCriteriaId (rb_qualifyingTransaction x))"
      using Cons.prems True 1(2) by (auto simp: has_offer_def)
    from Cons.IH [OF this] obtain e w' us js where "io_for xs (write_records L) w1 = (Inl e, w')"
      "store w' = (store w1)\<lparr>unfulfilled_reports := us, rebate_journal := js\<rparr>" by blast
    moreover have "io_for (x # xs) (write_records L) w = io_for xs (write_records L) w1"
    proof -
      have "write_records L x w = (Inr (), w1)"
        using 1(1) by (auto simp: io_then_apply split: prod.splits sum.splits)
      then show ?thesis unfolding io_for.simps by (rule io_then_Inr)
    qed
    ultimately show ?thesis
      using 1(2) by (intro exI [of _ e] exI [of _ w'] exI [of _ us] exI [of _ js]) simp
  next
    case False
    have r: "orm_reads (\<lambda>i r. cr_id r = i) (orm_of RebateCriteriaRepository L)"
      using criteria_reads [OF ok] by (simp add: RebateCriteriaRepository_def)
    obtain a where a: "orm_findOne (orm_of RebateCriteriaRepository L) (calls w) ?i
        (rows_of RebateCriteriaRepository (store w)) = Inr a"
      using reliable_findOne [where i = ?i and n = "calls w" and rs = "rebate_criteria (store w)",
          OF reliable_criteria [OF rel]]
      by (auto simp: RebateCriteriaRepository_def)
    have "a = None"
      using orm_findOne_Some [where n = "calls w" and i = ?i, OF r] a False
      by (cases a) (auto simp: has_offer_def RebateCriteriaRepository_def)
    with a have "find RebateCriteriaRepository L ?i w = (Inr None, tick w)" by (simp add: find_cases)
    then have "write_records L x w = (Inl (JsError (''Couln not find rebate criteria: '' @ ?i)), tick w)"
      by (simp add: UnfulfilledRebateReportCreate_perform_def report_criteria_def io_simps)
    then show ?thesis
      by (intro exI [of _ "JsError (''Couln not find rebate criteria: '' @ ?i)"] exI [of _ "tick w"]
          exI [of _ "unfulfilled_reports (store w)"] exI [of _ "rebate_journal (store w)"])
        (simp add: io_then_apply)
  qed
qed

lemma journals_missing:
  assumes ok: "ext_ok L" and rel: "reliable L"
    and m: "mset (filter (\<lambda>r. rr_status r = ExtractionStarted) (rows_now w)) = mset started"
    and ids: "\<forall>r\<in>set started. rr_id r \<noteq> None"
    and "\<exists>r\<in>set started. \<not> has_offer (store w) (tx_rebateCriteriaId (rr_qualifying_transaction r))"
  obtains e w' us js where "createJournalRecords L (self, w) = (Inl e, (self, w'))"
    and "store w' = (store w)\<lparr>unfulfilled_reports := us, rebate_journal := js\<rparr>"
proof -
  let ?S = "\<lambda>r. rr_status r = ExtractionStarted"
  have total: "\<exists>x. RebateSerializer_deserialize L r = Inr x" if "r \<in> set (rows_now w)" "?S r" for r
  proof -
    have "r \<in> set (filter ?S (rows_now w))" using that by simp
    then have "r \<in> set started" unfolding mset_eq_set [OF m] .
    with ids show ?thesis by (intro deserialize_rebate) blast
  qed
  obtain rs xs where f: "findAll RebateRepository L ?S w = (Inr xs, tick w)"
    "mset rs = mset (filter ?S (rows_now w))" "map (RebateSerializer_deserialize L) rs = map Inr xs"
    by (rule findAll_reliable [where R = RebateRepository and w = w and L = L and matches = "serial_matches rr_id"
        and v = "\<lambda>i. int_key i \<noteq> None" and p = ?S])
      (use rebates_reads [OF ok] reliable_rebates [OF rel] total in simp_all)
  obtain r where r: "r \<in> set rs" "\<not> has_offer (store w) (tx_rebateCriteriaId (rr_qualifying_transaction r))"
    using assms(5) mset_eq_set [OF f(2) [unfolded m]] by blast
  have "RebateSerializer_deserialize L r \<in> set (map (RebateSerializer_deserialize L) rs)" using r(1) by simp
  then obtain x where x: "x \<in> set xs" "RebateSerializer_deserialize L r = Inr x" unfolding f(3) by auto
  have "\<exists>x\<in>set xs. \<not> has_offer (store (tick w)) (tx_rebateCriteriaId (rb_qualifyingTransaction x))"
    using x(1) r(2) deserialized_rebate(1) [OF x(2)] by (intro bexI [of _ x]) simp_all
  from records_missing [OF ok rel this] obtain e w' us js where "io_for xs (write_records L) (tick w) = (Inl e, w')"
    "store w' = (store (tick w))\<lparr>unfulfilled_reports := us, rebate_journal := js\<rparr>" by blast
  with f(1) show thesis
    by (intro that [of e w' js us])
      (simp_all add: createJournalRecords_def getRebatesPendingExport_def io_bind_apply outside_apply)
qed

text \<open>The file is on the server, and every rebate of it waits to be exported again.\<close>

definition export_stuck :: "ext \<Rightarrow> string \<Rightarrow> db \<Rightarrow> db \<Rightarrow> bool" where
  "export_stuck L name d d' \<longleftrightarrow>
     (\<exists>started xs.
        mset (rebates d') = mset (map (status_update L PendingExtraction ExtractionStarted) (rebates d)) \<and>
        mset started = mset (map (status_update L PendingExtraction ExtractionStarted) (waiting_rows d)) \<and>
        map (RebateSerializer_deserialize L) started = map Inr xs \<and>
        uploaded d' = uploaded d @ [(name, map (RebateExportSerializer_serialize L) xs)])"

lemma missing_offer_stuck:
  assumes h: "healthy L day" and ids: "\<forall>r\<in>set (waiting_rows (store w)). rr_id r \<noteq> None"
    and missing: "\<exists>r\<in>set (waiting_rows (store w)).
      \<not> has_offer (store w) (tx_rebateCriteriaId (rr_qualifying_transaction r))"
  shows "\<exists>msg s w'. perform_export L (new_RebateExport path, w) = (Inl (JsError msg), (s, w')) \<and>
    export_stuck L (stamped path day) (store w) (store w')"
proof -
  have ok: "ext_ok L" and rel: "reliable L" and files: "reliable_files L" using h by (simp_all add: healthy_def)
  let ?d = "store w" and ?self = "new_RebateExport path"
  obtain rs started xs w1 where 1: "rebatesPendingExportStart L w = (Inr (map (RebateExportSerializer_serialize L) xs), w1)"
    "store w1 = ?d\<lparr>rebates := rs\<rparr>"
    "mset rs = mset (map (status_update L PendingExtraction ExtractionStarted) (rebates ?d))"
    "mset started = mset (filter (\<lambda>r. rr_status r = ExtractionStarted) rs)"
    "map (RebateSerializer_deserialize L) started = map Inr xs"
    by (rule start_delivers [OF ok rel]) (use ids in \<open>auto simp: waiting_rows_def\<close>)
  let ?lines = "map (RebateExportSerializer_serialize L) xs"
  have st: "mset started = mset (map (status_update L PendingExtraction ExtractionStarted) (waiting_rows ?d))"
    unfolding 1(4) waiting_rows_def by (rule started_rows [OF 1(3)])
  have "waiting_rows ?d \<noteq> []" using missing by auto
  then have len: "0 < length ?lines"
    using arg_cong [OF st, of size] arg_cong [OF 1(5), of length] by (cases xs) simp_all
  let ?self1 = "?self\<lparr>cachedRebates := Some ?lines\<rparr>"
  have first: "rebatesToExport L (?self, w) = (Inr ?lines, (?self1, w1))"
    using 1(1) by (simp add: rebatesToExport_def new_RebateExport_def io_simps)
  obtain k t0 x w2 es where 2: "recordExportStart L (?self1, w1) = (Inr (), (?self1\<lparr>exportDetails := Some x\<rparr>, w2))"
    "store w2 = (store w1)\<lparr>export_details := es\<rparr>" "td_id x = Some k"
    "mset es = add_mset (details_row (Some k) t0 None InProgress (length ?lines)) (mset (export_details (store w1)))"
    "\<forall>r\<in>set (export_details (store w1)). ed_id r \<noteq> Some k"
    by (rule start_details_reliable [OF ok rel, of ?self1 ?lines w1]) (simp, blast)
  let ?self2 = "?self1\<lparr>exportDetails := Some x\<rparr>" and ?self3 = "?self1\<lparr>exportDetails := Some x, uploadedToSFTP := True\<rparr>"
  obtain wa wb w3 c z where 3: "generateCSV L (?self2, w2) = (Inr (), (?self2, wa))"
    "generateZip L (?self2, wa) = (Inr (), (?self2, wb))"
    "uploadToSFTP L (?self2, wb) = (Inr (), (?self3, w3))"
    "store w3 = (store w2)\<lparr>local_csv := c, local_zip := z, uploaded := uploaded (store w2) @ [(stamped path day, ?lines)]\<rparr>"
    by (rule files_reliable [OF h, of ?self2 ?lines w2]) (simp, simp add: new_RebateExport_def)
  have r3: "rows_now w3 = rs" and c3: "rebate_criteria (store w3) = rebate_criteria ?d"
    using 3(4) 2(2) 1(2) by simp_all
  have "\<exists>r\<in>set started. \<not> has_offer (store w3) (tx_rebateCriteriaId (rr_qualifying_transaction r))"
    using missing mset_eq_set [OF st] c3 by (auto simp: has_offer_def)
  moreover have "\<forall>r\<in>set started. rr_id r \<noteq> None" using ids mset_eq_set [OF st] by auto
  ultimately obtain e w4 us js where 4: "createJournalRecords L (?self3, w3) = (Inl e, (?self3, w4))"
    "store w4 = (store w3)\<lparr>unfulfilled_reports := us, rebate_journal := js\<rparr>"
    using journals_missing [OF ok rel, of w3 started ?self3] 1(4) r3 by metis
  have m4: "mset (export_details (store w4)) = add_mset (details_row (Some k) t0 None InProgress (length ?lines))
      (mset (export_details (store w1)))" using 4(2) 3(4) 2(2,4) by simp
  obtain t1 w5 es' rs' where 5: "recordExportEnd L Failed (?self3, w4) = (Inr (), (?self3, w5))"
    "store w5 = (store w4)\<lparr>rebates := rs', export_details := es'\<rparr>"
    "mset es' = add_mset (details_row (Some k) t0 (Some t1) Failed (length ?lines)) (mset (export_details (store w1)))"
    "mset rs' = (if uploadedToSFTP ?self3 then mset (rows_now w4)
      else mset (map (status_update L ExtractionStarted PendingExtraction) (rows_now w4)))"
    by (rule failed_details_reliable [OF ok rel _ 2(3) m4 2(5), of ?self3]) (simp, blast)
  have "perform_export L (?self, w) = (Inl (JsError (''[RM] - Error during export... '' @ exn_text e)), (?self3, w5))"
    using len first 2(1) 3(1-3) 4(1) 5(1)
    by (simp add: perform_export_def export_steps_def io_bind_apply io_then_apply io_try_apply)
  moreover have "export_stuck L (stamped path day) ?d (store w5)"
    unfolding export_stuck_def
    by (rule exI [of _ started], rule exI [of _ xs]) (use 1 2(2) 3(4) 4(2) 5(2,4) st r3 in simp)
  ultimately show ?thesis by blast
qed

end
