(* ===== verification/ExportProperties.thy ===== *)
theory ExportProperties
  imports ExportFailure FulfillmentRefinement
begin

text \<open>
  The properties of an export, and the run they are applied to: one rebate that waits for it, on a day
  that does not end.
\<close>

lemma RebateExport_perform_returns:
  "perform_export L (new_RebateExport path, w) = (Inr (), (s, w')) \<Longrightarrow> RebateExport_perform L path w = (Inr s, w')"
  by (simp add: RebateExport_perform_def with_new_apply io_then_apply field_apply)

lemma RebateExport_perform_raises:
  "perform_export L (new_RebateExport path, w) = (Inl e, (s, w')) \<Longrightarrow> RebateExport_perform L path w = (Inl e, w')"
  by (simp add: RebateExport_perform_def with_new_apply io_then_apply)

lemma export_state: "state_of (RebateExport_perform L path) w = snd (state_of (perform_export L) (new_RebateExport path, w))"
  by (simp add: RebateExport_perform_def with_new_apply io_then_apply field_apply split: prod.splits sum.splits)

section \<open>A day and a rebate\<close>

definition day_ext :: ext where
  "day_ext = ref_ext\<lparr>clock := (\<lambda>_. 86400000)\<rparr>"

lemma day_orms [simp]:
  "users_orm day_ext = users_orm ref_ext" "rebate_criteria_orm day_ext = rebate_criteria_orm ref_ext"
  "transactions_orm day_ext = transactions_orm ref_ext" "rebates_orm day_ext = rebates_orm ref_ext"
  "export_details_orm day_ext = export_details_orm ref_ext" "import_details_orm day_ext = import_details_orm ref_ext"
  "userledger_orm day_ext = userledger_orm ref_ext" "offers_orm day_ext = offers_orm ref_ext"
  "products_orm day_ext = products_orm ref_ext" "rebate_journal_orm day_ext = rebate_journal_orm ref_ext"
  "refund_reports_orm day_ext = refund_reports_orm ref_ext"
  "unfulfilled_reports_orm day_ext = unfulfilled_reports_orm ref_ext"
  by (simp_all add: day_ext_def)

lemma day_laws:
  "big_laws day_ext = big_laws ref_ext" "date_laws day_ext = date_laws ref_ext" "sql_laws day_ext = sql_laws ref_ext"
  "column_laws day_ext = column_laws ref_ext" "file_laws day_ext = file_laws ref_ext"
  "reliable_files day_ext = reliable_files ref_ext" "transaction_columns day_ext = transaction_columns ref_ext"
  "rebate_columns day_ext = rebate_columns ref_ext" "transaction_accepted day_ext = transaction_accepted ref_ext"
  by (simp_all add: day_ext_def big_laws_def date_laws_def sql_laws_def sum_values_def column_laws_def file_laws_def
      reliable_files_def transaction_columns_def [abs_def] rebate_columns_def [abs_def] transaction_accepted_def [abs_def])

lemma day_ext_ok: "ext_ok day_ext"
  using ref_ext_ok unfolding ext_ok_def day_orms day_laws .

lemma day_reliable: "reliable day_ext"
  using ref_reliable unfolding reliable_def day_orms day_laws by (simp add: day_ext_def)

lemma day_one_day: "one_day day_ext (show_int 1)"
  by (simp add: one_day_def day_ext_def ref_ext_def)

lemma day_healthy: "healthy day_ext (show_int 1)"
  using ref_files by (simp add: healthy_def day_ext_ok day_reliable day_one_day day_laws)

definition export_rebate :: RebateRecord where
  "export_rebate = sample_pending_rebate\<lparr>rr_status := PendingExtraction\<rparr>"

definition export_db :: db where
  "export_db = sample_db\<lparr>rebates := [export_rebate]\<rparr>"

definition export_world :: world where
  "export_world = \<lparr>calls = 0, store = export_db\<rparr>"

lemma export_exportable: "exportable (store export_world)" "waiting_rows (store export_world) \<noteq> []"
  by (simp_all add: exportable_def waiting_rows_def export_world_def export_db_def export_rebate_def
      sample_pending_rebate_def sample_db_def sample_transaction_def sample_criteria_def in_export_def
      RebateCriteriaSerializer_serialize_def)

definition export_ext_down :: ext where
  "export_ext_down = day_ext\<lparr>sftp_connect := (\<lambda>n. Inl (ServiceError ''connect''))\<rparr>"

lemma down_ok: "ext_ok export_ext_down" "reliable export_ext_down"
proof -
  have orms: "users_orm export_ext_down = users_orm day_ext" "rebate_criteria_orm export_ext_down = rebate_criteria_orm day_ext"
    "transactions_orm export_ext_down = transactions_orm day_ext" "rebates_orm export_ext_down = rebates_orm day_ext"
    "export_details_orm export_ext_down = export_details_orm day_ext"
    "userledger_orm export_ext_down = userledger_orm day_ext" "offers_orm export_ext_down = offers_orm day_ext"
    "products_orm export_ext_down = products_orm day_ext" "rebate_journal_orm export_ext_down = rebate_journal_orm day_ext"
    "refund_reports_orm export_ext_down = refund_reports_orm day_ext"
    "unfulfilled_reports_orm export_ext_down = unfulfilled_reports_orm day_ext" "sql_sum export_ext_down = sql_sum day_ext"
    by (simp_all add: export_ext_down_def)
  have laws: "big_laws export_ext_down = big_laws day_ext" "date_laws export_ext_down = date_laws day_ext"
    "sql_laws export_ext_down = sql_laws day_ext" "column_laws export_ext_down = column_laws day_ext"
    "transaction_columns export_ext_down = transaction_columns day_ext" "rebate_columns export_ext_down = rebate_columns day_ext"
    "transaction_accepted export_ext_down = transaction_accepted day_ext"
    by (simp_all add: export_ext_down_def big_laws_def date_laws_def sql_laws_def sum_values_def column_laws_def
        transaction_columns_def [abs_def] rebate_columns_def [abs_def] transaction_accepted_def [abs_def])
  show "ext_ok export_ext_down" using day_ext_ok unfolding ext_ok_def orms laws .
  show "reliable export_ext_down" using day_reliable unfolding reliable_def orms laws .
qed

definition orphan_world :: world where
  "orphan_world = \<lparr>calls = 0, store = export_db\<lparr>rebate_criteria := []\<rparr>\<rparr>"

section \<open>The properties\<close>

text \<open>
  C21.  Whatever requests fail during an export whose times are all of one day, every rebate is as it was or has moved between the statuses
  of the export; and unless a file has been put on the server no rebate has been delivered: one that has is
  on a line of that file.
\<close>

theorem export_delivers_only_what_it_sent:
  assumes "ext_ok L" and "file_laws L" and "one_day L day"
  shows "let d = store w; d' = store (state_of (RebateExport_perform L path) w) in
    related (may_move L) (rebates d) (rebates d') \<or>
    (\<exists>lines. uploaded d' = uploaded d @ [(stamped path day, lines)] \<and>
       related (delivered L lines) (rebates d) (rebates d'))"
proof -
  let ?s = "state_of (perform_export L) (new_RebateExport path, w)"
  have "case ?s of (self, w') \<Rightarrow> stopped L path (rebates (store w)) (uploaded (store w)) day self (store w')"
    by (rule triple_state [OF export_stopped [OF assms]]) simp
  then show ?thesis
    by (auto simp: export_state Let_def stopped_def waiting_def sent_def split: prod.splits)
qed

lemma export_delivers_only_what_it_sent_witness:
  "let d = export_db; d' = store (state_of (RebateExport_perform day_ext ''/rm/rm.zip'') export_world) in
    related (may_move day_ext) (rebates d) (rebates d') \<or>
    (\<exists>lines. uploaded d' = uploaded d @ [(stamped ''/rm/rm.zip'' (show_int 1), lines)] \<and>
       related (delivered day_ext lines) (rebates d) (rebates d'))"
  using export_delivers_only_what_it_sent [OF day_ext_ok _ day_one_day, of export_world "''/rm/rm.zip''"] ref_files(1)
  by (simp add: day_laws export_world_def)

text \<open>
  C12.  When every request is answered and the offers of the rebates exist, an export returns, and every
  rebate that waited for it is on a line of the one file it put on the server, has a new unfulfilled record,
  a new journal record and an event, and waits for its fulfillment; the export is recorded as complete.
\<close>

theorem export_delivers_every_waiting_rebate:
  assumes "healthy L day" and "exportable (store w)" and "waiting_rows (store w) \<noteq> []"
  shows "(\<exists>self. result_of (RebateExport_perform L path) w = Inr self) \<and>
    export_of L (stamped path day) (store w) (store (state_of (RebateExport_perform L path) w))"
  using export_delivers_all [OF assms, of path] by (auto dest!: RebateExport_perform_returns)

lemma export_delivers_every_waiting_rebate_witness:
  "(\<exists>self. result_of (RebateExport_perform day_ext ''/rm/rm.zip'') export_world = Inr self) \<and>
   export_of day_ext (stamped ''/rm/rm.zip'' (show_int 1)) export_db
     (store (state_of (RebateExport_perform day_ext ''/rm/rm.zip'') export_world))"
  using export_delivers_every_waiting_rebate [OF day_healthy export_exportable, of "''/rm/rm.zip''"]
  by (simp add: export_world_def)

text \<open>
  C22.  When the SFTP server cannot be reached, the export raises, every rebate it had started waits for the
  next export again, and the export is recorded as failed.
\<close>

theorem failed_upload_resets_rebates:
  assumes "ext_ok L" and "reliable L" and "exportable (store w)" and "waiting_rows (store w) \<noteq> []"
    and "\<forall>n. \<exists>e. sftp_connect L n = Inl e"
  shows "(\<exists>msg. result_of (RebateExport_perform L path) w = Inl (JsError msg)) \<and>
    export_reset L (store w) (store (state_of (RebateExport_perform L path) w))"
  using unconnected_resets [OF assms, of path] by (auto dest!: RebateExport_perform_raises)

lemma failed_upload_resets_rebates_witness:
  "(\<exists>msg. result_of (RebateExport_perform export_ext_down ''/rm/rm.zip'') export_world = Inl (JsError msg)) \<and>
   export_reset export_ext_down export_db
     (store (state_of (RebateExport_perform export_ext_down ''/rm/rm.zip'') export_world))"
  using failed_upload_resets_rebates [OF down_ok export_exportable, of "''/rm/rm.zip''"]
  by (simp add: export_world_def export_ext_down_def)

text \<open>
  C23.  When the offer of one waiting rebate is missing, the export raises after its file is on the server and
  no rebate is delivered: all of them stay in extraction, so that the next export sends them again.
\<close>

theorem missing_offer_blocks_the_export:
  assumes "healthy L day" and "\<forall>r\<in>set (waiting_rows (store w)). rr_id r \<noteq> None"
    and "\<exists>r\<in>set (waiting_rows (store w)). \<not> has_offer (store w) (tx_rebateCriteriaId (rr_qualifying_transaction r))"
  shows "(\<exists>msg. result_of (RebateExport_perform L path) w = Inl (JsError msg)) \<and>
    export_stuck L (stamped path day) (store w) (store (state_of (RebateExport_perform L path) w))"
  using missing_offer_stuck [OF assms, of path] by (auto dest!: RebateExport_perform_raises)

lemma missing_offer_blocks_the_export_witness:
  "(\<exists>msg. result_of (RebateExport_perform day_ext ''/rm/rm.zip'') orphan_world = Inl (JsError msg)) \<and>
   export_stuck day_ext (stamped ''/rm/rm.zip'' (show_int 1)) (store orphan_world)
     (store (state_of (RebateExport_perform day_ext ''/rm/rm.zip'') orphan_world))"
  by (rule missing_offer_blocks_the_export [OF day_healthy])
    (simp_all add: orphan_world_def export_db_def waiting_rows_def has_offer_def export_rebate_def
      sample_pending_rebate_def in_export_def)

end
