(* ===== verification/RefundReports.thy ===== *)
theory RefundReports
  imports Refund
begin

text \<open>
  What processing a refund does to the database.  Whatever requests fail, every transaction that counts as reported
  has a report of its own; when the database answers, the refund gets the status \<open>refund_status\<close> says, and exactly
  the transactions that are due are reported, each once.
\<close>

section \<open>One report\<close>

definition flag_row :: "ext \<Rightarrow> TransactionForRebateCriteriaRecord \<Rightarrow> TransactionForRebateCriteriaRecord" where
  "flag_row L r = transaction_columns L (r\<lparr>tr_refund_report_created := True\<rparr>)"

lemma flag_patch:
  "transaction_columns L (serializePartial TransactionForRebateCriteriaRepository [RefundReportCreated True] q) =
    flag_row L q"
  by (simp add: serializePartial_def TransactionForRebateCriteriaRepository_def flag_row_def)

lemma flag_row_fields [simp]:
  "tr_id (flag_row L r) = tr_id r" "tr_refund_report_created (flag_row L r)"
  by (simp_all add: flag_row_def transaction_columns_def)

lemma insert_report_cases:
  assumes "ext_ok L" and "insert RefundReportRepository L (refund_report criteria x) w = (res, w')"
  obtains (failed) e where "res = Inl e" and "store w' = store w"
    | (inserted) k y where "res = Inr y"
      and "store w' = (store w)\<lparr>refund_reports := refund_reports (store w')\<rparr>"
      and "mset (refund_reports (store w')) =
        add_mset ((RefundSerializer_serialize (refund_report criteria x))\<lparr>fr_id := Some k\<rparr>)
          (mset (refund_reports (store w)))"
proof (cases "orm_save (refund_reports_orm L) (calls w) (RefundSerializer_serialize (refund_report criteria x))
    (refund_reports (store w))")
  case (Inl e)
  then have "insert RefundReportRepository L (refund_report criteria x) w = (Inl e, tick w)"
    by (intro refund_table.insert_raised) (simp add: RefundReportRepository_def)
  with assms(2) show thesis by (intro failed [of e]) auto
next
  case (Inr q)
  obtain r' rs where q: "q = (r', rs)" by (cases q)
  have "fr_id (RefundSerializer_serialize (refund_report criteria x)) = None"
    by (simp add: RefundSerializer_serialize_def refund_report_def)
  from orm_save_serial [OF refunds_saves [OF assms(1)] this Inr [unfolded q]] obtain k where
    "mset rs = add_mset ((RefundSerializer_serialize (refund_report criteria x))\<lparr>fr_id := Some k\<rparr>)
      (mset (refund_reports (store w)))" by metis
  moreover have "insert RefundReportRepository L (refund_report criteria x) w =
      (RefundSerializer_deserialize L r', (tick w)\<lparr>store := (store w)\<lparr>refund_reports := rs\<rparr>\<rparr>)"
    using Inr q by (simp add: insert_def insertRecord_def execute_def io_bind_apply RefundReportRepository_def)
  ultimately show thesis using assms(2) inserted by (simp add: RefundSerializer_deserialize_def)
qed

lemma flag_update_cases:
  assumes "ext_ok L" and "db_ok (store w)"
    and "update TransactionForRebateCriteriaRepository L (id_text i) [RefundReportCreated True] w = (r, w')"
  obtains (failed) e where "r = Inl e" and "store w' = store w"
    | (flags) "r = Inr ()" and "store w' = (store w)\<lparr>transactions := transactions (store w')\<rparr>"
      and "mset (transactions (store w')) =
        mset (map (\<lambda>q. if tr_id q = i then flag_row L q else q) (transactions (store w)))"
  using update_transaction_cases [OF assms] unfolding flag_patch by blast

section \<open>Every reported transaction has a report of its own\<close>

text \<open>
  What a report says of its transaction: the account, the client, the offer, the type, the date and the amount,
  which the report has as the number a text of this amount is read as.
\<close>

definition reports_on :: "ext \<Rightarrow> TransactionForRebateCriteriaRecord \<Rightarrow> RefundRecord \<Rightarrow> bool" where
  "reports_on L r q \<longleftrightarrow>
     fr_client_account_number__c q = tr_account_id r \<and> fr_client_hash_srf__c q = tr_user_id r \<and>
     fr_offerid__c q = parseInt (tr_rebate_criteria_id r) \<and> fr_transaction_type__c q = tr_transaction_type r \<and>
     fr_transaction_date__c q = tr_transaction_date r \<and>
     (\<exists>s. numeric18_2 L s = numeric18_2 L (tr_amount r) \<and> fr_transactionamount__c q = Number s)"

definition flagged_rows :: "db \<Rightarrow> TransactionForRebateCriteriaRecord multiset" where
  "flagged_rows d = filter_mset tr_refund_report_created (mset (transactions d))"

text \<open>
  Every transaction that counts as reported has a row of the report to itself, but for those the reports \<open>M\<close>
  stand for.
\<close>

definition covered :: "ext \<Rightarrow> RefundRecord multiset \<Rightarrow> db \<Rightarrow> bool" where
  "covered L M d \<longleftrightarrow>
     db_ok d \<and> (\<exists>R. R \<subseteq># mset (refund_reports d) + M \<and> rel_mset (reports_on L) (flagged_rows d) R)"

text \<open>The columns of a transaction that its report is about.\<close>

definition report_view where
  "report_view L r = (tr_account_id r, tr_user_id r, tr_rebate_criteria_id r, tr_transaction_type r,
     tr_transaction_date r, numeric18_2 L (tr_amount r))"

definition flagged_views where
  "flagged_views L d = image_mset (report_view L) (flagged_rows d)"

definition view_reported where
  "view_reported L v q \<longleftrightarrow> (\<exists>r. report_view L r = v \<and> reports_on L r q)"

lemma reports_on_view: "reports_on L r = view_reported L (report_view L r)"
  by (rule ext) (auto simp: view_reported_def reports_on_def report_view_def)

lemma covered_views:
  "covered L M d \<longleftrightarrow>
     db_ok d \<and> (\<exists>R. R \<subseteq># mset (refund_reports d) + M \<and> rel_mset (view_reported L) (flagged_views L d) R)"
  unfolding covered_def flagged_views_def multiset.rel_map reports_on_view ..

lemma covered_db_ok: "covered L M d \<Longrightarrow> db_ok d"
  by (simp add: covered_def)

lemma covered_cong:
  assumes "covered L M d" and "db_ok d'" and "flagged_views L d' = flagged_views L d"
    and "refund_reports d' = refund_reports d"
  shows "covered L M d'"
  using assms by (simp add: covered_views)

lemma report_view_columns [simp]:
  assumes "ext_ok L"
  shows "report_view L (flag_row L r) = report_view L r" and "report_view L (mark L s t x r) = report_view L r"
  using ext_columns [OF assms]
  by (simp_all add: report_view_def flag_row_def mark_def transaction_columns_def column_laws_def)

section \<open>One more report\<close>

text \<open>The view of a transaction that has been read, and that of its row.\<close>

definition tx_view where
  "tx_view L x = report_view L (TransactionForRebateCriteriaSerializer_serialize x)"

definition known :: "ext \<Rightarrow> ITransactionForRebateCriteria list \<Rightarrow> db \<Rightarrow> bool" where
  "known L xs d \<longleftrightarrow> (\<forall>x\<in>set xs. \<forall>r\<in>set (transactions d). tr_id r = tx_id x \<longrightarrow> report_view L r = tx_view L x)"

lemma known_rows:
  assumes "known L xs d" and "mset (transactions d') = mset (map g (transactions d))"
    and "\<And>r. tr_id (g r) = tr_id r" and "\<And>r. report_view L (g r) = report_view L r"
  shows "known L xs d'"
proof -
  have "set (transactions d') = g ` set (transactions d)" using mset_eq_set [OF assms(2)] by simp
  with assms(1,3,4) show ?thesis by (simp add: known_def)
qed

lemma new_report: "view_reported L (tx_view L x)
    ((RefundSerializer_serialize (refund_report criteria x))\<lparr>fr_id := Some k\<rparr>)"
  unfolding view_reported_def tx_view_def
  by (intro exI [of _ "TransactionForRebateCriteriaSerializer_serialize x"])
    (auto simp: reports_on_def RefundSerializer_serialize_def refund_report_def
      TransactionForRebateCriteriaSerializer_serialize_def)

lemma flag_one:
  assumes "ext_ok L"
  shows "distinct (map tr_id rs) \<Longrightarrow> (\<And>r. r \<in> set rs \<Longrightarrow> tr_id r = i \<Longrightarrow> report_view L r = v) \<Longrightarrow>
    (let V = image_mset (report_view L) (filter_mset tr_refund_report_created (mset rs))
     in image_mset (report_view L) (filter_mset tr_refund_report_created
          (mset (map (\<lambda>q. if tr_id q = i then flag_row L q else q) rs))) \<in> {V, add_mset v V})"
proof (induction rs)
  case Nil
  then show ?case by simp
next
  case (Cons r rs)
  show ?case
  proof (cases "tr_id r = i")
    case True
    with Cons.prems(1) have "map (\<lambda>q. if tr_id q = i then flag_row L q else q) rs = rs"
      by (auto intro!: map_idI) (metis image_eqI)
    with True Cons.prems(2) [of r] assms show ?thesis by (simp add: Let_def)
  next
    case False
    with Cons show ?thesis by (auto simp: Let_def)
  qed
qed

text \<open>A report of \<open>x\<close> has been inserted, and the row of \<open>x\<close> is flagged or not.\<close>

lemma covered_report:
  assumes "covered L M d" and "db_ok d'"
    and "mset (refund_reports d') = add_mset q (mset (refund_reports d))" and "view_reported L v q"
    and "flagged_views L d' \<in> {flagged_views L d, add_mset v (flagged_views L d)}"
  shows "covered L M d'"
proof -
  obtain R where R: "R \<subseteq># mset (refund_reports d) + M" "rel_mset (view_reported L) (flagged_views L d) R"
    using assms(1) by (auto simp: covered_views)
  have "add_mset q R \<subseteq># mset (refund_reports d') + M" using R(1) by (simp add: assms(3))
  moreover from this have "R \<subseteq># mset (refund_reports d') + M" using mset_subset_eq_insertD subset_mset.less_imp_le by metis
  moreover note rel_mset_Plus [of "view_reported L", OF assms(4) R(2)]
  ultimately show ?thesis using assms(2,5) R(2) unfolding covered_views by auto
qed

lemma keeps_insertReport:
  assumes "ext_ok L" and "x \<in> set xs"
  shows "keeps (\<lambda>w. covered L M (store w) \<and> known L xs (store w)) (insertRefundReportFromTransaction L criteria x)"
proof (rule keepsI)
  fix w :: world assume c: "covered L M (store w) \<and> known L xs (store w)"
  let ?r = "insert RefundReportRepository L (refund_report criteria x)"
  let ?u = "update TransactionForRebateCriteriaRepository L (id_text (tx_id x)) [RefundReportCreated True]"
  let ?q = "\<lambda>k. (RefundSerializer_serialize (refund_report criteria x))\<lparr>fr_id := Some k\<rparr>"
  show "covered L M (store (state_of (insertRefundReportFromTransaction L criteria x) w)) \<and>
      known L xs (store (state_of (insertRefundReportFromTransaction L criteria x) w))"
  proof (cases "tx_refundReportCreated x")
    case True
    with c show ?thesis by (simp add: insertRefundReportFromTransaction_def)
  next
    case False
    obtain res w1 where i: "?r w = (res, w1)" by (cases "?r w")
    show ?thesis
    proof (cases rule: insert_report_cases [OF assms(1) i, case_names failed inserted])
      case (failed e)
      with False i c show ?thesis by (simp add: insertRefundReportFromTransaction_def io_bind_Inl)
    next
      case (inserted k y)
      have same: "transactions (store w1) = transactions (store w)" by (subst inserted(2)) simp
      then have views: "flagged_views L (store w1) = flagged_views L (store w)" and kn: "known L xs (store w1)"
        using c by (simp_all add: flagged_views_def flagged_rows_def known_def)
      have db: "db_ok (store w1)" using c by (subst inserted(2)) (simp add: covered_def db_ok_def)
      obtain r w2 where u: "?u w1 = (r, w2)" by (cases "?u w1")
      have run: "state_of (insertRefundReportFromTransaction L criteria x) w = w2"
        using False i inserted(1) u by (simp add: insertRefundReportFromTransaction_def io_bind_Inr)
      show ?thesis unfolding run
      proof (cases rule: flag_update_cases [OF assms(1) db u, case_names failed flags])
        case (failed e)
        with covered_report [OF conjunct1 [OF c] db inserted(3) new_report] views kn
        show "covered L M (store w2) \<and> known L xs (store w2)" by simp
      next
        case flags
        have "\<And>q. q \<in> set (transactions (store w1)) \<Longrightarrow> tr_id q = tx_id x \<Longrightarrow> report_view L q = tx_view L x"
          using kn assms(2) by (simp add: known_def)
        with flag_one [OF assms(1), of "transactions (store w1)" "tx_id x" "tx_view L x"] db
        have "flagged_views L (store w2) \<in> {flagged_views L (store w), add_mset (tx_view L x) (flagged_views L (store w))}"
          unfolding flagged_views_def flagged_rows_def flags(3) by (simp add: Let_def db_ok_def same)
        moreover have "db_ok (store w2)" by (rule db_ok_transactions [OF flags(3) _ flags(2) db]) simp
        moreover have "refund_reports (store w2) = refund_reports (store w1)" by (subst flags(2)) simp
        ultimately have "covered L M (store w2)"
          using covered_report [OF conjunct1 [OF c] _ _ new_report] inserted(3) by simp
        moreover have "known L xs (store w2)" by (rule known_rows [OF kn flags(3)]) (simp_all add: assms(1))
        ultimately show "covered L M (store w2) \<and> known L xs (store w2)" ..
      qed
    qed
  qed
qed

section \<open>A refund\<close>

lemma marked_covered:
  assumes "ext_ok L" and "marked L s t x d d'" and "covered L M d" shows "covered L M d'"
proof -
  have m: "mset (transactions d') = mset (map (mark L s t x) (transactions d))"
    and d': "d' = d\<lparr>transactions := transactions d'\<rparr>"
    using assms(2) by (simp_all add: marked_def)
  have "tr_refund_report_created (mark L s t x r) = tr_refund_report_created r" for r
    by (simp add: mark_def transaction_columns_def)
  then have "flagged_views L d' = flagged_views L d"
    unfolding flagged_views_def flagged_rows_def m mset_map filter_mset_image_mset image_mset.compositionality comp_def
    by (simp add: assms(1))
  moreover have "refund_reports d' = refund_reports d" by (subst d') simp
  ultimately show ?thesis using assms marked_db_ok by (intro covered_cong [OF assms(3)]) (auto simp: covered_def)
qed

lemma keeps_TransactionUpdate_covered:
  "ext_ok L \<Longrightarrow> keeps (\<lambda>w. covered L M (store w)) (TransactionUpdate_perform L x s)"
proof (rule keepsI)
  fix w :: world assume ok: "ext_ok L" and c: "covered L M (store w)"
  obtain r w' where u: "TransactionUpdate_perform L x s w = (r, w')" by (cases "TransactionUpdate_perform L x s w")
  have "db_ok (store w)" using c by (simp add: covered_def)
  from TransactionUpdate_cases [OF ok this u] c marked_covered [OF ok]
  show "covered L M (store (state_of (TransactionUpdate_perform L x s) w))" by (auto simp: u)
qed

text \<open>What a query finds is known: the rows and the objects made of them say the same.\<close>

lemma findAll_known:
  assumes "ext_ok L" and "db_ok (store w)"
    and "result_of (findAll TransactionForRebateCriteriaRepository L p) w = Inr xs"
  shows "known L xs (store w)"
  unfolding known_def
proof (intro ballI impI)
  fix x r assume x: "x \<in> set xs" and r: "r \<in> set (transactions (store w))" "tr_id r = tx_id x"
  have "orm_reads (serial_matches tr_id) (orm_of TransactionForRebateCriteriaRepository L)"
    using transactions_reads [OF assms(1)] by (simp add: TransactionForRebateCriteriaRepository_def)
  from findAll_Inr [OF this assms(3)] obtain rs where
    rs: "mset rs = mset (filter p (transactions (store w)))"
    and xs: "map (TransactionForRebateCriteriaSerializer_deserialize L) rs = map Inr xs"
    by (auto simp: TransactionForRebateCriteriaRepository_def)
  from x have "Inr x \<in> set (map (TransactionForRebateCriteriaSerializer_deserialize L) rs)" unfolding xs by simp
  then obtain q where q: "q \<in> set rs" "TransactionForRebateCriteriaSerializer_deserialize L q = Inr x" by auto
  have "q \<in> set (transactions (store w))" using mset_eq_set [OF rs] q(1) by auto
  moreover have "tr_id q = tx_id x" and "report_view L q = tx_view L x"
    using q(2) by (auto simp: TransactionForRebateCriteriaSerializer_deserialize_def tx_view_def report_view_def
        TransactionForRebateCriteriaSerializer_serialize_def)
  ultimately show "report_view L r = tx_view L x"
    using r assms(2) inj_onD [of tr_id "set (transactions (store w))" q r] by (simp add: db_ok_def distinct_map)
qed

lemma keeps_RefundReportCreate:
  assumes "ext_ok L"
  shows "keeps (\<lambda>w. covered L M (store w)) (RefundReportCreate_perform L x criteria)"
proof (rule keepsI)
  fix w :: world assume c: "covered L M (store w)"
  let ?T = TransactionForRebateCriteriaRepository
  let ?f = "\<lambda>xs. io_for xs (insertRefundReportFromTransaction L criteria)"
  show "covered L M (store (state_of (RefundReportCreate_perform L x criteria) w))"
  proof (cases "findAll ?T L (refund_tracked x) w")
    case (Pair r1 w1)
    have w1: "w1 = tick w" using Pair findAll_state [of ?T L "refund_tracked x" w] by simp
    show ?thesis
    proof (cases r1)
      case (Inl e)
      with Pair c w1 show ?thesis
        by (simp add: RefundReportCreate_perform_def getRefundTransactionsForClientOffer_def io_bind_Inl)
    next
      case (Inr xs)
      obtain r2 w2 where f2: "findAll ?T L (qualifying_to_report x) w1 = (r2, w2)"
        by (cases "findAll ?T L (qualifying_to_report x) w1")
      have w2: "w2 = tick w1" using f2 findAll_state [of ?T L "qualifying_to_report x" w1] by simp
      have kx: "known L xs (store w)" using findAll_known [OF assms covered_db_ok [OF c], of "refund_tracked x" xs] Pair Inr by simp
      show ?thesis
      proof (cases r2)
        case (Inl e)
        with Pair Inr f2 c w1 w2 show ?thesis
          by (simp add: RefundReportCreate_perform_def getRefundTransactionsForClientOffer_def
              getAssociatedQualifyingTransactions_def io_bind_Inr io_bind_Inl)
      next
        case (Inr ys)
        have "known L ys (store w1)" using findAll_known [OF assms, of w1 "qualifying_to_report x" ys] covered_db_ok [OF c] f2 Inr w1 by simp
        with kx have k: "known L (xs @ ys) (store w2)" by (auto simp: known_def w1 w2)
        have "keeps (\<lambda>v. covered L M (store v) \<and> known L (xs @ ys) (store v)) (io_then (?f xs) (?f ys))"
          by (intro keeps_then keeps_for keeps_insertReport [OF assms]) simp_all
        from keepsD [OF this, of w2] c k have "covered L M (store (state_of (io_then (?f xs) (?f ys)) w2))"
          by (simp add: w1 w2)
        with Pair \<open>r1 = Inr xs\<close> f2 Inr c w1 show ?thesis
          by (simp add: RefundReportCreate_perform_def getRefundTransactionsForClientOffer_def
              getAssociatedQualifyingTransactions_def io_bind_Inr)
      qed
    qed
  qed
qed

lemma refund_reports_covered:
  assumes "ext_ok L" and "covered L M (store w)"
  shows "covered L M (store (state_of (RefundStrategy_perform L x) w))"
proof -
  have "keeps (\<lambda>w. covered L M (store w)) (createRefundReport L c)" for c
    by (cases "rx_optionalRebateCriteria c")
      (simp_all add: createRefundReport_def keeps_return keeps_RefundReportCreate [OF assms(1)] del: io_return_apply)
  then have "keeps (\<lambda>w. covered L M (store w)) (RefundStrategy_perform L x)"
    unfolding RefundStrategy_perform_def RefundValidation_result_def case_prod_unfold
    by (intro keeps_try keeps_bind keeps_then keeps_return keeps_TransactionUpdate_covered [OF assms(1)]
        frames_keeps [OF frames_find] frames_keeps [OF refund_states.validation_reads_only])
  from keepsD [OF this assms(2)] show ?thesis .
qed

text \<open>
  C20.  Every transaction that counts as reported has a report of its own: whatever requests fail, and whether or
  not they fail between the two statements of a report, after \<open>RefundStrategy.perform\<close> there is for every
  transaction whose \<open>refund_report_created\<close> is set a row of the refund report, to itself, with its account, client,
  offer, type, date and amount, when this was so before (and otherwise the reports that were missing before are
  those that are missing now).
\<close>

theorem refund_perform_keeps_reports_covered:
  assumes "ext_ok L" and "covered L M (store w)"
  shows "covered L M (store (state_of (RefundStrategy_perform L x) w))"
  by (rule refund_reports_covered [OF assms])

text \<open>The sample offer with one rebate given, a tracked refund already there, and another refund.\<close>

definition sample_refund :: ITransactionForRebateCriteria where
  "sample_refund = sample_transaction
     \<lparr>tx_id := Some 3, tx_transactionId := ''t3'', tx_transactionType := Refund, tx_amount := ''80.00''\<rparr>"

definition refund_db :: db where
  "refund_db = sample_db
     \<lparr>transactions := map TransactionForRebateCriteriaSerializer_serialize
        [sample_transaction\<lparr>tx_status := RebateCreated\<rparr>,
         sample_refund\<lparr>tx_id := Some 2, tx_transactionId := ''t2'', tx_status := RefundTrackedForReporting\<rparr>,
         sample_refund],
      rebates := [sample_pending_rebate]\<rparr>"

definition refund_world :: world where
  "refund_world = \<lparr>calls = 0, store = refund_db\<rparr>"

lemma store_refund_world [simp]: "store refund_world = refund_db"
  by (simp add: refund_world_def)

lemma refund_db_ok: "db_ok refund_db"
  by (simp add: db_ok_def refund_db_def sample_db_def empty_db_def sample_transaction_def sample_refund_def
      TransactionForRebateCriteriaSerializer_serialize_def sample_pending_rebate_def)

lemma refund_perform_keeps_reports_covered_witness:
  "covered ref_ext {#} (store (state_of (RefundStrategy_perform ref_ext sample_refund) refund_world))"
proof -
  have "flagged_rows refund_db = {#}"
    by (simp add: flagged_rows_def refund_db_def sample_db_def empty_db_def sample_transaction_def sample_refund_def
        TransactionForRebateCriteriaSerializer_serialize_def)
  then have "covered ref_ext {#} refund_db" using refund_db_ok by (simp add: covered_def)
  then show ?thesis using refund_perform_keeps_reports_covered [OF ref_ext_ok, of "{#}" refund_world sample_refund] by simp
qed

section \<open>The transactions that are due are reported\<close>

definition transaction_of :: "ext \<Rightarrow> TransactionForRebateCriteriaRecord \<Rightarrow> ITransactionForRebateCriteria" where
  "transaction_of L r = projr (TransactionForRebateCriteriaSerializer_deserialize L r)"

lemma transaction_of_fields [simp]:
  "tx_id (transaction_of L r) = tr_id r" "tx_refundReportCreated (transaction_of L r) = tr_refund_report_created r"
  by (simp_all add: transaction_of_def TransactionForRebateCriteriaSerializer_deserialize_def)

text \<open>The rows \<open>p\<close> selects are flagged and each has got a report, the database's number apart.\<close>

definition report_row :: "ext \<Rightarrow> IRebateCriteria \<Rightarrow> TransactionForRebateCriteriaRecord \<Rightarrow> RefundRecord" where
  "report_row L criteria r = RefundSerializer_serialize (refund_report criteria (transaction_of L r))"

definition unnumbered :: "RefundRecord list \<Rightarrow> RefundRecord multiset" where
  "unnumbered rs = image_mset (\<lambda>r. r\<lparr>fr_id := None\<rparr>) (mset rs)"

definition reported ::
  "ext \<Rightarrow> IRebateCriteria \<Rightarrow> (TransactionForRebateCriteriaRecord \<Rightarrow> bool) \<Rightarrow> db \<Rightarrow> db \<Rightarrow> bool" where
  "reported L criteria p d d' \<longleftrightarrow>
     mset (transactions d') = mset (map (\<lambda>r. if p r then flag_row L r else r) (transactions d)) \<and>
     unnumbered (refund_reports d') =
       unnumbered (refund_reports d) + mset (map (report_row L criteria) (filter p (transactions d))) \<and>
     d' = d\<lparr>transactions := transactions d', refund_reports := refund_reports d'\<rparr>"

lemma reported_none: "reported L criteria (\<lambda>r. False) d d"
  by (simp add: reported_def)

lemma reported_cong:
  assumes "\<And>r. r \<in> set (transactions d) \<Longrightarrow> p r \<longleftrightarrow> q r"
  shows "reported L criteria p d d' \<longleftrightarrow> reported L criteria q d d'"
proof -
  have "map (\<lambda>r. if p r then flag_row L r else r) (transactions d) =
      map (\<lambda>r. if q r then flag_row L r else r) (transactions d)"
    using assms by simp
  moreover have "filter p (transactions d) = filter q (transactions d)" using assms by (rule filter_cong [OF refl])
  ultimately show ?thesis unfolding reported_def by (simp only:)
qed

lemma reported_db_ok: "reported L criteria p d d' \<Longrightarrow> db_ok d \<Longrightarrow> db_ok d'"
proof -
  assume r: "reported L criteria p d d'" and ok: "db_ok d"
  let ?e = "d\<lparr>transactions := transactions d'\<rparr>"
  have "db_ok ?e"
    by (rule db_ok_transactions [of ?e "\<lambda>r. if p r then flag_row L r else r" d])
      (use r ok in \<open>simp_all add: reported_def\<close>)
  then have "db_ok (?e\<lparr>refund_reports := refund_reports d'\<rparr>)" by (simp add: db_ok_def)
  moreover have "d' = ?e\<lparr>refund_reports := refund_reports d'\<rparr>" using r by (simp only: reported_def)
  ultimately show "db_ok d'" by metis
qed

text \<open>Two runs on rows of different numbers are one run on both.\<close>

lemma reported_trans:
  assumes "reported L criteria (\<lambda>r. tr_id r \<in> A) d d1" and "reported L criteria (\<lambda>r. tr_id r \<in> B) d1 d2"
    and "A \<inter> B = {}"
  shows "reported L criteria (\<lambda>r. tr_id r \<in> A \<union> B) d d2"
proof -
  let ?f = "\<lambda>X r. if tr_id r \<in> X then flag_row L r else r"
  have t1: "mset (transactions d1) = mset (map (?f A) (transactions d))"
    and u1: "unnumbered (refund_reports d1) = unnumbered (refund_reports d) +
      mset (map (report_row L criteria) (filter (\<lambda>r. tr_id r \<in> A) (transactions d)))"
    and d1: "d1 = d\<lparr>transactions := transactions d1, refund_reports := refund_reports d1\<rparr>"
    using assms(1) by (simp_all only: reported_def)
  have t2: "mset (transactions d2) = mset (map (?f B) (transactions d1))"
    and u2: "unnumbered (refund_reports d2) = unnumbered (refund_reports d1) +
      mset (map (report_row L criteria) (filter (\<lambda>r. tr_id r \<in> B) (transactions d1)))"
    and d2: "d2 = d1\<lparr>transactions := transactions d2, refund_reports := refund_reports d2\<rparr>"
    using assms(2) by (simp_all only: reported_def)
  have one: "?f B (?f A r) = ?f (A \<union> B) r" for r using assms(3) by auto
  have "mset (map (?f B) (transactions d1)) = mset (map (?f B) (map (?f A) (transactions d)))"
    using t1 by (simp only: mset_map)
  also have "\<dots> = mset (map (?f (A \<union> B)) (transactions d))" unfolding map_map o_def one ..
  finally have t: "mset (transactions d2) = mset (map (?f (A \<union> B)) (transactions d))" using t2 by simp
  have "filter (\<lambda>r. tr_id r \<in> B) (map (?f A) rs) = filter (\<lambda>r. tr_id r \<in> B) rs" for rs
    using assms(3) by (induction rs) auto
  moreover have "mset (filter (\<lambda>r. tr_id r \<in> B) (transactions d1)) =
      mset (filter (\<lambda>r. tr_id r \<in> B) (map (?f A) (transactions d)))"
    unfolding mset_filter t1 ..
  ultimately have b: "mset (map (report_row L criteria) (filter (\<lambda>r. tr_id r \<in> B) (transactions d1))) =
      mset (map (report_row L criteria) (filter (\<lambda>r. tr_id r \<in> B) (transactions d)))"
    by (simp only: mset_map)
  have "mset (filter (\<lambda>r. tr_id r \<in> A \<union> B) rs) =
      mset (filter (\<lambda>r. tr_id r \<in> A) rs) + mset (filter (\<lambda>r. tr_id r \<in> B) rs)" for rs
    using assms(3) by (induction rs) auto
  note both = this [of "transactions d"]
  have "unnumbered (refund_reports d2) = unnumbered (refund_reports d) +
      mset (map (report_row L criteria) (filter (\<lambda>r. tr_id r \<in> A \<union> B) (transactions d)))"
    unfolding u2 u1 b by (simp only: mset_map both image_mset_union add.assoc)
  moreover have "d2 = d\<lparr>transactions := transactions d2, refund_reports := refund_reports d2\<rparr>"
    using d1 d2 by (cases d, cases d1, cases d2) simp
  ultimately show ?thesis using t unfolding reported_def by simp
qed

lemma filter_key: "distinct (map f xs) \<Longrightarrow> x \<in> set xs \<Longrightarrow> filter (\<lambda>y. f y = f x) xs = [x]"
  by (induction xs) (auto simp: filter_empty_conv image_iff)

lemma insertReport_skips:
  "tx_refundReportCreated x \<Longrightarrow> insertRefundReportFromTransaction L criteria x w = (Inr (), w)"
  by (simp add: insertRefundReportFromTransaction_def)

lemma insertReport_reports:
  assumes "ext_ok L" and "reliable L" and "db_ok (store w)" and "r \<in> set (transactions (store w))"
    and "\<not> tr_refund_report_created r"
  obtains w' where "insertRefundReportFromTransaction L criteria (transaction_of L r) w = (Inr (), w')"
    and "reported L criteria (\<lambda>q. tr_id q \<in> {tr_id r}) (store w) (store w')"
proof -
  let ?x = "transaction_of L r"
  obtain res w1 where i: "insert RefundReportRepository L (refund_report criteria ?x) w = (res, w1)"
    by (cases "insert RefundReportRepository L (refund_report criteria ?x) w")
  have "\<exists>y. res = Inr y"
  proof -
    obtain r' rs' where "orm_save (refund_reports_orm L) (calls w)
        (RefundSerializer_serialize (refund_report criteria ?x)) (refund_reports (store w)) = Inr (r', rs')"
      using reliable_save [OF reliable_refunds [OF assms(2)]] by blast
    then show ?thesis
      using i by (auto simp: insert_def insertRecord_def execute_def io_bind_apply RefundReportRepository_def
          RefundSerializer_deserialize_def)
  qed
  then obtain k y where res: "res = Inr y"
    and only: "store w1 = (store w)\<lparr>refund_reports := refund_reports (store w1)\<rparr>"
    and ms: "mset (refund_reports (store w1)) =
        add_mset ((RefundSerializer_serialize (refund_report criteria ?x))\<lparr>fr_id := Some k\<rparr>)
          (mset (refund_reports (store w)))"
    by (cases rule: insert_report_cases [OF assms(1) i]) auto
  have ok1: "db_ok (store w1)" using assms(3) by (subst only) (simp add: db_ok_def)
  obtain j where j: "tr_id r = Some j" using assms(3,4) by (auto simp: db_ok_def)
  obtain w2 where u: "update TransactionForRebateCriteriaRepository L (id_text (tr_id r))
      [RefundReportCreated True] w1 = (Inr (), w2)"
  proof -
    have "int_key (id_text (tr_id r)) \<noteq> None" using j by simp
    from reliable_update_id [OF reliable_transactions [OF assms(2)] this]
    have "\<exists>us rs'. orm_update_id (orm_of TransactionForRebateCriteriaRepository L) n (id_text (tr_id r)) f rs =
        Inr (us, rs')" for n f rs
      unfolding TransactionForRebateCriteriaRepository_def repository.simps .
    from update_replies [OF this] that show thesis by blast
  qed
  have "store w2 = (store w1)\<lparr>transactions := transactions (store w2)\<rparr>"
    and t: "mset (transactions (store w2)) =
      mset (map (\<lambda>q. if tr_id q = tr_id r then flag_row L q else q) (transactions (store w1)))"
    by (cases rule: flag_update_cases [OF assms(1) ok1 u]; simp)+
  moreover have same: "transactions (store w1) = transactions (store w)" by (subst only) simp
  ultimately have all: "store w2 = (store w)\<lparr>transactions := transactions (store w2), refund_reports := refund_reports (store w2)\<rparr>"
    and rep: "refund_reports (store w2) = refund_reports (store w1)"
    using only by (cases "store w", cases "store w1", cases "store w2", simp)+
  have "filter (\<lambda>q. tr_id q = tr_id r) (transactions (store w)) = [r]"
    by (rule filter_key) (use assms(3,4) in \<open>simp_all add: db_ok_def\<close>)
  then have "unnumbered (refund_reports (store w2)) = unnumbered (refund_reports (store w)) +
      mset (map (report_row L criteria) (filter (\<lambda>q. tr_id q \<in> {tr_id r}) (transactions (store w))))"
    unfolding rep unnumbered_def ms
    by (simp add: report_row_def RefundSerializer_serialize_def refund_report_def)
  then have "reported L criteria (\<lambda>q. tr_id q \<in> {tr_id r}) (store w) (store w2)"
    using all t unfolding reported_def same by simp
  moreover have "insertRefundReportFromTransaction L criteria ?x w = (Inr (), w2)"
    using i res u assms(5) by (simp add: insertRefundReportFromTransaction_def io_bind_Inr)
  ultimately show thesis using that by blast
qed

text \<open>The numbers of the rows of a list that are not flagged yet.\<close>

definition unflagged :: "TransactionForRebateCriteriaRecord list \<Rightarrow> nat option set" where
  "unflagged rs = tr_id ` {r \<in> set rs. \<not> tr_refund_report_created r}"

lemma unflagged_Cons:
  "unflagged (r # rs) = (if tr_refund_report_created r then {} else {tr_id r}) \<union> unflagged rs"
  by (auto simp: unflagged_def)

lemma for_reports:
  assumes "ext_ok L" and "reliable L" and "db_ok (store w)" and "set rs \<subseteq> set (transactions (store w))"
    and "distinct (map tr_id rs)"
  shows "\<exists>w'. io_for (map (transaction_of L) rs) (insertRefundReportFromTransaction L criteria) w = (Inr (), w') \<and>
    reported L criteria (\<lambda>q. tr_id q \<in> unflagged rs) (store w) (store w')"
  using assms(3-5)
proof (induction rs arbitrary: w)
  case Nil
  then show ?case by (simp add: unflagged_def reported_none)
next
  case (Cons r rs)
  show ?case
  proof (cases "tr_refund_report_created r")
    case True
    with Cons.IH [of w] Cons.prems show ?thesis
      by (auto simp: io_then_apply insertReport_skips unflagged_Cons)
  next
    case False
    obtain w1 where i: "insertRefundReportFromTransaction L criteria (transaction_of L r) w = (Inr (), w1)"
      and r: "reported L criteria (\<lambda>q. tr_id q \<in> {tr_id r}) (store w) (store w1)"
      by (rule insertReport_reports [OF assms(1,2) Cons.prems(1), of r criteria]) (use Cons.prems(2) False in auto)
    have "set (transactions (store w1)) =
        (\<lambda>q. if tr_id q \<in> {tr_id r} then flag_row L q else q) ` set (transactions (store w))"
      using r mset_eq_set [of "transactions (store w1)"] unfolding reported_def by (metis (no_types, lifting) set_map)
    moreover have "tr_id q \<noteq> tr_id r" if "q \<in> set rs" for q using Cons.prems(3) that by (metis distinct.simps(2) image_eqI list.set_map list.simps(9))
    ultimately have "set rs \<subseteq> set (transactions (store w1))" using Cons.prems(2) by force
    with Cons.IH [OF reported_db_ok [OF r Cons.prems(1)]] Cons.prems(3) obtain w2 where
      f: "io_for (map (transaction_of L) rs) (insertRefundReportFromTransaction L criteria) w1 = (Inr (), w2)"
      and r2: "reported L criteria (\<lambda>q. tr_id q \<in> unflagged rs) (store w1) (store w2)" by auto
    have "{tr_id r} \<inter> unflagged rs = {}" using Cons.prems(3) by (auto simp: unflagged_def)
    from reported_trans [OF r r2 this] i f False show ?thesis by (auto simp: io_then_Inr unflagged_Cons)
  qed
qed

text \<open>The rows that are due when a refund of \<open>x\<close> has been marked.\<close>

definition due :: "db \<Rightarrow> ITransactionForRebateCriteria \<Rightarrow> TransactionForRebateCriteriaRecord \<Rightarrow> bool" where
  "due d x r \<longleftrightarrow>
     2 \<le> length (filter (refund_tracked x) (transactions d)) \<and> \<not> tr_refund_report_created r \<and>
     (refund_tracked x r \<or> qualifying_to_report x r)"

lemma findAll_transactions:
  assumes "ext_ok L" and "reliable L"
  obtains rs where "findAll TransactionForRebateCriteriaRepository L p w = (Inr (map (transaction_of L) rs), tick w)"
    and "mset rs = mset (filter p (transactions (store w)))"
proof -
  obtain rs where rs: "orm_find (transactions_orm L) (calls w) p (transactions (store w)) = Inr rs"
    using reliable_find [OF reliable_transactions [OF assms(2)]] by blast
  have "traverse (TransactionForRebateCriteriaSerializer_deserialize L) rs = Inr (map (transaction_of L) rs)"
    by (simp add: traverse_Inr transaction_of_def TransactionForRebateCriteriaSerializer_deserialize_def)
  with rs have "findAll TransactionForRebateCriteriaRepository L p w = (Inr (map (transaction_of L) rs), tick w)"
    by (simp add: findAll_cases TransactionForRebateCriteriaRepository_def)
  with orm_find_mset [OF transactions_reads [OF assms(1)] rs] that show thesis by blast
qed

lemma io_for_append: "io_then (io_for xs f) (io_for ys f) = io_for (xs @ ys) f"
  by (induction xs) (auto simp: fun_eq_iff io_then_apply split: sum.split prod.split)

lemma RefundReportCreate_reports:
  assumes "ext_ok L" and "reliable L" and "db_ok (store w)"
  shows "\<exists>w'. RefundReportCreate_perform L x criteria w = (Inr (), w') \<and>
    reported L criteria (due (store w) x) (store w) (store w')"
proof -
  let ?d = "store w"
  obtain rs where f1: "findAll TransactionForRebateCriteriaRepository L (refund_tracked x) w =
      (Inr (map (transaction_of L) rs), tick w)" and rs: "mset rs = mset (filter (refund_tracked x) (transactions ?d))"
    by (rule findAll_transactions [OF assms(1,2)])
  have len: "length rs = length (filter (refund_tracked x) (transactions ?d))" by (rule mset_filter_length [OF rs])
  show ?thesis
  proof (cases "2 \<le> length rs")
    case False
    then have "due ?d x = (\<lambda>r. False)" by (simp add: fun_eq_iff due_def len)
    with False f1 show ?thesis
      by (simp add: RefundReportCreate_perform_def getRefundTransactionsForClientOffer_def io_bind_Inr reported_none)
  next
    case True
    obtain qs where f2: "findAll TransactionForRebateCriteriaRepository L (qualifying_to_report x) (tick w) =
        (Inr (map (transaction_of L) qs), tick (tick w))"
      and qs: "mset qs = mset (filter (qualifying_to_report x) (transactions (store (tick w))))"
      by (rule findAll_transactions [OF assms(1,2)])
    have sets: "set rs = {r \<in> set (transactions ?d). refund_tracked x r}"
      "set qs = {r \<in> set (transactions ?d). qualifying_to_report x r}"
      using mset_eq_set [OF rs] mset_eq_set [OF qs] by simp_all
    have ids: "distinct (map tr_id (transactions ?d))" using assms(3) by (simp add: db_ok_def)
    then have inj: "inj_on tr_id (set (transactions ?d))" by (simp add: distinct_map)
    have "distinct (map tr_id rs)" "distinct (map tr_id qs)"
      using ids distinct_map_mset [OF rs, of tr_id] distinct_map_mset [OF qs, of tr_id]
      by (simp_all add: distinct_map_filter)
    moreover have "\<not> (refund_tracked x r \<and> qualifying_to_report x r)" for r
      by (auto simp: refund_tracked_def qualifying_to_report_def)
    ultimately have "distinct (map tr_id (rs @ qs))"
      using sets inj by (auto dest: inj_onD)
    moreover have "set (rs @ qs) \<subseteq> set (transactions (store (tick (tick w))))" using sets by auto
    ultimately obtain w' where
      f: "io_for (map (transaction_of L) (rs @ qs)) (insertRefundReportFromTransaction L criteria) (tick (tick w)) =
        (Inr (), w')"
      and r: "reported L criteria (\<lambda>q. tr_id q \<in> unflagged (rs @ qs)) ?d (store w')"
      using for_reports [OF assms(1,2), of "tick (tick w)" "rs @ qs" criteria] assms(3) by auto
    have "reported L criteria (due ?d x) ?d (store w')"
    proof (rule iffD1 [OF reported_cong r])
      fix q assume q: "q \<in> set (transactions ?d)"
      have "tr_id q \<in> unflagged (rs @ qs) \<longleftrightarrow> q \<in> set (rs @ qs) \<and> \<not> tr_refund_report_created q"
        unfolding unflagged_def using inj q sets by (auto dest: inj_onD)
      with q sets len True show "tr_id q \<in> unflagged (rs @ qs) \<longleftrightarrow> due ?d x q" by (auto simp: due_def)
    qed
    moreover have "RefundReportCreate_perform L x criteria w = (Inr (), w')"
      using f f1 f2 True by (simp add: RefundReportCreate_perform_def getRefundTransactionsForClientOffer_def
          getAssociatedQualifyingTransactions_def io_bind_Inr io_for_append)
    ultimately show ?thesis by blast
  qed
qed

lemma refund_status_reported:
  assumes "ext_ok L" and "reliable L" and "db_ok (store w)" and "tx_id x \<noteq> None"
  shows "let d = store w; d' = store (state_of (RefundStrategy_perform L x) w);
      offer = criteria_in L d (tx_rebateCriteriaId x)
    in \<exists>t d1. marked L (refund_status offer d x) t x d d1 \<and>
      (case offer of None \<Rightarrow> d' = d1 | Some criteria \<Rightarrow> reported L criteria (due d1 x) d1 d')"
proof -
  define offer where "offer = criteria_in L (store w) (tx_rebateCriteriaId x)"
  let ?s = "refund_status offer (store w) x" and ?c = "\<lparr>rx_transaction = x, rx_optionalRebateCriteria = offer\<rparr>"
  obtain w1 where f: "find RebateCriteriaRepository L (tx_rebateCriteriaId x) w = (Inr offer, w1)"
    and w1: "store w1 = store w"
    using decidesD [OF criteria_decides [OF assms(1,2)] assms(3)] by (auto simp: offer_def)
  have agrees: "refund_inv L x offer (store w1) ?c" using assms(1,3) w1 by (simp add: refund_inv_def)
  have "can_tell (refund_tests L x offer) (store w1)" using assms(2) by (simp add: refund_tests_def)
  moreover have "refund_status offer d x \<noteq> UnknownIssue" for d by (simp add: refund_status_def split: option.split)
  ultimately obtain c w2 where v: "RefundValidation_result L ?c w1 = (Inr (?s, c), w2)"
    and c: "refund_inv L x offer (store w1) c" and w2: "store w2 = store w"
    using refund_decided.validation_replies [OF agrees] unfolding refund_status_tests w1 RefundValidation_result_def
    by metis
  have c': "c = ?c" using c by (simp add: refund_inv_def)
  obtain w3 where u: "TransactionUpdate_perform L x ?s w2 = (Inr (), w3)"
    using TransactionUpdate_replies [OF assms(2,4)] by blast
  have "db_ok (store w2)" using assms(3) w2 by simp
  from TransactionUpdate_cases [OF assms(1) this u] obtain t where m: "marked L ?s t x (store w) (store w3)"
    using w2 by auto
  have run: "state_of (RefundStrategy_perform L x) w = state_of (createRefundReport L ?c) w3"
    using f v u c' by (auto simp: RefundStrategy_perform_def io_try_apply io_bind_Inr io_then_Inr
        split: prod.splits sum.splits)
  have "case offer of None \<Rightarrow> store (state_of (createRefundReport L ?c) w3) = store w3
      | Some criteria \<Rightarrow> reported L criteria (due (store w3) x) (store w3) (store (state_of (createRefundReport L ?c) w3))"
  proof (cases offer)
    case None
    then show ?thesis by (simp add: createRefundReport_def)
  next
    case (Some criteria)
    from RefundReportCreate_reports [OF assms(1,2) marked_db_ok [OF m assms(3)], of x criteria] Some
    show ?thesis by (auto simp: createRefundReport_def)
  qed
  with m show ?thesis unfolding offer_def [symmetric] Let_def run by blast
qed

text \<open>
  C15.  A refund gets the status it deserves and the transactions that are due are reported, each once.  When
  the database answers, \<open>RefundStrategy.perform\<close> marks the transaction with \<open>refund_status\<close>; with an offer,
  and two tracked refunds of the client for it, the tracked refunds and the rewarded qualifying transactions
  not yet reported get a row in the report, and their flag; nothing else changes.
\<close>

theorem refund_perform_implements_status:
  assumes "ext_ok L" and "reliable L" and "db_ok (store w)" and "tx_id x \<noteq> None"
  shows "let d = store w; d' = store (state_of (RefundStrategy_perform L x) w);
      offer = criteria_in L d (tx_rebateCriteriaId x)
    in \<exists>t d1. marked L (refund_status offer d x) t x d d1 \<and>
      (case offer of None \<Rightarrow> d' = d1 | Some criteria \<Rightarrow> reported L criteria (due d1 x) d1 d')"
  by (rule refund_status_reported [OF assms])

lemma refund_perform_implements_status_witness:
  "\<exists>t d1. marked ref_ext RefundTrackedForReporting t sample_refund refund_db d1 \<and>
     reported ref_ext sample_criteria (due d1 sample_refund) d1
       (store (state_of (RefundStrategy_perform ref_ext sample_refund) refund_world))"
proof -
  have offer: "criteria_in ref_ext refund_db (tx_rebateCriteriaId sample_refund) = Some sample_criteria"
    by (simp add: criteria_in_def refund_db_def sample_db_def empty_db_def sample_refund_def sample_transaction_def
        RebateCriteriaSerializer_serialize_def RebateCriteriaSerializer_deserialize_def sample_criteria_def Let_def)
  have "refund_status (Some sample_criteria) refund_db sample_refund = RefundTrackedForReporting"
    by (simp add: refund_status_def has_rebate_def tracks_refunds_def refund_db_def sample_db_def empty_db_def
        sample_refund_def sample_transaction_def sample_pending_rebate_def sample_criteria_def)
  with offer refund_perform_implements_status [OF ref_ext_ok ref_reliable, of refund_world sample_refund]
  show ?thesis by (simp add: refund_db_ok Let_def) (simp add: sample_refund_def)
qed

end
