(* ===== verification/Master.thy ===== *)
theory Master
  imports Scheduler Workers ExportProperties RefundReports
begin

text \<open>
  The master's wait for its workers: when it ends, and a transaction it waits for in vain.
\<close>

definition pending_count :: "db \<Rightarrow> nat" where
  "pending_count d = length (filter (\<lambda>r. tr_processed_at r = None) (transactions d))"

lemma numPending_reliable:
  assumes "ext_ok L" and "reliable L"
  shows "numPending L w = (Inr (Num (of_nat (pending_count (store w)))), tick w)"
proof -
  obtain xs where q: "orm_count_rows (transactions_orm L) (calls w) (\<lambda>r. tr_processed_at r = None)
      (transactions (store w)) = Inr xs"
    using reliable_count_rows [OF reliable_transactions [OF assms(2)]] by blast
  from orm_count_rows_text [OF transactions_reads [OF assms(1)] q] q show ?thesis
    by (simp add: numPending_def io_simps TransactionForRebateCriteriaRepository_def count_response_def pending_count_def)
qed

lemma wait_reliable:
  assumes "ext_ok L" and "reliable L" and "meanwhile S = undisturbed f"
  shows "wait_for_workers L S k w =
    (if pending_count (store (f k w)) = 0 then Some (Inr (), tick (f k w))
     else wait_for_workers L S (Suc k) (tick (f k w)))"
  by (subst wait_for_workers.simps) (simp add: numPending_reliable [OF assms(1,2)] assms(3))

section \<open>The wait ends\<close>

text \<open>
  The master's wait ends: when the database answers, nothing ends the process and the workers get on, that is, every wait lowers
  the number of pending transactions or leaves none, the loop returns, and nothing is pending then.
\<close>

theorem master_wait_ends:
  assumes "ext_ok L" and "reliable L" and "meanwhile S = undisturbed f"
    and "\<And>k w. pending_count (store (f k w)) = 0 \<or> pending_count (store (f k w)) < pending_count (store w)"
  shows "\<exists>w'. wait_for_workers L S k w = Some (Inr (), w') \<and> pending_count (store w') = 0"
proof (induction "pending_count (store w)" arbitrary: k w rule: less_induct)
  case less
  let ?w = "f k w"
  show ?case
  proof (cases "pending_count (store ?w) = 0")
    case True
    then show ?thesis using wait_reliable [OF assms(1-3), of k w] by simp
  next
    case False
    with assms(4) [where k = k and w = w] less [of "tick ?w" "Suc k"] wait_reliable [OF assms(1-3), of k w]
    show ?thesis by simp
  qed
qed

fun process_first :: "TransactionForRebateCriteriaRecord list \<Rightarrow> TransactionForRebateCriteriaRecord list" where
  "process_first [] = []"
| "process_first (r # rs) =
     (if tr_processed_at r = None then r\<lparr>tr_processed_at := Some 0\<rparr> # rs else r # process_first rs)"

definition one_by_one :: scheduler where
  "one_by_one = \<lparr>connections = (\<lambda>_. Inr ()),
     meanwhile = undisturbed (\<lambda>_ w. w\<lparr>store := (store w)\<lparr>transactions := process_first (transactions (store w))\<rparr>\<rparr>),
     sync_order1 = [], sync_order2 = [], export_path = ''out/rebates.csv''\<rparr>"

lemma process_first_count:
  "length (filter (\<lambda>r. tr_processed_at r = None) (process_first rs)) =
     length (filter (\<lambda>r. tr_processed_at r = None) rs) - 1"
  by (induction rs) (auto simp: Suc_diff_le length_greater_0_conv filter_empty_conv)

lemma master_wait_ends_witness:
  "\<exists>w'. wait_for_workers ref_ext one_by_one 0 sample_world = Some (Inr (), w') \<and> pending_count (store w') = 0"
  by (rule master_wait_ends [OF ref_ext_ok ref_reliable, where
        f = "\<lambda>_ w. w\<lparr>store := (store w)\<lparr>transactions := process_first (transactions (store w))\<rparr>\<rparr>"])
    (simp add: one_by_one_def, simp add: pending_count_def process_first_count, linarith)

section \<open>A transaction without a strategy\<close>

text \<open>One round of the workers from 1 to \<open>n\<close>, one after the other.\<close>

definition workers_run :: "ext \<Rightarrow> nat \<Rightarrow> world \<Rightarrow> world" where
  "workers_run L n = state_of (io_for [1..<Suc n] (\<lambda>i. TransactionProcessing_perform L (Some i)))"

definition only_unknown_pending :: "db \<Rightarrow> bool" where
  "only_unknown_pending d \<longleftrightarrow>
     pending_count d \<noteq> 0 \<and>
     (\<forall>r\<in>set (transactions d). tr_processed_at r = None \<longrightarrow> (\<exists>t. tr_transaction_type r = OtherTransactionType t))"

lemma unknown_left_alone:
  assumes "\<forall>x\<in>set xs. \<exists>t. tx_transactionType x = OtherTransactionType t"
  shows "store (state_of (io_for xs (processTransaction L)) w) = store w"
  using assms
proof (induction xs arbitrary: w)
  case Nil
  then show ?case by simp
next
  case (Cons x xs)
  then have "state_of (processTransaction L x) w = w" by (auto simp: processTransaction_type run_strategy_def)
  with Cons show ?case by (auto simp: io_then_apply split: prod.split sum.split)
qed

lemma unknown_assigned:
  assumes "ext_ok L" and "only_unknown_pending (store w)"
    and "result_of (getTransactionsAssignedToProcess L i) w = Inr xs"
  shows "\<forall>x\<in>set xs. \<exists>t. tx_transactionType x = OtherTransactionType t"
proof
  fix x assume x: "x \<in> set xs"
  let ?p = "\<lambda>r. tr_processed_at r = None \<and> tr_processor_id r = Some i"
  obtain rs where q: "orm_find_by (transactions_orm L) (calls w) ?p tr_transaction_date (transactions (store w)) = Inr rs"
    and xs: "map (TransactionForRebateCriteriaSerializer_deserialize L) rs = map Inr xs"
    using assms(3) by (auto simp: getTransactionsAssignedToProcess_def io_simps TransactionForRebateCriteriaRepository_def
        traverse_Inr split: sum.splits)
  from x have "Inr x \<in> set (map (TransactionForRebateCriteriaSerializer_deserialize L) rs)" unfolding xs by simp
  then obtain r where r: "r \<in> set rs" "TransactionForRebateCriteriaSerializer_deserialize L r = Inr x" by auto
  moreover have "set rs = {r \<in> set (transactions (store w)). ?p r}"
    using mset_eq_set [OF orm_find_by_mset [OF transactions_reads [OF assms(1)] q]] by simp
  ultimately show "\<exists>t. tx_transactionType x = OtherTransactionType t"
    using assms(2) by (auto simp: only_unknown_pending_def TransactionForRebateCriteriaSerializer_deserialize_def)
qed

lemma unknown_worker:
  assumes "ext_ok L" and "0 < i" and "only_unknown_pending (store w)"
  shows "store (state_of (TransactionProcessing_perform L (Some i)) w) = store w"
proof (cases "kafka_connect L (calls w)")
  case (Inl e)
  then show ?thesis by (simp add: TransactionProcessing_perform_def io_simps)
next
  case (Inr u)
  have s: "store (state_of (getTransactionsAssignedToProcess L i) (tick w)) = store w"
    using framesD [OF frames_pending, of L "Some i" "tick w"] assms(2) by (simp add: pending_for_def)
  show ?thesis
  proof (cases "getTransactionsAssignedToProcess L i (tick w)")
    case (Pair res w1)
    with unknown_assigned [OF assms(1), of "tick w" i] unknown_left_alone [of _ L w1] s Inr assms(2,3) show ?thesis
      by (cases res) (simp_all add: TransactionProcessing_perform_def process_pending_def pending_for_def io_simps)
  qed
qed

lemma unknown_workers:
  assumes "ext_ok L" and "only_unknown_pending (store w)"
  shows "store (workers_run L n w) = store w"
proof -
  have "store (state_of (io_for is (\<lambda>i. TransactionProcessing_perform L (Some i))) w) = store w"
    if "\<forall>i\<in>set is. 0 < i" and "only_unknown_pending (store w)" for "is" and w :: world
    using that
  proof (induction "is" arbitrary: w)
    case Nil
    then show ?case by simp
  next
    case (Cons i "is")
    let ?m = "TransactionProcessing_perform L (Some i)"
    have s: "store (state_of ?m w) = store w" using unknown_worker [OF assms(1)] Cons.prems by simp
    show ?case
    proof (cases "?m w")
      case (Pair res w1)
      with s Cons.IH [of w1] Cons.prems show ?thesis by (cases res) (simp_all add: io_then_apply)
    qed
  qed
  from this [of "[1..<Suc n]" w] assms(2) show ?thesis by (simp add: workers_run_def del: upt_Suc)
qed

text \<open>
  A wait that finds pending transactions after every poll ends only when the process is ended from outside: \<open>Q\<close>
  holds before every wait.
\<close>

lemma wait_only_ended:
  assumes "\<And>k w w1. Q k w \<Longrightarrow> meanwhile S k w = (Inr (), w1) \<Longrightarrow>
      \<exists>n. numPending L w1 = (Inr n, tick w1) \<and> n \<noteq> Num 0 \<and> Q (Suc k) (tick w1)"
    and "Q k w" and "wait_for_workers L S k w = Some (x, w')"
  shows "\<exists>k w. Q k w \<and> meanwhile S k w = (x, w') \<and> isl x"
proof -
  have "L' = L \<longrightarrow> S' = S \<longrightarrow> Q k w \<longrightarrow> (\<exists>k w. Q k w \<and> meanwhile S k w = r \<and> isl (fst r))"
    if "wait_for_workers L' S' k w = Some r" for L' S' k w r
    using that
  proof (rule wait_for_workers.raw_induct [rotated])
    fix wait :: "ext \<Rightarrow> scheduler \<Rightarrow> nat \<Rightarrow> unit process" and L' S' k w r
    assume IH: "\<And>L' S' k w r. wait L' S' k w = Some r \<Longrightarrow>
        L' = L \<longrightarrow> S' = S \<longrightarrow> Q k w \<longrightarrow> (\<exists>k w. Q k w \<and> meanwhile S k w = r \<and> isl (fst r))"
      and run: "(case meanwhile S' k w of (Inl x, w1) \<Rightarrow> Some (Inl x, w1)
        | (Inr _, w1) \<Rightarrow> (case numPending L' w1 of (Inl e, w') \<Rightarrow> Some (Inl (Rejected e), w')
          | (Inr numLeft, w') \<Rightarrow> if numLeft \<noteq> Num 0 then wait L' S' (Suc k) w' else Some (Inr (), w'))) = Some r"
    show "L' = L \<longrightarrow> S' = S \<longrightarrow> Q k w \<longrightarrow> (\<exists>k w. Q k w \<and> meanwhile S k w = r \<and> isl (fst r))"
    proof (intro impI)
      assume e: "L' = L" "S' = S" and q: "Q k w"
      obtain y w1 where m: "meanwhile S k w = (y, w1)" by (cases "meanwhile S k w")
      show "\<exists>k w. Q k w \<and> meanwhile S k w = r \<and> isl (fst r)"
      proof (cases y)
        case (Inl z)
        with run e m have "r = (Inl z, w1)" by simp
        with q m Inl show ?thesis by (intro exI [of _ k] exI [of _ w]) simp
      next
        case (Inr u)
        with assms(1) [OF q] m obtain n where "numPending L w1 = (Inr n, tick w1)" "n \<noteq> Num 0" "Q (Suc k) (tick w1)"
          by auto
        with run e m Inr IH [of L S "Suc k" "tick w1" r] show ?thesis by simp
      qed
    qed
  qed
  from this [OF assms(3)] assms(2) show ?thesis by simp
qed

lemma wait_never_ends:
  assumes "meanwhile S = undisturbed f"
    and "\<And>k w. Q k w \<Longrightarrow> \<exists>n. numPending L (f k w) = (Inr n, tick (f k w)) \<and> n \<noteq> Num 0 \<and> Q (Suc k) (tick (f k w))"
    and "Q k w"
  shows "wait_for_workers L S k w = None"
proof (cases "wait_for_workers L S k w")
  case (Some r)
  obtain x w' where r: "r = (x, w')" by (cases r)
  obtain k w where "meanwhile S k w = (x, w')" "isl x"
    using wait_only_ended [of Q S L k w x w'] assms Some r by (metis Pair_inject undisturbed_apply)
  with assms(1) show ?thesis by (cases x) simp_all
qed

lemma only_unknown_assigned:
  assumes "ext_ok L" and "0 < n" and "assignWorkerProcesses L n w = (Inr u, w')" and "only_unknown_pending (store w)"
  shows "only_unknown_pending (store w')"
proof -
  have m: "mset (transactions (store w')) = mset (map (assigned_row L n) (transactions (store w)))"
    by (rule assign_rows [OF assms(1-3)])
  have "pending_count (store w') = pending_count (store w)"
    using length_filter_mset [OF m, of "\<lambda>r. tr_processed_at r = None"] by (simp add: pending_count_def filter_map comp_def)
  moreover have "tr_transaction_type (assigned_row L n r) = tr_transaction_type r" for r
    by (simp add: assigned_row_def transaction_columns_def)
  ultimately show ?thesis
    using assms(4) mset_eq_set [OF m] by (auto simp: only_unknown_pending_def)
qed

text \<open>
  A transaction of a type without a strategy stops the master: it stays pending, however often the
  workers run, so that the loop never ends and neither the export nor the sync is ever reached, although
  every request is answered.
\<close>

theorem unknown_type_blocks_the_master:
  assumes "ext_ok L" and "reliable L" and "0 < n" and "meanwhile S = undisturbed (\<lambda>_. workers_run L n)"
    and "only_unknown_pending (store w)"
  shows "masterProcess L S (Some n) True w = None"
proof -
  obtain w1 where a: "assignWorkerProcesses L n w = (Inr (), w1)" by (rule assign_returns [OF assms(2,3)])
  have "only_unknown_pending (store w1)" by (rule only_unknown_assigned [OF assms(1,3) a assms(5)])
  then have "wait_for_workers L S 0 w1 = None"
  proof (rule wait_never_ends [OF assms(4), where Q = "\<lambda>_ w. only_unknown_pending (store w)", rotated])
    fix k and w :: world
    assume u: "only_unknown_pending (store w)"
    then have "pending_count (store w) \<noteq> 0" by (simp add: only_unknown_pending_def)
    with u show "\<exists>m. numPending L (workers_run L n w) = (Inr m, tick (workers_run L n w)) \<and> m \<noteq> Num 0 \<and>
        only_unknown_pending (store (tick (workers_run L n w)))"
      by (simp add: numPending_reliable [OF assms(1,2)] unknown_workers [OF assms(1)])
  qed
  then show ?thesis by (simp add: masterProcess_def assign_workers_def proc_simps a)
qed

definition unknown_world :: world where
  "unknown_world = \<lparr>calls = 0, store = sample_db\<lparr>transactions :=
     [TransactionForRebateCriteriaSerializer_serialize
       (sample_transaction\<lparr>tx_transactionType := OtherTransactionType (Value ''adjustment'')\<rparr>)]\<rparr>\<rparr>"

lemma unknown_type_blocks_the_master_witness:
  "masterProcess ref_ext (one_by_one\<lparr>meanwhile := undisturbed (\<lambda>_. workers_run ref_ext 4)\<rparr>) (Some 4) True unknown_world = None"
  by (rule unknown_type_blocks_the_master [OF ref_ext_ok ref_reliable])
    (simp_all add: unknown_world_def only_unknown_pending_def pending_count_def
      TransactionForRebateCriteriaSerializer_serialize_def sample_transaction_def)

end
