(* ===== verification/ProcessingInvariants.thy ===== *)
theory ProcessingInvariants
  imports Processing RefundReports
begin

text \<open>
  The invariants of the database that a whole run of transaction processing keeps, whatever requests fail:
  the identifiers are distinct, no account transaction is rewarded twice, no offer is redeemed beyond its
  limit, no transaction pays two rebates, every transaction that counts as reported has a report of its own.
\<close>

section \<open>Views of the transactions\<close>

text \<open>The identifiers of the transactions, with whether they are reported and what a report says of them.\<close>

definition transaction_keys where
  "transaction_keys L d =
     image_mset (\<lambda>r. (tr_id r, tr_refund_report_created r, report_view L r)) (mset (transactions d))"

lemma flagged_keys:
  "flagged_views L d = image_mset (snd \<circ> snd) (filter_mset (fst \<circ> snd) (transaction_keys L d))"
  unfolding flagged_views_def flagged_rows_def transaction_keys_def filter_mset_image_mset image_mset.compositionality
  by (simp add: comp_def)

lemma ids_keys:
  "(\<forall>r\<in>set (transactions d). tr_id r \<noteq> None) \<longleftrightarrow> (\<forall>p\<in>#transaction_keys L d. fst p \<noteq> None)"
  by (auto simp: transaction_keys_def)

lemma distinct_keys:
  assumes "transaction_keys L d' = transaction_keys L d" and "distinct (map tr_id (transactions d))"
  shows "distinct (map tr_id (transactions d'))"
proof -
  have "image_mset fst (transaction_keys L d') = image_mset fst (transaction_keys L d)" using assms(1) by simp
  then have "mset (map tr_id (transactions d')) = mset (map tr_id (transactions d))"
    by (simp add: transaction_keys_def image_mset.compositionality comp_def)
  with assms(2) show ?thesis by (metis mset_eq_imp_distinct_iff)
qed

lemma keys_rows:
  assumes "mset (transactions d') = mset (map (\<lambda>r. if p r then g r else r) (transactions d))"
    and "\<And>r. tr_id (g r) = tr_id r" and "\<And>r. tr_refund_report_created (g r) = tr_refund_report_created r"
    and "\<And>r. report_view L (g r) = report_view L r"
  shows "transaction_keys L d' = transaction_keys L d"
  unfolding transaction_keys_def assms(1) mset_map image_mset.compositionality comp_def
  by (intro image_mset_cong) (simp add: assms(2-4))

lemma frames_update_keys:
  assumes "ext_ok L"
  shows "frames (\<lambda>w. transaction_keys L (store w))
    (update TransactionForRebateCriteriaRepository L i [ProcessedAt t, Status s])"
proof (rule framesI)
  fix w :: world
  let ?T = TransactionForRebateCriteriaRepository and ?ps = "[ProcessedAt t, Status s]"
  let ?d = "store (state_of (update ?T L i ?ps) w)"
  show "transaction_keys L ?d = transaction_keys L (store w)"
  proof (cases "result_of (update ?T L i ?ps) w")
    case (Inl e)
    then show ?thesis using transaction_table.update_raised [OF Inl] by simp
  next
    case (Inr u)
    have "orm_updates (serial_matches tr_id) (transaction_columns L) (orm_of ?T L)"
      using transactions_updates [OF assms] by (simp add: TransactionForRebateCriteriaRepository_def)
    from transaction_table.update_rows [OF this Inr] show ?thesis
      by (intro keys_rows [where p = "serial_matches tr_id i" and g = "\<lambda>r. transaction_columns L (serializePartial ?T ?ps r)"])
        (use ext_columns [OF assms] in \<open>simp_all add: TransactionForRebateCriteriaRepository_def serializePartial_def
          transaction_columns_def report_view_def column_laws_def\<close>)
  qed
qed

lemma frames_mark_keys:
  "ext_ok L \<Longrightarrow> frames (\<lambda>w. transaction_keys L (store w)) (markAsProcessed L s c)"
  unfolding markAsProcessed_def
  by (intro frames_bind frames_try frames_then frames_return frames_update_keys frames_comp [OF frames_now])

lemma frames_TransactionUpdate_keys:
  "ext_ok L \<Longrightarrow> frames (\<lambda>w. transaction_keys L (store w)) (TransactionUpdate_perform L x s)"
  unfolding TransactionUpdate_perform_def
  by (intro frames_bind frames_then frames_return frames_update_keys frames_comp [OF frames_now])

section \<open>What every strategy leaves alone\<close>

text \<open>The tables no strategy writes, and the keys of the transactions.\<close>

definition standing where
  "standing d = (users d, rebate_criteria d, userledger d)"

lemma standing_update [simp]:
  "standing (d\<lparr>transactions := ts\<rparr>) = standing d" "standing (d\<lparr>rebates := rs\<rparr>) = standing d"
  "standing (d\<lparr>rebate_journal := js\<rparr>) = standing d" "standing (d\<lparr>published := ps\<rparr>) = standing d"
  "standing (d\<lparr>refund_reports := fs\<rparr>) = standing d"
  by (simp_all add: standing_def)

lemma qualifying_frames:
  "frames (\<lambda>w. (standing (store w), refund_reports (store w))) (QualifyingStrategy_perform L x)"
  by (rule frames_perform [where v = "\<lambda>d. (standing d, refund_reports d)", OF frames_markAsProcessed]) simp_all

lemma qualifying_keys:
  assumes "ext_ok L"
  shows "frames (\<lambda>w. transaction_keys L (store w)) (QualifyingStrategy_perform L x)"
  by (rule frames_perform [where v = "transaction_keys L", OF frames_mark_keys [OF assms]]) (simp add: transaction_keys_def)

lemma frames_fulfillment:
  assumes "\<And>s. frames (\<lambda>w. v (store w)) (TransactionUpdate_perform L x s)"
    and "\<And>rs d. v (d\<lparr>rebates := rs\<rparr>) = v d" and "\<And>es d. v (d\<lparr>published := es\<rparr>) = v d"
    and "\<And>rs d. v (d\<lparr>rebate_journal := rs\<rparr>) = v d"
  shows "frames (\<lambda>w. v (store w)) (FulfillmentStrategy_perform L x)"
proof -
  have "frames (\<lambda>w. v (store w)) (SuccessfulFulfilledRebate_perform L s c)" for s c
    unfolding SuccessfulFulfilledRebate_perform_def case_prod_unfold rethrow_def Let_def
    by (intro frames_try frames_bind frames_then frames_return frames_throw frames_comp [OF frames_getRebate]
        frames_comp [OF frames_defined] frames_comp [OF frames_now] frames_update frames_dispatch assms)
      (simp_all add: RebateRepository_def assms)
  moreover have "frames (\<lambda>w. v (store w)) (FulfillmentValidation_result L c)" for c
    unfolding FulfillmentValidation_result_def
    by (rule frames_comp [OF fulfillment_states.validation_reads_only])
  ultimately show ?thesis
    unfolding FulfillmentStrategy_perform_def case_prod_unfold
    by (intro frames_try frames_bind frames_then frames_if frames_return frames_updateJournalReport assms)
qed

lemma fulfillment_frames:
  "frames (\<lambda>w. (standing (store w), refund_reports (store w))) (FulfillmentStrategy_perform L x)"
  by (rule frames_fulfillment [where v = "\<lambda>d. (standing d, refund_reports d)", OF frames_TransactionUpdate]) simp_all

lemma fulfillment_keys:
  "ext_ok L \<Longrightarrow> frames (\<lambda>w. transaction_keys L (store w)) (FulfillmentStrategy_perform L x)"
  by (rule frames_fulfillment [where v = "transaction_keys L", OF frames_TransactionUpdate_keys])
    (simp_all add: transaction_keys_def)

lemma refund_frames:
  "frames (\<lambda>w. (rebates (store w), rebate_criteria (store w))) (RefundStrategy_perform L x)"
proof -
  let ?v = "\<lambda>d. (rebates d, rebate_criteria d)"
  have u: "frames (\<lambda>w. ?v (store w)) (update TransactionForRebateCriteriaRepository L i ps)" for i ps
    by (rule frames_update [where v = ?v]) (simp add: TransactionForRebateCriteriaRepository_def)
  have i: "frames (\<lambda>w. ?v (store w)) (insertRefundReportFromTransaction L criteria y)" for criteria y
    unfolding insertRefundReportFromTransaction_def
    by (intro frames_if frames_bind frames_return u frames_insert [where v = ?v])
      (simp add: RefundReportRepository_def)
  have c: "frames (\<lambda>w. ?v (store w)) (createRefundReport L c)" for c
    unfolding createRefundReport_def RefundReportCreate_perform_def getRefundTransactionsForClientOffer_def
      getAssociatedQualifyingTransactions_def
    by (intro frames_case_option frames_return frames_bind frames_if frames_then frames_for i
        frames_comp [OF frames_findAll])
  have t: "frames (\<lambda>w. ?v (store w)) (TransactionUpdate_perform L x s)" for s
    by (rule frames_TransactionUpdate [where v = ?v]) simp
  show ?thesis
    unfolding RefundStrategy_perform_def RefundValidation_result_def case_prod_unfold
    by (intro frames_try frames_bind frames_then frames_return t c frames_comp [OF frames_find]
        frames_comp [OF refund_states.validation_reads_only])
qed

section \<open>The invariant\<close>

definition processing_inv :: "ext \<Rightarrow> RefundRecord multiset \<Rightarrow> db \<Rightarrow> bool" where
  "processing_inv L M d \<longleftrightarrow>
     covered L M d \<and> distinct (map rr_account_transaction_id (rebates d)) \<and> within_limits d \<and> fulfilled_once d"

text \<open>When the standing tables and the keys stay, only the identifiers of the rebates are left to check.\<close>

lemma covered_stays:
  assumes "covered L M d" and "(standing d', refund_reports d') = (standing d, refund_reports d)"
    and "transaction_keys L d' = transaction_keys L d"
    and "\<forall>r\<in>set (rebates d'). rr_id r \<noteq> None" and "distinct (map rr_id (rebates d'))"
  shows "covered L M d'"
proof -
  have "flagged_views L d' = flagged_views L d" using assms(3) by (simp add: flagged_keys)
  moreover have "db_ok d'"
    using assms distinct_keys [OF assms(3)] ids_keys [of d L] ids_keys [of d' L]
    by (simp add: db_ok_def covered_def standing_def)
  ultimately show ?thesis using assms(1,2) by (intro covered_cong [OF assms(1)]) simp_all
qed

lemma fulfilled_once_cong: "rebates d' = rebates d \<Longrightarrow> fulfilled_once d \<Longrightarrow> fulfilled_once d'"
  unfolding fulfilled_once_def by simp

lemma fulfilled_once_insert:
  assumes "set (rebates d') = Set.insert r (set (rebates d))" and "rr_fulfilled_transaction_id r = None"
    and "fulfilled_once d"
  shows "fulfilled_once d'"
proof -
  have old: "p \<in> set (rebates d)" if "p \<in> set (rebates d')" "rr_fulfilled_transaction_id p \<noteq> None" for p
    using that assms(1,2) by auto
  show ?thesis unfolding fulfilled_once_def
  proof (intro ballI impI)
    fix p q assume pq: "p \<in> set (rebates d')" "q \<in> set (rebates d')" "rr_fulfilled_transaction_id p \<noteq> None"
      "rr_fulfilled_transaction_id p = rr_fulfilled_transaction_id q"
    then have "rr_fulfilled_transaction_id q \<noteq> None" by simp
    from old [OF pq(1,3)] old [OF pq(2) this] pq(3,4) assms(3) show "rr_id p = rr_id q"
      unfolding fulfilled_once_def by blast
  qed
qed

lemma within_limits_cong:
  "rebates d' = rebates d \<Longrightarrow> rebate_criteria d' = rebate_criteria d \<Longrightarrow> within_limits d \<Longrightarrow> within_limits d'"
  unfolding within_limits_def by simp

lemma qualifying_keeps:
  assumes ok: "ext_ok L"
  shows "keeps (\<lambda>w. processing_inv L M (store w)) (QualifyingStrategy_perform L x)"
proof (rule keepsI)
  fix w :: world
  assume i: "processing_inv L M (store w)"
  let ?d = "store w" and ?d' = "store (state_of (QualifyingStrategy_perform L x) w)"
  have db: "db_ok ?d" and c: "covered L M ?d" using i covered_db_ok by (auto simp: processing_inv_def)
  have st: "(standing ?d', refund_reports ?d') = (standing ?d, refund_reports ?d)"
    by (rule framesD [OF qualifying_frames])
  have keys: "transaction_keys L ?d' = transaction_keys L ?d" by (rule framesD [OF qualifying_keys [OF ok]])
  have once: "distinct (map rr_account_transaction_id (rebates ?d'))" and lim: "within_limits ?d'"
    using qualifying_rebates_unique [OF ok] qualifying_within_limits [OF ok] i db
    by (auto simp: processing_inv_def db_ok_def)
  show "processing_inv L M ?d'"
    using ok
  proof (cases rule: perform_cases [of L x w])
    case same
    have "covered L M ?d'" by (rule covered_stays [OF c st keys]) (use db same in \<open>simp_all add: db_ok_def\<close>)
    with i once lim fulfilled_once_cong [OF same] show ?thesis by (simp add: processing_inv_def)
  next
    case (issued ctx w1 y a rt t1 t2 k)
    let ?r = "issued_row L y a rt t1 t2 k"
    have set: "set (rebates ?d') = Set.insert ?r (set (rebates ?d))"
      using arg_cong [OF issued(7), of set_mset] by simp
    have "mset (map rr_id (rebates ?d')) = mset (map rr_id (?r # rebates ?d))"
      using arg_cong [OF issued(7), of "image_mset rr_id"] by simp
    moreover have "distinct (map rr_id (?r # rebates ?d))" using issued(6) db by (auto simp: db_ok_def)
    ultimately have "distinct (map rr_id (rebates ?d'))" by (metis mset_eq_imp_distinct_iff)
    moreover have "\<forall>r\<in>set (rebates ?d'). rr_id r \<noteq> None"
      unfolding set using issued(6) db by (simp add: db_ok_def)
    ultimately have "covered L M ?d'" by (intro covered_stays [OF c st keys])
    moreover have "rr_fulfilled_transaction_id ?r = None"
      by (simp add: issued_row_def rebate_columns_def RebateSerializer_serialize_def pending_rebate_def)
    with i have "fulfilled_once ?d'"
      by (intro fulfilled_once_insert [OF set]) (simp_all add: processing_inv_def)
    ultimately show ?thesis using once lim by (simp add: processing_inv_def)
  qed
qed

lemma paid_row_kept [simp]:
  "rr_account_transaction_id (paid_row L x t1 t2 r) = rr_account_transaction_id r"
  "rr_rebate_criteria_id (paid_row L x t1 t2 r) = rr_rebate_criteria_id r"
  "rr_user_id (paid_row L x t1 t2 r) = rr_user_id r" "rr_card (paid_row L x t1 t2 r) = rr_card r"
  by (simp_all add: paid_row_def rebate_columns_def)

text \<open>Rebates rewritten in other columns only.\<close>

lemma processing_inv_rewritten:
  assumes i: "processing_inv L M d" and st: "(standing d', refund_reports d') = (standing d, refund_reports d)"
    and keys: "transaction_keys L d' = transaction_keys L d"
    and m: "mset (rebates d') = image_mset g (mset (rebates d))"
    and g: "\<And>r. r \<in> set (rebates d) \<Longrightarrow> rr_id (g r) = rr_id r"
      "\<And>r. r \<in> set (rebates d) \<Longrightarrow> rr_account_transaction_id (g r) = rr_account_transaction_id r"
      "\<And>r cr u k. r \<in> set (rebates d) \<Longrightarrow> counts_towards cr u k (g r) = counts_towards cr u k r"
    and fo: "fulfilled_once d'"
  shows "processing_inv L M d'"
proof -
  have c: "covered L M d" and db: "db_ok d" using i covered_db_ok by (auto simp: processing_inv_def)
  have view: "image_mset v (mset (rebates d')) = image_mset v (mset (rebates d))"
    if "\<And>r. r \<in> set (rebates d) \<Longrightarrow> v (g r) = v r" for v :: "RebateRecord \<Rightarrow> 'b"
    unfolding m using that by (auto simp: image_mset.compositionality intro: image_mset_cong)
  have "length (filter (counts_towards cr u k) (rebates d')) = length (filter (counts_towards cr u k) (rebates d))" for cr u k
  proof -
    have n: "length (filter p rs) = size (filter_mset (\<lambda>b. b) (image_mset p (mset rs)))" for p and rs :: "RebateRecord list"
      by (induction rs) simp_all
    have "image_mset (counts_towards cr u k) (mset (rebates d')) = image_mset (counts_towards cr u k) (mset (rebates d))"
      by (rule view) (rule g(3))
    then show ?thesis unfolding n by (rule arg_cong)
  qed
  with i st have "within_limits d'" by (simp add: within_limits_def processing_inv_def standing_def)
  moreover have "\<forall>r\<in>set (rebates d'). rr_id r \<noteq> None"
    using arg_cong [OF m, of set_mset] db g(1) by (auto simp: db_ok_def)
  moreover have "distinct (map rr_id (rebates d'))" "distinct (map rr_account_transaction_id (rebates d'))"
    using view [of rr_id] view [of rr_account_transaction_id] g(1,2) db i
    by (metis db_ok_def mset_eq_imp_distinct_iff mset_map, metis processing_inv_def mset_eq_imp_distinct_iff mset_map)
  ultimately show ?thesis using covered_stays [OF c st keys] fo by (simp add: processing_inv_def)
qed

lemma fulfillment_keeps:
  assumes ok: "ext_ok L"
  shows "keeps (\<lambda>w. processing_inv L M (store w)) (FulfillmentStrategy_perform L x)"
proof (rule keepsI)
  fix w :: world
  assume i: "processing_inv L M (store w)"
  let ?d = "store w" and ?d' = "store (state_of (FulfillmentStrategy_perform L x) w)"
  have c: "covered L M ?d" and db: "db_ok ?d" using i covered_db_ok by (auto simp: processing_inv_def)
  have st: "(standing ?d', refund_reports ?d') = (standing ?d, refund_reports ?d)"
    by (rule framesD [OF fulfillment_frames])
  have keys: "transaction_keys L ?d' = transaction_keys L ?d" by (rule framesD [OF fulfillment_keys [OF ok]])
  have fo: "fulfilled_once ?d'"
    using fulfillment_fulfilled_once [OF ok db] i by (simp add: processing_inv_def)
  obtain g where m: "mset (rebates ?d') = image_mset g (mset (rebates ?d))"
    and g: "\<And>r. rr_id (g r) = rr_id r" "\<And>r. rr_account_transaction_id (g r) = rr_account_transaction_id r"
      "\<And>cr u k r. counts_towards cr u k (g r) = counts_towards cr u k r"
  proof -
    consider "rebates ?d' = rebates ?d" | r t1 t2 where "paid L x t1 t2 r ?d ?d'"
      using fulfillment_rebates [OF ok db, of x] by (auto simp: Let_def)
    then show thesis
    proof cases
      case 1
      then show thesis by (intro that [of "\<lambda>r. r"]) simp_all
    next
      case (2 r t1 t2)
      then show thesis
        by (intro that [of "\<lambda>q. if rr_id q = rr_id r then paid_row L x t1 t2 q else q"])
          (simp_all add: paid_def counts_towards_def)
    qed
  qed
  show "processing_inv L M ?d'" by (rule processing_inv_rewritten [OF i st keys m]) (use g fo in auto)
qed

lemma refund_keeps:
  assumes ok: "ext_ok L"
  shows "keeps (\<lambda>w. processing_inv L M (store w)) (RefundStrategy_perform L x)"
proof (rule keepsI)
  fix w :: world
  assume i: "processing_inv L M (store w)"
  let ?d' = "store (state_of (RefundStrategy_perform L x) w)"
  have v: "(rebates ?d', rebate_criteria ?d') = (rebates (store w), rebate_criteria (store w))"
    by (rule framesD [OF refund_frames])
  have "covered L M ?d'" using refund_reports_covered [OF ok] i by (simp add: processing_inv_def)
  with i v fulfilled_once_cong [of ?d' "store w"] within_limits_cong [of ?d' "store w"]
  show "processing_inv L M ?d'" by (simp add: processing_inv_def)
qed

section \<open>A run\<close>

lemma processTransaction_keeps:
  "ext_ok L \<Longrightarrow> keeps (\<lambda>w. processing_inv L M (store w)) (processTransaction L x)"
  by (rule keeps_processTransaction) (rule qualifying_keeps fulfillment_keeps refund_keeps, assumption)+

lemma fulfillment_world_inv: "processing_inv ref_ext {#} (store fulfillment_world)"
  by (unfold processing_inv_def covered_def store_fulfillment_world, intro conjI fulfillment_db_ok)
    (simp_all add: flagged_rows_def within_limits_def fulfilled_once_def
      fulfillment_db_def sample_db_def empty_db_def sample_transaction_def sample_fulfillment_def
      TransactionForRebateCriteriaSerializer_serialize_def RebateCriteriaSerializer_serialize_def
      sample_criteria_def counts_towards_def sample_pending_rebate_def)

text \<open>
  C16.  A run of transaction processing, of all pending transactions or of those of one worker, keeps every
  invariant of the database, whatever requests fail: identifiers stay distinct, no account transaction is
  rewarded twice, no offer is redeemed beyond its limit, no transaction pays two rebates, and every transaction
  that counts as reported has a report of its own.
\<close>

theorem processing_keeps_invariants:
  assumes "ext_ok L" and "processing_inv L M (store w)"
  shows "processing_inv L M (store (state_of (TransactionProcessing_perform L worker) w))"
  by (rule keepsD [OF keeps_processing [OF processTransaction_keeps [OF assms(1)]] assms(2)])

lemma processing_keeps_invariants_witness:
  "processing_inv ref_ext {#} (store (state_of (TransactionProcessing_perform ref_ext None) fulfillment_world))"
  by (rule processing_keeps_invariants [OF ref_ext_ok fulfillment_world_inv])

text \<open>
  A transaction whose processing fails does not stop the run: when \<open>TransactionProcessing.perform\<close>
  raises, the Kafka publisher or the query for the pending transactions has.
\<close>

theorem processing_raises_only_at_the_start:
  assumes "result_of (TransactionProcessing_perform L worker) w = Inl e"
  shows "kafka_connect L (calls w) = Inl e \<or> result_of (pending_for L worker) (tick w) = Inl e"
proof -
  have "result_of (process_pending L worker) (tick w) \<noteq> Inl e"
    if p: "result_of (pending_for L worker) (tick w) = Inr pending" for pending
    using p processing_returns [of pending L]
    by (auto simp: process_pending_def io_bind_apply never_raises_def split: prod.splits sum.splits)
  with assms show ?thesis
    by (cases "pending_for L worker (tick w)"; cases "result_of (pending_for L worker) (tick w)")
      (auto simp: TransactionProcessing_perform_def process_pending_def io_simps split: sum.splits)
qed

lemma processing_raises_only_at_the_start_witness:
  "kafka_connect (ref_ext\<lparr>kafka_connect := \<lambda>n. Inl (ServiceError ''down'')\<rparr>) 0 = Inl (ServiceError ''down'') \<or>
   result_of (pending_for (ref_ext\<lparr>kafka_connect := \<lambda>n. Inl (ServiceError ''down'')\<rparr>) None) (tick sample_world) =
     Inl (ServiceError ''down'')"
  using processing_raises_only_at_the_start [of "ref_ext\<lparr>kafka_connect := \<lambda>n. Inl (ServiceError ''down'')\<rparr>" None
      sample_world "ServiceError ''down''"]
  by (simp add: TransactionProcessing_perform_def io_simps sample_world_def)

end
