(* ===== verification/ProcessingRefinement.thy ===== *)
theory ProcessingRefinement
  imports ProcessingInvariants Workers
begin

text \<open>
  A run of transaction processing on a working system against its abstract specification: the pending
  transactions, one after the other, each as the verdict or the status of the database at its turn says.
\<close>

section \<open>The specification of a run\<close>

definition follows :: "ext \<Rightarrow> ITransactionForRebateCriteria \<Rightarrow> db \<Rightarrow> db \<Rightarrow> bool" where
  "follows L x d d' \<longleftrightarrow>
     (case tx_transactionType x of
        Qualifying \<Rightarrow> prescribes L (qualifying_verdict L d x) x d d'
      | Fulfillment \<Rightarrow>
          (let s = fulfillment_status d x
           in if s = FulfilledTransSuccessful then settles_fulfillment L x d d' else \<exists>t. marked L s t x d d')
      | Refund \<Rightarrow>
          (let offer = criteria_in L d (tx_rebateCriteriaId x)
           in \<exists>t d1. marked L (refund_status offer d x) t x d d1 \<and>
                (case offer of None \<Rightarrow> d' = d1 | Some criteria \<Rightarrow> reported L criteria (due d1 x) d1 d'))
      | OtherTransactionType _ \<Rightarrow> d' = d)"

text \<open>A transaction without a strategy, and one the rules give no verdict for, is left as it is.\<close>

definition left_pending :: "ext \<Rightarrow> db \<Rightarrow> ITransactionForRebateCriteria \<Rightarrow> bool" where
  "left_pending L d x \<longleftrightarrow>
     (case tx_transactionType x of
        Qualifying \<Rightarrow> qualifying_verdict L d x = Stuck
      | OtherTransactionType _ \<Rightarrow> True
      | _ \<Rightarrow> False)"

inductive specified_run ::
  "ext \<Rightarrow> ITransactionForRebateCriteria list \<Rightarrow> db \<Rightarrow> ITransactionForRebateCriteria list \<Rightarrow> db \<Rightarrow> bool" for L where
  finished: "specified_run L [] d [] d"
| processed: "follows L x d d1 \<Longrightarrow> \<not> left_pending L d x \<Longrightarrow> specified_run L xs d1 left d' \<Longrightarrow>
    specified_run L (x # xs) d left d'"
| passed_over: "follows L x d d1 \<Longrightarrow> left_pending L d x \<Longrightarrow> specified_run L xs d1 left d' \<Longrightarrow>
    specified_run L (x # xs) d (x # left) d'"

inductive_cases specified_NilE: "specified_run L [] d left d'"
inductive_cases specified_ConsE: "specified_run L (x # xs) d left d'"

section \<open>The pending transactions\<close>

definition pending_row :: "nat option \<Rightarrow> TransactionForRebateCriteriaRecord \<Rightarrow> bool" where
  "pending_row worker r \<longleftrightarrow>
     tr_processed_at r = None \<and> (case worker of None \<Rightarrow> True | Some n \<Rightarrow> n = 0 \<or> tr_processor_id r = Some n)"

lemma pending_for_reliable:
  assumes "ext_ok L" and "reliable L"
  shows "\<exists>rs. pending_for L worker w = (Inr (map (transaction_of L) rs), tick w) \<and>
    mset rs = mset (filter (pending_row worker) (transactions (store w)))"
proof -
  have all: "\<exists>rs. findAllPending L w = (Inr (map (transaction_of L) rs), tick w) \<and>
      mset rs = mset (filter (\<lambda>r. tr_processed_at r = None) (transactions (store w)))"
    unfolding findAllPending_def using findAll_transactions [OF assms] by metis
  show ?thesis
  proof (cases "worker = None \<or> worker = Some 0")
    case True
    then have "pending_for L worker w = findAllPending L w" and "pending_row worker = (\<lambda>r. tr_processed_at r = None)"
      by (auto simp: pending_for_def pending_row_def fun_eq_iff)
    with all show ?thesis by simp
  next
    case False
    then obtain n where n: "worker = Some n" "n \<noteq> 0" by auto
    obtain rs xs where "getTransactionsAssignedToProcess L n w = (Inr xs, tick w)"
      "mset rs = mset (filter (\<lambda>r. tr_processed_at r = None \<and> tr_processor_id r = Some n) (transactions (store w)))"
      "xs = map (\<lambda>r. projr (TransactionForRebateCriteriaSerializer_deserialize L r)) rs"
      by (rule assigned_returns [OF assms, where k = n and w = w])
    with n show ?thesis
      by (intro exI [of _ rs]) (simp add: pending_for_def pending_row_def transaction_of_def [abs_def])
  qed
qed

text \<open>The pending transactions of the workers that satisfy \<open>P\<close>, and all of them.\<close>

definition owed :: "(nat option \<Rightarrow> bool) \<Rightarrow> db \<Rightarrow> nat option set" where
  "owed P d = tr_id ` {r \<in> set (transactions d). tr_processed_at r = None \<and> P (tr_processor_id r)}"

definition pending_ids :: "db \<Rightarrow> nat option set" where
  "pending_ids d = tr_id ` {r \<in> set (transactions d). tr_processed_at r = None}"

lemma pending_ids_owed: "pending_ids = owed (\<lambda>_. True)"
  by (simp add: pending_ids_def owed_def fun_eq_iff)

lemma owed_rows:
  assumes "mset (transactions d') = mset (map g (transactions d))"
    and "\<And>r. tr_id (g r) = tr_id r" and "\<And>r. tr_processor_id (g r) = tr_processor_id r"
    and "\<And>r. tr_processed_at (g r) = None \<longleftrightarrow> tr_processed_at r = None \<and> p (tr_id r)"
  shows "owed P d' = {i \<in> owed P d. p i}"
proof -
  have rows: "set (transactions d') = g ` set (transactions d)" using mset_eq_set [OF assms(1)] by simp
  have "owed P d' =
      (\<lambda>r. tr_id (g r)) ` {r \<in> set (transactions d). tr_processed_at (g r) = None \<and> P (tr_processor_id (g r))}"
    unfolding owed_def rows by blast
  also have "\<dots> = {i \<in> owed P d. p i}"
    unfolding owed_def assms(2-4) by blast
  finally show ?thesis .
qed

lemma marked_owed:
  assumes "marked L s t x d d'"
  shows "owed P d' = owed P d - {tx_id x}"
proof -
  have "mset (transactions d') = mset (map (mark L s t x) (transactions d))" using assms by (simp add: marked_def)
  then have "owed P d' = {i \<in> owed P d. i \<noteq> tx_id x}"
    by (rule owed_rows) (simp_all add: mark_def transaction_columns_def)
  then show ?thesis by blast
qed

lemma reported_owed:
  assumes "reported L criteria p d d'"
  shows "owed P d' = owed P d"
proof -
  have "mset (transactions d') = mset (map (\<lambda>r. if p r then flag_row L r else r) (transactions d))"
    using assms by (simp add: reported_def)
  then have "owed P d' = {i \<in> owed P d. True}"
    by (rule owed_rows) (simp_all add: flag_row_def transaction_columns_def)
  then show ?thesis by simp
qed

lemma owed_cong: "transactions d' = transactions d \<Longrightarrow> owed P d' = owed P d"
  by (simp add: owed_def)

lemma follows_owed:
  assumes "follows L x d d'"
  shows "owed P d' = (if left_pending L d x then owed P d else owed P d - {tx_id x})"
proof (cases "tx_transactionType x")
  case Qualifying
  show ?thesis
  proof (cases "qualifying_verdict L d x")
    case (Issue amount rewardType)
    with assms Qualifying obtain t d1 where m: "marked L RebateCreated t x d d1"
      and d': "d' = d1\<lparr>rebates := rebates d'\<rparr>"
      by (auto simp: follows_def prescribes_def)
    have "transactions d' = transactions d1" by (subst d') simp
    with marked_owed [OF m] owed_cong [of d' d1] Issue Qualifying show ?thesis by (simp add: left_pending_def)
  qed (use assms Qualifying marked_owed in \<open>auto simp: follows_def prescribes_def left_pending_def\<close>)
next
  case Fulfillment
  show ?thesis
  proof (cases "fulfillment_status d x = FulfilledTransSuccessful")
    case True
    with assms Fulfillment obtain t d1 where m: "marked L FulfilledTransSuccessful t x d d1"
      and d': "d' = d1\<lparr>rebates := rebates d', rebate_journal := rebate_journal d', published := published d'\<rparr>"
      by (auto simp: follows_def settles_fulfillment_def)
    have "transactions d' = transactions d1" by (subst d') simp
    with marked_owed [OF m] owed_cong [of d' d1] Fulfillment show ?thesis by (simp add: left_pending_def)
  qed (use assms Fulfillment marked_owed in \<open>auto simp: follows_def left_pending_def Let_def\<close>)
next
  case Refund
  with assms obtain t d1 where m: "marked L (refund_status (criteria_in L d (tx_rebateCriteriaId x)) d x) t x d d1"
    and "case criteria_in L d (tx_rebateCriteriaId x) of None \<Rightarrow> d' = d1 | Some c \<Rightarrow> reported L c (due d1 x) d1 d'"
    by (auto simp: follows_def Let_def)
  then have "d' = d1 \<or> (\<exists>c. reported L c (due d1 x) d1 d')" by (simp split: option.splits) blast
  then have "owed P d' = owed P d1" using reported_owed by blast
  with marked_owed [OF m] Refund show ?thesis by (simp add: left_pending_def)
qed (use assms in \<open>simp add: follows_def left_pending_def\<close>)

lemma specified_run_owed:
  "specified_run L xs d left d' \<Longrightarrow> distinct (map tx_id xs) \<Longrightarrow>
    set left \<subseteq> set xs \<and> owed P d' = owed P d - (tx_id ` set xs - tx_id ` set left)"
proof (induction rule: specified_run.induct)
  case (processed x d d1 xs left d')
  then have "owed P d' = owed P d - {tx_id x} - (tx_id ` set xs - tx_id ` set left)" and "set left \<subseteq> set xs"
    using follows_owed by auto
  moreover have "tx_id x \<notin> tx_id ` set left" using processed.prems \<open>set left \<subseteq> set xs\<close> by auto
  ultimately show ?case by (simp only: list.set image_insert) blast
next
  case (passed_over x d d1 xs left d')
  then have "owed P d' = owed P d - (tx_id ` set xs - tx_id ` set left)" and "set left \<subseteq> set xs"
    using follows_owed by auto
  moreover have "tx_id x \<notin> tx_id ` set xs" using passed_over.prems by auto
  ultimately show ?case by auto
qed simp

lemma specified_run_pending:
  "specified_run L xs d left d' \<Longrightarrow> distinct (map tx_id xs) \<Longrightarrow>
    set left \<subseteq> set xs \<and> pending_ids d' = pending_ids d - (tx_id ` set xs - tx_id ` set left)"
  unfolding pending_ids_owed by (rule specified_run_owed)

lemma specified_run_append:
  "specified_run L xs d left d1 \<Longrightarrow> specified_run L ys d1 left' d' \<Longrightarrow> specified_run L (xs @ ys) d (left @ left') d'"
  by (induction rule: specified_run.induct) (auto intro: specified_run.intros)

section \<open>A run follows the specification\<close>

definition journals_numbered :: "db \<Rightarrow> bool" where
  "journals_numbered d \<longleftrightarrow> (\<forall>j\<in>set (rebate_journal d). jr_id j \<noteq> None)"

lemma journals_numbered_image: "journals_numbered d \<longleftrightarrow> None \<notin> jr_id ` set (rebate_journal d)"
  unfolding journals_numbered_def by (metis imageE image_eqI)

lemma journal_update_id: "jr_id (fold (\<lambda>f. f) (journal_update x rebate) j) = jr_id j"
  by (simp add: journal_update_def)

lemma follows_journals:
  assumes "follows L x d d'" and "journals_numbered d"
  shows "journals_numbered d'"
proof -
  have same: "journals_numbered d'" if "rebate_journal d' = rebate_journal d"
    using assms(2) that by (simp add: journals_numbered_def)
  have m: "rebate_journal d1 = rebate_journal d" if "marked L s t x d d1" for s t d1
  proof -
    have "d1 = d\<lparr>transactions := transactions d1\<rparr>" using that by (simp add: marked_def)
    then show ?thesis by (metis db.ext_inject db.surjective db.update_convs(3))
  qed
  have issued: "journals_numbered d'" if "marked L s t x d d1" "d' = d1\<lparr>rebates := rs\<rparr>" for s t d1 rs
    using m [OF that(1)] that(2) by (intro same) simp
  have noted: "journals_numbered d'" if "marked L s t x d d1" "d' = d1\<lparr>transactions := ts, refund_reports := rs\<rparr>" for s t d1 ts rs
    using m [OF that(1)] that(2) by (intro same) simp
  show ?thesis
  proof (cases "tx_transactionType x")
    case Fulfillment
    show ?thesis
    proof (cases "fulfillment_status d x = FulfilledTransSuccessful")
      case True
      with assms(1) Fulfillment obtain rebate where "journal_settled x rebate d d'"
        by (auto simp: follows_def settles_fulfillment_def)
      then show ?thesis
      proof (cases "rebate_journal d' = rebate_journal d")
        case False
        with \<open>journal_settled x rebate d d'\<close> obtain j :: RebateJournalRecord where "mset (rebate_journal d') =
            mset (map (\<lambda>q. if jr_id q = jr_id j then fold (\<lambda>f. f) (journal_update x rebate) q else q) (rebate_journal d))"
          unfolding journal_settled_def by (simp only: split: if_splits) blast
        then have "mset (map jr_id (rebate_journal d')) = mset (map jr_id (rebate_journal d))"
          by (simp add: image_mset.compositionality comp_def journal_update_id if_distrib [of jr_id] cong: if_cong)
        from mset_eq_set [OF this] assms(2) show ?thesis by (simp add: journals_numbered_image)
      qed (rule same)
    qed (use assms(1) Fulfillment m same in \<open>auto simp: follows_def Let_def\<close>)
  qed (use assms(1) m same in \<open>auto simp: follows_def prescribes_def reported_def Let_def
      split: verdict.splits option.splits intro: issued noted\<close>)
qed

definition fulfillable :: "ITransactionForRebateCriteria \<Rightarrow> bool" where
  "fulfillable x \<longleftrightarrow> (tx_transactionType x = Fulfillment \<longrightarrow> rebate_key x = '''' \<or> int_key (rebate_key x) \<noteq> None)"

lemma processTransaction_follows:
  assumes "ext_ok L" and "reliable L" and "db_ok (store w)" and "journals_numbered (store w)"
    and "tx_id x \<noteq> None" and "fulfillable x"
  shows "follows L x (store w) (store (state_of (processTransaction L x) w))"
  unfolding processTransaction_type
proof (cases "tx_transactionType x")
  case Qualifying
  with qualifying_verdict_prescribed [OF assms(1-3,5)] show "follows L x (store w) (store (state_of (run_strategy L x) w))"
    by (simp add: follows_def run_strategy_def)
next
  case Fulfillment
  with fulfillment_status_settled [OF assms(1-3,5) _ assms(4) [unfolded journals_numbered_def]] assms(6)
  show "follows L x (store w) (store (state_of (run_strategy L x) w))"
    by (simp add: follows_def run_strategy_def fulfillable_def Let_def)
next
  case Refund
  with refund_status_reported [OF assms(1-3,5)] show "follows L x (store w) (store (state_of (run_strategy L x) w))"
    by (simp add: follows_def run_strategy_def Let_def)
qed (simp add: follows_def run_strategy_def)

lemma processing_follows:
  assumes "ext_ok L" and "reliable L" and "\<forall>x\<in>set xs. tx_id x \<noteq> None \<and> fulfillable x"
    and "processing_inv L M (store w)" and "journals_numbered (store w)"
  shows "\<exists>left w'. io_for xs (processTransaction L) w = (Inr (), w') \<and> specified_run L xs (store w) left (store w')"
  using assms(3-5)
proof (induction xs arbitrary: w)
  case Nil
  show ?case by (intro exI [of _ "[]"] exI [of _ w]) (simp add: finished)
next
  case (Cons x xs)
  let ?w1 = "state_of (processTransaction L x) w"
  have "db_ok (store w)" using Cons.prems(2) covered_db_ok by (auto simp: processing_inv_def)
  with processTransaction_follows [OF assms(1,2) this Cons.prems(3)] Cons.prems(1)
  have f: "follows L x (store w) (store ?w1)" by simp
  have "processing_inv L M (store ?w1)"
    by (rule keepsD [OF processTransaction_keeps [OF assms(1)] Cons.prems(2)])
  with Cons.IH [OF _ this follows_journals [OF f Cons.prems(3)]] Cons.prems(1) obtain left w' where
    r: "io_for xs (processTransaction L) ?w1 = (Inr (), w')" "specified_run L xs (store ?w1) left (store w')" by auto
  obtain u where "result_of (processTransaction L x) w = Inr u"
    using processTransaction_returns [of L x] by (auto simp: never_raises_def)
  then have "processTransaction L x w = (Inr (), ?w1)" by (metis old.unit.exhaust prod.collapse)
  with r(1) have run: "io_for (x # xs) (processTransaction L) w = (Inr (), w')" by (simp add: io_then_Inr)
  show ?case
  proof (cases "left_pending L (store w) x")
    case True
    with run passed_over [OF f True r(2)] show ?thesis by blast
  next
    case False
    with run processed [OF f False r(2)] show ?thesis by blast
  qed
qed

lemma ref_kafka: "kafka_connect ref_ext n = Inr ()"
  using ref_files(2) by (simp add: reliable_files_def)

lemma fulfillment_world_ready:
  "journals_numbered (store fulfillment_world)"
  "\<forall>r\<in>set (transactions (store fulfillment_world)). fulfillable (transaction_of ref_ext r)"
  by (auto simp: journals_numbered_def store_fulfillment_world fulfillment_db_def sample_db_def empty_db_def
      fulfillable_def transaction_of_def rebate_key_def sample_transaction_def sample_fulfillment_def
      int_key_def trim_def trim_start_def is_space_def is_digit_def digit_value_def nat_of_digits_def
      TransactionForRebateCriteriaSerializer_serialize_def TransactionForRebateCriteriaSerializer_deserialize_def)

section \<open>Properties\<close>

lemma processing_specified:
  assumes "ext_ok L" and "reliable L" and "kafka_connect L (calls w) = Inr ()"
    and "processing_inv L M (store w)" and "journals_numbered (store w)"
    and "\<forall>r\<in>set (transactions (store w)). pending_row worker r \<longrightarrow> fulfillable (transaction_of L r)"
  shows "\<exists>rs left w'. TransactionProcessing_perform L worker w = (Inr (), w') \<and>
    mset rs = mset (filter (pending_row worker) (transactions (store w))) \<and>
    specified_run L (map (transaction_of L) rs) (store w) left (store w')"
proof -
  obtain rs where p: "pending_for L worker (tick w) = (Inr (map (transaction_of L) rs), tick (tick w))"
    and m: "mset rs = mset (filter (pending_row worker) (transactions (store w)))"
    using pending_for_reliable [OF assms(1,2), of worker "tick w"] by auto
  have "db_ok (store w)" using assms(4) covered_db_ok by (auto simp: processing_inv_def)
  with mset_eq_set [OF m] assms(6) have "\<forall>x\<in>set (map (transaction_of L) rs). tx_id x \<noteq> None \<and> fulfillable x"
    by (auto simp: db_ok_def)
  from processing_follows [OF assms(1,2) this, of M "tick (tick w)"] assms(4,5) obtain left w' where
    r: "io_for (map (transaction_of L) rs) (processTransaction L) (tick (tick w)) = (Inr (), w')"
      "specified_run L (map (transaction_of L) rs) (store w) left (store w')" by auto
  with p assms(3) have "TransactionProcessing_perform L worker w = (Inr (), w')"
    by (simp add: TransactionProcessing_perform_def process_pending_def io_simps)
  with m r(2) show ?thesis by blast
qed

text \<open>
  C3.  On a working system a run of transaction processing, of all pending transactions or of those of one
  worker, is its specification: the transactions it is responsible for are taken one after the other, each
  exactly once, and every one changes the database as the verdict or the status of the database at its turn
  prescribes; the run returns.
\<close>

theorem processing_implements_specification:
  assumes "ext_ok L" and "reliable L" and "kafka_connect L (calls w) = Inr ()"
    and "processing_inv L M (store w)" and "journals_numbered (store w)"
    and "\<forall>r\<in>set (transactions (store w)). pending_row worker r \<longrightarrow> fulfillable (transaction_of L r)"
  shows "\<exists>rs left w'. TransactionProcessing_perform L worker w = (Inr (), w') \<and>
    mset rs = mset (filter (pending_row worker) (transactions (store w))) \<and>
    specified_run L (map (transaction_of L) rs) (store w) left (store w')"
  by (rule processing_specified [OF assms])

lemma processing_implements_specification_witness:
  "\<exists>xs left w'. TransactionProcessing_perform ref_ext None fulfillment_world = (Inr (), w') \<and> length xs = 2 \<and>
    specified_run ref_ext xs (store fulfillment_world) left (store w')"
proof -
  obtain rs left w' where "TransactionProcessing_perform ref_ext None fulfillment_world = (Inr (), w')"
    and m: "mset rs = mset (filter (pending_row None) (transactions (store fulfillment_world)))"
    and "specified_run ref_ext (map (transaction_of ref_ext) rs) (store fulfillment_world) left (store w')"
    using processing_implements_specification [OF ref_ext_ok ref_reliable ref_kafka fulfillment_world_inv
        fulfillment_world_ready(1), of None] fulfillment_world_ready(2) by blast
  moreover have "length rs = 2"
    using mset_eq_length [OF m]
    by (simp add: pending_row_def store_fulfillment_world fulfillment_db_def sample_db_def sample_transaction_def
        sample_fulfillment_def TransactionForRebateCriteriaSerializer_serialize_def)
  ultimately show ?thesis by (intro exI [of _ "map (transaction_of ref_ext) rs"] exI [of _ left] exI [of _ w']) simp
qed

text \<open>
  After a run on a working system the transactions that are still pending are exactly those that had no
  strategy, or whose verdict was Stuck, when their turn came: every other pending transaction, however many
  there are, has got its status.
\<close>

theorem processing_leaves_only_the_stuck:
  assumes "ext_ok L" and "reliable L" and "kafka_connect L (calls w) = Inr ()"
    and "processing_inv L M (store w)" and "journals_numbered (store w)"
    and "\<forall>r\<in>set (transactions (store w)). tr_processed_at r = None \<longrightarrow> fulfillable (transaction_of L r)"
  shows "\<exists>xs left w'. TransactionProcessing_perform L None w = (Inr (), w') \<and>
    specified_run L xs (store w) left (store w') \<and> pending_ids (store w) = tx_id ` set xs \<and>
    pending_ids (store w') = tx_id ` set left"
proof -
  have row: "pending_row None r \<longleftrightarrow> tr_processed_at r = None" for r by (simp add: pending_row_def)
  obtain rs left w' where run: "TransactionProcessing_perform L None w = (Inr (), w')"
    and m: "mset rs = mset (filter (pending_row None) (transactions (store w)))"
    and s: "specified_run L (map (transaction_of L) rs) (store w) left (store w')"
  proof -
    have "\<forall>r\<in>set (transactions (store w)). pending_row None r \<longrightarrow> fulfillable (transaction_of L r)"
      using assms(6) row by simp
    from processing_specified [OF assms(1-5) this] that show thesis by blast
  qed
  have ids: "pending_ids (store w) = tx_id ` set (map (transaction_of L) rs)"
    using mset_eq_set [OF m] row by (auto simp: pending_ids_def image_image)
  have "distinct (map tr_id (transactions (store w)))"
    using assms(4) covered_db_ok by (auto simp: processing_inv_def db_ok_def)
  then have "distinct (map tr_id (filter (pending_row None) (transactions (store w))))" by (rule distinct_map_filter)
  moreover have "mset (map tr_id rs) = mset (map tr_id (filter (pending_row None) (transactions (store w))))" using m by simp
  ultimately have "distinct (map tr_id rs)" by (metis mset_eq_imp_distinct_iff)
  then have "distinct (map tx_id (map (transaction_of L) rs))" by (simp add: comp_def)
  from specified_run_pending [OF s this] ids have "pending_ids (store w') = tx_id ` set left" by auto
  with run s ids show ?thesis by blast
qed

lemma processing_leaves_only_the_stuck_witness:
  "\<exists>(left :: ITransactionForRebateCriteria list) w'. TransactionProcessing_perform ref_ext None fulfillment_world = (Inr (), w') \<and>
    pending_ids (store w') = tx_id ` set left"
proof -
  have "\<forall>r\<in>set (transactions (store fulfillment_world)). tr_processed_at r = None \<longrightarrow>
      fulfillable (transaction_of ref_ext r)"
    using fulfillment_world_ready(2) by simp
  from processing_leaves_only_the_stuck [OF ref_ext_ok ref_reliable ref_kafka fulfillment_world_inv
      fulfillment_world_ready(1) this] show ?thesis by blast
qed

end
