(* ===== verification/FullProcess.thy ===== *)
theory FullProcess
  imports Master ProcessingRefinement
begin

text \<open>
  A full process (\<open>FULL_PROCESS\<close> of \<open>app/scheduler/job_runner.ts\<close>) on a system where every request is
  answered: processing, export and sync one after the other.  What one step leaves is what the next one
  needs, and what the last one leaves is what the next full process needs.
\<close>

section \<open>A database a full process can start from\<close>

definition ready :: "ext \<Rightarrow> RefundRecord multiset \<Rightarrow> db \<Rightarrow> bool" where
  "ready L M d \<longleftrightarrow>
     processing_inv L M d \<and> journals_numbered d \<and> exportable d \<and>
     (\<forall>r\<in>set (transactions d). fulfillable (transaction_of L r))"

lemma ready_db_ok: "ready L M d \<Longrightarrow> db_ok d"
  using covered_db_ok by (auto simp: ready_def processing_inv_def)

text \<open>What one export makes of a database, also of one without a waiting rebate, where it writes nothing.\<close>

definition exported :: "ext \<Rightarrow> string \<Rightarrow> db \<Rightarrow> db \<Rightarrow> bool" where
  "exported L name d d' \<longleftrightarrow>
     (if waiting_rows d = [] then mset (rebates d') = mset (rebates d) \<and> d' = d\<lparr>rebates := rebates d'\<rparr>
      else export_of L name d d')"

text \<open>
  From \<open>d\<close> to \<open>d'\<close>, a run over the transactions \<open>xs\<close>, of which \<open>left\<close> stay pending, then an export, then a
  sync of all offers.
\<close>

definition full_run ::
  "ext \<Rightarrow> string \<Rightarrow> ITransactionForRebateCriteria list \<Rightarrow> db \<Rightarrow> ITransactionForRebateCriteria list \<Rightarrow> db \<Rightarrow> bool" where
  "full_run L name xs d left d' \<longleftrightarrow>
     (\<exists>d1 d2. specified_run L xs d left d1 \<and> exported L name d1 d2 \<and>
        synced L (cr_id ` set (rebate_criteria d)) (cr_id ` set (rebate_criteria d)) d2 d')"

section \<open>After the processing\<close>

lemma fulfillable_mark: "fulfillable (transaction_of L (mark L s t x r)) = fulfillable (transaction_of L r)"
  by (simp add: fulfillable_def rebate_key_def transaction_of_def mark_def transaction_columns_def
      TransactionForRebateCriteriaSerializer_deserialize_def)

lemma fulfillable_flag: "fulfillable (transaction_of L (flag_row L r)) = fulfillable (transaction_of L r)"
  by (simp add: fulfillable_def rebate_key_def transaction_of_def flag_row_def transaction_columns_def
      TransactionForRebateCriteriaSerializer_deserialize_def)

text \<open>A rebate after a step: one of before, one the export does not wait for, or a new one, of an existing offer.\<close>

definition sound_rebate :: "db \<Rightarrow> RebateRecord \<Rightarrow> bool" where
  "sound_rebate d r \<longleftrightarrow>
     r \<in> set (rebates d) \<or> \<not> in_export (rr_status r) \<or>
     rr_id r \<noteq> None \<and> (\<exists>c\<in>set (rebate_criteria d). cr_id c = tx_rebateCriteriaId (rr_qualifying_transaction r))"

definition sound_step :: "ext \<Rightarrow> db \<Rightarrow> db \<Rightarrow> bool" where
  "sound_step L d d' \<longleftrightarrow>
     rebate_criteria d' = rebate_criteria d \<and> (\<forall>r\<in>set (rebates d'). sound_rebate d r) \<and>
     ((\<forall>r\<in>set (transactions d). fulfillable (transaction_of L r)) \<longrightarrow>
      (\<forall>r\<in>set (transactions d'). fulfillable (transaction_of L r)))"

lemma sound_refl: "sound_step L d d"
  by (simp add: sound_step_def sound_rebate_def)

lemma sound_exportable: "sound_step L d d' \<Longrightarrow> exportable d \<Longrightarrow> exportable d'"
  unfolding sound_step_def sound_rebate_def exportable_def by fastforce

lemma marked_frame:
  assumes "marked L s t x d d1"
  shows "rebates d1 = rebates d" and "rebate_criteria d1 = rebate_criteria d"
proof -
  have d1: "d1 = d\<lparr>transactions := transactions d1\<rparr>" using assms by (simp add: marked_def)
  show "rebates d1 = rebates d" "rebate_criteria d1 = rebate_criteria d" by (subst d1, simp)+
qed

lemma sound_marked:
  assumes "marked L s t x d d1"
  shows "sound_step L d d1"
proof -
  have m: "mset (transactions d1) = mset (map (mark L s t x) (transactions d))" using assms by (simp add: marked_def)
  have "set (transactions d1) = mark L s t x ` set (transactions d)" using mset_eq_set [OF m] by simp
  then show ?thesis by (auto simp: sound_step_def sound_rebate_def fulfillable_mark marked_frame [OF assms])
qed

lemma sound_reported:
  assumes "reported L criteria p d d1"
  shows "sound_step L d d1"
proof -
  have m: "mset (transactions d1) = mset (map (\<lambda>r. if p r then flag_row L r else r) (transactions d))"
    and d1: "d1 = d\<lparr>transactions := transactions d1, refund_reports := refund_reports d1\<rparr>"
    using assms by (simp_all add: reported_def)
  have "set (transactions d1) = (\<lambda>r. if p r then flag_row L r else r) ` set (transactions d)" using mset_eq_set [OF m] by simp
  moreover have "rebates d1 = rebates d" "rebate_criteria d1 = rebate_criteria d" by (subst d1, simp)+
  ultimately show ?thesis by (auto simp: sound_step_def sound_rebate_def fulfillable_flag)
qed

lemma sound_trans:
  assumes "sound_step L d d1" and "sound_step L d1 d2"
  shows "sound_step L d d2"
  using assms unfolding sound_step_def sound_rebate_def by fastforce

text \<open>Rebates, and other tables that do not matter here, change.\<close>

lemma sound_rebates:
  assumes "\<forall>r\<in>set (rebates d'). sound_rebate d r" and "rebate_criteria d' = rebate_criteria d"
    and "transactions d' = transactions d"
  shows "sound_step L d d'"
  using assms by (simp add: sound_step_def)

lemma issue_needs_criteria:
  assumes "qualifying_verdict L d x = Issue amount rewardType"
  shows "\<exists>c\<in>set (rebate_criteria d). cr_id c = tx_rebateCriteriaId x"
proof -
  have "criteria_in L d (tx_rebateCriteriaId x) \<noteq> None" 
    using assms by (cases "criteria_in L d (tx_rebateCriteriaId x)") (simp_all add: qualifying_verdict_def)
  then show ?thesis by (force simp: criteria_in_def find_Some_iff)
qed

lemma issued_transaction [simp]: "rr_qualifying_transaction (issued_row L x a rt t1 t2 k) = x"
  by (simp add: issued_row_def rebate_columns_def RebateSerializer_serialize_def pending_rebate_def)

lemma follows_sound:
  assumes "follows L x d d'"
  shows "sound_step L d d'"
proof (cases "tx_transactionType x")
  case Qualifying
  show ?thesis
  proof (cases "qualifying_verdict L d x")
    case (Issue amount rewardType)
    with assms Qualifying obtain t t1 t2 k d1 where m: "marked L RebateCreated t x d d1"
      and r: "mset (rebates d') = add_mset (issued_row L (x\<lparr>tx_processedAt := Some t, tx_status := RebateCreated\<rparr>)
        amount rewardType t1 t2 k) (mset (rebates d))"
      and d': "d' = d1\<lparr>rebates := rebates d'\<rparr>"
      by (auto simp: follows_def prescribes_def)
    have "\<forall>q\<in>set (rebates d'). sound_rebate d1 q"
      using arg_cong [OF r, of set_mset] issue_needs_criteria [OF Issue] by (simp add: sound_rebate_def marked_frame [OF m])
    moreover have "transactions d' = transactions d1" "rebate_criteria d' = rebate_criteria d1" by (subst d', simp)+
    ultimately show ?thesis using sound_trans [OF sound_marked [OF m]] sound_rebates by blast
  qed (use assms Qualifying sound_marked sound_refl in \<open>auto simp: follows_def prescribes_def\<close>)
next
  case Fulfillment
  show ?thesis
  proof (cases "fulfillment_status d x = FulfilledTransSuccessful")
    case True
    with assms Fulfillment obtain t t1 t2 r d1 where m: "marked L FulfilledTransSuccessful t x d d1"
      and p: "paid L x t1 t2 r d d'"
      and d': "d' = d1\<lparr>rebates := rebates d', rebate_journal := rebate_journal d', published := published d'\<rparr>"
      by (auto simp: follows_def settles_fulfillment_def)
    have "set (rebates d') = (\<lambda>q. if rr_id q = rr_id r then paid_row L x t1 t2 q else q) ` set (rebates d)"
      using mset_eq_set [OF p [unfolded paid_def]] by simp
    then have "\<forall>q\<in>set (rebates d'). sound_rebate d1 q"
      by (auto simp: sound_rebate_def paid_row_def rebate_columns_def in_export_def marked_frame [OF m])
    moreover have "transactions d' = transactions d1" "rebate_criteria d' = rebate_criteria d1" by (subst d', simp)+
    ultimately show ?thesis using sound_trans [OF sound_marked [OF m]] sound_rebates by blast
  qed (use assms Fulfillment sound_marked in \<open>auto simp: follows_def Let_def\<close>)
next
  case Refund
  with assms obtain t d1 where "marked L (refund_status (criteria_in L d (tx_rebateCriteriaId x)) d x) t x d d1"
    and "case criteria_in L d (tx_rebateCriteriaId x) of None \<Rightarrow> d' = d1 | Some c \<Rightarrow> reported L c (due d1 x) d1 d'"
    by (auto simp: follows_def Let_def)
  then have "sound_step L d d1" and "d' = d1 \<or> sound_step L d1 d'"
    by (simp_all add: sound_marked split: option.splits) (use sound_reported in blast)
  then show ?thesis using sound_trans by blast
qed (use assms sound_refl in \<open>simp add: follows_def\<close>)

lemma specified_run_sound: "specified_run L xs d left d' \<Longrightarrow> sound_step L d d'"
proof (induction rule: specified_run.induct)
  case (finished d)
  show ?case by (rule sound_refl)
qed (use sound_trans follows_sound in blast)+

lemma specified_run_journals: "specified_run L xs d left d' \<Longrightarrow> journals_numbered d \<Longrightarrow> journals_numbered d'"
  by (induction rule: specified_run.induct) (use follows_journals in blast)+

lemma worker_ready:
  assumes "ext_ok L" and "reliable L" and "reliable_files L" and r: "ready L M (store w)"
  obtains xs left w' where "TransactionProcessing_perform L worker w = (Inr (), w')"
    and "specified_run L xs (store w) left (store w')"
    and "tx_id ` set xs = tr_id ` {q \<in> set (transactions (store w)). pending_row worker q}"
    and "distinct (map tx_id xs)" and "ready L M (store w')"
proof -
  have c: "kafka_connect L (calls w) = Inr ()" using assms(3) by (simp add: reliable_files_def)
  have inv: "processing_inv L M (store w)" and js: "journals_numbered (store w)"
    and f: "\<forall>q\<in>set (transactions (store w)). pending_row worker q \<longrightarrow> fulfillable (transaction_of L q)"
    using r by (simp_all add: ready_def)
  obtain rs left w' where run: "TransactionProcessing_perform L worker w = (Inr (), w')"
    and m: "mset rs = mset (filter (pending_row worker) (transactions (store w)))"
    and s: "specified_run L (map (transaction_of L) rs) (store w) left (store w')"
    using processing_specified [OF assms(1,2) c inv js f] by blast
  have "processing_inv L M (store w')"
    using keepsD [OF keeps_processing [OF processTransaction_keeps [OF assms(1)]] inv, of worker] run by simp
  with specified_run_journals [OF s js] specified_run_sound [OF s] sound_exportable r have "ready L M (store w')"
    by (auto simp: ready_def sound_step_def)
  moreover have "tx_id ` set (map (transaction_of L) rs) = tr_id ` {q \<in> set (transactions (store w)). pending_row worker q}"
    using mset_eq_set [OF m] by (simp add: image_image)
  moreover have "distinct (map tr_id (filter (pending_row worker) (transactions (store w))))"
    using ready_db_ok [OF r] by (simp add: db_ok_def distinct_map_filter)
  then have "distinct (map tr_id rs)" by (subst distinct_map_mset [OF m])
  then have "distinct (map tx_id (map (transaction_of L) rs))" by (simp add: comp_def)
  ultimately show thesis using run s that by blast
qed

lemma processing_ready:
  assumes "ext_ok L" and "reliable L" and "reliable_files L" and "ready L M (store w)"
  obtains xs left w' where "TransactionProcessing_perform L None w = (Inr (), w')"
    and "specified_run L xs (store w) left (store w')" and "tx_id ` set xs = pending_ids (store w)"
    and "distinct (map tx_id xs)" and "ready L M (store w')"
  by (rule worker_ready [OF assms, of None]) (rule that, simp_all add: pending_row_def pending_ids_def)

section \<open>After the export\<close>

lemma export_nothing:
  assumes h: "healthy L day" and none: "waiting_rows (store w) = []"
  shows "\<exists>self' w'. perform_export L (new_RebateExport path, w) = (Inr (), (self', w')) \<and>
    mset (rebates (store w')) = mset (rebates (store w)) \<and>
    store w' = (store w)\<lparr>rebates := rebates (store w')\<rparr>"
proof -
  have ok: "ext_ok L" and rel: "reliable L" using h by (simp_all add: healthy_def)
  have out: "\<not> in_export (rr_status r)" if "r \<in> set (rebates (store w))" for r
    using none that by (auto simp: waiting_rows_def filter_empty_conv)
  obtain rs started xs w1 where 1: "rebatesPendingExportStart L w = (Inr (map (RebateExportSerializer_serialize L) xs), w1)"
    "store w1 = (store w)\<lparr>rebates := rs\<rparr>"
    "mset rs = mset (map (status_update L PendingExtraction ExtractionStarted) (rebates (store w)))"
    "mset started = mset (filter (\<lambda>r. rr_status r = ExtractionStarted) rs)"
    "map (RebateSerializer_deserialize L) started = map Inr xs"
    by (rule start_delivers [OF ok rel]) (use out in blast)
  have "map (status_update L PendingExtraction ExtractionStarted) (rebates (store w)) = rebates (store w)"
    using out by (intro map_idI) (auto simp: status_update_def in_export_def)
  with 1(3) have rs: "mset rs = mset (rebates (store w))" by simp
  have "set started = {}" using mset_eq_set [OF 1(4)] mset_eq_set [OF rs] out by (auto simp: in_export_def)
  with 1(5) have "xs = []" by simp
  with 1(1) have "perform_export L (new_RebateExport path, w) =
      (Inr (), ((new_RebateExport path)\<lparr>cachedRebates := Some []\<rparr>, w1))"
    by (simp add: perform_export_def rebatesToExport_def new_RebateExport_def io_simps)
  with 1(2) rs show ?thesis by auto
qed

lemma export_reliable:
  assumes "healthy L day" and "exportable (store w)"
  obtains self w' where "RebateExport_perform L path w = (Inr self, w')"
    and "exported L (stamped path day) (store w) (store w')"
proof (cases "waiting_rows (store w) = []")
  case True
  with export_nothing [OF assms(1) True, of path] that show thesis
    by (auto simp: exported_def dest!: RebateExport_perform_returns)
next
  case False
  with export_delivers_all [OF assms False, of path] that show thesis
    by (auto simp: exported_def dest!: RebateExport_perform_returns)
qed

text \<open>The rebates are rewritten, every other table the next processing reads is as it was.\<close>

definition rewritten :: "db \<Rightarrow> db \<Rightarrow> bool" where
  "rewritten d d' \<longleftrightarrow>
     (\<exists>g. mset (rebates d') = image_mset g (mset (rebates d)) \<and>
       (\<forall>r\<in>set (rebates d). rr_id (g r) = rr_id r \<and> rr_account_transaction_id (g r) = rr_account_transaction_id r \<and>
          rr_rebate_criteria_id (g r) = rr_rebate_criteria_id r \<and> rr_user_id (g r) = rr_user_id r \<and>
          rr_card (g r) = rr_card r \<and> rr_fulfilled_transaction_id (g r) = rr_fulfilled_transaction_id r \<and>
          \<not> in_export (rr_status (g r)))) \<and>
     standing d' = standing d \<and> refund_reports d' = refund_reports d \<and> transactions d' = transactions d \<and>
     numbered_beside (rebate_journal d) (rebate_journal d')"

lemma rewritten_ready:
  assumes "ready L M d" and "rewritten d d'"
  shows "ready L M d'" and "waiting_rows d' = []"
proof -
  from assms(2) obtain g where m: "mset (rebates d') = image_mset g (mset (rebates d))"
    and g: "\<And>r. r \<in> set (rebates d) \<Longrightarrow> rr_id (g r) = rr_id r \<and> rr_account_transaction_id (g r) = rr_account_transaction_id r \<and>
          rr_rebate_criteria_id (g r) = rr_rebate_criteria_id r \<and> rr_user_id (g r) = rr_user_id r \<and>
          rr_card (g r) = rr_card r \<and> rr_fulfilled_transaction_id (g r) = rr_fulfilled_transaction_id r \<and>
          \<not> in_export (rr_status (g r))"
    and d': "standing d' = standing d" "refund_reports d' = refund_reports d" "transactions d' = transactions d"
      "numbered_beside (rebate_journal d) (rebate_journal d')"
    unfolding rewritten_def by blast
  have set: "set (rebates d') = g ` set (rebates d)" using arg_cong [OF m, of set_mset] by simp
  with g have out: "\<forall>r\<in>set (rebates d'). \<not> in_export (rr_status r)" by auto
  then show "waiting_rows d' = []" by (simp add: waiting_rows_def filter_empty_conv)
  have "fulfilled_once d" using assms(1) by (simp add: ready_def processing_inv_def)
  then have "fulfilled_once d'" unfolding fulfilled_once_def set using g by simp
  then have "processing_inv L M d'"
    using assms(1) d' g by (intro processing_inv_rewritten [OF _ _ _ m]) (simp_all add: ready_def transaction_keys_def counts_towards_def)
  moreover have "exportable d'" using out by (simp add: exportable_def)
  moreover have "journals_numbered d'"
    using assms(1) d'(4) by (auto simp: ready_def journals_numbered_def numbered_beside_def)
  ultimately show "ready L M d'" using assms(1) d'(3) by (simp add: ready_def)
qed

lemma rewritten_same: "d' = d\<lparr>rebates := rebates d'\<rparr> \<Longrightarrow> mset (rebates d') = mset (rebates d) \<Longrightarrow> waiting_rows d = [] \<Longrightarrow> rewritten d d'"
  unfolding rewritten_def
proof (intro conjI exI [of _ "\<lambda>r. r"])
  assume d': "d' = d\<lparr>rebates := rebates d'\<rparr>"
  show "standing d' = standing d" "refund_reports d' = refund_reports d" "transactions d' = transactions d"
    by (subst d', simp)+
  have "rebate_journal d' = rebate_journal d" by (subst d', simp)
  then show "numbered_beside (rebate_journal d) (rebate_journal d')" by (simp add: numbered_beside_def)
qed (auto simp: waiting_rows_def filter_empty_conv)

lemma exported_rewritten:
  assumes "exported L name d d'"
  shows "rewritten d d'"
proof (cases "waiting_rows d = []")
  case True
  with assms show ?thesis by (intro rewritten_same) (simp_all add: exported_def)
next
  case False
  with assms have e: "export_of L name d d'" by (simp add: exported_def)
  then obtain t where m: "mset (rebates d') = mset (map (deliver L t) (rebates d))"
    and j: "numbered_beside (rebate_journal d) (rebate_journal d')"
    and d': "d' = d\<lparr>rebates := rebates d', uploaded := uploaded d', unfulfilled_reports := unfulfilled_reports d',
      rebate_journal := rebate_journal d', published := published d', export_details := export_details d',
      local_csv := local_csv d', local_zip := local_zip d'\<rparr>"
    unfolding export_of_def by blast
  have "users d' = users d" "rebate_criteria d' = rebate_criteria d" "userledger d' = userledger d"
    "refund_reports d' = refund_reports d" "transactions d' = transactions d" by (subst d', simp)+
  moreover have "mset (rebates d') = image_mset (deliver L t) (mset (rebates d))" using m by simp
  ultimately show ?thesis
    unfolding rewritten_def using j
    by (intro conjI exI [of _ "deliver L t"]) (auto simp: standing_def deliver_def moved_def rebate_columns_def in_export_def)
qed

lemma synced_row_fields:
  "synced_row L T r r' \<Longrightarrow>
     rr_id r' = rr_id r \<and> rr_account_transaction_id r' = rr_account_transaction_id r \<and>
     rr_rebate_criteria_id r' = rr_rebate_criteria_id r \<and> rr_user_id r' = rr_user_id r \<and> rr_card r' = rr_card r \<and>
     rr_fulfilled_transaction_id r' = rr_fulfilled_transaction_id r \<and> rr_status r' = rr_status r"
  by (auto simp: synced_row_def rebate_columns_def split: if_splits)

lemma synced_rewritten:
  assumes "synced L S T d d'" and "waiting_rows d = []"
  shows "rewritten d d'"
proof -
  obtain g where m: "mset (rebates d') = image_mset g (mset (rebates d))" and g: "\<forall>r\<in>set (rebates d). synced_row L T r (g r)"
    using assms(1) by (auto simp: synced_def related_def)
  have d': "d'\<lparr>offers := offers d, rebates := rebates d\<rparr> = d" using assms(1) by (simp add: synced_def)
  have "users d' = users d" "rebate_criteria d' = rebate_criteria d" "userledger d' = userledger d"
    "refund_reports d' = refund_reports d" "transactions d' = transactions d" "rebate_journal d' = rebate_journal d"
    using arg_cong [OF d', of users] arg_cong [OF d', of rebate_criteria] arg_cong [OF d', of userledger]
      arg_cong [OF d', of refund_reports] arg_cong [OF d', of transactions] arg_cong [OF d', of rebate_journal] by simp_all
  moreover have "\<not> in_export (rr_status r)" if "r \<in> set (rebates d)" for r
    using assms(2) that by (auto simp: waiting_rows_def filter_empty_conv)
  moreover note synced_row_fields [OF bspec [OF g]]
  ultimately show ?thesis
    unfolding rewritten_def using m by (intro conjI exI [of _ g]) (simp_all add: standing_def numbered_beside_def)
qed

section \<open>A whole run\<close>

lemma rewritten_criteria: "rewritten d d' \<Longrightarrow> rebate_criteria d' = rebate_criteria d"
  by (simp add: rewritten_def standing_def)

lemma rewritten_pending: "rewritten d d' \<Longrightarrow> pending_ids d' = pending_ids d"
  by (simp add: rewritten_def pending_ids_def)

text \<open>What follows the processing, of a run of which some transactions were left.\<close>

lemma finish_reliable:
  assumes h: "healthy L day" and r: "ready L M d" and r1: "ready L M (store w1)"
    and s: "specified_run L xs d left (store w1)" "tx_id ` set xs = pending_ids d" "distinct (map tx_id xs)"
  obtains self w2 w' where "RebateExport_perform L path w1 = (Inr self, w2)"
    and "syncTotalsToMOP L schedule1 schedule2 w2 = (Inr True, w')"
    and "full_run L (stamped path day) xs d left (store w')"
    and "pending_ids (store w') = tx_id ` set left" and "ready L M (store w')" and "waiting_rows (store w') = []"
    and "\<forall>c\<in>set (rebate_criteria (store w')). new_count (store w') (cr_id c) = 0"
proof -
  have ok: "ext_ok L" and rel: "reliable L" using h by (simp_all add: healthy_def)
  have e: "exportable (store w1)" using r1 by (simp add: ready_def)
  obtain self w2 where 2: "RebateExport_perform L path w1 = (Inr self, w2)"
    "exported L (stamped path day) (store w1) (store w2)"
    by (rule export_reliable [OF h e])
  note moved = exported_rewritten [OF 2(2)]
  have r2: "ready L M (store w2)" "waiting_rows (store w2) = []" by (rule rewritten_ready [OF r1 moved])+
  have criteria: "rebate_criteria (store w2) = rebate_criteria d"
    using rewritten_criteria [OF moved] specified_run_sound [OF s(1)] by (simp add: sound_step_def)
  have "distinct (map cr_id (rebate_criteria (store w2)))" using ready_db_ok [OF r2(1)] by (simp add: db_ok_def)
  from sync_reliable [OF ok rel this, of schedule1 schedule2] obtain w' where
    3: "syncTotalsToMOP L schedule1 schedule2 w2 = (Inr True, w')"
      "synced L (cr_id ` set (rebate_criteria d)) (cr_id ` set (rebate_criteria d)) (store w2) (store w')"
    unfolding criteria by blast
  note marked = synced_rewritten [OF 3(2) r2(2)]
  have "tx_id ` set left \<subseteq> pending_ids d" using specified_run_pending [OF s(1,3)] s(2) image_mono by blast
  then have "pending_ids (store w') = tx_id ` set left"
    using specified_run_pending [OF s(1,3)] s(2) rewritten_pending [OF moved] rewritten_pending [OF marked] by auto
  moreover have "new_count (store w') (cr_id c) = 0" if "c \<in> set (rebate_criteria (store w'))" for c
    using synced_counts [OF 3(2)] that rewritten_criteria [OF marked] criteria by (simp add: new_count_def)
  ultimately show thesis
    using s 2 3 rewritten_ready [OF r2(1) marked] by (intro that [of self w2 w']) (auto simp: full_run_def)
qed

lemma full_run_reliable:
  assumes h: "healthy L day" and r: "ready L M (store w)"
  obtains xs left w1 self w2 w' where "TransactionProcessing_perform L None w = (Inr (), w1)"
    and "RebateExport_perform L path w1 = (Inr self, w2)"
    and "syncTotalsToMOP L schedule1 schedule2 w2 = (Inr True, w')"
    and "tx_id ` set xs = pending_ids (store w)" and "full_run L (stamped path day) xs (store w) left (store w')"
    and "pending_ids (store w') = tx_id ` set left" and "ready L M (store w')" and "waiting_rows (store w') = []"
    and "\<forall>c\<in>set (rebate_criteria (store w')). new_count (store w') (cr_id c) = 0"
proof -
  have ok: "ext_ok L" and rel: "reliable L" and files: "reliable_files L" using h by (simp_all add: healthy_def)
  obtain xs left w1 where 1: "TransactionProcessing_perform L None w = (Inr (), w1)"
    "specified_run L xs (store w) left (store w1)" "tx_id ` set xs = pending_ids (store w)" "distinct (map tx_id xs)"
    "ready L M (store w1)"
    by (rule processing_ready [OF ok rel files r])
  obtain self w2 w' where 2: "RebateExport_perform L path w1 = (Inr self, w2)"
    "syncTotalsToMOP L schedule1 schedule2 w2 = (Inr True, w')"
    "full_run L (stamped path day) xs (store w) left (store w')"
    "pending_ids (store w') = tx_id ` set left" "ready L M (store w')" "waiting_rows (store w') = []"
    "\<forall>c\<in>set (rebate_criteria (store w')). new_count (store w') (cr_id c) = 0"
    by (rule finish_reliable [OF h r 1(5,2-4), of path schedule1 schedule2])
  show thesis by (rule that [OF 1(1) 2(1,2) 1(3) 2(3-7)])
qed

text \<open>
  C2.  A full process on a system where every request is answered ends with the code 0: the pending
  transactions get the statuses their verdicts prescribe, the waiting rebates, those of before and the new
  ones, are delivered once, and the totals of every offer are brought up to date.  Afterwards only the
  transactions the rules give no verdict for are pending, no rebate waits for an export, no paid rebate is left
  to count, and the database is ready for the next full process.
\<close>

theorem full_process_completes_the_day:
  assumes "map to_upper type = ''FULL_PROCESS''" and "healthy L day" and "connections S (calls w) = Inr ()"
    and "ready L M (store w)"
  shows "\<exists>xs left w'. JobRunner_start L S (args\<lparr>ca_type := Some type\<rparr>) w = Some (Inl (Exit 0), w') \<and>
    tx_id ` set xs = pending_ids (store w) \<and>
    full_run L (stamped (export_path S) day) xs (store w) left (store w') \<and>
    pending_ids (store w') = tx_id ` set left \<and> waiting_rows (store w') = [] \<and>
    (\<forall>c\<in>set (rebate_criteria (store w')). new_count (store w') (cr_id c) = 0) \<and> ready L M (store w')"
proof -
  have "ready L M (store (tick w))" using assms(4) by simp
  then obtain xs left w1 self w2 w' where run: "TransactionProcessing_perform L None (tick w) = (Inr (), w1)"
    "RebateExport_perform L (export_path S) w1 = (Inr self, w2)"
    "syncTotalsToMOP L (sync_order1 S) (sync_order2 S) w2 = (Inr True, w')"
    and res: "tx_id ` set xs = pending_ids (store (tick w))"
      "full_run L (stamped (export_path S) day) xs (store (tick w)) left (store w')"
      "pending_ids (store w') = tx_id ` set left" "ready L M (store w')" "waiting_rows (store w') = []"
      "\<forall>c\<in>set (rebate_criteria (store w')). new_count (store w') (cr_id c) = 0"
    by (rule full_run_reliable [OF assms(2)])
  have "JobRunner_start L S (args\<lparr>ca_type := Some type\<rparr>) w = Some (Inl (Exit 0), w')"
    unfolding full_process_ends_with_0 [OF assms(1)] using assms(3) run by blast
  with res show ?thesis by (intro exI [of _ xs] exI [of _ left] exI [of _ w']) simp
qed

definition full_db :: db where
  "full_db = fulfillment_db\<lparr>rebates := [sample_pending_rebate,
     sample_pending_rebate\<lparr>rr_id := Some 8, rr_user_id := ''user2'', rr_status := PendingExtraction,
       rr_account_transaction_id := ''t0''\<rparr>]\<rparr>"

definition full_world :: world where
  "full_world = \<lparr>calls = 0, store = full_db\<rparr>"

lemma full_db_ready: "ready day_ext {#} full_db"
  unfolding ready_def processing_inv_def covered_def
  by (intro conjI)
    (simp_all add: full_db_def db_ok_def flagged_rows_def within_limits_def fulfilled_once_def journals_numbered_def
      exportable_def fulfillment_db_def sample_db_def empty_db_def sample_transaction_def sample_fulfillment_def
      TransactionForRebateCriteriaSerializer_serialize_def RebateCriteriaSerializer_serialize_def sample_criteria_def
      counts_towards_def sample_pending_rebate_def fulfillable_def transaction_of_def rebate_key_def int_key_def trim_def trim_start_def is_space_def
      is_digit_def digit_value_def nat_of_digits_def TransactionForRebateCriteriaSerializer_deserialize_def)

lemma full_db_pending: "pending_ids full_db = {Some 1, Some 2}"
proof -
  have "map tr_id (filter (\<lambda>r. tr_processed_at r = None) (transactions full_db)) = [Some 1, Some 2]"
    by (simp add: full_db_def fulfillment_db_def sample_transaction_def sample_fulfillment_def
        TransactionForRebateCriteriaSerializer_serialize_def)
  from arg_cong [OF this, of set] show ?thesis by (simp add: pending_ids_def)
qed

lemma full_process_completes_the_day_witness:
  "waiting_rows (store full_world) \<noteq> [] \<and> pending_ids (store full_world) = {Some 1, Some 2} \<and>
   (\<exists>w'. JobRunner_start day_ext one_by_one
      (\<lparr>ca_type = None, ca_id = 0, ca_workers = None, ca_workerProcesses = False\<rparr>\<lparr>ca_type := Some ''full_Process''\<rparr>)
      full_world = Some (Inl (Exit 0), w') \<and> waiting_rows (store w') = [])"
proof -
  have "waiting_rows (store full_world) \<noteq> []"
    by (simp add: waiting_rows_def in_export_def full_world_def full_db_def)
  moreover have "pending_ids (store full_world) = {Some 1, Some 2}"
    using full_db_pending by (simp add: full_world_def)
  moreover have t: "map to_upper ''full_Process'' = ''FULL_PROCESS''" by code_simp
  moreover have c: "connections one_by_one (calls full_world) = Inr ()" by (simp add: one_by_one_def)
  moreover have r: "ready day_ext {#} (store full_world)" by (simp only: full_world_def world.select_convs full_db_ready)
  ultimately show ?thesis
    using full_process_completes_the_day [OF t day_healthy c r, where
        args = "\<lparr>ca_type = None, ca_id = 0, ca_workers = None, ca_workerProcesses = False\<rparr>"] by blast
qed

end
