(* ===== verification/Consumers.thy ===== *)
theory Consumers
  imports Rewards Reliable
begin

text \<open>
  What the service takes in from Kafka (\<open>app/kafka/consumers\<close>, \<open>app/kafka/serializers\<close>): the messages on
  users, offers and transactions, each written to its table.  The documents are the interfaces of
  \<open>datapipeline-schemas\<close>, as far as the serializers read them.
\<close>

section \<open>The documents\<close>

record IUserData =
  ku_id :: string
  ku_linkedOfferIds :: "string list"
  ku_targetedOfferIds :: "string list"
  ku_optInFileOffers :: "IOptInFileOffer list"
  ku_enrolled :: bool
  ku_eligibility :: "bool option"             \<comment> \<open>its \<open>isBlacklisted\<close>, if there is one\<close>
  ku_creditCardProducts :: "user_product list"
  ku_ddaProducts :: "user_product list"
  ku_isAnonymous :: bool

record IOfferDocument =
  ko_id :: string
  ko_isRedeemable :: bool
  ko_wasActive :: bool
  ko_benefitToCustomer :: OfferBenefitToCustomer
  ko_rebateAmount :: js_number                \<comment> \<open>\<open>undefined\<close> compares as \<open>NaN\<close> does\<close>
  ko_refundPeriod :: int
  ko_validFromDate :: date
  ko_validToDate :: date
  ko_merchantId :: string
  ko_requiresLinkToProfile :: bool
  ko_isTargeted :: bool
  ko_redemptionLimit :: int
  ko_redemptionLimitType :: string
  ko_numOfDaysToWatchAndMatch :: int
  ko_products :: products
  ko_redemptionBasedOn :: OfferType

record ITransactionDocument =
  kt_transactionId :: string
  kt_accountId :: string
  kt_userId :: string
  kt_offerId :: string
  kt_rebateId :: "string nullable"
  kt_amount :: "js_number nullable"
  kt_type :: TransactionType
  kt_card :: string
  kt_basePoints :: "int nullable"
  kt_cardType :: "string nullable"
  kt_transactionDate :: date
  kt_currency :: string
  kt_postalCode :: "string option"
  kt_productCode :: string
  kt_isManual :: bool
  kt_customerId :: string

section \<open>The serializers\<close>

definition KafkaUserSerializer_serialize :: "IUserData \<Rightarrow> exn + IUser" where
  "KafkaUserSerializer_serialize x =
     (case ku_eligibility x of
        None \<Rightarrow> Inl TypeError
      | Some isBlacklisted \<Rightarrow> Inr
          \<lparr>u_id = ku_id x, u_linkedOfferIds = ku_linkedOfferIds x, u_targetedOfferIds = ku_targetedOfferIds x,
            u_optInFileOffers = ku_optInFileOffers x, u_isEnrolled = ku_enrolled x, u_isBlacklisted = isBlacklisted,
            u_creditCardProducts = ku_creditCardProducts x, u_debitCardProducts = ku_ddaProducts x\<rparr>)"

definition REDEMPTION_LIMIT_TYPE :: "string \<Rightarrow> RedemptionLimitType nullable" where
  "REDEMPTION_LIMIT_TYPE s =
     (if s = ''Overall'' then Value Overall else if s = ''Per RBC Card'' then Value PerCard else Undefined)"

definition rebate_amount_text :: "ext \<Rightarrow> js_number \<Rightarrow> string" where
  "rebate_amount_text L x =
     (case x of NaN \<Rightarrow> ''0.00'' | Num q \<Rightarrow> if 0 < q then number_toString (show_fraction L) x else ''0.00'')"

definition KafkaOfferSerializer_serialize :: "ext \<Rightarrow> IOfferDocument \<Rightarrow> exn + IRebateCriteria" where
  "KafkaOfferSerializer_serialize L x =
     (case RewardCalculationInterpretation_from L
          \<lparr>rebateAmount = rebate_amount_text L (ko_rebateAmount x), benefitToCustomer = ko_benefitToCustomer x\<rparr> of
        Inl e \<Rightarrow> Inl e
      | Inr rewardCalculation \<Rightarrow> Inr
          \<lparr>rc_id = ko_id x, rc_isRedeemable = ko_isRedeemable x, rc_descriptionForTesting = None,
            rc_rewardCalculation = rewardCalculation, rc_refundPeriodInDays = ko_refundPeriod x,
            rc_validFromDate = ko_validFromDate x, rc_validToDate = ko_validToDate x, rc_merchantId = ko_merchantId x,
            rc_hasBeenActivated = ko_wasActive x, rc_requiresCustomerToBeLinked = ko_requiresLinkToProfile x,
            rc_requiresCustomerToBeTargeted = ko_isTargeted x, rc_redemptionLimit = ko_redemptionLimit x,
            rc_redemptionLimitType = REDEMPTION_LIMIT_TYPE (ko_redemptionLimitType x),
            rc_redemptionPeriodInDays = ko_numOfDaysToWatchAndMatch x, rc_eligibleProducts = Value (ko_products x),
            rc_redemptionBasedOn = ko_redemptionBasedOn x\<rparr>)"

definition CARD_TYPE :: "string nullable \<Rightarrow> CardType" where
  "CARD_TYPE s =
     (if s = Value ''credit'' then CreditCard else if s = Value ''debit'' then CheckingAccount
      else OtherCardType Undefined)"

text \<open>
  The fields left out are \<open>undefined\<close>: the database numbers the row, and takes the default of the column for
  \<open>refund_report_created\<close>.
\<close>

definition KafkaTransactionSerializer_serialize :: "ext \<Rightarrow> ITransactionDocument \<Rightarrow> exn + ITransactionForRebateCriteria" where
  "KafkaTransactionSerializer_serialize L x =
     (case kt_amount x of
        Value amount \<Rightarrow> Inr
          \<lparr>tx_id = None, tx_transactionId = kt_transactionId x, tx_accountId = kt_accountId x, tx_userId = kt_userId x,
            tx_rebateCriteriaId = kt_offerId x,
            tx_rebateId = Some (number_toString (show_fraction L) (Number_nullable (kt_rebateId x))),
            tx_amount = number_toString (show_fraction L) amount, tx_processedAt = None,
            tx_transactionType = kt_type x, tx_status = Pending, tx_card = kt_card x,
            tx_basePoints = (case kt_basePoints x of Value n \<Rightarrow> n | _ \<Rightarrow> 0), tx_cardType = CARD_TYPE (kt_cardType x),
            tx_transactionDate = kt_transactionDate x, tx_transactionCurrency = kt_currency x,
            tx_transactionPostalCode = kt_postalCode x, tx_productCodeExternal = kt_productCode x,
            tx_isManual = kt_isManual x, tx_tsysCustomerId = kt_customerId x, tx_refundReportCreated = False,
            tx_processorId = None\<rparr>
      | _ \<Rightarrow> Inl TypeError)"

section \<open>The handlers\<close>

text \<open>
  A message may have no event, and an event no document: \<open>message.event && message.event.offer\<close>.
\<close>

type_synonym 'd message = "'d option option"

definition document :: "'d message \<Rightarrow> 'd option" where
  "document m = (case m of Some (Some x) \<Rightarrow> Some x | _ \<Rightarrow> None)"

definition UserHandler_process :: "ext \<Rightarrow> IUserData message \<Rightarrow> IUser option action" where
  "UserHandler_process L message =
     (case document message of
        None \<Rightarrow> io_return None
      | Some x \<Rightarrow>
          if \<not> ku_isAnonymous x
          then io_bind (io_lift (KafkaUserSerializer_serialize x)) (\<lambda>userData.
            io_bind (upsert UserRepository L userData) (\<lambda>record. io_return (Some record)))
          else io_return None)"

definition OfferHandler_process :: "ext \<Rightarrow> IOfferDocument message \<Rightarrow> IRebateCriteria option action" where
  "OfferHandler_process L message =
     (case document message of
        None \<Rightarrow> io_return None
      | Some x \<Rightarrow>
          if ko_isRedeemable x \<and> ko_wasActive x
          then io_bind (io_lift (KafkaOfferSerializer_serialize L x)) (\<lambda>offerData.
            io_bind (upsert RebateCriteriaRepository L offerData) (\<lambda>record. io_return (Some record)))
          else io_return None)"

definition TransactionHandler_process ::
  "ext \<Rightarrow> ITransactionDocument message \<Rightarrow> ITransactionForRebateCriteria option action" where
  "TransactionHandler_process L message =
     (case document message of
        None \<Rightarrow> io_return None
      | Some x \<Rightarrow>
          io_bind (io_lift (KafkaTransactionSerializer_serialize L x)) (\<lambda>transactionData.
            io_bind (upsert TransactionForRebateCriteriaRepository L transactionData) (\<lambda>record. io_return (Some record))))"

section \<open>The topics\<close>

datatype handler = OfferHandler | UserHandler | TransactionHandler

fun handler_matches :: "handler \<Rightarrow> string \<Rightarrow> bool" where
  "handler_matches OfferHandler name \<longleftrightarrow> name = ''offers''"
| "handler_matches UserHandler name \<longleftrightarrow> name = ''users''"
| "handler_matches TransactionHandler name \<longleftrightarrow> name = ''transactions''"

definition handlers :: "handler list" where
  "handlers = [OfferHandler, UserHandler, TransactionHandler]"

text \<open>\<open>options.topics\<close>, the canonical names with the names on the cluster, in the order of the object.\<close>

fun join :: "string \<Rightarrow> string list \<Rightarrow> string" where
  "join sep [] = []"
| "join sep [s] = s"
| "join sep (s # ss) = s @ sep @ join sep ss"

type_synonym topics = "(string \<times> string) list"

definition getCanonicalTopicNames :: "topics \<Rightarrow> string list" where
  "getCanonicalTopicNames topics = map fst topics"

definition getTopicsToStream :: "topics \<Rightarrow> string list" where
  "getTopicsToStream topics =
     filter (\<lambda>topic. topic = ''offers'' \<or> topic = ''users'' \<or> topic = ''transactions'') (getCanonicalTopicNames topics)"

definition getResolvedTopicNames :: "topics \<Rightarrow> string list" where
  "getResolvedTopicNames topics = map snd topics"

definition getResolvedTopicName :: "topics \<Rightarrow> string \<Rightarrow> exn + string" where
  "getResolvedTopicName topics canonicalTopicName =
     (case map_of topics canonicalTopicName of
        None \<Rightarrow> Inl (JsError (''Could not resolve topic named \"'' @ canonicalTopicName @ '' (available: '' @
          join '','' (getResolvedTopicNames topics) @ '')''))
      | Some name \<Rightarrow> Inr name)"

record consumer =
  cs_topic :: string
  cs_eventHandler :: "handler option"

definition new_Consumer :: "topics \<Rightarrow> string \<Rightarrow> exn + consumer" where
  "new_Consumer topics topic =
     (case getResolvedTopicName topics topic of
        Inl e \<Rightarrow> Inl e
      | Inr name \<Rightarrow> Inr \<lparr>cs_topic = name, cs_eventHandler = List.find (\<lambda>h. handler_matches h topic) handlers\<rparr>)"

text \<open>The handler of the stream that \<open>start\<close> subscribes to.\<close>

definition Consumer_start :: "consumer \<Rightarrow> exn + handler" where
  "Consumer_start c =
     (case cs_eventHandler c of
        None \<Rightarrow> Inl (JsError ''Can't find event handler for topic'')
      | Some h \<Rightarrow> Inr h)"

section \<open>Rows that come with their key\<close>

context table begin

lemma upsert_natural:
  assumes "orm_merges key fill (orm_of R L)" and "reliable_orm v (\<lambda>_. True) (orm_of R L)"
    and "deserialize_with R L (serialize_with R x) = Inr x"
  obtains w' rs where "upsert R L x w = (Inr x, w')" and "store w' = put_rows R rs (store w)"
    and "mset rs = add_mset (fill (row_before key (serialize_with R x) (rows_of R (store w))) (serialize_with R x))
      (mset (filter (\<lambda>r. key r \<noteq> key (serialize_with R x)) (rows_of R (store w))))"
proof -
  obtain r' rs where q: "orm_save (orm_of R L) (calls w) (serialize_with R x) (rows_of R (store w)) = Inr (r', rs)"
    using reliable_save [OF assms(2)] by blast
  with assms(1) have "r' = serialize_with R x" and "mset rs =
      add_mset (fill (row_before key (serialize_with R x) (rows_of R (store w))) (serialize_with R x))
        (mset (filter (\<lambda>r. key r \<noteq> key (serialize_with R x)) (rows_of R (store w))))"
    unfolding orm_merges_def by blast+
  with q assms(3) show thesis
    by (intro that [of "(tick w)\<lparr>store := put_rows R rs (store w)\<rparr>" rs])
      (simp_all add: upsert_def insertRecord_def execute_def io_simps)
qed

text \<open>What is written twice is there once.\<close>

lemma row_before_only:
  assumes "set rs = Set.insert q {r \<in> A. key r \<noteq> key r0}" and "key q = key r0"
  shows "row_before key r0 rs = Some q"
proof (cases "row_before key r0 rs")
  case None
  with assms show ?thesis by (auto simp: row_before_def find_None_iff)
next
  case (Some p)
  then have "p \<in> set rs" "key p = key r0" by (auto simp: row_before_def find_Some_iff)
  with assms Some show ?thesis by auto
qed

lemma upsert_natural_twice:
  assumes "orm_merges key fill (orm_of R L)" and "\<And>q r. key (fill q r) = key r"
    and "\<And>q r. fill (Some (fill q r)) r = fill q r" and "reliable_orm v (\<lambda>_. True) (orm_of R L)"
    and "deserialize_with R L (serialize_with R x) = Inr x"
    and "upsert R L x w = (r, w1)" and "upsert R L x w1 = (r', w2)"
  shows "mset (rows_of R (store w2)) = mset (rows_of R (store w1))"
proof -
  let ?s = "serialize_with R x"
  let ?p = "\<lambda>r. key r \<noteq> key ?s" and ?b = "\<lambda>w. row_before key ?s (rows_of R (store w))"
  obtain w1' rs where 1: "upsert R L x w = (Inr x, w1')" "store w1' = put_rows R rs (store w)"
    "mset rs = add_mset (fill (?b w) ?s) (mset (filter ?p (rows_of R (store w))))"
    by (rule upsert_natural [OF assms(1,4,5), of w])
  obtain w2' rs' where 2: "upsert R L x w1 = (Inr x, w2')" "store w2' = put_rows R rs' (store w1)"
    "mset rs' = add_mset (fill (?b w1) ?s) (mset (filter ?p (rows_of R (store w1))))"
    by (rule upsert_natural [OF assms(1,4,5), of w1])
  have w: "w1' = w1" "w2' = w2" using 1(1) 2(1) assms(6,7) by simp_all
  have rows: "rows_of R (store w1) = rs" "rows_of R (store w2) = rs'" using 1(2) 2(2) by (simp_all add: w rows_put)
  have "set rs = Set.insert (fill (?b w) ?s) {r \<in> set (rows_of R (store w)). key r \<noteq> key ?s}"
    using arg_cong [OF 1(3), of set_mset] by simp
  then have "?b w1 = Some (fill (?b w) ?s)" unfolding rows by (rule row_before_only) (simp add: assms(2))
  moreover have "mset (filter ?p rs) = mset (filter ?p (rows_of R (store w)))"
    using arg_cong [OF 1(3), of "filter_mset ?p"] by (simp add: filter_filter_mset assms(2))
  ultimately show ?thesis using 1(3) 2(3) by (simp add: rows assms(3))
qed

lemma find_natural:
  assumes "orm_reads (\<lambda>i r. key r = i) (orm_of R L)" and "reliable_orm (\<lambda>_. True) (\<lambda>_. True) (orm_of R L)"
    and "deserialize_with R L r = Inr y"
    and "mset (rows_of R (store w)) = add_mset r (mset (filter (\<lambda>q. key q \<noteq> key r) rs))"
  shows "find R L (key r) w = (Inr (Some y), tick w)"
proof -
  have rows: "set (rows_of R (store w)) = Set.insert r {q \<in> set rs. key q \<noteq> key r}"
    using arg_cong [OF assms(4), of set_mset] by simp
  obtain a where a: "orm_findOne (orm_of R L) (calls w) (key r) (rows_of R (store w)) = Inr a"
    using reliable_findOne [OF assms(2)] by blast
  have "a = Some r"
  proof (cases a)
    case None
    with orm_findOne_None [OF assms(1) a [unfolded None], of r] rows show ?thesis by simp
  next
    case (Some q)
    with orm_findOne_Some [OF assms(1)] a rows show ?thesis by auto
  qed
  with a assms(3) show ?thesis by (simp add: find_cases)
qed

end

lemma user_exact: "UserSerializer_deserialize L (UserSerializer_serialize x) = Inr x"
  by (rule user_serializer.roundtrip) simp

lemma criteria_exact: "RebateCriteriaSerializer_deserialize L (RebateCriteriaSerializer_serialize x) = Inr x"
  by (rule criteria_serializer.roundtrip) simp

section \<open>Messages delivered again\<close>

definition twice :: "'a action \<Rightarrow> world \<Rightarrow> world" where
  "twice m w = state_of m (state_of m w)"

lemma twice_same: "(\<And>w. state_of m w = w) \<Longrightarrow> twice m w = state_of m w"
  by (simp add: twice_def)

lemma io_bind_lift [simp]: "io_bind (io_lift (Inr x)) k = k x" "io_bind (io_lift (Inl e)) k = io_throw e"
  by (simp_all add: fun_eq_iff io_bind_apply)

definition store_document :: "('r, 'm, 'p) repository \<Rightarrow> ext \<Rightarrow> exn + 'm \<Rightarrow> 'm option action" where
  "store_document R L s =
     io_bind (io_lift s) (\<lambda>x. io_bind (upsert R L x) (\<lambda>record. io_return (Some record)))"

lemma store_document_state:
  "store_document R L (Inl e) = io_throw e"
  "state_of (store_document R L (Inr x)) w = state_of (upsert R L x) w"
  by (auto simp: store_document_def io_bind_apply split: prod.split sum.split)

lemma store_document_twice:
  assumes "\<And>x w r w1 r' w2. upsert R L x w = (r, w1) \<Longrightarrow> upsert R L x w1 = (r', w2) \<Longrightarrow>
      mset (rows_of R (store w2)) = mset (rows_of R (store w1))"
  shows "mset (rows_of R (store (twice (store_document R L s) w))) = mset (rows_of R (store (state_of (store_document R L s) w)))"
  by (cases s) (simp_all add: twice_def store_document_state assms [OF surjective_pairing surjective_pairing])

lemma handlers_store:
  "UserHandler_process L m = (case document m of Some x \<Rightarrow> if ku_isAnonymous x then io_return None
     else store_document UserRepository L (KafkaUserSerializer_serialize x) | None \<Rightarrow> io_return None)"
  "OfferHandler_process L n = (case document n of Some x \<Rightarrow> if ko_isRedeemable x \<and> ko_wasActive x
     then store_document RebateCriteriaRepository L (KafkaOfferSerializer_serialize L x) else io_return None
     | None \<Rightarrow> io_return None)"
  "TransactionHandler_process L t = (case document t of Some x \<Rightarrow>
     store_document TransactionForRebateCriteriaRepository L (KafkaTransactionSerializer_serialize L x) | None \<Rightarrow> io_return None)"
  by (auto simp: UserHandler_process_def OfferHandler_process_def TransactionHandler_process_def store_document_def
      split: option.split)

lemma user_twice:
  assumes "ext_ok L" and "reliable L"
  shows "mset (users (store (twice (UserHandler_process L m) w))) = mset (users (store (state_of (UserHandler_process L m) w)))"
proof -
  have up: "mset (rows_of UserRepository (store w2)) = mset (rows_of UserRepository (store w1))"
    if "upsert UserRepository L x w = (r, w1)" "upsert UserRepository L x w1 = (r', w2)" for x w r w1 r' w2
    by (rule user_table.upsert_natural_twice [where key = ur_id and fill = "\<lambda>_ r. r", OF _ _ _ _ _ that])
      (use natural_merges [THEN iffD1, OF users_saves [OF assms(1)]] reliable_users [OF assms(2)] user_exact in \<open>simp_all add: UserRepository_def\<close>)
  have "rows_of UserRepository d = users d" for d by (simp add: UserRepository_def)
  with store_document_twice [where R = UserRepository and L = L, OF up] show ?thesis
    by (cases "document m") (simp_all add: handlers_store twice_same)
qed

lemma offer_twice:
  assumes "ext_ok L" and "reliable L"
  shows "mset (rebate_criteria (store (twice (OfferHandler_process L m) w))) =
    mset (rebate_criteria (store (state_of (OfferHandler_process L m) w)))"
proof -
  let ?R = RebateCriteriaRepository
  have up: "mset (rows_of ?R (store w2)) = mset (rows_of ?R (store w1))"
    if "upsert ?R L x w = (r, w1)" "upsert ?R L x w1 = (r', w2)" for x w r w1 r' w2
    by (rule criteria_table.upsert_natural_twice [where key = cr_id and fill = criteria_columns, OF _ _ _ _ _ that])
      (use criteria_saves [OF assms(1)] reliable_criteria [OF assms(2)] criteria_exact in \<open>simp_all add: RebateCriteriaRepository_def\<close>)
  have "rows_of ?R d = rebate_criteria d" for d by (simp add: RebateCriteriaRepository_def)
  with store_document_twice [where R = ?R and L = L, OF up] show ?thesis
    by (cases "document m") (simp_all add: handlers_store twice_same)
qed

text \<open>
  C28.  An offer or a user that Kafka delivers again changes nothing: after the second delivery the table
  holds what it held after the first.
\<close>

theorem redelivery_changes_nothing:
  assumes "ext_ok L" and "reliable L"
  shows "mset (rebate_criteria (store (twice (OfferHandler_process L offer) w))) =
      mset (rebate_criteria (store (state_of (OfferHandler_process L offer) w))) \<and>
    mset (users (store (twice (UserHandler_process L user) w))) =
      mset (users (store (state_of (UserHandler_process L user) w)))"
  using offer_twice [OF assms] user_twice [OF assms] by blast

definition sample_offer_document :: IOfferDocument where
  "sample_offer_document =
     \<lparr>ko_id = ''100'', ko_isRedeemable = True, ko_wasActive = True, ko_benefitToCustomer = DollarsOff,
       ko_rebateAmount = Num 5, ko_refundPeriod = 30, ko_validFromDate = 0, ko_validToDate = 86400000,
       ko_merchantId = ''77'', ko_requiresLinkToProfile = False, ko_isTargeted = False, ko_redemptionLimit = 1,
       ko_redemptionLimitType = ''Overall'', ko_numOfDaysToWatchAndMatch = 10, ko_products = [],
       ko_redemptionBasedOn = ClientBased\<rparr>"

definition sample_user_document :: IUserData where
  "sample_user_document =
     \<lparr>ku_id = ''user1'', ku_linkedOfferIds = [], ku_targetedOfferIds = [], ku_optInFileOffers = [], ku_enrolled = True,
       ku_eligibility = Some False, ku_creditCardProducts = [], ku_ddaProducts = [], ku_isAnonymous = False\<rparr>"

lemma redelivery_changes_nothing_witness:
  "mset (rebate_criteria (store (twice (OfferHandler_process ref_ext (Some (Some sample_offer_document))) sample_world))) =
      mset (rebate_criteria (store (state_of (OfferHandler_process ref_ext (Some (Some sample_offer_document))) sample_world))) \<and>
    mset (users (store (twice (UserHandler_process ref_ext (Some (Some sample_user_document))) sample_world))) =
      mset (users (store (state_of (UserHandler_process ref_ext (Some (Some sample_user_document))) sample_world)))"
  by (rule redelivery_changes_nothing [OF ref_ext_ok ref_reliable])

section \<open>An offer reads back\<close>

text \<open>The offer as it reads back from the row it leaves: a limit type that the message does not know is the one of before.\<close>

definition stored_criteria :: "db \<Rightarrow> IRebateCriteria \<Rightarrow> IRebateCriteria" where
  "stored_criteria d c = (let before = List.find (\<lambda>r. cr_id r = rc_id c) (rebate_criteria d) in
     c\<lparr>rc_redemptionLimitType :=
         saved_column (map_option cr_redemption_limit_type before) (rc_redemptionLimitType c),
       rc_eligibleProducts := saved_column (map_option cr_eligible_products before) (rc_eligibleProducts c)\<rparr>)"

lemma stored_criteria_row:
  "row_before cr_id (RebateCriteriaSerializer_serialize c) (rebate_criteria d) =
     List.find (\<lambda>r. cr_id r = rc_id c) (rebate_criteria d)"
  "criteria_columns (List.find (\<lambda>r. cr_id r = rc_id c) (rebate_criteria d)) (RebateCriteriaSerializer_serialize c) =
     RebateCriteriaSerializer_serialize (stored_criteria d c)"
  "rc_id (stored_criteria d c) = rc_id c"
  by (simp_all add: row_before_def stored_criteria_def criteria_columns_def RebateCriteriaSerializer_serialize_def Let_def)

text \<open>An offer is written and found again.\<close>

lemma upsert_criteria:
  assumes "ext_ok L" and "reliable L"
  obtains w' where "upsert RebateCriteriaRepository L c w = (Inr c, w')"
    and "find RebateCriteriaRepository L (rc_id c) w' = (Inr (Some (stored_criteria (store w) c)), tick w')"
    and "mset (rebate_criteria (store w')) =
      add_mset (RebateCriteriaSerializer_serialize (stored_criteria (store w) c))
        (mset (filter (\<lambda>r. cr_id r \<noteq> rc_id c) (rebate_criteria (store w))))"
proof -
  let ?R = RebateCriteriaRepository and ?c = "stored_criteria (store w) c"
  let ?r = "RebateCriteriaSerializer_serialize ?c"
  have id: "cr_id (RebateCriteriaSerializer_serialize x) = rc_id x" for x
    by (simp add: RebateCriteriaSerializer_serialize_def)
  have orm: "orm_merges cr_id criteria_columns (orm_of ?R L)" "reliable_orm (\<lambda>_. True) (\<lambda>_. True) (orm_of ?R L)"
    "orm_reads (\<lambda>i r. cr_id r = i) (orm_of ?R L)"
    using criteria_saves [OF assms(1)] reliable_criteria [OF assms(2)] criteria_reads [OF assms(1)]
    by (simp_all add: RebateCriteriaRepository_def)
  have exact: "deserialize_with ?R L (serialize_with ?R c) = Inr c" by (simp add: RebateCriteriaRepository_def criteria_exact)
  obtain w' rs where u: "upsert ?R L c w = (Inr c, w')" "store w' = put_rows ?R rs (store w)"
    "mset rs = add_mset (criteria_columns (row_before cr_id (serialize_with ?R c) (rows_of ?R (store w))) (serialize_with ?R c))
      (mset (filter (\<lambda>r. cr_id r \<noteq> cr_id (serialize_with ?R c)) (rows_of ?R (store w))))"
    by (rule criteria_table.upsert_natural [OF orm(1,2) exact, of w])
  have "rows_of ?R (store w') = rs" using u(2) by (simp add: criteria_table.rows_put)
  with u(3) have rows: "mset (rebate_criteria (store w')) =
      add_mset ?r (mset (filter (\<lambda>r. cr_id r \<noteq> rc_id c) (rebate_criteria (store w))))"
    by (simp add: RebateCriteriaRepository_def stored_criteria_row id)
  have "find ?R L (cr_id ?r) w' = (Inr (Some ?c), tick w')"
    by (rule criteria_table.find_natural [OF orm(3,2)])
      (use rows in \<open>simp_all add: RebateCriteriaRepository_def criteria_exact id stored_criteria_row\<close>)
  with u(1) rows show thesis by (intro that) (simp_all add: id stored_criteria_row)
qed

text \<open>
  C27.  An offer that is redeemable and was active, once its message is taken in, is found in the database
  under its identifier as it was read from the message, whatever was stored under it before, but for one column:
  when the limit type of the message is neither \<open>Overall\<close> nor \<open>Per RBC Card\<close>, the save leaves its column out,
  so that the offer keeps the limit type that was stored before, and has none when it is new.  The
  other offers are untouched.
\<close>

theorem offer_message_reads_back:
  assumes "ext_ok L" and "reliable L" and "ko_isRedeemable x" and "ko_wasActive x"
    and "KafkaOfferSerializer_serialize L x = Inr c"
  shows "\<exists>w'. OfferHandler_process L (Some (Some x)) w = (Inr (Some c), w') \<and>
    find RebateCriteriaRepository L (ko_id x) w' =
      (Inr (Some (if ko_redemptionLimitType x \<in> {''Overall'', ''Per RBC Card''} then c
         else c\<lparr>rc_redemptionLimitType :=
           (case List.find (\<lambda>r. cr_id r = ko_id x) (rebate_criteria (store w)) of
              None \<Rightarrow> Null | Some r \<Rightarrow> cr_redemption_limit_type r)\<rparr>)), tick w') \<and>
    mset (filter (\<lambda>r. cr_id r \<noteq> ko_id x) (rebate_criteria (store w'))) =
      mset (filter (\<lambda>r. cr_id r \<noteq> ko_id x) (rebate_criteria (store w)))"
proof -
  have c: "rc_id c = ko_id x" "rc_redemptionLimitType c = REDEMPTION_LIMIT_TYPE (ko_redemptionLimitType x)"
    "rc_eligibleProducts c = Value (ko_products x)"
    using assms(5) by (auto simp: KafkaOfferSerializer_serialize_def split: sum.splits)
  obtain w' where u: "upsert RebateCriteriaRepository L c w = (Inr c, w')"
    "find RebateCriteriaRepository L (rc_id c) w' = (Inr (Some (stored_criteria (store w) c)), tick w')"
    "mset (rebate_criteria (store w')) = add_mset (RebateCriteriaSerializer_serialize (stored_criteria (store w) c))
      (mset (filter (\<lambda>r. cr_id r \<noteq> rc_id c) (rebate_criteria (store w))))"
    by (rule upsert_criteria [OF assms(1,2)])
  have "stored_criteria (store w) c = (if ko_redemptionLimitType x \<in> {''Overall'', ''Per RBC Card''} then c
      else c\<lparr>rc_redemptionLimitType := (case List.find (\<lambda>r. cr_id r = ko_id x) (rebate_criteria (store w)) of
        None \<Rightarrow> Null | Some r \<Rightarrow> cr_redemption_limit_type r)\<rparr>)"
    using c by (cases c) (auto simp: stored_criteria_def saved_column_def REDEMPTION_LIMIT_TYPE_def Let_def split: option.split)
  moreover have "cr_id (RebateCriteriaSerializer_serialize (stored_criteria (store w) c)) = ko_id x"
    using c(1) stored_criteria_row(3) [of "store w" c] by (simp add: RebateCriteriaSerializer_serialize_def)
  then have "mset (filter (\<lambda>r. cr_id r \<noteq> ko_id x) (rebate_criteria (store w'))) =
      mset (filter (\<lambda>r. cr_id r \<noteq> ko_id x) (rebate_criteria (store w)))"
    using arg_cong [OF u(3), of "filter_mset (\<lambda>r. cr_id r \<noteq> ko_id x)"] c(1) by (simp add: filter_filter_mset)
  moreover have "OfferHandler_process L (Some (Some x)) w = (Inr (Some c), w')"
    using u(1) assms(3-5) by (simp add: handlers_store document_def store_document_def io_bind_apply)
  ultimately show ?thesis using u(2) c(1) by (intro exI [of _ w']) simp
qed

lemma sample_offer_serialized: "\<exists>c. KafkaOfferSerializer_serialize ref_ext sample_offer_document = Inr c"
proof -
  let ?t = "\<lparr>rebateAmount = rebate_amount_text ref_ext (Num 5), benefitToCustomer = DollarsOff\<rparr>"
  have "rebate_amount_text ref_ext (Num 5) = show_int 5" by (simp add: rebate_amount_text_def number_toString_def)
  then have b: "big_new ref_ext (rebateAmount ?t) = Inr 5" by (simp add: ref_ext_def)
  obtain s where "RewardCalculationInterpretation_from ref_ext ?t =
      Inr \<lparr>operand = s, operation = terms_operation ?t, reward_unit = terms_unit ?t\<rparr>"
    by (rule interpretation_operand [OF ref_big_laws b])
  then show ?thesis by (simp add: KafkaOfferSerializer_serialize_def sample_offer_document_def)
qed

lemma offer_message_reads_back_witness:
  "\<exists>c w'. OfferHandler_process ref_ext (Some (Some sample_offer_document)) sample_world = (Inr (Some c), w') \<and>
    find RebateCriteriaRepository ref_ext ''100'' w' = (Inr (Some c), tick w')"
proof -
  obtain c where "KafkaOfferSerializer_serialize ref_ext sample_offer_document = Inr c"
    using sample_offer_serialized by blast
  from offer_message_reads_back [OF ref_ext_ok ref_reliable _ _ this, of sample_world] obtain w' where
    "OfferHandler_process ref_ext (Some (Some sample_offer_document)) sample_world = (Inr (Some c), w')"
    and "find RebateCriteriaRepository ref_ext ''100'' w' = (Inr (Some c), tick w')"
    by (auto simp: sample_offer_document_def)
  then show ?thesis by blast
qed

section \<open>Transactions\<close>

text \<open>
  Every delivery of a transaction whose values the columns take adds one row: a pending transaction with a new number, without a
  worker and without a report, that reads back as the document says; the other rows and tables are
  untouched.  A second delivery of the same message adds a second one.
\<close>

theorem transaction_message_adds_a_row:
  assumes "ext_ok L" and "reliable L" and "KafkaTransactionSerializer_serialize L x = Inr y"
    and "transaction_accepted L (TransactionForRebateCriteriaSerializer_serialize y)"
  shows "\<exists>k w'. TransactionHandler_process L (Some (Some x)) w = (Inr (Some (y\<lparr>tx_id := Some k\<rparr>)), w') \<and>
    (\<forall>r\<in>set (transactions (store w)). tr_id r \<noteq> Some k) \<and>
    mset (transactions (store w')) = add_mset
      (transaction_columns L (TransactionForRebateCriteriaSerializer_serialize (y\<lparr>tx_id := Some k\<rparr>)))
      (mset (transactions (store w))) \<and>
    store w' = (store w)\<lparr>transactions := transactions (store w')\<rparr> \<and>
    tx_processedAt y = None \<and> tx_status y = Pending \<and> tx_processorId y = None \<and> \<not> tx_refundReportCreated y"
proof -
  let ?T = TransactionForRebateCriteriaRepository and ?s = TransactionForRebateCriteriaSerializer_serialize
  have y: "tx_id y = None" "tx_processedAt y = None" "tx_status y = Pending" "tx_processorId y = None"
    "\<not> tx_refundReportCreated y"
    using assms(3) by (auto simp: KafkaTransactionSerializer_serialize_def split: nullable.splits)
  have key: "(?s y)\<lparr>tr_id := Some k\<rparr> = ?s (y\<lparr>tx_id := Some k\<rparr>)" for k
    by (simp add: TransactionForRebateCriteriaSerializer_serialize_def)
  have exact: "TransactionForRebateCriteriaSerializer_deserialize L (?s z) = Inr z" for z
    by (rule transaction_serializer.roundtrip) simp
  have saves: "orm_saves_serial tr_id (\<lambda>k r. r\<lparr>tr_id := Some k\<rparr>) (transaction_columns L) (orm_of ?T L)"
    and rel: "reliable_orm (\<lambda>i. int_key i \<noteq> None) (transaction_accepted L) (orm_of ?T L)" and none: "tr_id (serialize_with ?T y) = None"
    and reads: "\<And>k. \<exists>z. deserialize_with ?T L ((serialize_with ?T y)\<lparr>tr_id := Some k\<rparr>) = Inr z"
    using transactions_saves [OF assms(1)] reliable_transactions [OF assms(2)] y(1) exact
    by (simp_all add: TransactionForRebateCriteriaRepository_def key)
      (simp add: TransactionForRebateCriteriaSerializer_serialize_def)
  obtain k z w' rs where i: "insert ?T L y w = (Inr z, w')" "store w' = put_rows ?T rs (store w)"
    "mset rs = add_mset (transaction_columns L ((serialize_with ?T y)\<lparr>tr_id := Some k\<rparr>)) (mset (rows_of ?T (store w)))"
    "\<forall>r\<in>set (rows_of ?T (store w)). tr_id r \<noteq> Some k"
    "deserialize_with ?T L ((serialize_with ?T y)\<lparr>tr_id := Some k\<rparr>) = Inr z"
    by (rule transaction_table.insert_reliable [OF saves rel _ none reads])
      (use assms(4) in \<open>simp add: TransactionForRebateCriteriaRepository_def\<close>)
  have z: "z = y\<lparr>tx_id := Some k\<rparr>" using i(5) by (simp add: TransactionForRebateCriteriaRepository_def key exact)
  have "upsert ?T L y = insert ?T L y" by (simp add: upsert_def insert_def)
  then have "TransactionHandler_process L (Some (Some x)) w = (Inr (Some (y\<lparr>tx_id := Some k\<rparr>)), w')"
    using i(1) assms(3) z by (simp add: handlers_store document_def store_document_def io_bind_apply)
  with i(2-4) y show ?thesis
    by (intro exI [of _ k] exI [of _ w']) (simp add: TransactionForRebateCriteriaRepository_def key)
qed

definition sample_transaction_document :: ITransactionDocument where
  "sample_transaction_document =
     \<lparr>kt_transactionId = ''t9'', kt_accountId = ''acc1'', kt_userId = ''user1'', kt_offerId = ''100'',
       kt_rebateId = Undefined, kt_amount = Value (Num 20), kt_type = Qualifying, kt_card = ''4510'',
       kt_basePoints = Undefined, kt_cardType = Value ''credit'', kt_transactionDate = 0, kt_currency = ''CAD'',
       kt_postalCode = None, kt_productCode = ''VISA'', kt_isManual = False, kt_customerId = ''c1''\<rparr>"

lemma transaction_message_adds_a_row_witness:
  "\<exists>y k w'. TransactionHandler_process ref_ext (Some (Some sample_transaction_document)) sample_world =
      (Inr (Some y), w') \<and> tx_id y = Some k \<and> tx_status y = Pending \<and> tx_rebateId y = Some ''NaN'' \<and>
    length (transactions (store w')) = 2"
proof -
  obtain y where y: "KafkaTransactionSerializer_serialize ref_ext sample_transaction_document = Inr y"
    and n: "tx_rebateId y = Some ''NaN''"
    by (simp add: KafkaTransactionSerializer_serialize_def sample_transaction_document_def Number_nullable_def)
  have "round_half_up 2 20 = 20" by code_simp
  then have "transaction_accepted ref_ext (TransactionForRebateCriteriaSerializer_serialize y)"
    using y by (auto simp: ref_accepted_eq ref_accepted_def KafkaTransactionSerializer_serialize_def
        TransactionForRebateCriteriaSerializer_serialize_def sample_transaction_document_def number_toString_def
        ref_numeric18_2_in_def ref_timestamptz_in_def ref_text_in_def Number_nullable_def)
  from transaction_message_adds_a_row [OF ref_ext_ok ref_reliable y this, of sample_world] obtain k w' where
    t: "TransactionHandler_process ref_ext (Some (Some sample_transaction_document)) sample_world =
      (Inr (Some (y\<lparr>tx_id := Some k\<rparr>)), w')" "tx_status y = Pending"
    and m: "mset (transactions (store w')) = add_mset
      (transaction_columns ref_ext (TransactionForRebateCriteriaSerializer_serialize (y\<lparr>tx_id := Some k\<rparr>)))
      (mset (transactions (store sample_world)))" by auto
  have "length (transactions (store w')) = 2"
    using arg_cong [OF m, of size] by (simp add: sample_world_def sample_db_def)
  with t n show ?thesis by (intro exI [of _ "y\<lparr>tx_id := Some k\<rparr>"] exI [of _ k] exI [of _ w']) simp
qed

end
