(* ===== verification/Import.thy ===== *)
theory Import
  imports Sftp Reliable Triples Reference
begin

text \<open>
  The import of transactions from a file of the credit card partner (\<open>app/transaction_import\<close>): a CSV text,
  an archive that holds one, or an archive on the SFTP server.  An import is recorded with its start, its end
  and its outcome.  The CSV parser, the unzipper and the file system are parameters.
\<close>

section \<open>The lines\<close>

text \<open>
  The columns that are only copied are texts; the others may be missing in a short line.
\<close>

record ITransactionImport =
  im_client_id :: string
  im_offer_id :: string
  im_transaction_id :: string
  im_type :: "string nullable"
  im_card :: string
  im_amount :: "string nullable"
  im_base_points :: "string nullable"
  im_rebate_id :: string
  im_card_type :: "string nullable"
  im_transaction_date :: "string nullable"
  im_transaction_currency :: string
  im_account_id :: string
  im_transaction_postal_code :: string
  im_product_code_external :: string
  im_is_manual :: "string nullable"

record import_ext =
  papa_parse :: "string \<Rightarrow> ITransactionImport list"
  read_date :: "string nullable \<Rightarrow> date option"      \<comment> \<open>\<open>new Date(s)\<close>; \<open>None\<close> for an invalid date\<close>
  fs_stat :: "nat \<Rightarrow> string \<Rightarrow> exn + unit"
  fs_unzip :: "nat \<Rightarrow> string \<Rightarrow> string \<Rightarrow> exn + unit"
  fs_chmod :: "nat \<Rightarrow> string \<Rightarrow> exn + unit"
  fs_read :: "nat \<Rightarrow> string \<Rightarrow> exn + string"
  sftp_get :: "nat \<Rightarrow> string \<Rightarrow> string \<Rightarrow> exn + unit"  \<comment> \<open>the remote file, piped to the local one\<close>

definition TRANSACTION_TYPE_NUMBERS :: "string nullable \<Rightarrow> TransactionType" where
  "TRANSACTION_TYPE_NUMBERS s =
     (if s = Value ''1'' then Qualifying else if s = Value ''2'' then Fulfillment
      else if s = Value ''3'' then Refund else OtherTransactionType Undefined)"

definition IMPORT_CARD_TYPE_NUMBERS :: "string nullable \<Rightarrow> CardType" where
  "IMPORT_CARD_TYPE_NUMBERS s =
     (if s = Value ''1'' then CreditCard else if s = Value ''2'' then CheckingAccount
      else OtherCardType Undefined)"

text \<open>
  The transaction of a line, with whether it has a date and base points at all: an invalid date and base points
  that are not a whole number are only found out by the database, as are values its columns do not take.  A text is true unless it is empty.  The customer identifier, which
  the object leaves out, is the empty text, as nothing tells the two apart; the report flag takes its column's default.
\<close>

type_synonym entry = "ITransactionForRebateCriteria \<times> bool"

definition whole_number :: "js_number \<Rightarrow> int option" where
  "whole_number x = (case x of NaN \<Rightarrow> None | Num q \<Rightarrow> if of_int \<lfloor>q\<rfloor> = q then Some \<lfloor>q\<rfloor> else None)"

definition parseEntry :: "import_ext \<Rightarrow> ITransactionImport \<Rightarrow> exn + entry" where
  "parseEntry X d =
     (case im_amount d of
        Value amount \<Rightarrow>
          (let t = read_date X (im_transaction_date d); b = whole_number (Number_nullable (im_base_points d)) in Inr
            (\<lparr>tx_id = None, tx_transactionId = im_transaction_id d, tx_accountId = im_account_id d,
               tx_userId = im_client_id d, tx_rebateCriteriaId = im_offer_id d, tx_rebateId = Some (im_rebate_id d),
               tx_amount = amount, tx_processedAt = None, tx_transactionType = TRANSACTION_TYPE_NUMBERS (im_type d),
               tx_status = Pending, tx_card = im_card d, tx_basePoints = (case b of None \<Rightarrow> 0 | Some n \<Rightarrow> n),
               tx_cardType = IMPORT_CARD_TYPE_NUMBERS (im_card_type d),
               tx_transactionDate = (case t of None \<Rightarrow> 0 | Some n \<Rightarrow> n),
               tx_transactionCurrency = im_transaction_currency d,
               tx_transactionPostalCode = Some (im_transaction_postal_code d),
               tx_productCodeExternal = im_product_code_external d,
               tx_isManual = (case im_is_manual d of Value s \<Rightarrow> s \<noteq> [] | _ \<Rightarrow> False),
               tx_tsysCustomerId = '''', tx_refundReportCreated = False, tx_processorId = None\<rparr>,
             t \<noteq> None \<and> b \<noteq> None))
      | _ \<Rightarrow> Inl TypeError)"

section \<open>A CSV text\<close>

text \<open>Whether the object has a logger: one given another object's logger for its options has none.\<close>

record CSVImportString =
  ci_csvString :: string
  ci_has_logger :: bool
  ci_transactions :: "entry list"

definition new_CSVImportString :: "string \<Rightarrow> bool \<Rightarrow> CSVImportString" where
  "new_CSVImportString csv has_logger = \<lparr>ci_csvString = csv, ci_has_logger = has_logger, ci_transactions = []\<rparr>"

definition parseCSV :: "import_ext \<Rightarrow> (CSVImportString, unit) object_action" where
  "parseCSV X =
     io_bind (field ci_csvString) (\<lambda>csv.
       io_for (papa_parse X csv) (\<lambda>d.
         io_bind (io_lift (parseEntry X d)) (\<lambda>parsedEntry.
           assign (\<lambda>self. self\<lparr>ci_transactions := ci_transactions self @ [parsedEntry]\<rparr>))))"

definition store_entries :: "ext \<Rightarrow> entry list \<Rightarrow> unit action" where
  "store_entries L es =
     (if list_all snd es
      then io_then (bulkInsert TransactionForRebateCriteriaRepository L (map fst es)) (io_return ())
      else request (\<lambda>_. Inl (DbError ''invalid value'')))"

definition importEntries :: "ext \<Rightarrow> (CSVImportString, unit) object_action" where
  "importEntries L =
     io_bind (field ci_transactions) (\<lambda>es.
       io_try (outside (store_entries L es))
         (\<lambda>e. io_bind (field ci_has_logger) (\<lambda>b. if b then io_throw e else io_throw TypeError)))"

definition CSVImportString_perform :: "ext \<Rightarrow> import_ext \<Rightarrow> (CSVImportString, unit) object_action" where
  "CSVImportString_perform L X = io_then (parseCSV X) (importEntries L)"

section \<open>An archive\<close>

record WatchAndMatchImportZipFile =
  wz_filePath :: string
  wz_destinationDir :: string
  wz_csvImportString :: "CSVImportString option"

definition new_WatchAndMatchImportZipFile :: "string \<Rightarrow> string \<Rightarrow> WatchAndMatchImportZipFile" where
  "new_WatchAndMatchImportZipFile filePath dir =
     \<lparr>wz_filePath = filePath, wz_destinationDir = dir, wz_csvImportString = None\<rparr>"

definition wz_destinationPath :: "WatchAndMatchImportZipFile \<Rightarrow> string" where
  "wz_destinationPath self = wz_destinationDir self @ ''/'' @ file_name (wz_filePath self) @ ''.csv''"

definition assertFileExists :: "import_ext \<Rightarrow> (WatchAndMatchImportZipFile, unit) object_action" where
  "assertFileExists X = io_bind (field wz_filePath) (\<lambda>p. outside (request (\<lambda>n. fs_stat X n p)))"

definition unzipCSVFile :: "import_ext \<Rightarrow> (WatchAndMatchImportZipFile, unit) object_action" where
  "unzipCSVFile X =
     io_bind (field wz_filePath) (\<lambda>p.
       io_bind (field wz_destinationPath) (\<lambda>q. outside (request (\<lambda>n. fs_unzip X n p q))))"

definition setPermissionsOnCSVFile :: "import_ext \<Rightarrow> (WatchAndMatchImportZipFile, unit) object_action" where
  "setPermissionsOnCSVFile X = io_bind (field wz_destinationPath) (\<lambda>q. outside (request (\<lambda>n. fs_chmod X n q)))"

text \<open>The object in the field, once it is there.\<close>

definition on_csv :: "(CSVImportString, unit) object_action \<Rightarrow> (WatchAndMatchImportZipFile, unit) object_action" where
  "on_csv m =
     io_bind (field wz_csvImportString) (\<lambda>c. case c of
         None \<Rightarrow> io_throw TypeError
       | Some csv \<Rightarrow> inside (\<lambda>_. csv) (\<lambda>c self. self\<lparr>wz_csvImportString := Some c\<rparr>) m)"

text \<open>\<open>new CSVImportString(csv, this.logger)\<close> takes the logger for the options, so the object has no logger.\<close>

definition importDataFromCSVFile :: "ext \<Rightarrow> import_ext \<Rightarrow> (WatchAndMatchImportZipFile, unit) object_action" where
  "importDataFromCSVFile L X =
     io_bind (field wz_destinationPath) (\<lambda>q.
     io_bind (outside (request (\<lambda>n. fs_read X n q))) (\<lambda>csv.
     io_then (assign (\<lambda>self. self\<lparr>wz_csvImportString := Some (new_CSVImportString csv False)\<rparr>))
       (on_csv (CSVImportString_perform L X))))"

definition WatchAndMatchImportZipFile_perform ::
  "ext \<Rightarrow> import_ext \<Rightarrow> (WatchAndMatchImportZipFile, unit) object_action" where
  "WatchAndMatchImportZipFile_perform L X =
     io_then (assertFileExists X)
       (io_then (unzipCSVFile X)
         (io_then (setPermissionsOnCSVFile X) (importDataFromCSVFile L X)))"

definition wz_transactions :: "WatchAndMatchImportZipFile \<Rightarrow> entry list" where
  "wz_transactions self = (case wz_csvImportString self of Some c \<Rightarrow> ci_transactions c | None \<Rightarrow> [])"

section \<open>An archive on the SFTP server\<close>

text \<open>\<open>try { m } finally { f }\<close>: an error of \<open>f\<close> replaces the outcome of \<open>m\<close>.\<close>

definition io_finally :: "('w, 'a) io \<Rightarrow> ('w, unit) io \<Rightarrow> ('w, 'a) io" where
  "io_finally m f = (\<lambda>w. case m w of (r, w1) \<Rightarrow> (case f w1 of (Inl e, w2) \<Rightarrow> (Inl e, w2) | (Inr _, w2) \<Rightarrow> (r, w2)))"

definition fetchFileFromFTP :: "import_ext \<Rightarrow> string \<Rightarrow> string \<Rightarrow> (RemoteSFTPClient, unit) object_action" where
  "fetchFileFromFTP X path localPath = outside (request (\<lambda>n. sftp_get X n path localPath))"

definition downloadFile :: "import_ext \<Rightarrow> string \<Rightarrow> string \<Rightarrow> (SFTPClient, unit) object_action" where
  "downloadFile X remotePath localPath = io_try (on_read (fetchFileFromFTP X remotePath localPath)) io_throw"

text \<open>The client of a run is a field.\<close>

record RemoteWatchAndMatchTransactions =
  rw_localFilePath :: string
  rw_remoteFilePath :: string
  rw_zipFile :: "WatchAndMatchImportZipFile option"
  rw_client :: SFTPClient

definition new_RemoteWatchAndMatchTransactions :: "ext \<Rightarrow> string \<Rightarrow> RemoteWatchAndMatchTransactions" where
  "new_RemoteWatchAndMatchTransactions L path =
     \<lparr>rw_localFilePath = tmpdir L @ ''/local-wmresult.zip'', rw_remoteFilePath = path, rw_zipFile = None,
       rw_client = new_SFTPClient\<rparr>"

definition on_client :: "(SFTPClient, 'a) object_action \<Rightarrow> (RemoteWatchAndMatchTransactions, 'a) object_action" where
  "on_client = inside rw_client (\<lambda>c self. self\<lparr>rw_client := c\<rparr>)"

definition on_zip ::
  "(WatchAndMatchImportZipFile, unit) object_action \<Rightarrow> (RemoteWatchAndMatchTransactions, unit) object_action" where
  "on_zip m =
     io_bind (field rw_zipFile) (\<lambda>z. case z of
         None \<Rightarrow> io_throw TypeError
       | Some file \<Rightarrow> inside (\<lambda>_. file) (\<lambda>z self. self\<lparr>rw_zipFile := Some z\<rparr>) m)"

definition download_and_import :: "ext \<Rightarrow> import_ext \<Rightarrow> (RemoteWatchAndMatchTransactions, unit) object_action" where
  "download_and_import L X =
     io_bind (field rw_localFilePath) (\<lambda>localFile.
     io_bind (field rw_remoteFilePath) (\<lambda>remoteFile.
     io_bind (on_client (fileExistsRemotely L remoteFile)) (\<lambda>fileDoesExist.
       if \<not> fileDoesExist then io_throw (JsError (''Couldn't find '' @ remoteFile))
       else io_then (on_client (downloadFile X remoteFile localFile))
         (io_then (assign (\<lambda>self. self\<lparr>rw_zipFile := Some (new_WatchAndMatchImportZipFile localFile (tmpdir L))\<rparr>))
           (on_zip (WatchAndMatchImportZipFile_perform L X))))))"

definition RemoteWatchAndMatchTransactions_perform ::
  "ext \<Rightarrow> import_ext \<Rightarrow> (RemoteWatchAndMatchTransactions, unit) object_action" where
  "RemoteWatchAndMatchTransactions_perform L X =
     io_then (assign (\<lambda>self. self\<lparr>rw_client := new_SFTPClient\<rparr>))
       (io_finally
         (io_then (on_client (SFTPClient_connect L))
           (io_then (on_client (SFTPClient_connect L)) (download_and_import L X)))
         (on_client (SFTPClient_disconnect L)))"

definition rw_transactions :: "RemoteWatchAndMatchTransactions \<Rightarrow> entry list" where
  "rw_transactions self = (case rw_zipFile self of Some z \<Rightarrow> wz_transactions z | None \<Rightarrow> [])"

section \<open>An import\<close>

record 's IImportSource =
  source_perform :: "('s, unit) object_action"
  source_transactions :: "'s \<Rightarrow> entry list"

definition csv_source :: "ext \<Rightarrow> import_ext \<Rightarrow> CSVImportString IImportSource" where
  "csv_source L X = \<lparr>source_perform = CSVImportString_perform L X, source_transactions = ci_transactions\<rparr>"

definition zip_source :: "ext \<Rightarrow> import_ext \<Rightarrow> WatchAndMatchImportZipFile IImportSource" where
  "zip_source L X = \<lparr>source_perform = WatchAndMatchImportZipFile_perform L X, source_transactions = wz_transactions\<rparr>"

definition remote_source :: "ext \<Rightarrow> import_ext \<Rightarrow> RemoteWatchAndMatchTransactions IImportSource" where
  "remote_source L X =
     \<lparr>source_perform = RemoteWatchAndMatchTransactions_perform L X, source_transactions = rw_transactions\<rparr>"

record 's TransactionImport =
  ti_source :: 's
  ti_details :: "ITransferDetails option"

definition import_start :: "ext \<Rightarrow> ('s TransactionImport, unit) object_action" where
  "import_start L =
     io_bind (outside (now L)) (\<lambda>t.
     io_bind (outside (insert TransactionImportDetailsRepository L
         \<lparr>td_id = None, td_startedAt = t, td_finishedAt = None, td_status = InProgress, td_numberOfItems = None\<rparr>))
       (\<lambda>details. assign (\<lambda>self. self\<lparr>ti_details := Some details\<rparr>)))"

definition import_finish :: "ext \<Rightarrow> 's IImportSource \<Rightarrow> TransferStatus \<Rightarrow> ('s TransactionImport, unit) object_action" where
  "import_finish L src status =
     io_bind (outside (now L)) (\<lambda>t.
     io_bind (field ti_details) (\<lambda>details. case details of
         None \<Rightarrow> io_throw TypeError
       | Some x \<Rightarrow> io_bind (field (\<lambda>self. length (source_transactions src (ti_source self)))) (\<lambda>n.
           outside (update TransactionImportDetailsRepository L (id_text (td_id x))
             [FinishedAt t, NumberOfItems n, TransferStatusOf status]))))"

definition perform_import :: "ext \<Rightarrow> 's IImportSource \<Rightarrow> ('s TransactionImport, unit) object_action" where
  "perform_import L src =
     io_then (import_start L)
       (io_try
         (io_then (inside ti_source (\<lambda>s self. self\<lparr>ti_source := s\<rparr>) (source_perform src))
           (import_finish L src Complete))
         (\<lambda>e. io_then (import_finish L src Failed) (io_throw e)))"

definition TransactionImport_perform :: "ext \<Rightarrow> 's IImportSource \<Rightarrow> 's \<Rightarrow> 's TransactionImport action" where
  "TransactionImport_perform L src s =
     with_new \<lparr>ti_source = s, ti_details = None\<rparr> (io_then (perform_import L src) (field (\<lambda>self. self)))"

end
