(* ===== verification/ImportSafety.thy ===== *)
theory ImportSafety
  imports Import
begin

text \<open>
  What an import does to the transactions, whatever requests fail: it stores every line of its file, or none.
  The locale \<open>import_source\<close> is the contract of a source, from which this follows for every source.
\<close>

section \<open>The rows\<close>

lemma save_all_rows:
  assumes "orm_saves_serial key with_key coerce D" and "\<And>k r. key (coerce (with_key k r)) = Some k"
  shows "\<forall>q\<in>set qs. key q = None \<Longrightarrow> save_all D n qs rs = Inr (qs', rs') \<Longrightarrow>
    \<exists>ks. length ks = length qs \<and> distinct ks \<and> (\<forall>k\<in>set ks. \<forall>r\<in>set rs. key r \<noteq> Some k) \<and>
      mset rs' = mset (map2 (\<lambda>k q. coerce (with_key k q)) ks qs) + mset rs"
proof (induction qs arbitrary: rs qs' rs')
  case Nil
  then show ?case by simp
next
  case (Cons q qs)
  from Cons.prems(2) obtain r rs1 qs1 where s: "orm_save D n q rs = Inr (r, rs1)"
    and t: "save_all D n qs rs1 = Inr (qs1, rs')"
  proof -
    obtain p where p: "orm_save D n q rs = Inr p" using Cons.prems(2) by (auto split: sum.splits)
    with Cons.prems(2) show thesis
      by (cases p; cases "save_all D n qs (snd p)") (auto intro: that)
  qed
  from orm_save_serial [OF assms(1) _ s] Cons.prems(1) obtain k where
    k: "r = with_key k q" "\<forall>x\<in>set rs. key x \<noteq> Some k" "mset rs1 = add_mset (coerce r) (mset rs)" by auto
  from Cons.IH [OF _ t] Cons.prems(1) obtain ks where ks: "length ks = length qs" "distinct ks"
    "\<forall>k\<in>set ks. \<forall>r\<in>set rs1. key r \<noteq> Some k"
    "mset rs' = mset (map2 (\<lambda>k q. coerce (with_key k q)) ks qs) + mset rs1" by auto
  have rs1: "set rs1 = Set.insert (coerce (with_key k q)) (set rs)" using arg_cong [OF k(3), of set_mset] k(1) by simp
  with ks(3) assms(2) have "k \<notin> set ks" by fastforce
  with ks k rs1 show ?case by (intro exI [of _ "k # ks"]) auto
qed

definition imported_row :: "ext \<Rightarrow> nat \<Rightarrow> ITransactionForRebateCriteria \<Rightarrow> TransactionForRebateCriteriaRecord" where
  "imported_row L k x = transaction_columns L (TransactionForRebateCriteriaSerializer_serialize (x\<lparr>tx_id := Some k\<rparr>))"

text \<open>The entries are in the table, each once, with numbers of their own; nothing else has changed.\<close>

definition imported :: "ext \<Rightarrow> entry list \<Rightarrow> db \<Rightarrow> db \<Rightarrow> bool" where
  "imported L es d d' \<longleftrightarrow>
     list_all snd es \<and>
     (\<exists>ks. length ks = length es \<and> distinct ks \<and> (\<forall>k\<in>set ks. \<forall>r\<in>set (transactions d). tr_id r \<noteq> Some k) \<and>
        mset (transactions d') = mset (map2 (\<lambda>k e. imported_row L k (fst e)) ks es) + mset (transactions d)) \<and>
     d'\<lparr>transactions := transactions d\<rparr> = d"

lemma entry_unnumbered: "parseEntry X d = Inr e \<Longrightarrow> tx_id (fst e) = None"
  by (auto simp: parseEntry_def Let_def split: nullable.splits)

lemma store_entries_cases:
  assumes "ext_ok L" and "\<forall>e\<in>set es. tx_id (fst e) = None" and "store_entries L es w = (r, w')"
  shows "(\<exists>e. r = Inl e) \<and> store w' = store w \<or> r = Inr () \<and> imported L es (store w) (store w')"
proof -
  let ?T = TransactionForRebateCriteriaRepository and ?s = TransactionForRebateCriteriaSerializer_serialize
  let ?qs = "map ?s (map fst es)"
  show ?thesis
  proof (cases "list_all snd es \<and> (\<exists>x. save_all (transactions_orm L) (calls w) ?qs (transactions (store w)) = Inr x)")
    case False
    with assms(3) show ?thesis
      by (cases "save_all (transactions_orm L) (calls w) ?qs (transactions (store w))")
        (auto simp: store_entries_def bulkInsert_def io_simps execute_def TransactionForRebateCriteriaRepository_def
          split: if_splits)
  next
    case True
    then obtain qs' rs where q: "save_all (transactions_orm L) (calls w) ?qs (transactions (store w)) = Inr (qs', rs)"
      by fastforce
    have "key_ok": "tr_id (transaction_columns L (r\<lparr>tr_id := Some k\<rparr>)) = Some k" for k r
      by (simp add: transaction_columns_def)
    have "\<forall>q\<in>set ?qs. tr_id q = None"
      using assms(2) by (simp add: TransactionForRebateCriteriaSerializer_serialize_def)
    from save_all_rows [OF transactions_saves [OF assms(1)] key_ok this q] obtain ks where
      ks: "length ks = length es" "distinct ks" "\<forall>k\<in>set ks. \<forall>r\<in>set (transactions (store w)). tr_id r \<noteq> Some k"
      and m: "mset rs = mset (map2 (\<lambda>k q. transaction_columns L (q\<lparr>tr_id := Some k\<rparr>)) ks ?qs) + mset (transactions (store w))"
      by auto
    have "(?s x)\<lparr>tr_id := Some k\<rparr> = ?s (x\<lparr>tx_id := Some k\<rparr>)" for k x
      by (simp add: TransactionForRebateCriteriaSerializer_serialize_def)
    then have "map2 (\<lambda>k q. transaction_columns L (q\<lparr>tr_id := Some k\<rparr>)) ks ?qs = map2 (\<lambda>k e. imported_row L k (fst e)) ks es"
      by (simp add: imported_row_def zip_map2 comp_def case_prod_unfold)
    from m [unfolded this] have "mset rs = mset (map2 (\<lambda>k e. imported_row L k (fst e)) ks es) + mset (transactions (store w))" .
    moreover have "r = Inr ()" and "store w' = (store w)\<lparr>transactions := rs\<rparr>"
      using assms(3) True q
      by (auto simp: store_entries_def bulkInsert_def io_simps execute_def TransactionForRebateCriteriaRepository_def)
    ultimately show ?thesis using ks True by (auto simp: imported_def)
  qed
qed

section \<open>The contract of a source\<close>

locale import_source =
  fixes L :: ext and src :: "'s IImportSource" and ready :: "'s \<Rightarrow> bool" and holds :: "'s \<Rightarrow> entry list \<Rightarrow> bool"
  assumes contract: "ready s \<Longrightarrow> source_perform src (s, w) = (r, (s', w')) \<Longrightarrow>
    (\<exists>e. r = Inl e) \<and> store w' = store w \<or>
    holds s (source_transactions src s') \<and> imported L (source_transactions src s') (store w) (store w')"

text \<open>The database without the records of imports.\<close>

definition without_records :: "db \<Rightarrow> db" where
  "without_records d = d\<lparr>import_details := []\<rparr>"

lemma without_records_commute: "(without_records d)\<lparr>transactions := ts\<rparr> = without_records (d\<lparr>transactions := ts\<rparr>)"
  by (simp add: without_records_def)

lemma imported_without_records:
  assumes "imported L es d d'"
  shows "imported L es (without_records d) (without_records d')"
proof -
  have "d'\<lparr>transactions := transactions d\<rparr> = d" using assms by (simp add: imported_def)
  then have "(without_records d')\<lparr>transactions := transactions d\<rparr> = without_records d"
    by (simp only: without_records_commute)
  with assms show ?thesis by (simp add: imported_def without_records_def)
qed

context import_source begin

lemma import_all_or_nothing:
  assumes "ready s"
  shows "let d = without_records (store w); d' = without_records (store (state_of (TransactionImport_perform L src s) w)) in
    d' = d \<or> (\<exists>es. holds s es \<and> imported L es d d')"
proof -
  let ?v = "\<lambda>w. without_records (store w)"
  let ?R = TransactionImportDetailsRepository
  have start: "frames (\<lambda>(self, w). ?v w) (import_start L)"
    unfolding import_start_def
    by (intro frames_bind frames_outside frames_assign frames_comp [OF frames_now]
        frames_insert [where v = without_records]) (simp add: TransactionImportDetailsRepository_def without_records_def)
  have finish: "frames (\<lambda>(self, w). ?v w) (import_finish L src st)" for st
    unfolding import_finish_def
    by (intro frames_bind frames_outside frames_field frames_case_option frames_throw frames_comp [OF frames_now]
        frames_update [where v = without_records]) (simp add: TransactionImportDetailsRepository_def without_records_def)
  let ?self = "\<lparr>ti_source = s, ti_details = None\<rparr>"
  obtain r0 self0 w0 where 0: "import_start L (?self, w) = (r0, (self0, w0))" by (metis prod.collapse)
  have v0: "?v w0 = ?v w" using framesD [OF start, of "(?self, w)"] 0 by simp
  have s0: "ti_source self0 = s"
    using 0 by (auto simp: import_start_def io_simps split: sum.splits)
  have run: "without_records (store (state_of (TransactionImport_perform L src s) w)) = ?v (snd (state_of (perform_import L src) (?self, w)))"
    by (auto simp: TransactionImport_perform_def with_new_apply io_then_apply field_apply split: prod.split sum.split)
  let ?m = "inside ti_source (\<lambda>s self. self\<lparr>ti_source := s\<rparr>) (source_perform src)"
  let ?h = "\<lambda>e. io_then (import_finish L src Failed) (io_throw e)"
  have h: "frames (\<lambda>(self, w). ?v w) (?h e)" for e
    by (intro frames_then finish frames_throw)
  have rest: "frames (\<lambda>(self, w). ?v w) (io_try (import_finish L src Complete) ?h)"
    by (intro frames_try finish h)
  show ?thesis
  proof (cases r0)
    case (Inl e)
    with 0 v0 run show ?thesis by (simp add: perform_import_def io_then_apply)
  next
    case (Inr u)
    obtain r1 s1 w1 where m: "source_perform src (s, w0) = (r1, (s1, w1))" by (metis prod.collapse)
    let ?self1 = "self0\<lparr>ti_source := s1\<rparr>"
    have "?v (snd (state_of (perform_import L src) (?self, w))) = ?v w1"
    proof (cases r1)
      case (Inl e)
      with 0 Inr m s0 framesD [OF h, of e "(?self1, w1)"] show ?thesis
        by (simp add: perform_import_def io_then_apply io_try_apply inside_apply case_prod_unfold)
    next
      case (Inr u')
      have "state_of (perform_import L src) (?self, w) = state_of (io_try (import_finish L src Complete) ?h) (?self1, w1)"
        using 0 \<open>r0 = Inr u\<close> m s0 Inr by (simp add: perform_import_def io_then_apply io_try_apply inside_apply)
      with framesD [OF rest, of "(?self1, w1)"] show ?thesis by (simp add: case_prod_unfold)
    qed
    with run have e: "without_records (store (state_of (TransactionImport_perform L src s) w)) = ?v w1" by simp
    from contract [OF assms m] have "?v w1 = ?v w \<or> holds s (source_transactions src s1) \<and>
        imported L (source_transactions src s1) (?v w) (?v w1)"
      using imported_without_records [of L "source_transactions src s1" "store w0" "store w1"] v0 by auto
    then show ?thesis unfolding e Let_def by blast
  qed
qed

end

section \<open>The sources\<close>

text \<open>What the parser makes of a text: the entries up to the first line that raises.\<close>

fun parsed :: "import_ext \<Rightarrow> ITransactionImport list \<Rightarrow> (exn + unit) \<times> entry list" where
  "parsed X [] = (Inr (), [])"
| "parsed X (d # ds) =
     (case parseEntry X d of
        Inl e \<Rightarrow> (Inl e, [])
      | Inr y \<Rightarrow> (case parsed X ds of (r, es) \<Rightarrow> (r, y # es)))"

lemma parsed_Inr: "parsed X ds = (Inr u, es) \<longleftrightarrow> map (parseEntry X) ds = map Inr es"
proof (induction ds arbitrary: es)
  case Nil
  then show ?case by auto
next
  case (Cons d ds)
  obtain r0 es0 where p: "parsed X ds = (r0, es0)" by fastforce
  show ?case
  proof (cases "parseEntry X d")
    case (Inl e)
    then show ?thesis by (cases es) auto
  next
    case (Inr y)
    have "(r0 = Inr () \<and> y # es0 = es) \<longleftrightarrow> map Inr es = Inr y # map (parseEntry X) ds"
    proof (cases es)
      case (Cons y' es')
      with Cons.IH [of es'] p show ?thesis by auto
    qed simp
    with Inr p show ?thesis by auto
  qed
qed

lemma parseCSV_run:
  "parseCSV X (s, w) = (fst (parsed X (papa_parse X (ci_csvString s))),
     (s\<lparr>ci_transactions := ci_transactions s @ snd (parsed X (papa_parse X (ci_csvString s)))\<rparr>, w))"
proof -
  let ?f = "\<lambda>d. io_bind (io_lift (parseEntry X d)) (\<lambda>parsedEntry.
      assign (\<lambda>self. self\<lparr>ci_transactions := ci_transactions self @ [parsedEntry]\<rparr>))"
  have "io_for ds ?f (s, w) = (fst (parsed X ds), (s\<lparr>ci_transactions := ci_transactions s @ snd (parsed X ds)\<rparr>, w))" for ds
    by (induction ds arbitrary: s) (auto simp: io_simps split: sum.splits prod.splits)
  then show ?thesis by (simp add: parseCSV_def io_simps)
qed

definition csv_lines :: "import_ext \<Rightarrow> string \<Rightarrow> entry list \<Rightarrow> bool" where
  "csv_lines X csv es \<longleftrightarrow> map (parseEntry X) (papa_parse X csv) = map Inr es"

lemma csv_run:
  assumes "ext_ok L" and "ci_transactions s = []" and "CSVImportString_perform L X (s, w) = (r, (s', w'))"
  shows "(\<exists>e. r = Inl e) \<and> store w' = store w \<or>
    r = Inr () \<and> csv_lines X (ci_csvString s) (ci_transactions s') \<and> imported L (ci_transactions s') (store w) (store w')"
proof (cases "parsed X (papa_parse X (ci_csvString s))")
  case (Pair q es)
  show ?thesis
  proof (cases q)
    case (Inl e)
    with assms Pair show ?thesis by (auto simp: CSVImportString_perform_def io_then_apply parseCSV_run)
  next
    case (Inr u)
    with Pair have l: "csv_lines X (ci_csvString s) es" by (simp add: csv_lines_def parsed_Inr)
    then have "\<forall>e\<in>set es. tx_id (fst e) = None"
      unfolding csv_lines_def by (metis entry_unnumbered imageE image_eqI list.set_map)
    moreover obtain r1 w1 where "store_entries L es w = (r1, w1)" by fastforce
    ultimately show ?thesis
      using store_entries_cases [OF assms(1), of es w r1 w1] assms(2,3) Pair Inr l
      by (cases r1) (auto simp: CSVImportString_perform_def io_simps parseCSV_run importEntries_def split: if_splits)
  qed
qed

interpretation csv_import: import_source L "csv_source L X" "\<lambda>s. ext_ok L \<and> ci_transactions s = []"
  "\<lambda>s. csv_lines X (ci_csvString s)"
  by unfold_locales (auto simp: csv_source_def dest!: csv_run)

text \<open>The lines of an archive are those of a text that was read at the path it is unzipped to.\<close>

definition zip_lines :: "import_ext \<Rightarrow> WatchAndMatchImportZipFile \<Rightarrow> entry list \<Rightarrow> bool" where
  "zip_lines X s es \<longleftrightarrow> (\<exists>n csv. fs_read X n (wz_destinationPath s) = Inr csv \<and> csv_lines X csv es)"

lemma zip_run:
  assumes "ext_ok L" and "WatchAndMatchImportZipFile_perform L X (s, w) = (r, (s', w'))"
  shows "(\<exists>e. r = Inl e) \<and> store w' = store w \<or>
    r = Inr () \<and> zip_lines X s (wz_transactions s') \<and> imported L (wz_transactions s') (store w) (store w')"
proof -
  let ?n = "Suc (Suc (Suc (calls w)))" and ?w = "tick (tick (tick (tick w)))"
  let ?ok = "fs_stat X (calls w) (wz_filePath s) = Inr () \<and>
    fs_unzip X (Suc (calls w)) (wz_filePath s) (wz_destinationPath s) = Inr () \<and>
    fs_chmod X (Suc (Suc (calls w))) (wz_destinationPath s) = Inr ()"
  show ?thesis
  proof (cases "?ok \<and> (\<exists>csv. fs_read X ?n (wz_destinationPath s) = Inr csv)")
    case True
    then obtain csv where ok: ?ok "fs_read X ?n (wz_destinationPath s) = Inr csv" by blast
    obtain r1 c w1 where c: "CSVImportString_perform L X (new_CSVImportString csv False, ?w) = (r1, (c, w1))"
      by (metis prod.collapse)
    then have "r = r1" and "s' = s\<lparr>wz_csvImportString := Some c\<rparr>" and "w' = w1"
      using assms(2) ok
      by (simp_all add: WatchAndMatchImportZipFile_perform_def assertFileExists_def unzipCSVFile_def
          setPermissionsOnCSVFile_def importDataFromCSVFile_def on_csv_def io_simps)
    with csv_run [OF assms(1) _ c] ok(2) show ?thesis
      by (auto simp: new_CSVImportString_def wz_transactions_def zip_lines_def)
  next
    case False
    have "(\<exists>e. r = Inl e) \<and> store w' = store w"
      using assms(2) [symmetric] False
      by (auto simp: WatchAndMatchImportZipFile_perform_def assertFileExists_def unzipCSVFile_def
          setPermissionsOnCSVFile_def importDataFromCSVFile_def io_simps split: sum.splits)
    then show ?thesis ..
  qed
qed

interpretation zip_import: import_source L "zip_source L X" "\<lambda>s. ext_ok L" "zip_lines X"
  by unfold_locales (auto simp: zip_source_def dest!: zip_run)

text \<open>
  The steps of a remote run keep the paths and the database until the archive is imported; the connection is
  closed after that.
\<close>

definition remote_view :: "RemoteWatchAndMatchTransactions \<times> world \<Rightarrow> string \<times> db" where
  "remote_view = (\<lambda>(self, w). (rw_localFilePath self, store w))"

definition remote_ok :: "ext \<Rightarrow> import_ext \<Rightarrow> string \<Rightarrow> (RemoteWatchAndMatchTransactions, unit) object_action \<Rightarrow> bool" where
  "remote_ok L X p m \<longleftrightarrow> (\<forall>s w r s' w'. rw_localFilePath s = p \<longrightarrow> m (s, w) = (r, (s', w')) \<longrightarrow>
     (\<exists>e. r = Inl e) \<and> store w' = store w \<or>
     zip_lines X (new_WatchAndMatchImportZipFile p (tmpdir L)) (rw_transactions s') \<and>
     imported L (rw_transactions s') (store w) (store w'))"

lemma remote_okD:
  "remote_ok L X p m \<Longrightarrow> rw_localFilePath s = p \<Longrightarrow> m (s, w) = (r, (s', w')) \<Longrightarrow>
    (\<exists>e. r = Inl e) \<and> store w' = store w \<or>
    zip_lines X (new_WatchAndMatchImportZipFile p (tmpdir L)) (rw_transactions s') \<and>
    imported L (rw_transactions s') (store w) (store w')"
  by (simp add: remote_ok_def)

lemma remote_ok_bind:
  assumes "frames remote_view m" and "\<And>x. remote_ok L X p (k x)"
  shows "remote_ok L X p (io_bind m k)"
proof -
  have "m (s, w) = (r, (s1, w1)) \<Longrightarrow> rw_localFilePath s1 = rw_localFilePath s \<and> store w1 = store w" for s w r s1 w1
    using framesD [OF assms(1), of "(s, w)"] by (simp add: remote_view_def)
  then have keep: "rw_localFilePath s1 = rw_localFilePath s" "store w1 = store w"
    if "m (s, w) = (r, (s1, w1))" for s w r s1 w1 using that by blast+
  show ?thesis
    unfolding remote_ok_def
  proof (intro allI impI)
    fix s s' :: RemoteWatchAndMatchTransactions and r and w w' :: world
    assume p: "rw_localFilePath s = p" and run: "io_bind m k (s, w) = (r, (s', w'))"
    obtain q s1 w1 where m: "m (s, w) = (q, (s1, w1))" by (metis prod.collapse)
    show "(\<exists>e. r = Inl e) \<and> store w' = store w \<or>
        zip_lines X (new_WatchAndMatchImportZipFile p (tmpdir L)) (rw_transactions s') \<and>
        imported L (rw_transactions s') (store w) (store w')"
    proof (cases q)
      case (Inl e)
      with run m keep [OF m] show ?thesis by (auto simp: io_bind_apply)
    next
      case (Inr x)
      with run m have "k x (s1, w1) = (r, (s', w'))" by (simp add: io_bind_apply)
      have "rw_localFilePath s1 = p" and e: "store w1 = store w" using keep [OF m] p by simp_all
      with remote_okD [OF assms(2) _ \<open>k x (s1, w1) = (r, (s', w'))\<close>] show ?thesis unfolding e by blast
    qed
  qed
qed

lemma remote_ok_then: "frames remote_view m \<Longrightarrow> remote_ok L X p k \<Longrightarrow> remote_ok L X p (io_then m k)"
  unfolding io_then_def by (rule remote_ok_bind)

lemma remote_ok_throw: "remote_ok L X p (io_throw e)"
  by (simp add: remote_ok_def io_throw_def)

lemma remote_ok_if: "remote_ok L X p m \<Longrightarrow> remote_ok L X p k \<Longrightarrow> remote_ok L X p (if b then m else k)"
  by simp

lemma remote_ok_finally:
  assumes "remote_ok L X p m" and "frames (\<lambda>(self, w). (rw_zipFile self, store w)) f"
  shows "remote_ok L X p (io_finally m f)"
proof -
  have f: "f (s, w) = (r, (s1, w1)) \<Longrightarrow> rw_transactions s1 = rw_transactions s \<and> store w1 = store w" for s w r s1 w1
    using framesD [OF assms(2), of "(s, w)"] by (simp add: rw_transactions_def)
  show ?thesis
    unfolding remote_ok_def
  proof (intro allI impI)
    fix s s' :: RemoteWatchAndMatchTransactions and r and w w' :: world
    assume p: "rw_localFilePath s = p"
    assume run: "io_finally m f (s, w) = (r, (s', w'))"
    obtain r1 s1 w1 where m: "m (s, w) = (r1, (s1, w1))" by (metis prod.collapse)
    obtain r2 where f': "f (s1, w1) = (r2, (s', w'))" and "r = (case r2 of Inl e \<Rightarrow> Inl e | Inr _ \<Rightarrow> r1)"
      using run m by (auto simp: io_finally_def split: prod.splits sum.splits)
    with assms(1) p m f [OF f'] show "(\<exists>e. r = Inl e) \<and> store w' = store w \<or>
        zip_lines X (new_WatchAndMatchImportZipFile p (tmpdir L)) (rw_transactions s') \<and>
        imported L (rw_transactions s') (store w) (store w')"
      unfolding remote_ok_def by (fastforce split: sum.splits)
  qed
qed

lemma frames_on_client:
  assumes "frames (\<lambda>(self, w). store w) m"
  shows "frames remote_view (on_client m)" and "frames (\<lambda>(self, w). (rw_zipFile self, store w)) (on_client m)"
  using framesD [OF assms]
  by (auto simp: frames_def remote_view_def on_client_def inside_apply split: prod.splits) (metis prod.case prod.collapse)+

lemma frames_downloadFile: "frames (\<lambda>(self, w). store w) (downloadFile X q q')"
  unfolding downloadFile_def fetchFileFromFTP_def on_read_def
  by (intro frames_try frames_inside frames_outside frames_request frames_throw)

lemma remote_ok_path: "remote_ok L X p (k p) \<Longrightarrow> remote_ok L X p (io_bind (field rw_localFilePath) k)"
  by (auto simp: remote_ok_def io_bind_apply field_apply)

lemma remote_ok_import:
  assumes "ext_ok L"
  shows "remote_ok L X p (io_then
    (assign (\<lambda>self. self\<lparr>rw_zipFile := Some (new_WatchAndMatchImportZipFile p (tmpdir L))\<rparr>))
    (on_zip (WatchAndMatchImportZipFile_perform L X)))"
  unfolding remote_ok_def
proof (intro allI impI)
  fix s s' :: RemoteWatchAndMatchTransactions and r and w w' :: world
  let ?z = "new_WatchAndMatchImportZipFile p (tmpdir L)"
  assume run: "io_then (assign (\<lambda>self. self\<lparr>rw_zipFile := Some ?z\<rparr>)) (on_zip (WatchAndMatchImportZipFile_perform L X))
    (s, w) = (r, (s', w'))"
  obtain r1 z1 w1 where z: "WatchAndMatchImportZipFile_perform L X (?z, w) = (r1, (z1, w1))" by (metis prod.collapse)
  with run have "r = r1" and "w' = w1" and "rw_transactions s' = wz_transactions z1"
    by (auto simp: on_zip_def io_simps rw_transactions_def)
  with zip_run [OF assms z] show "(\<exists>e. r = Inl e) \<and> store w' = store w \<or>
      zip_lines X ?z (rw_transactions s') \<and> imported L (rw_transactions s') (store w) (store w')" by auto
qed

lemma frames_fileExistsRemotely: "frames (\<lambda>(self, w). store w) (fileExistsRemotely L q)"
  by (auto simp: frames_def sftp_defs io_simps split: sum.splits if_splits)

lemma remote_run:
  assumes "ext_ok L"
  shows "remote_ok L X p (RemoteWatchAndMatchTransactions_perform L X)"
proof -
  have view: "frames remote_view (assign (\<lambda>self. self\<lparr>rw_client := c\<rparr>))" "frames remote_view (field g)" for c g
    by (simp_all add: frames_def remote_view_def assign_def field_def split: prod.splits)
  show ?thesis
    unfolding RemoteWatchAndMatchTransactions_perform_def download_and_import_def
    by (intro remote_ok_then [OF view(1)] remote_ok_finally remote_ok_then [OF frames_on_client(1)]
        remote_ok_path remote_ok_bind [OF view(2)] remote_ok_bind [OF frames_on_client(1)] remote_ok_import [OF assms]
        frames_connect frames_on_client(2) frames_disconnect frames_fileExistsRemotely frames_downloadFile
        remote_ok_throw remote_ok_if)
qed

interpretation remote_import: import_source L "remote_source L X" "\<lambda>s. ext_ok L"
  "\<lambda>s. zip_lines X (new_WatchAndMatchImportZipFile (rw_localFilePath s) (tmpdir L))"
proof unfold_locales
  fix s s' :: RemoteWatchAndMatchTransactions and w w' :: world and r
  assume "ext_ok L" and "source_perform (remote_source L X) (s, w) = (r, (s', w'))"
  with remote_run [of L X "rw_localFilePath s"] show "(\<exists>e. r = Inl e) \<and> store w' = store w \<or>
      zip_lines X (new_WatchAndMatchImportZipFile (rw_localFilePath s) (tmpdir L))
        (source_transactions (remote_source L X) s') \<and>
      imported L (source_transactions (remote_source L X) s') (store w) (store w')"
    by (simp add: remote_ok_def remote_source_def)
qed

end
