(* ===== verification/ImportProperties.thy ===== *)
theory ImportProperties
  imports ImportSafety Reliable
begin

text \<open>
  The properties of an import: all its lines or none, and what its details row says afterwards.
\<close>

section \<open>The details row\<close>

definition import_records_ok :: "ext \<Rightarrow> bool" where
  "import_records_ok L \<longleftrightarrow>
     orm_updates (serial_matches id_id) (\<lambda>r. r) (import_details_orm L) \<and>
     orm_saves_serial id_id (\<lambda>k r. r\<lparr>id_id := Some k\<rparr>) (\<lambda>r. r) (import_details_orm L) \<and>
     reliable_orm (\<lambda>i. int_key i \<noteq> None) (\<lambda>_. True) (import_details_orm L)"

lemma import_start_reliable:
  assumes "import_records_ok L"
  shows "\<exists>k w' rs. import_start L (\<lparr>ti_source = s, ti_details = None\<rparr>, w) =
      (Inr (), (\<lparr>ti_source = s, ti_details = Some \<lparr>td_id = Some k, td_startedAt = clock L (calls w), td_finishedAt = None,
         td_status = InProgress, td_numberOfItems = None\<rparr>\<rparr>, w')) \<and>
    store w' = (store w)\<lparr>import_details := rs\<rparr> \<and>
    mset rs = add_mset \<lparr>id_id = Some k, id_started_at = clock L (calls w), id_finished_at = None,
      id_status = InProgress, id_number_of_items = None\<rparr> (mset (import_details (store w))) \<and>
    (\<forall>r\<in>set (import_details (store w)). id_id r \<noteq> Some k)"
proof -
  let ?R = TransactionImportDetailsRepository
  let ?x = "\<lparr>td_id = None, td_startedAt = clock L (calls w), td_finishedAt = None, td_status = InProgress,
    td_numberOfItems = None\<rparr>"
  let ?row = "TransactionImportDetailsSerializer_serialize ?x"
  obtain k y w' rs where i: "insert ?R L ?x (tick w) = (Inr y, w')" "store w' = put_rows ?R rs (store (tick w))"
    "mset rs = add_mset (?row\<lparr>id_id := Some k\<rparr>) (mset (rows_of ?R (store (tick w))))"
    "\<forall>r\<in>set (rows_of ?R (store (tick w))). id_id r \<noteq> Some k"
    "deserialize_with ?R L (?row\<lparr>id_id := Some k\<rparr>) = Inr y"
    by (rule import_details_table.insert_reliable [where L = L and w = "tick w" and x = ?x
        and key = id_id and with_key = "\<lambda>k r. r\<lparr>id_id := Some k\<rparr>" and coerce = "\<lambda>r. r" and v = "\<lambda>i. int_key i \<noteq> None"])
      (use assms in \<open>simp_all add: import_records_ok_def TransactionImportDetailsRepository_def
          TransactionImportDetailsSerializer_serialize_def TransactionImportDetailsSerializer_deserialize_def\<close>)
  then show ?thesis
    by (intro exI [of _ k] exI [of _ w'] exI [of _ rs])
      (auto simp: import_start_def io_simps TransactionImportDetailsRepository_def
        TransactionImportDetailsSerializer_serialize_def TransactionImportDetailsSerializer_deserialize_def)
qed

lemma import_finish_reliable:
  assumes "import_records_ok L" and "ti_details self = Some x" and "td_id x = Some k"
    and "mset (import_details (store w)) = add_mset row (mset old)" and "id_id row = Some k"
    and "\<forall>r\<in>set old. id_id r \<noteq> Some k"
  shows "\<exists>w' rs. import_finish L src status (self, w) = (Inr (), (self, w')) \<and>
    store w' = (store w)\<lparr>import_details := rs\<rparr> \<and>
    mset rs = add_mset (row\<lparr>id_finished_at := Some (clock L (calls w)), id_status := status,
      id_number_of_items := Some (length (source_transactions src (ti_source self)))\<rparr>) (mset old)"
proof -
  let ?R = TransactionImportDetailsRepository and ?t = "clock L (calls w)"
  let ?n = "length (source_transactions src (ti_source self))"
  let ?ps = "[FinishedAt ?t, NumberOfItems ?n, TransferStatusOf status]"
  let ?g = "\<lambda>r. r\<lparr>id_finished_at := Some ?t, id_status := status, id_number_of_items := Some ?n\<rparr>"
  let ?f = "\<lambda>r. if id_id r = Some k then ?g r else r"
  obtain w' rs where u: "update ?R L (show_nat k) ?ps (tick w) = (Inr (), w')"
    "store w' = put_rows ?R rs (store (tick w))"
    "mset rs = mset (map (\<lambda>r. if serial_matches id_id (show_nat k) r then serializePartial ?R ?ps r else r)
      (rows_of ?R (store (tick w))))"
    by (rule import_details_table.update_reliable [where L = L and w = "tick w" and i = "show_nat k" and a = "\<lambda>_. True"
        and matches = "serial_matches id_id" and coerce = "\<lambda>r. r" and v = "\<lambda>i. int_key i \<noteq> None" and ps = ?ps])
      (use assms(1) in \<open>simp_all add: import_records_ok_def TransactionImportDetailsRepository_def\<close>)
  have "serializePartial ?R ?ps r = ?g r" for r
    by (simp add: serializePartial_def TransactionImportDetailsRepository_def)
  then have "mset rs = image_mset ?f (mset (import_details (store w)))"
    using u(3) by (simp only: serial_matches_show_nat mset_map store_tick) (simp add: TransactionImportDetailsRepository_def)
  also have "\<dots> = add_mset (?g row) (image_mset ?f (mset old))" unfolding assms(4) using assms(5) by simp
  also have "image_mset ?f (mset old) = mset old"
    using assms(6) image_mset_cong [of "mset old" ?f "\<lambda>r. r"] by simp
  finally show ?thesis
    using u(1,2) assms(2,3)
    by (intro exI [of _ w'] exI [of _ rs])
      (simp add: import_finish_def io_simps TransactionImportDetailsRepository_def)
qed

section \<open>A text on a working database\<close>

text \<open>A list of rows is saved when the columns take every one of them.\<close>

lemma save_all_checked:
  assumes "reliable_orm v a D" and "orm_checks a D"
  shows "(\<exists>x. save_all D n qs rs = Inr x) \<longleftrightarrow> list_all a qs"
proof (induction qs arbitrary: rs)
  case (Cons q qs)
  show ?case
  proof (cases "orm_save D n q rs")
    case (Inl e)
    with reliable_save [OF assms(1), of q n rs] show ?thesis by auto
  next
    case (Inr p)
    then have "a q" using assms(2) unfolding orm_checks_def by blast
    with Inr Cons.IH [of "snd p"] show ?thesis
      by (cases p; cases "save_all D n qs (snd p)") auto
  qed
qed simp

text \<open>
  A line that can be stored: it has an amount, a date and whole base points, and the columns take its transaction.
\<close>

definition stored_entry :: "ext \<Rightarrow> entry \<Rightarrow> bool" where
  "stored_entry L e \<longleftrightarrow> snd e \<and> transaction_accepted L (TransactionForRebateCriteriaSerializer_serialize (fst e))"

definition storable :: "ext \<Rightarrow> import_ext \<Rightarrow> string \<Rightarrow> bool" where
  "storable L X csv \<longleftrightarrow> (\<forall>d\<in>set (papa_parse X csv). \<exists>e. parseEntry X d = Inr e \<and> stored_entry L e)"

text \<open>The entries that are parsed: those of the lines up to the first one that cannot be read.\<close>

definition read_lines :: "import_ext \<Rightarrow> string \<Rightarrow> ITransactionImport list" where
  "read_lines X csv = takeWhile (\<lambda>d. \<not> isl (parseEntry X d)) (papa_parse X csv)"

lemma length_parsed: "length (snd (parsed X ds)) = length (takeWhile (\<lambda>d. \<not> isl (parseEntry X d)) ds)"
  by (induction ds) (auto split: sum.splits prod.splits)

lemma parsed_storable:
  "fst (parsed X ds) = Inr () \<and> list_all (stored_entry L) (snd (parsed X ds)) \<longleftrightarrow>
     (\<forall>d\<in>set ds. \<exists>e. parseEntry X d = Inr e \<and> stored_entry L e)"
  by (induction ds) (auto split: sum.splits prod.splits)

lemma csv_reliable:
  assumes "ext_ok L" and "reliable L"
  shows "\<exists>r s' w'. CSVImportString_perform L X (new_CSVImportString csv b, w) = (r, (s', w')) \<and>
    (isl r \<longleftrightarrow> \<not> storable L X csv) \<and> length (ci_transactions s') = length (read_lines X csv) \<and>
    (isl r \<longrightarrow> store w' = store w) \<and>
    (\<not> isl r \<longrightarrow> csv_lines X csv (ci_transactions s') \<and> imported L (ci_transactions s') (store w) (store w'))"
proof -
  obtain r s' w' where run: "CSVImportString_perform L X (new_CSVImportString csv b, w) = (r, (s', w'))"
    by (metis prod.collapse)
  let ?p = "parsed X (papa_parse X csv)"
  have save: "(\<exists>x. save_all (transactions_orm L) n qs rs = Inr x) \<longleftrightarrow> list_all (transaction_accepted L) qs" for n qs rs
    by (rule save_all_checked [OF reliable_transactions [OF assms(2)] transactions_checks [OF assms(1)]])
  obtain q es where p: "?p = (q, es)" by fastforce
  obtain r1 w1 where e: "store_entries L es w = (r1, w1)" by fastforce
  have "list_all (stored_entry L) es \<longleftrightarrow> list_all snd es \<and>
      list_all (transaction_accepted L) (map TransactionForRebateCriteriaSerializer_serialize (map fst es))"
    by (auto simp: list_all_iff stored_entry_def)
  with e save [of "calls w" "map TransactionForRebateCriteriaSerializer_serialize (map fst es)" "transactions (store w)"]
  have r1: "isl r1 \<longleftrightarrow> \<not> list_all (stored_entry L) es"
    by (cases "save_all (transactions_orm L) (calls w) (map TransactionForRebateCriteriaSerializer_serialize (map fst es))
        (transactions (store w))")
      (auto simp: store_entries_def bulkInsert_def execute_def io_simps TransactionForRebateCriteriaRepository_def
        split: if_splits)
  have parse: "parseCSV X (new_CSVImportString csv b, w) = (q, (\<lparr>ci_csvString = csv, ci_has_logger = b, ci_transactions = es\<rparr>, w))"
    by (simp add: parseCSV_run p new_CSVImportString_def)
  have "ci_transactions s' = es \<and> (isl r \<longleftrightarrow> \<not> (q = Inr () \<and> list_all (stored_entry L) es))"
  proof (cases q)
    case (Inl x)
    with run parse show ?thesis by (auto simp: CSVImportString_perform_def io_then_apply)
  next
    case (Inr u)
    with run parse e r1 show ?thesis
      by (cases r1) (auto simp: CSVImportString_perform_def importEntries_def io_simps split: if_splits)
  qed
  then have "ci_transactions s' = snd ?p" and "isl r \<longleftrightarrow> \<not> (fst ?p = Inr () \<and> list_all (stored_entry L) (snd ?p))"
    by (simp_all add: p)
  then have r: "isl r \<longleftrightarrow> \<not> storable L X csv" and n: "length (ci_transactions s') = length (read_lines X csv)"
    by (simp_all only: parsed_storable storable_def [symmetric] length_parsed read_lines_def)
  from csv_run [OF assms(1) _ run] have c: "(\<exists>e. r = Inl e) \<and> store w' = store w \<or>
      r = Inr () \<and> csv_lines X csv (ci_transactions s') \<and> imported L (ci_transactions s') (store w) (store w')"
    by (simp add: new_CSVImportString_def)
  with run r n show ?thesis by (intro exI [of _ r] exI [of _ s'] exI [of _ w']) auto
qed

lemma imported_records: "imported L es d d' \<Longrightarrow> import_details d' = import_details d"
  by (auto simp: imported_def dest!: arg_cong [of _ d import_details])

lemma without_records_put [simp]: "without_records (d\<lparr>import_details := rs\<rparr>) = without_records d"
  by (simp add: without_records_def)

definition import_row :: "nat \<Rightarrow> date \<Rightarrow> date \<Rightarrow> bool \<Rightarrow> nat \<Rightarrow> TransactionImportDetailsRecord" where
  "import_row k start finish failed n =
     \<lparr>id_id = Some k, id_started_at = start, id_finished_at = Some finish,
       id_status = (if failed then Failed else Complete), id_number_of_items = Some n\<rparr>"

section \<open>Sample files\<close>

definition sample_line :: ITransactionImport where
  "sample_line =
     \<lparr>im_client_id = ''user1'', im_offer_id = ''100'', im_transaction_id = ''t7'', im_type = Value ''1'',
       im_card = ''4510'', im_amount = Value ''20.00'', im_base_points = Value ''20'', im_rebate_id = '''',
       im_card_type = Value ''1'', im_transaction_date = Value ''2017-01-02'', im_transaction_currency =
       ''CAD'', im_account_id = ''acc1'', im_transaction_postal_code = '''', im_product_code_external =
       ''VISA'', im_is_manual = Undefined\<rparr>"

text \<open>A text of one line and any other of two, the second with an amount that is no number.\<close>

definition sample_import :: import_ext where
  "sample_import =
     \<lparr>papa_parse = (\<lambda>csv. if csv = ''one'' then [sample_line] else [sample_line, sample_line\<lparr>im_amount := Value ''abc''\<rparr>]),
       read_date = (\<lambda>_. Some 86400000), fs_stat = (\<lambda>_ _. Inr ()), fs_unzip = (\<lambda>_ _ _. Inr ()),
       fs_chmod = (\<lambda>_ _. Inr ()), fs_read = (\<lambda>_ _. Inr ''one''), sftp_get = (\<lambda>_ _ _. Inr ())\<rparr>"

lemma ref_import_records: "import_records_ok ref_ext"
  by (simp add: import_records_ok_def ref_orm_selectors)

section \<open>Properties\<close>

text \<open>
  C29.  Whatever requests fail while an archive is fetched from the SFTP server and imported, and whether the
  import raises or not, every line of an unzipped text is in the table of transactions afterwards, each once
  and under a number of its own, or the transactions are as they were; besides them only the records of imports
  have changed.
\<close>

theorem remote_import_all_or_nothing:
  assumes "ext_ok L"
  shows "let d = without_records (store w);
             d' = without_records (store (state_of (TransactionImport_perform L (remote_source L X)
                    (new_RemoteWatchAndMatchTransactions L path)) w)) in
    d' = d \<or> (\<exists>es. zip_lines X (new_WatchAndMatchImportZipFile (tmpdir L @ ''/local-wmresult.zip'') (tmpdir L)) es \<and>
                imported L es d d')"
  using remote_import.import_all_or_nothing [OF assms, of w X "new_RemoteWatchAndMatchTransactions L path"]
  by (simp add: new_RemoteWatchAndMatchTransactions_def)

lemma remote_import_all_or_nothing_witness:
  "let d = without_records sample_db;
       d' = without_records (store (state_of (TransactionImport_perform ref_ext (remote_source ref_ext sample_import)
              (new_RemoteWatchAndMatchTransactions ref_ext ''out/wm.zip'')) sample_world)) in
    d' = d \<or> length (transactions d') = 2"
proof -
  have one: "length (transactions d') = Suc (length (transactions d))"
    if "zip_lines sample_import z es" "imported L es d d'" for z es L d d'
  proof -
    have "length es = 1"
      using that(1) by (auto simp: zip_lines_def csv_lines_def sample_import_def dest: arg_cong [of _ _ length])
    moreover have "size (mset (transactions d')) = length es + length (transactions d)"
      using that(2) by (auto simp: imported_def simp del: size_mset) (simp add: size_mset)
    ultimately show ?thesis by simp
  qed
  have "length (transactions (without_records sample_db)) = 1" by (simp add: sample_db_def without_records_def)
  with one show ?thesis
    using remote_import_all_or_nothing [OF ref_ext_ok, of sample_world sample_import "''out/wm.zip''"]
    unfolding Let_def sample_world_def by fastforce
qed

text \<open>
  C30.  On a working database an import of a CSV text returns exactly when every line of it can be stored: the line
  has an amount, a date and whole base points, and the columns of the table take its values, the amount that of
  a \<open>numeric(18,2)\<close>, the base points that of an \<open>integer\<close>.  Then
  all lines are stored as new transactions; otherwise the import raises and the transactions are unchanged.  In
  both cases there is one new details row, finished, Complete or Failed, with the number of lines that were read.
\<close>

theorem csv_import_outcome:
  assumes "ext_ok L" and "reliable L" and "import_records_ok L"
  shows "\<exists>r w' k t. TransactionImport_perform L (csv_source L X) (new_CSVImportString csv b) w = (r, w') \<and>
    (isl r \<longleftrightarrow> \<not> storable L X csv) \<and>
    (\<forall>x\<in>set (import_details (store w)). id_id x \<noteq> Some k) \<and>
    mset (import_details (store w')) =
      add_mset (import_row k (clock L (calls w)) t (isl r) (length (read_lines X csv))) (mset (import_details (store w))) \<and>
    (if isl r then without_records (store w') = without_records (store w)
     else \<exists>es. csv_lines X csv es \<and> imported L es (without_records (store w)) (without_records (store w')))"
proof -
  let ?s = "new_CSVImportString csv b" and ?src = "csv_source L X" and ?old = "import_details (store w)"
  obtain k w1 rs x row where start: "import_start L (\<lparr>ti_source = ?s, ti_details = None\<rparr>, w) =
      (Inr (), (\<lparr>ti_source = ?s, ti_details = Some x\<rparr>, w1))"
    and w1: "store w1 = (store w)\<lparr>import_details := rs\<rparr>" "mset rs = add_mset row (mset ?old)"
    and k: "td_id x = Some k" "id_id row = Some k" "\<forall>x\<in>set ?old. id_id x \<noteq> Some k"
    and row: "\<And>f t n. row\<lparr>id_finished_at := Some t, id_status := if f then Failed else Complete, id_number_of_items := Some n\<rparr> =
      import_row k (clock L (calls w)) t f n"
    using import_start_reliable [OF assms(3), of ?s w] by (auto simp: import_row_def)
  obtain r s' w2 where run: "CSVImportString_perform L X (?s, w1) = (r, (s', w2))"
    and r: "isl r \<longleftrightarrow> \<not> storable L X csv" and n: "length (ci_transactions s') = length (read_lines X csv)"
    and same: "isl r \<longrightarrow> store w2 = store w1"
    and new: "\<not> isl r \<longrightarrow> csv_lines X csv (ci_transactions s') \<and> imported L (ci_transactions s') (store w1) (store w2)"
    using csv_reliable [OF assms(1,2), of X csv b w1] by blast
  have "import_details (store w2) = rs"
    using same new imported_records [of L _ "store w1" "store w2"] w1(1) by (cases "isl r") auto
  with w1(2) have old: "mset (import_details (store w2)) = add_mset row (mset ?old)" by simp
  let ?self = "\<lparr>ti_source = s', ti_details = Some x\<rparr>" and ?status = "if isl r then Failed else Complete"
  obtain w' rs' where finish: "import_finish L ?src ?status (?self, w2) = (Inr (), (?self, w'))"
    and w': "store w' = (store w2)\<lparr>import_details := rs'\<rparr>"
      "mset rs' = add_mset (import_row k (clock L (calls w)) (clock L (calls w2)) (isl r) (length (read_lines X csv))) (mset ?old)"
    using import_finish_reliable [OF assms(3) _ k(1) old k(2,3), of ?self ?src ?status] row [where t = "clock L (calls w2)" and f = "isl r"] n
    by (auto simp: csv_source_def)
  have "\<exists>q. TransactionImport_perform L ?src ?s w = (q, w') \<and> isl q = isl r"
    using start run finish
    by (cases r) (simp_all add: TransactionImport_perform_def perform_import_def io_simps csv_source_def)
  then obtain q where q: "TransactionImport_perform L ?src ?s w = (q, w')" "isl q = isl r" by blast
  have v: "without_records (store w1) = without_records (store w)"
    "without_records (store w') = without_records (store w2)" using w1(1) w'(1) by simp_all
  have "if isl r then without_records (store w') = without_records (store w)
     else \<exists>es. csv_lines X csv es \<and> imported L es (without_records (store w)) (without_records (store w'))"
    using same new imported_without_records [of L "ci_transactions s'" "store w1" "store w2"] v by (cases "isl r") auto
  with q r k(3) w' show ?thesis by (intro exI [of _ q] exI [of _ w'] exI [of _ k] exI [of _ "clock L (calls w2)"]) simp
qed

lemma csv_import_outcome_witness:
  "\<exists>e w' k t. TransactionImport_perform ref_ext (csv_source ref_ext sample_import) (new_CSVImportString ''two'' True)
      sample_world = (Inl e, w') \<and>
    import_details (store w') = [import_row k (clock ref_ext 0) t True 2] \<and>
    without_records (store w') = without_records sample_db"
proof -
  have "decimal_prefix ''abc'' = None" by code_simp
  then have "\<not> numeric18_2_in ref_ext ''abc''"
    by (simp add: ref_ext_def ref_numeric18_2_in_def ref_big_new_def)
  then have "\<not> storable ref_ext sample_import ''two''"
    by (simp add: storable_def stored_entry_def transaction_accepted_def sample_import_def parseEntry_def sample_line_def Let_def
        TransactionForRebateCriteriaSerializer_serialize_def)
  moreover have "length (read_lines sample_import ''two'') = 2"
    by (simp add: read_lines_def sample_import_def parseEntry_def sample_line_def Let_def)
  moreover have "import_details sample_db = []" by (simp add: sample_db_def empty_db_def)
  ultimately show ?thesis
    using csv_import_outcome [OF ref_ext_ok ref_reliable ref_import_records, of sample_import "''two''" True sample_world]
    by (auto simp: sample_world_def isl_def) blast
qed

end
