(* ===== verification/Search.thy ===== *)
theory Search
  imports Reliable
begin

text \<open>
  The search of the web pages: \<open>Repository.findWithPagination\<close> of \<open>app/database/repositories/repository.ts\<close>,
  which builds the text of a \<open>SELECT\<close> statement, and the routes \<open>/search/client\<close> and \<open>/search/offer\<close> of
  \<open>app/web/routes/search.ts\<close> over it.

  The database is a parameter that is given the text.  What it makes of a text is documented for the
  statements that \<open>parse_select\<close> reads (\<open>raw_sql_ok\<close>): the grammar is the part of SQL the code writes, with
  string literals as PostgreSQL delimits them.
\<close>

section \<open>The text of the statement\<close>

datatype order_direction = ASC | DESC

record IOrder =
  order_by :: string
  order_direction :: "order_direction option"

record ISearchApiOptions =
  so_select :: "string list"
  so_query :: string
  so_offset :: js_number
  so_limit :: nat
  so_order :: IOrder

definition direction_text :: "order_direction option \<Rightarrow> string" where
  "direction_text d = (case d of None \<Rightarrow> ''undefined'' | Some ASC \<Rightarrow> ''ASC'' | Some DESC \<Rightarrow> ''DESC'')"

definition quoted :: "string \<Rightarrow> string" where
  "quoted s = CHR 0x27 # s @ [CHR 0x27]"

definition ilike_text :: "string \<Rightarrow> string \<Rightarrow> string" where
  "ilike_text column term = column @ '' ILIKE '' @ quoted (''%'' @ term @ ''%'') @ '' ''"

definition constraints_text :: "ext \<Rightarrow> ISearchApiOptions \<Rightarrow> string" where
  "constraints_text L opts =
     ''ORDER BY '' @ order_by (so_order opts) @ '' '' @ direction_text (order_direction (so_order opts)) @
     '' LIMIT '' @ show_nat (so_limit opts) @
     '' OFFSET '' @ number_toString (show_fraction L) (so_offset opts) @ '';''"

text \<open>One \<open>OR\<close> for every column but the first, on the column before it.\<close>

definition createQueryForMultipleParams :: "ext \<Rightarrow> string \<Rightarrow> ISearchApiOptions \<Rightarrow> string" where
  "createQueryForMultipleParams L tableName opts =
     ''SELECT * FROM '' @ tableName @ '' WHERE '' @ ilike_text (so_select opts ! 1) (so_query opts) @
     concat (map (\<lambda>ix. ''OR '' @ ilike_text (so_select opts ! ix) (so_query opts))
       [0..<length (tl (so_select opts))]) @
     constraints_text L opts"

definition createQueryForSingleParam :: "ext \<Rightarrow> string \<Rightarrow> ISearchApiOptions \<Rightarrow> string" where
  "createQueryForSingleParam L tableName opts =
     ''SELECT * FROM '' @ tableName @ '' WHERE '' @ ilike_text (concat (so_select opts)) (so_query opts) @
     constraints_text L opts"

definition rawQuery :: "ext \<Rightarrow> string \<Rightarrow> ISearchApiOptions \<Rightarrow> string" where
  "rawQuery L tableName opts =
     (if 1 < length (so_select opts) then createQueryForMultipleParams L tableName opts
      else createQueryForSingleParam L tableName opts)"

text \<open>
  What the mapper knows of a table (\<open>metadata.tableName\<close>), and the database as it answers a text.
  \<open>inserted_at\<close> is the column of that name, which the database fills in.
\<close>

record 'r raw_sql =
  tableName :: string
  raw_query :: "nat \<Rightarrow> string \<Rightarrow> 'r list \<Rightarrow> exn + 'r list"
  text_columns :: "string list"
  text_column :: "string \<Rightarrow> 'r \<Rightarrow> string option"     \<comment> \<open>the value in a text column, none for \<open>NULL\<close>\<close>
  inserted_at :: "'r \<Rightarrow> date"

definition findWithPagination ::
  "('r, 'm, 'p) repository \<Rightarrow> ext \<Rightarrow> 'r raw_sql \<Rightarrow> ISearchApiOptions \<Rightarrow> 'm list action" where
  "findWithPagination R L D opts =
     io_bind (query R (\<lambda>n. raw_query D n (rawQuery L (tableName D) opts)))
       (\<lambda>records. io_lift (traverse (deserialize_with R L) records))"

section \<open>The statements that are read\<close>

record select_statement =
  st_table :: string
  st_where :: "(string \<times> string) list"        \<comment> \<open>columns and patterns, of which one is to match\<close>
  st_limit :: nat
  st_offset :: nat

text \<open>The text cut at its quotes: statement text and string literals in turn.\<close>

fun split_quotes :: "string \<Rightarrow> string list" where
  "split_quotes [] = [[]]"
| "split_quotes (c # cs) =
     (if c = CHR 0x27 then [] # split_quotes cs
      else (case split_quotes cs of [] \<Rightarrow> [[c]] | s # ss \<Rightarrow> (c # s) # ss))"

fun strip :: "string \<Rightarrow> string \<Rightarrow> string option" where
  "strip [] s = Some s"
| "strip (c # cs) (d # ds) = (if c = d then strip cs ds else None)"
| "strip _ [] = None"

definition between :: "string \<Rightarrow> string \<Rightarrow> string \<Rightarrow> string option" where
  "between pre suf s =
     (case strip pre s of
        None \<Rightarrow> None
      | Some r \<Rightarrow> map_option rev (strip (rev suf) (rev r)))"

definition is_identifier_char :: "char \<Rightarrow> bool" where
  "is_identifier_char c \<longleftrightarrow> (97::nat) \<le> of_char c \<and> (of_char c :: nat) \<le> 122 \<or> c = CHR ''_''"

definition is_identifier :: "string \<Rightarrow> bool" where
  "is_identifier s \<longleftrightarrow> s \<noteq> [] \<and> list_all is_identifier_char s"

definition identifier_between :: "string \<Rightarrow> string \<Rightarrow> string \<Rightarrow> string option" where
  "identifier_between pre suf s =
     (case between pre suf s of None \<Rightarrow> None | Some i \<Rightarrow> if is_identifier i then Some i else None)"

definition digits :: "string \<Rightarrow> (nat \<times> string) option" where
  "digits s =
     (let ds = takeWhile is_digit s
      in if ds = [] then None else Some (nat_of_digits ds, dropWhile is_digit s))"

definition parse_constraints :: "string \<Rightarrow> (nat \<times> nat) option" where
  "parse_constraints s =
     (case Option.bind (strip '' ORDER BY inserted_at DESC LIMIT '' s) digits of
        None \<Rightarrow> None
      | Some (l, r) \<Rightarrow>
          (case Option.bind (strip '' OFFSET '' r) digits of
             None \<Rightarrow> None
           | Some (n, r') \<Rightarrow> if r' = '';'' then Some (l, n) else None))"

fun parse_conditions :: "string list \<Rightarrow> ((string \<times> string) list \<times> nat \<times> nat) option" where
  "parse_conditions [s] = map_option (Pair []) (parse_constraints s)"
| "parse_conditions (s # p # ss) =
     (case identifier_between '' OR '' '' ILIKE '' s of
        None \<Rightarrow> None
      | Some c \<Rightarrow> map_option (\<lambda>(ps, r). ((c, p) # ps, r)) (parse_conditions ss))"
| "parse_conditions [] = None"

definition parse_head :: "string \<Rightarrow> (string \<times> string) option" where
  "parse_head s =
     (case between ''SELECT * FROM '' '' ILIKE '' s of
        None \<Rightarrow> None
      | Some r \<Rightarrow>
          let t = takeWhile (\<lambda>c. c \<noteq> CHR '' '') r
          in (case strip '' WHERE '' (drop (length t) r) of
                None \<Rightarrow> None
              | Some c \<Rightarrow> if is_identifier t \<and> is_identifier c then Some (t, c) else None))"

definition parse_select :: "string \<Rightarrow> select_statement option" where
  "parse_select s =
     (case split_quotes s of
        h # p # ss \<Rightarrow>
          (case (parse_head h, parse_conditions ss) of
             (Some (t, c), Some (ps, l, n)) \<Rightarrow>
               Some \<lparr>st_table = t, st_where = (c, p) # ps, st_limit = l, st_offset = n\<rparr>
           | _ \<Rightarrow> None)
      | _ \<Rightarrow> None)"

section \<open>What they answer\<close>

text \<open>\<open>LIKE\<close>: \<open>%\<close> stands for any text, \<open>_\<close> for one character, a backslash takes the next one as it is.\<close>

fun like :: "string \<Rightarrow> string \<Rightarrow> bool" where
  "like [] s \<longleftrightarrow> s = []"
| "like (c # p) s \<longleftrightarrow>
     (if c = CHR ''%'' then like p s \<or> (case s of [] \<Rightarrow> False | _ # s' \<Rightarrow> like (c # p) s')
      else case s of
          [] \<Rightarrow> False
        | d # s' \<Rightarrow>
            if c = CHR ''_'' then like p s'
            else if c = CHR 0x5C then (case p of [] \<Rightarrow> False | e # p' \<Rightarrow> d = e \<and> like p' s')
            else c = d \<and> like p s')"

definition lower :: "char \<Rightarrow> char" where
  "lower c = (if (65::nat) \<le> of_char c \<and> (of_char c :: nat) \<le> 90 then char_of (of_char c + (32::nat)) else c)"

definition ilike :: "string \<Rightarrow> string \<Rightarrow> bool" where
  "ilike p s \<longleftrightarrow> like (map lower p) (map lower s)"

definition selected :: "'r raw_sql \<Rightarrow> select_statement \<Rightarrow> 'r \<Rightarrow> bool" where
  "selected D st r \<longleftrightarrow>
     list_ex (\<lambda>(c, p). case text_column D c r of None \<Rightarrow> False | Some v \<Rightarrow> ilike p v) (st_where st)"

definition newest_first :: "'r raw_sql \<Rightarrow> ('r \<Rightarrow> bool) \<Rightarrow> 'r list \<Rightarrow> 'r list \<Rightarrow> bool" where
  "newest_first D p rs ys \<longleftrightarrow>
     mset ys = mset (filter p rs) \<and> sorted_wrt (\<lambda>a b. inserted_at D b \<le> inserted_at D a) ys"

definition readable :: "'r raw_sql \<Rightarrow> select_statement \<Rightarrow> bool" where
  "readable D st \<longleftrightarrow> st_table st = tableName D \<and> fst ` set (st_where st) \<subseteq> set (text_columns D)"

text \<open>The answer to a statement is its page of some order of the selected rows that it asks for.\<close>

definition raw_sql_ok :: "'r raw_sql \<Rightarrow> bool" where
  "raw_sql_ok D \<longleftrightarrow>
     (\<forall>n s st rs xs. parse_select s = Some st \<longrightarrow> readable D st \<longrightarrow> raw_query D n s rs = Inr xs \<longrightarrow>
        (\<exists>ys. newest_first D (selected D st) rs ys \<and> xs = take (st_limit st) (drop (st_offset st) ys)))"

text \<open>A limit and an offset are numbers of 64 bits.\<close>

definition reliable_sql :: "'r raw_sql \<Rightarrow> bool" where
  "reliable_sql D \<longleftrightarrow>
     (\<forall>n s st rs. parse_select s = Some st \<longrightarrow> readable D st \<longrightarrow> st_limit st < 2 ^ 63 \<longrightarrow> st_offset st < 2 ^ 63 \<longrightarrow>
        (\<exists>xs. raw_query D n s rs = Inr xs))"

section \<open>The routes\<close>

text \<open>A parameter of the request's query that is missing is \<open>undefined\<close>.\<close>

definition query_text :: "string option \<Rightarrow> string" where
  "query_text x = (case x of None \<Rightarrow> ''undefined'' | Some s \<Rightarrow> s)"

definition page_offset :: "string option \<Rightarrow> nat \<Rightarrow> js_number" where
  "page_offset page limit =
     (case parseInt (query_text page) of NaN \<Rightarrow> NaN | Num n \<Rightarrow> Num ((n - 1) * of_nat limit))"

definition more_pages :: "nat \<Rightarrow> js_number \<Rightarrow> nat \<Rightarrow> bool" where
  "more_pages allCount offset limit =
     (case offset of NaN \<Rightarrow> False | Num n \<Rightarrow> of_nat allCount > n + of_nat limit)"

record ISelect2FormatObject =
  s2_id :: string
  s2_text :: string

record ISelect2FormatResults =
  s2_results :: "ISelect2FormatObject list"
  s2_more :: bool

definition search_options :: "string list \<Rightarrow> string option \<Rightarrow> string option \<Rightarrow> ISearchApiOptions" where
  "search_options select term page =
     \<lparr>so_select = select, so_query = query_text term, so_offset = page_offset page 10, so_limit = 10,
       so_order = \<lparr>order_by = ''inserted_at'', order_direction = Some DESC\<rparr>\<rparr>"

definition search_client ::
  "ext \<Rightarrow> UserRecord raw_sql \<Rightarrow> string option \<Rightarrow> string option \<Rightarrow> ISelect2FormatResults action" where
  "search_client L D term page =
     io_bind (findWithPagination UserRepository L D (search_options [''id''] term page))
       (\<lambda>paginatedUsers. io_bind (count UserRepository L (\<lambda>_. True))
         (\<lambda>allUserCount. io_return
           \<lparr>s2_results = map (\<lambda>user. \<lparr>s2_id = u_id user, s2_text = u_id user\<rparr>) paginatedUsers,
             s2_more = more_pages allUserCount (page_offset page 10) 10\<rparr>))"

definition offer_text :: "IRebateCriteria \<Rightarrow> string" where
  "offer_text offer =
     (case rc_descriptionForTesting offer of
        None \<Rightarrow> ''Offer '' @ rc_id offer
      | Some s \<Rightarrow> if s = [] then ''Offer '' @ rc_id offer else s)"

definition search_offer ::
  "ext \<Rightarrow> RebateCriteriaRecord raw_sql \<Rightarrow> string option \<Rightarrow> string option \<Rightarrow> ISelect2FormatResults action" where
  "search_offer L D term page =
     io_bind (findWithPagination RebateCriteriaRepository L D
         (search_options [''id'', ''description_for_testing''] term page))
       (\<lambda>paginatedOffers. io_bind (count RebateCriteriaRepository L (\<lambda>_. True))
         (\<lambda>allOfferCount. io_return
           \<lparr>s2_results = map (\<lambda>offer. \<lparr>s2_id = rc_id offer, s2_text = offer_text offer\<rparr>) paginatedOffers,
             s2_more = more_pages allOfferCount (page_offset page 10) 10\<rparr>))"

end
