(* ===== verification/SearchProperties.thy ===== *)
theory SearchProperties
  imports Search Reference "HOL-Library.Sublist"
begin

text \<open>
  What the search of \<open>Search\<close> finds: the statement its text denotes, the pages it answers with, and the text
  it builds for a term with a quote in it.
\<close>

section \<open>The text and its statement\<close>

lemma strip_append [simp]: "strip p (p @ s) = Some s"
  by (induction p) auto

lemma between_append [simp]: "between p q (p @ x @ q) = Some x"
  unfolding between_def by (metis option.map(2) option.simps(5) rev_append rev_rev_ident strip_append)

lemma split_quotes_plain: "CHR 0x27 \<notin> set s \<Longrightarrow> split_quotes s = [s]"
  by (induction s) auto

lemma split_quotes_append: "CHR 0x27 \<notin> set s \<Longrightarrow> split_quotes (s @ CHR 0x27 # t) = s # split_quotes t"
  by (induction s) auto

lemma split_quotes_quoted:
  "CHR 0x27 \<notin> set s \<Longrightarrow> CHR 0x27 \<notin> set p \<Longrightarrow> split_quotes (s @ quoted p @ t) = s # p # split_quotes t"
  using split_quotes_append [of s "p @ CHR 0x27 # t"] split_quotes_append [of p t] by (simp add: quoted_def)

lemma identifier_chars: "is_identifier s \<Longrightarrow> CHR 0x27 \<notin> set s \<and> CHR '' '' \<notin> set s"
  unfolding is_identifier_def list_all_iff is_identifier_char_def by (auto simp: of_char_eq_iff)

lemma parse_head_text:
  assumes "is_identifier t" and "is_identifier c"
  shows "parse_head (''SELECT * FROM '' @ t @ '' WHERE '' @ c @ '' ILIKE '') = Some (t, c)"
proof -
  have b: "between ''SELECT * FROM '' '' ILIKE '' (''SELECT * FROM '' @ t @ '' WHERE '' @ c @ '' ILIKE '') =
      Some (t @ '' WHERE '' @ c)"
    using between_append [of "''SELECT * FROM ''" "'' ILIKE ''" "t @ '' WHERE '' @ c"] by (simp del: between_append)
  have t: "takeWhile (\<lambda>c. c \<noteq> CHR '' '') (t @ '' WHERE '' @ c) = t"
    using identifier_chars [OF assms(1)] by (subst takeWhile_append2) auto
  show ?thesis unfolding parse_head_def b option.case Let_def t using assms by (simp add: strip_append [of "'' WHERE ''", simplified])
qed

lemma digits_text: "(case s of [] \<Rightarrow> True | c # _ \<Rightarrow> \<not> is_digit c) \<Longrightarrow> digits (show_nat n @ s) = Some (n, s)"
  by (cases s) (simp_all add: digits_def show_nat_digits takeWhile_show_nat dropWhile_show_nat)

lemma parse_constraints_text:
  "parse_constraints ('' ORDER BY inserted_at DESC LIMIT '' @ show_nat l @ '' OFFSET '' @ show_nat n @ '';'') = Some (l, n)"
proof -
  have "digits (show_nat l @ '' OFFSET '' @ show_nat n @ '';'') = Some (l, '' OFFSET '' @ show_nat n @ '';'')"
    by (rule digits_text) simp
  moreover have "digits (show_nat n @ '';'') = Some (n, '';'')"
    by (rule digits_text) (simp add: is_digit_def)
  ultimately show ?thesis unfolding parse_constraints_def strip_append by (simp only: Option.bind.simps option.case prod.case strip_append) simp
qed

lemma ilike_segments:
  assumes "CHR 0x27 \<notin> set (s @ c)" and "CHR 0x27 \<notin> set q"
  shows "split_quotes (s @ ilike_text c q @ t) =
    (s @ c @ '' ILIKE '') # (''%'' @ q @ ''%'') # split_quotes (CHR '' '' # t)"
  using split_quotes_quoted [of "s @ c @ '' ILIKE ''" "''%'' @ q @ ''%''" "CHR '' '' # t"] assms
  by (simp add: ilike_text_def)

lemma parse_conditions_text:
  assumes "list_all is_identifier cs" and "CHR 0x27 \<notin> set q"
  shows "parse_conditions (split_quotes ('' '' @ concat (map (\<lambda>c. ''OR '' @ ilike_text c q) cs) @
      ''ORDER BY inserted_at DESC LIMIT '' @ show_nat l @ '' OFFSET '' @ show_nat n @ '';'')) =
    Some (map (\<lambda>c. (c, ''%'' @ q @ ''%'')) cs, l, n)"
  using assms(1)
proof (induction cs)
  case Nil
  have "CHR 0x27 \<notin> set ('' ORDER BY inserted_at DESC LIMIT '' @ show_nat l @ '' OFFSET '' @ show_nat n @ '';'')"
    using show_nat_digits [of "CHR 0x27"] by (auto simp: is_digit_def)
  from split_quotes_plain [OF this] parse_constraints_text [of l n] show ?case by simp
next
  case (Cons c cs)
  have c: "is_identifier c" and cs: "list_all is_identifier cs" using Cons.prems by simp_all
  have i: "identifier_between '' OR '' '' ILIKE '' ('' OR '' @ c @ '' ILIKE '') = Some c"
    unfolding identifier_between_def between_append using c by simp
  show ?case
    using ilike_segments [of "'' OR ''" c, OF _ assms(2)] identifier_chars [OF c] Cons.IH [OF cs] i by simp
qed

text \<open>The columns that are searched: of more than two, the last is left out.\<close>

definition searched_columns :: "string list \<Rightarrow> string list" where
  "searched_columns cs = (if 1 < length cs then cs ! 1 # butlast cs else cs)"

lemma rawQuery_altdef:
  assumes "so_select opts \<noteq> []"
  shows "rawQuery L t opts =
    (''SELECT * FROM '' @ t @ '' WHERE '') @ ilike_text (hd (searched_columns (so_select opts))) (so_query opts) @
    concat (map (\<lambda>c. ''OR '' @ ilike_text c (so_query opts)) (tl (searched_columns (so_select opts)))) @
    constraints_text L opts"
proof (cases "1 < length (so_select opts)")
  case True
  have "butlast (so_select opts) = map ((!) (so_select opts)) [0..<length (tl (so_select opts))]"
    by (rule nth_equalityI) (simp_all add: nth_butlast)
  with True show ?thesis
    by (simp add: rawQuery_def createQueryForMultipleParams_def searched_columns_def comp_def)
next
  case False
  with assms obtain c where "so_select opts = [c]" by (cases "so_select opts") auto
  then show ?thesis by (simp add: rawQuery_def createQueryForSingleParam_def searched_columns_def)
qed

lemma searched_identifiers:
  assumes "cs \<noteq> []" and "list_all is_identifier cs"
  shows "is_identifier (hd (searched_columns cs))" and "list_all is_identifier (tl (searched_columns cs))"
  using assms by (auto simp: searched_columns_def list_all_iff hd_conv_nth dest: in_set_butlastD list.set_sel(2))

lemma rawQuery_parses:
  assumes "so_select opts \<noteq> []" and "list_all is_identifier (so_select opts)" and "is_identifier t"
    and "CHR 0x27 \<notin> set (so_query opts)" and "so_offset opts = Num (of_nat n)"
    and "so_order opts = \<lparr>order_by = ''inserted_at'', order_direction = Some DESC\<rparr>"
  shows "parse_select (rawQuery L t opts) =
    Some \<lparr>st_table = t, st_where = map (\<lambda>c. (c, ''%'' @ so_query opts @ ''%'')) (searched_columns (so_select opts)),
      st_limit = so_limit opts, st_offset = n\<rparr>"
proof -
  let ?c = "hd (searched_columns (so_select opts))" and ?cs = "tl (searched_columns (so_select opts))"
  note cols = searched_identifiers [OF assms(1,2)]
  have ne: "?c # ?cs = searched_columns (so_select opts)" using assms(1) by (simp add: searched_columns_def)
  have con: "constraints_text L opts = ''ORDER BY inserted_at DESC LIMIT '' @ show_nat (so_limit opts) @
      '' OFFSET '' @ show_nat n @ '';''"
    using number_toString_nat [of "show_fraction L" n] assms(5,6) by (simp add: constraints_text_def direction_text_def)
  have "split_quotes (rawQuery L t opts) = (''SELECT * FROM '' @ t @ '' WHERE '' @ ?c @ '' ILIKE '') #
      (''%'' @ so_query opts @ ''%'') # split_quotes ('' '' @ concat (map (\<lambda>c. ''OR '' @ ilike_text c (so_query opts)) ?cs) @
        constraints_text L opts)"
    unfolding rawQuery_altdef [OF assms(1)]
    using ilike_segments [of "''SELECT * FROM '' @ t @ '' WHERE ''" ?c, OF _ assms(4)]
      identifier_chars [OF cols(1)] identifier_chars [OF assms(3)] by simp
  then have "parse_select (rawQuery L t opts) = Some \<lparr>st_table = t,
      st_where = map (\<lambda>c. (c, ''%'' @ so_query opts @ ''%'')) (?c # ?cs), st_limit = so_limit opts, st_offset = n\<rparr>"
    unfolding parse_select_def con parse_conditions_text [OF cols(2) assms(4)]
    by (simp only: list.case parse_head_text [OF assms(3) cols(1)] option.case prod.case list.map
        parse_conditions_text [OF cols(2) assms(4)])
  then show ?thesis unfolding ne .
qed

section \<open>What a term matches\<close>

definition plain_term :: "string \<Rightarrow> bool" where
  "plain_term q \<longleftrightarrow> set q \<inter> {CHR 0x27, CHR ''%'', CHR ''_'', CHR 0x5C} = {}"

definition mentions :: "string \<Rightarrow> string \<Rightarrow> bool" where
  "mentions q s \<longleftrightarrow> sublist (map lower q) (map lower s)"

declare like.simps(2) [simp del]

lemma like_percent: "like (CHR ''%'' # p) s \<longleftrightarrow> (\<exists>a b. s = a @ b \<and> like p b)"
proof (induction s)
  case Nil
  then show ?case by (simp add: like.simps(2))
next
  case (Cons c s)
  have "like (CHR ''%'' # p) (c # s) \<longleftrightarrow> like p (c # s) \<or> like (CHR ''%'' # p) s"
    by (subst like.simps(2)) simp
  also have "\<dots> \<longleftrightarrow> (\<exists>a b. c # s = a @ b \<and> like p b)"
    unfolding Cons.IH by (auto simp: Cons_eq_append_conv)
  finally show ?case .
qed

lemma like_plain: "plain_term q \<Longrightarrow> like (q @ p) s \<longleftrightarrow> (\<exists>t. s = q @ t \<and> like p t)"
proof (induction q arbitrary: s)
  case (Cons c q)
  then have c: "c \<noteq> CHR ''%''" "c \<noteq> CHR ''_''" "c \<noteq> CHR 0x5C" and q: "plain_term q" by (auto simp: plain_term_def)
  show ?case
  proof (cases s)
    case (Cons d s')
    have "like ((c # q) @ p) s \<longleftrightarrow> c = d \<and> like (q @ p) s'"
      unfolding append_Cons Cons by (subst like.simps(2)) (simp add: c)
    with Cons show ?thesis unfolding Cons.IH [OF q] by auto
  qed (use c in \<open>simp add: like.simps(2)\<close>)
qed simp

lemma lower_special:
  assumes "lower c \<in> {CHR 0x27, CHR ''%'', CHR ''_'', CHR 0x5C}"
  shows "lower c = c"
proof (cases "(65::nat) \<le> of_char c \<and> (of_char c :: nat) \<le> 90")
  case True
  then have "(of_char (lower c) :: nat) = of_char c + 32" by (simp add: lower_def)
  with True assms show ?thesis by auto
qed (auto simp: lower_def)

lemma ilike_plain:
  assumes "plain_term q"
  shows "ilike (''%'' @ q @ ''%'') s \<longleftrightarrow> mentions q s"
proof -
  have q: "plain_term (map lower q)"
    using assms lower_special unfolding plain_term_def disjoint_iff set_map by (metis image_iff)
  have percent: "lower CHR ''%'' = CHR ''%''" by (simp add: lower_def)
  have any: "like ''%'' t" for t
    unfolding like_percent by (rule exI [of _ t], rule exI [of _ "[]"]) simp
  have "ilike (''%'' @ q @ ''%'') s \<longleftrightarrow> like (CHR ''%'' # map lower q @ ''%'') (map lower s)"
    by (simp add: ilike_def percent del: like.simps)
  also have "\<dots> \<longleftrightarrow> (\<exists>a b. map lower s = a @ b \<and> (\<exists>t. b = map lower q @ t \<and> like ''%'' t))"
    by (simp only: like_percent [of "map lower q @ ''%''"] like_plain [OF q])
  also have "\<dots> \<longleftrightarrow> mentions q s" using any by (auto simp: mentions_def sublist_def)
  finally show ?thesis .
qed

section \<open>Pages\<close>

lemma newest_first_exists: "\<exists>us. newest_first D p rs us"
proof
  let ?us = "sort_key (\<lambda>r. - inserted_at D r) (filter p rs)"
  have "sorted (map (\<lambda>r. - inserted_at D r) ?us)" by simp
  then have "sorted_wrt (\<lambda>a b. inserted_at D b \<le> inserted_at D a) ?us" unfolding sorted_map by simp
  then show "newest_first D p rs ?us" by (simp add: newest_first_def)
qed

lemma newest_first_unique:
  assumes "newest_first D p rs us" and "newest_first D p rs vs" and "inj_on (inserted_at D) (set rs)"
  shows "us = vs"
proof -
  let ?f = "\<lambda>r. - inserted_at D r"
  have m: "mset us = mset vs" using assms(1,2) by (simp add: newest_first_def)
  have s: "set us \<union> set vs \<subseteq> set rs"
    using assms(1,2) mset_eq_set [of us "filter p rs"] mset_eq_set [of vs "filter p rs"] by (auto simp: newest_first_def)
  have "sorted (map ?f us)" and "sorted (map ?f vs)"
    using assms(1,2) by (simp_all add: newest_first_def sorted_map)
  moreover have "mset (map ?f us) = mset (map ?f vs)" using m by simp
  ultimately have "map ?f us = map ?f vs" by (metis properties_for_sort)
  moreover have "inj_on ?f (set us \<union> set vs)" using inj_on_subset [OF assms(3) s] by (simp add: inj_on_def)
  ultimately show ?thesis by (rule map_inj_on)
qed

definition page_of :: "'a list \<Rightarrow> nat \<Rightarrow> 'a list" where
  "page_of xs n = take 10 (drop (10 * (n - 1)) xs)"


lemma findWithPagination_page:
  assumes "raw_sql_ok D" and "reliable_sql D"
    and "parse_select (rawQuery L (tableName D) opts) = Some st" and "readable D st"
    and "st_limit st < 2 ^ 63" and "st_offset st < 2 ^ 63"
    and "\<And>r. deserialize_with R L r = Inr (g r)"
    and "newest_first D (selected D st) (rows_of R (store w)) us"
    and "inj_on (inserted_at D) (set (rows_of R (store w)))"
  shows "findWithPagination R L D opts w = (Inr (map g (take (st_limit st) (drop (st_offset st) us))), tick w)"
proof -
  let ?q = "raw_query D (calls w) (rawQuery L (tableName D) opts) (rows_of R (store w))"
  obtain xs where xs: "?q = Inr xs" using assms(2-6) unfolding reliable_sql_def by blast
  then obtain ys where "newest_first D (selected D st) (rows_of R (store w)) ys"
    and "xs = take (st_limit st) (drop (st_offset st) ys)"
    using assms(1,3,4) unfolding raw_sql_ok_def by blast
  with newest_first_unique [OF _ assms(8,9)] have "xs = take (st_limit st) (drop (st_offset st) us)" by blast
  moreover have "traverse (deserialize_with R L) xs = Inr (map g xs)" by (simp add: traverse_Inr assms(7))
  ultimately show ?thesis using xs by (simp add: findWithPagination_def io_simps)
qed

section \<open>The two tables\<close>

definition users_sql :: "UserRecord raw_sql \<Rightarrow> bool" where
  "users_sql D \<longleftrightarrow>
     raw_sql_ok D \<and> reliable_sql D \<and> tableName D = ''users'' \<and> ''id'' \<in> set (text_columns D) \<and>
     (\<forall>r. text_column D ''id'' r = Some (ur_id r))"


definition client_entry :: "UserRecord \<Rightarrow> ISelect2FormatObject" where
  "client_entry r = \<lparr>s2_id = ur_id r, s2_text = ur_id r\<rparr>"


lemma page_offset_nat: "1 \<le> n \<Longrightarrow> page_offset (Some (show_nat n)) 10 = Num (of_nat (10 * (n - Suc 0)))"
  by (simp add: page_offset_def query_text_def of_nat_diff)

lemma more_pages_nat: "1 \<le> n \<Longrightarrow> more_pages k (Num (of_nat (10 * (n - Suc 0)))) 10 \<longleftrightarrow> 10 * n < k"
proof -
  assume "1 \<le> n"
  then have "(of_nat (10 * (n - Suc 0)) + of_nat 10 :: rat) = of_nat (10 * n)"
    unfolding of_nat_add [symmetric] by (simp add: algebra_simps)
  then show ?thesis unfolding more_pages_def js_number.case by (simp only: of_nat_less_iff)
qed

text \<open>A search over a table: \<open>st\<close> is the statement of its text.\<close>

lemma searched:
  assumes "raw_sql_ok D" and "reliable_sql D"
    and "parse_select (rawQuery L (tableName D) opts) = Some st" and "readable D st"
    and "st_limit st = 10" and "st_offset st = 10 * (n - 1)" and "1 \<le> n" and "10 * n < 2 ^ 63"
    and "\<And>r. deserialize_with R L r = Inr (g r)"
    and "newest_first D (selected D st) (rows_of R (store w)) us"
    and "inj_on (inserted_at D) (set (rows_of R (store w)))"
    and "orm_reads matches (orm_of R L)" and "reliable_orm v a (orm_of R L)"
  shows "io_bind (findWithPagination R L D opts) (\<lambda>xs. io_bind (count R L (\<lambda>_. True)) (\<lambda>k. io_return (f xs k))) w =
    (Inr (f (map g (page_of us n)) (length (rows_of R (store w)))), tick (tick w))"
proof -
  have "findWithPagination R L D opts w = (Inr (map g (page_of us n)), tick w)"
    using findWithPagination_page [OF assms(1-4) _ _ assms(9-11)] assms(5-8) by (simp add: page_of_def)
  moreover obtain k where k: "orm_count (orm_of R L) (calls (tick w)) (\<lambda>_. True) (rows_of R (store w)) = Inr k"
    using reliable_count [OF assms(13)] by blast
  moreover from orm_count_length [OF assms(12) k] have "k = length (rows_of R (store w))" by simp
  ultimately show ?thesis by (simp add: io_bind_apply count_apply)
qed

definition client_statement :: "string list \<Rightarrow> nat \<Rightarrow> select_statement" where
  "client_statement ps n =
     \<lparr>st_table = ''users'', st_where = map (Pair ''id'') ps, st_limit = 10, st_offset = 10 * (n - 1)\<rparr>"

lemma client_page:
  assumes "ext_ok L" and "reliable L" and "users_sql D" and "inj_on (inserted_at D) (set (users (store w)))"
    and "1 \<le> n" and "10 * n < 2 ^ 63"
    and "parse_select (rawQuery L ''users'' (search_options [''id''] (Some term) (Some (show_nat n)))) =
      Some (client_statement ps n)"
    and "newest_first D (\<lambda>r. \<exists>p\<in>set ps. ilike p (ur_id r)) (users (store w)) us"
  shows "search_client L D (Some term) (Some (show_nat n)) w =
    (Inr \<lparr>s2_results = map client_entry (page_of us n), s2_more = 10 * n < length (users (store w))\<rparr>, tick (tick w))"
proof -
  have D: "raw_sql_ok D" "reliable_sql D" "tableName D = ''users''" and r: "readable D (client_statement ps n)"
    and c: "\<And>r. text_column D ''id'' r = Some (ur_id r)"
    using assms(3) by (auto simp: users_sql_def readable_def client_statement_def)
  have s: "selected D (client_statement ps n) = (\<lambda>r. \<exists>p\<in>set ps. ilike p (ur_id r))"
    by (simp add: fun_eq_iff selected_def client_statement_def c list_ex_iff)
  let ?g = "\<lambda>r. projr (UserSerializer_deserialize L r)"
    and ?f = "\<lambda>xs k. \<lparr>s2_results = map (\<lambda>user. \<lparr>s2_id = u_id user, s2_text = u_id user\<rparr>) xs,
      s2_more = more_pages k (page_offset (Some (show_nat n)) 10) 10\<rparr>"
  have "search_client L D (Some term) (Some (show_nat n)) w =
      (Inr (?f (map ?g (page_of us n)) (length (rows_of UserRepository (store w)))), tick (tick w))"
    unfolding search_client_def
    by (rule searched [OF D(1,2) assms(7) [folded D(3)] r _ _ assms(5,6), where g = ?g
          and v = "\<lambda>_. True" and matches = "\<lambda>i r. ur_id r = i"])
      (use users_reads [OF assms(1)] reliable_users [OF assms(2)] assms(4,8) s in
        \<open>simp_all add: UserRepository_def UserSerializer_deserialize_def client_statement_def\<close>)
  then show ?thesis
    by (simp add: UserRepository_def UserSerializer_deserialize_def page_offset_nat [OF assms(5)]
        more_pages_nat [OF assms(5)] client_entry_def comp_def del: of_nat_mult)
qed




section \<open>Properties\<close>

lemma plain_unquoted: "plain_term q \<Longrightarrow> CHR 0x27 \<notin> set q"
  by (auto simp: plain_term_def)

lemma client_text_parses:
  assumes "CHR 0x27 \<notin> set term" and "1 \<le> n"
  shows "parse_select (rawQuery L ''users'' (search_options [''id''] (Some term) (Some (show_nat n)))) =
    Some (client_statement [''%'' @ term @ ''%''] n)"
proof -
  have "is_identifier ''id''" and "is_identifier ''users''" by (simp_all add: is_identifier_def is_identifier_char_def)
  then show ?thesis
    using assms page_offset_nat [OF assms(2)]
    by (subst rawQuery_parses [where n = "10 * (n - 1)"])
      (simp_all add: search_options_def query_text_def searched_columns_def client_statement_def)
qed


lemma quoted_text_parses:
  assumes "CHR 0x27 \<notin> set a" and "CHR 0x27 \<notin> set b" and "1 \<le> n"
  shows "parse_select (rawQuery L ''users'' (search_options [''id'']
      (Some (a @ ''%'' @ CHR 0x27 # '' OR id ILIKE '' @ CHR 0x27 # ''%'' @ b)) (Some (show_nat n)))) =
    Some (client_statement [''%'' @ a @ ''%'', ''%'' @ b @ ''%''] n)"
proof -
  let ?tail = "'' '' @ (''OR '' @ ilike_text ''id'' b) @
      ''ORDER BY inserted_at DESC LIMIT '' @ show_nat 10 @ '' OFFSET '' @ show_nat (10 * (n - 1)) @ '';''"
  have con: "parse_conditions (split_quotes ?tail) = Some ([(''id'', ''%'' @ b @ ''%'')], 10, 10 * (n - 1))"
    using parse_conditions_text [of "[''id'']" b 10 "10 * (n - 1)"] assms(2)
    by (simp add: is_identifier_def is_identifier_char_def)
  have h: "parse_head ''SELECT * FROM users WHERE id ILIKE '' = Some (''users'', ''id'')" by code_simp
  have "rawQuery L ''users'' (search_options [''id'']
      (Some (a @ ''%'' @ CHR 0x27 # '' OR id ILIKE '' @ CHR 0x27 # ''%'' @ b)) (Some (show_nat n))) =
      ''SELECT * FROM users WHERE id ILIKE '' @ quoted (''%'' @ a @ ''%'') @ ?tail"
    using page_offset_nat [OF assms(3)] number_toString_nat [of "show_fraction L" "10 * (n - 1)"]
    by (simp add: rawQuery_def createQueryForSingleParam_def search_options_def query_text_def ilike_text_def quoted_def
        constraints_text_def direction_text_def del: number_toString_nat of_nat_mult)
  moreover have "split_quotes (''SELECT * FROM users WHERE id ILIKE '' @ quoted (''%'' @ a @ ''%'') @ ?tail) =
      ''SELECT * FROM users WHERE id ILIKE '' # (''%'' @ a @ ''%'') # split_quotes ?tail"
    by (rule split_quotes_quoted) (use assms(1) in simp_all)
  ultimately show ?thesis
    unfolding parse_select_def by (simp only: list.case con h option.case prod.case client_statement_def list.map)
qed

text \<open>A database as the routes need it, over lists.\<close>

definition ref_sql :: "string \<Rightarrow> string list \<Rightarrow> (string \<Rightarrow> 'r \<Rightarrow> string option) \<Rightarrow> ('r \<Rightarrow> date) \<Rightarrow> 'r raw_sql" where
  "ref_sql t cs col ins =
     (let D = \<lparr>tableName = t, raw_query = (\<lambda>_ _ _. Inl (DbError ''syntax error'')), text_columns = cs,
                text_column = col, inserted_at = ins\<rparr>
      in D\<lparr>raw_query := (\<lambda>n s rs.
            case parse_select s of
              None \<Rightarrow> Inl (DbError ''syntax error'')
            | Some st \<Rightarrow> Inr (take (st_limit st) (drop (st_offset st)
                (sort_key (\<lambda>r. - ins r) (filter (selected D st) rs)))))\<rparr>)"

lemma ref_sql_simps [simp]:
  "tableName (ref_sql t cs col ins) = t" "text_columns (ref_sql t cs col ins) = cs"
  "text_column (ref_sql t cs col ins) = col" "inserted_at (ref_sql t cs col ins) = ins"
  by (simp_all add: ref_sql_def Let_def)

lemma ref_sql_ok [simp]: "raw_sql_ok (ref_sql t cs col ins)" "reliable_sql (ref_sql t cs col ins)"
proof -
  have "sorted_wrt (\<lambda>a b. ins b \<le> ins a) (sort_key (\<lambda>r. - ins r) rs)" for rs
    using sorted_sort_key [of "\<lambda>r. - ins r" rs] unfolding sorted_map by simp
  then show "raw_sql_ok (ref_sql t cs col ins)" "reliable_sql (ref_sql t cs col ins)"
    unfolding raw_sql_ok_def reliable_sql_def newest_first_def ref_sql_def Let_def selected_def [abs_def]
    by (auto intro!: exI [of _ "sort_key (\<lambda>r. - ins r) _"])
qed

text \<open>
  C33.  On a working system, where no two clients were inserted at the same moment, the search for clients
  answers with exactly the clients whose identifier contains the term, whatever the case of its letters,
  newest first, ten to a page, for every term without a quote, a wildcard or a backslash.
\<close>

theorem client_search_pages:
  assumes "ext_ok L" and "reliable L" and "users_sql D" and "inj_on (inserted_at D) (set (users d))" and "plain_term term"
  shows "\<exists>us. newest_first D (\<lambda>r. mentions term (ur_id r)) (users d) us \<and>
    (\<forall>n w. 1 \<le> n \<and> 10 * n < 2 ^ 63 \<and> store w = d \<longrightarrow>
      result_of (search_client L D (Some term) (Some (show_nat n))) w =
        Inr \<lparr>s2_results = map client_entry (page_of us n), s2_more = 10 * n < length (users d)\<rparr>)"
proof -
  obtain us where us: "newest_first D (\<lambda>r. mentions term (ur_id r)) (users d) us" using newest_first_exists by blast
  then have us': "newest_first D (\<lambda>r. \<exists>p\<in>set [''%'' @ term @ ''%'']. ilike p (ur_id r)) (users d) us"
    using ilike_plain [OF assms(5)] by simp
  show ?thesis
  proof (intro exI [of _ us] conjI us allI impI)
    fix n :: nat and w :: world assume n: "1 \<le> n \<and> 10 * n < 2 ^ 63 \<and> store w = d"
    with client_page [OF assms(1-3) _ _ _ client_text_parses [OF plain_unquoted [OF assms(5)]], of w n us] assms(4) us'
    show "result_of (search_client L D (Some term) (Some (show_nat n))) w =
        Inr \<lparr>s2_results = map client_entry (page_of us n), s2_more = 10 * n < length (users d)\<rparr>"
      by simp
  qed
qed

definition client_rows :: "string list \<Rightarrow> UserRecord list" where
  "client_rows = map (\<lambda>i. (UserSerializer_serialize sample_user)\<lparr>ur_id := i\<rparr>)"

definition ref_users_sql :: "UserRecord raw_sql" where
  "ref_users_sql = ref_sql ''users'' [''id''] (\<lambda>_ r. Some (ur_id r)) (\<lambda>r. int (length (ur_id r)))"

lemma ref_users_sql_ok: "users_sql ref_users_sql"
  by (simp add: users_sql_def ref_users_sql_def)

definition search_world :: world where
  "search_world = \<lparr>calls = 0, store = empty_db\<lparr>users := client_rows [''Joanna'', ''bob'', ''Ann Lee'']\<rparr>\<rparr>"

lemma search_world_inserted: "inj_on (inserted_at ref_users_sql) (set (users (store search_world)))"
  by (simp add: ref_users_sql_def search_world_def client_rows_def inj_on_def)

lemma client_search_pages_witness:
  "\<exists>us. newest_first ref_users_sql (\<lambda>r. mentions ''aNn'' (ur_id r)) (users (store search_world)) us \<and>
    result_of (search_client ref_ext ref_users_sql (Some ''aNn'') (Some (show_nat 1))) search_world =
      Inr \<lparr>s2_results = map client_entry (page_of us 1), s2_more = False\<rparr>"
proof -
  have "plain_term ''aNn''" by (simp add: plain_term_def)
  from client_search_pages [OF ref_ext_ok ref_reliable ref_users_sql_ok search_world_inserted this]
  obtain us where "newest_first ref_users_sql (\<lambda>r. mentions ''aNn'' (ur_id r)) (users (store search_world)) us"
    and "result_of (search_client ref_ext ref_users_sql (Some ''aNn'') (Some (show_nat 1))) search_world =
      Inr \<lparr>s2_results = map client_entry (page_of us 1), s2_more = 10 * 1 < length (users (store search_world))\<rparr>"
    by fastforce
  then show ?thesis by (intro exI [of _ us]) (simp add: search_world_def client_rows_def)
qed






text \<open>
  C35.  A quote in the term ends the string the term is put into, and what follows is read as SQL: the search
  for \<open>a%' OR id ILIKE '%b\<close> answers with the clients whose identifier contains \<open>a\<close> or \<open>b\<close>, which need
  not contain what was searched for.
\<close>

theorem quoted_term_is_read_as_sql:
  assumes "ext_ok L" and "reliable L" and "users_sql D" and "inj_on (inserted_at D) (set (users d))"
    and "plain_term a" and "plain_term b"
  shows "\<exists>us. newest_first D (\<lambda>r. mentions a (ur_id r) \<or> mentions b (ur_id r)) (users d) us \<and>
    (\<forall>n w. 1 \<le> n \<and> 10 * n < 2 ^ 63 \<and> store w = d \<longrightarrow>
      result_of (search_client L D (Some (a @ ''%'' @ CHR 0x27 # '' OR id ILIKE '' @ CHR 0x27 # ''%'' @ b))
        (Some (show_nat n))) w =
        Inr \<lparr>s2_results = map client_entry (page_of us n), s2_more = 10 * n < length (users d)\<rparr>)"
proof -
  obtain us where us: "newest_first D (\<lambda>r. mentions a (ur_id r) \<or> mentions b (ur_id r)) (users d) us"
    using newest_first_exists by blast
  then have us': "newest_first D (\<lambda>r. \<exists>p\<in>set [''%'' @ a @ ''%'', ''%'' @ b @ ''%'']. ilike p (ur_id r)) (users d) us"
    using ilike_plain [OF assms(5)] ilike_plain [OF assms(6)] by simp
  show ?thesis
  proof (intro exI [of _ us] conjI us allI impI)
    fix n :: nat and w :: world assume n: "1 \<le> n \<and> 10 * n < 2 ^ 63 \<and> store w = d"
    with client_page [OF assms(1-3) _ _ _ quoted_text_parses [OF plain_unquoted [OF assms(5)] plain_unquoted [OF assms(6)]],
        of w n us] assms(4) us'
    show "result_of (search_client L D (Some (a @ ''%'' @ CHR 0x27 # '' OR id ILIKE '' @ CHR 0x27 # ''%'' @ b))
        (Some (show_nat n))) w =
        Inr \<lparr>s2_results = map client_entry (page_of us n), s2_more = 10 * n < length (users d)\<rparr>"
      by simp
  qed
qed

lemma quoted_term_is_read_as_sql_witness:
  "\<exists>us. mset us = mset (client_rows [''Joanna'', ''bob'']) \<and>
    result_of (search_client ref_ext ref_users_sql
        (Some (''ob%'' @ CHR 0x27 # '' OR id ILIKE '' @ CHR 0x27 # ''%oa'')) (Some (show_nat 1))) search_world =
      Inr \<lparr>s2_results = map client_entry (page_of us 1), s2_more = False\<rparr>"
proof -
  have "plain_term ''ob''" and "plain_term ''oa''" by (simp_all add: plain_term_def)
  from quoted_term_is_read_as_sql [OF ref_ext_ok ref_reliable ref_users_sql_ok search_world_inserted this]
  obtain us where us: "newest_first ref_users_sql (\<lambda>r. mentions ''ob'' (ur_id r) \<or> mentions ''oa'' (ur_id r))
      (users (store search_world)) us"
    and r: "result_of (search_client ref_ext ref_users_sql
        (Some (''ob%'' @ CHR 0x27 # '' OR id ILIKE '' @ CHR 0x27 # ''%oa'')) (Some (show_nat 1))) search_world =
      Inr \<lparr>s2_results = map client_entry (page_of us 1), s2_more = 10 * 1 < length (users (store search_world))\<rparr>"
    by fastforce
  have "mentions ''ob'' ''bob''" "mentions ''oa'' ''Joanna''" "\<not> mentions ''ob'' ''Ann Lee''" "\<not> mentions ''oa'' ''Ann Lee''"
    by code_simp+
  with us have "mset us = mset (client_rows [''Joanna'', ''bob''])"
    by (simp add: newest_first_def search_world_def client_rows_def)
  with r show ?thesis by (intro exI [of _ us]) (simp add: search_world_def client_rows_def)
qed

end
