(* ===== verification/Clients.thy ===== *)
theory Clients
  imports Reliable Reference
begin

text \<open>
  The pages for the clients and their history (\<open>app/web/routes/clients.ts\<close>) and the operations on single
  records of the user ledger that only they use (\<open>updateUserLedgerRecord\<close>, \<open>deleteAllUsersHistory\<close> of
  \<open>user_ledger_repository.ts\<close>).  A handler is an action whose value is the response.

  A handler that raises sends no response.  The views are templates outside the model: a rendered view is its
  name, its title and the data it is given.
\<close>

section \<open>Requests and responses\<close>

datatype 'v response = Render string string 'v | Redirect string | Download string | End

text \<open>
  A field of a form: \<open>undefined\<close> when the browser does not send it, and a list when it is sent more than once.
\<close>

datatype form_value = Absent | Text string | Texts "string list"

definition form_truthy :: "form_value \<Rightarrow> bool" where
  "form_truthy v = (case v of Absent \<Rightarrow> False | Text s \<Rightarrow> s \<noteq> [] | Texts ss \<Rightarrow> True)"

text \<open>A single value is made a list of one.\<close>

definition form_list :: "form_value \<Rightarrow> string list option" where
  "form_list v = (case v of Absent \<Rightarrow> None | Text s \<Rightarrow> Some [s] | Texts ss \<Rightarrow> Some ss)"

definition or_none :: "'a list option \<Rightarrow> 'a list" where
  "or_none v = (case v of None \<Rightarrow> [] | Some xs \<Rightarrow> xs)"

record client_form =
  cf_userId :: string
  cf_linkedOfferIds :: form_value
  cf_targetedOfferIds :: form_value
  cf_optedInOffers :: "IOptInFileOffer list option"
  cf_isEnrolled :: form_value
  cf_isBlacklisted :: form_value

text \<open>
  What the pages use of the outside: the first rows of a table in the order of their insertion, dates read by
  the database (\<open>to_timestamp\<close>) and by \<open>new Date\<close>, which may be invalid.
\<close>

record web_ext =
  newest_users :: "nat \<Rightarrow> nat \<Rightarrow> UserRecord list \<Rightarrow> exn + UserRecord list"
  to_timestamp :: "string \<Rightarrow> date"
  new_Date :: "string \<Rightarrow> date option"
  toISOString :: "date \<Rightarrow> string"
  date_toString :: "date \<Rightarrow> string"

section \<open>Single records of the ledger\<close>

text \<open>An entry of the object merged into a record; a time stamp may be an invalid date.\<close>

datatype ledger_entry = UpdateTimestamp "date option"

text \<open>An invalid date reaches the database as the text \<open>Invalid Date\<close>, which no time stamp column takes.\<close>

definition updateUserLedgerRecord :: "ext \<Rightarrow> string \<Rightarrow> date \<Rightarrow> ledger_entry \<Rightarrow> unit action" where
  "updateUserLedgerRecord L user_id update_timestamp entry =
     io_bind (findUserLedgerRecord L user_id update_timestamp)
       (\<lambda>user. case entry of
            UpdateTimestamp None \<Rightarrow>
              request (\<lambda>_. Inl (DbError ''invalid input syntax for type timestamp with time zone''))
          | UpdateTimestamp (Some t) \<Rightarrow>
              io_bind (io_lift (UserLedgerSerializer_deserialize L
                  \<lparr>lr_user_id = ul_userId user, lr_update_timestamp = t,
                    lr_user_info =
                      \<lparr>ui_targeted_offers = ul_targetedOffers user, ui_linked_offers = ul_linkedOffers user,
                        ui_is_enrolled = ul_isEnrolledToMyOffers user\<rparr>\<rparr>))
                (\<lambda>ledgerUserRecord.
                  io_then (insert UserLedgerRepository L ledgerUserRecord)
                    (deleteUserLedgerRecord L user_id update_timestamp)))"

text \<open>
  One deletion of the user's rows for every row of the whole table.  They are sent without being awaited: a
  failure of one is reported to nobody, and all of them are taken to be answered when the function returns.
\<close>

definition deleteAllUsersHistory :: "ext \<Rightarrow> string \<Rightarrow> unit action" where
  "deleteAllUsersHistory L user_id =
     io_bind (findAll UserLedgerRepository L (\<lambda>_. True))
       (\<lambda>allUserLedgers. io_for allUserLedgers
         (\<lambda>_. io_try (bulkDeleteWhere UserLedgerRepository L (\<lambda>r. lr_user_id r = user_id)) (\<lambda>_. io_return ())))"

section \<open>Clients\<close>

definition get_clients :: "ext \<Rightarrow> web_ext \<Rightarrow> IUser list response action" where
  "get_clients L X =
     io_bind (query UserRepository (\<lambda>n. newest_users X n 500))
       (\<lambda>records. io_bind (io_lift (traverse (deserialize_with UserRepository L) records))
         (\<lambda>us. io_return (Render ''clients/index'' ''Clients'' us)))"

definition get_clients_new :: "ext \<Rightarrow> IRebateCriteria list response action" where
  "get_clients_new L =
     io_bind (findAll RebateCriteriaRepository L (\<lambda>_. True))
       (\<lambda>rebateCriterias. io_return (Render ''clients/new'' ''New client'' rebateCriterias))"

definition get_clients_edit :: "ext \<Rightarrow> string \<Rightarrow> (string list \<times> string) response action" where
  "get_clients_edit L i =
     io_bind (findAll RebateCriteriaRepository L (\<lambda>_. True))
       (\<lambda>rebateCriterias. io_return
          (Render ''clients/edit'' ''Edit Offers for Client'' (map rc_id rebateCriterias, i)))"

text \<open>The state of a client as it is put into the ledger, at the time \<open>t\<close>, whole seconds.\<close>

definition ledger_state ::
  "string \<Rightarrow> date \<Rightarrow> string list option \<Rightarrow> string list option \<Rightarrow> bool \<Rightarrow> UserLedgerRecord" where
  "ledger_state userId t targeted linked enrolled =
     \<lparr>lr_user_id = userId, lr_update_timestamp = toUTCString_seconds t,
       lr_user_info =
         \<lparr>ui_targeted_offers = targeted, ui_linked_offers = linked, ui_is_enrolled = Some enrolled\<rparr>\<rparr>"

definition edited_user :: "client_form \<Rightarrow> IUser \<Rightarrow> IUser" where
  "edited_user form user =
     \<lparr>u_id = cf_userId form, u_linkedOfferIds = or_none (form_list (cf_linkedOfferIds form)),
       u_targetedOfferIds = or_none (form_list (cf_targetedOfferIds form)),
       u_optInFileOffers = or_none (cf_optedInOffers form), u_isEnrolled = u_isEnrolled user,
       u_isBlacklisted = form_truthy (cf_isBlacklisted form), u_creditCardProducts = [], u_debitCardProducts = []\<rparr>"

definition post_clients_edit :: "ext \<Rightarrow> client_form \<Rightarrow> unit response action" where
  "post_clients_edit L form =
     io_bind (findOrFail UserRepository L (cf_userId form))
       (\<lambda>user. io_bind (now L)
         (\<lambda>t. io_bind (io_lift (UserLedgerSerializer_deserialize L
               (ledger_state (cf_userId form) t (form_list (cf_targetedOfferIds form))
                 (form_list (cf_linkedOfferIds form)) (u_isEnrolled user))))
           (\<lambda>ledgerUserRecord.
             io_then (insert UserRepository L (edited_user form user))
            (io_then (insert UserLedgerRepository L ledgerUserRecord)
              (io_return (Redirect ''/clients''))))))"

text \<open>
  A column that the object leaves \<open>undefined\<close> is not written: the row keeps the value it has, and a new row
  has the default of the column, an empty list.
\<close>

definition kept_column :: "(UserRecord \<Rightarrow> string list) \<Rightarrow> string \<Rightarrow> UserRecord list \<Rightarrow> string list option \<Rightarrow> string list" where
  "kept_column column i rs v =
     (case v of
        Some xs \<Rightarrow> xs
      | None \<Rightarrow> (case List.find (\<lambda>r. ur_id r = i) rs of None \<Rightarrow> [] | Some r \<Rightarrow> column r))"

definition new_user_row :: "client_form \<Rightarrow> UserRecord list \<Rightarrow> UserRecord" where
  "new_user_row form rs =
     \<lparr>ur_id = cf_userId form,
       ur_linked_offer_ids = kept_column ur_linked_offer_ids (cf_userId form) rs (form_list (cf_linkedOfferIds form)),
       ur_targeted_offer_ids =
         kept_column ur_targeted_offer_ids (cf_userId form) rs (form_list (cf_targetedOfferIds form)),
       ur_opt_in_file_offers = or_none (cf_optedInOffers form), ur_is_enrolled = form_truthy (cf_isEnrolled form),
       ur_is_blacklisted = form_truthy (cf_isBlacklisted form), ur_credit_card_products = [],
       ur_debit_card_products = []\<rparr>"

definition post_clients :: "ext \<Rightarrow> client_form \<Rightarrow> unit response action" where
  "post_clients L form =
     io_bind (now L)
       (\<lambda>t. io_bind (io_lift (UserLedgerSerializer_deserialize L
             (ledger_state (cf_userId form) t (form_list (cf_targetedOfferIds form))
               (form_list (cf_linkedOfferIds form)) (form_truthy (cf_isEnrolled form)))))
         (\<lambda>ledgerUserRecord.
           io_then (insert UserLedgerRepository L ledgerUserRecord)
          (io_then (execute UserRepository (\<lambda>n rs. orm_save (users_orm L) n (new_user_row form rs) rs))
            (io_return (Redirect ''/clients'')))))"

definition post_clients_delete_all :: "ext \<Rightarrow> unit response action" where
  "post_clients_delete_all L =
     io_then (Repository.truncate UserRepository L)
    (io_then (Repository.truncate UserLedgerRepository L)
      (io_return (Redirect ''/clients'')))"

definition get_clients_products :: "ext \<Rightarrow> string \<Rightarrow> IUser response action" where
  "get_clients_products L userId =
     io_bind (findOrFail UserRepository L userId)
       (\<lambda>user. io_return (Render ''clients/products'' ''User Products'' user))"

definition get_clients_optins :: "ext \<Rightarrow> string \<Rightarrow> IUser response action" where
  "get_clients_optins L userId =
     io_bind (findOrFail UserRepository L userId)
       (\<lambda>user. io_return (Render ''clients/optins'' ''User Opt-Ins'' user))"

section \<open>Their history\<close>

text \<open>Every state with the text of its time, latest first.\<close>

definition get_clients_history :: "ext \<Rightarrow> web_ext \<Rightarrow> string \<Rightarrow> (IUserLedger \<times> string) list response action" where
  "get_clients_history L X i =
     io_bind (findAll UserLedgerRepository L (\<lambda>r. lr_user_id r = i))
       (\<lambda>usersHistory. io_return (Render ''clients/history'' ''User History Record''
          (sort_key (\<lambda>(u, _). - ul_updateTimestamp u)
            (map (\<lambda>u. (u, toISOString X (ul_updateTimestamp u))) usersHistory))))"

definition get_clients_edit_history ::
  "ext \<Rightarrow> web_ext \<Rightarrow> string \<Rightarrow> string \<Rightarrow> (IUserLedger \<times> string) response action" where
  "get_clients_edit_history L X i updateTimestamp =
     io_bind (findUserLedgerRecord L i (to_timestamp X updateTimestamp))
       (\<lambda>user. io_return (Render ''clients/edit_history''
          (''Edit Updated Timestamp  '' @ date_toString X (ul_updateTimestamp user) @ '' for '' @ ul_userId user)
          (user, updateTimestamp)))"

definition post_clients_edit_history ::
  "ext \<Rightarrow> web_ext \<Rightarrow> string \<Rightarrow> string \<Rightarrow> string \<Rightarrow> unit response action" where
  "post_clients_edit_history L X userId isoDate newTimestamp =
     io_then (updateUserLedgerRecord L userId (to_timestamp X isoDate)
         (UpdateTimestamp (map_option toUTCString_seconds (new_Date X newTimestamp))))
       (io_return (Redirect (''/clients/history/'' @ userId)))"

definition post_clients_history_delete_all :: "ext \<Rightarrow> string \<Rightarrow> unit response action" where
  "post_clients_history_delete_all L i =
     io_then (deleteAllUsersHistory L i) (io_return (Redirect ''/clients''))"

end
