(* ===== verification/ClientProperties.thy ===== *)
theory ClientProperties
  imports Clients Verdict
begin

text \<open>
  What the pages for the clients do on a working system: the rows an edit of a client writes, the states the
  eligibility checks see afterwards, and what becomes of the ledger when a time stamp is edited.
\<close>

section \<open>Saves and deletions that succeed\<close>

context table begin

lemma insert_natural:
  assumes "orm_saves_natural key (orm_of R L)" and "reliable_orm v (\<lambda>_. True) (orm_of R L)"
    and "deserialize_with R L (serialize_with R x) = Inr y"
  obtains rs where "insert R L x w = (Inr y, (tick w)\<lparr>store := put_rows R rs (store w)\<rparr>)"
    and "mset rs = add_mset (serialize_with R x)
      (mset (filter (\<lambda>r. key r \<noteq> key (serialize_with R x)) (rows_of R (store w))))"
proof -
  obtain r rs where q: "orm_save (orm_of R L) (calls w) (serialize_with R x) (rows_of R (store w)) = Inr (r, rs)"
    using reliable_save [OF assms(2)] by blast
  with assms(1) have "r = serialize_with R x" and "mset rs = add_mset (serialize_with R x)
      (mset (filter (\<lambda>r. key r \<noteq> key (serialize_with R x)) (rows_of R (store w))))"
    unfolding orm_saves_natural_def by blast+
  with q assms(3) show thesis
    by (intro that [of rs]) (simp_all add: insert_def insertRecord_def execute_def io_simps)
qed

end

definition ledger_key :: "UserLedgerRecord \<Rightarrow> string \<times> date" where
  "ledger_key r = (lr_user_id r, lr_update_timestamp r)"

text \<open>The two columns of the primary key of the ledger.\<close>

definition ledger_saves :: "ext \<Rightarrow> bool" where
  "ledger_saves L \<longleftrightarrow> orm_saves_natural ledger_key (userledger_orm L)"

lemma ref_ledger_saves: "ledger_saves ref_ext"
  by (simp add: ledger_saves_def ref_orm_selectors ledger_key_def [abs_def])

lemma seconds_idem [simp]: "toUTCString_seconds (toUTCString_seconds t) = toUTCString_seconds t"
  by (simp add: toUTCString_seconds_def)

text \<open>A state is read into an object and written back as it is.\<close>

lemma insert_state:
  assumes "reliable L" and "ledger_saves L" and "lr_update_timestamp s = toUTCString_seconds t"
    and "UserLedgerSerializer_deserialize L s = Inr x"
  obtains rs where "insert UserLedgerRepository L x w = (Inr x, (tick w)\<lparr>store := (store w)\<lparr>userledger := rs\<rparr>\<rparr>)"
    and "mset rs = add_mset s (mset (filter (\<lambda>r. ledger_key r \<noteq> ledger_key s) (userledger (store w))))"
proof -
  have s: "UserLedgerSerializer_serialize x = s"
    using assms(3,4) by (cases s) (auto simp: UserLedgerSerializer_serialize_def UserLedgerSerializer_deserialize_def Let_def)
  have "orm_saves_natural ledger_key (orm_of UserLedgerRepository L)" and "reliable_orm (\<lambda>_. True) (\<lambda>_. True) (orm_of UserLedgerRepository L)"
    using assms(2) reliable_ledger [OF assms(1)] by (simp_all add: ledger_saves_def UserLedgerRepository_def)
  from ledger_table.insert_natural [OF this, of x x w] show thesis
    using s assms(4) that by (simp add: UserLedgerRepository_def) blast
qed

section \<open>Editing a client\<close>

lemma find_user:
  assumes "ext_ok L" and "reliable L" and "r \<in> set (users (store w))" and "distinct (map ur_id (users (store w)))"
  shows "findOrFail UserRepository L (ur_id r) w = (UserSerializer_deserialize L r, tick w)"
proof -
  obtain a where a: "orm_findOne (users_orm L) (calls w) (ur_id r) (users (store w)) = Inr a"
    using reliable_findOne [OF reliable_users [OF assms(2)]] by blast
  with orm_findOne_None [OF users_reads [OF assms(1)]] assms(3) obtain q where q: "a = Some q" by (cases a) auto
  from orm_findOne_Some [OF users_reads [OF assms(1)] a [unfolded q]] assms(3,4) have "q = r"
    by (auto simp: distinct_map dest: inj_onD)
  with a q show ?thesis
    by (simp add: findOrFail_def io_bind_apply find_cases UserRepository_def UserSerializer_deserialize_def)
qed

text \<open>The rows an edit leaves: the client as the form has it, and his state at the time of the edit.\<close>

definition edited_row :: "client_form \<Rightarrow> UserRecord \<Rightarrow> UserRecord" where
  "edited_row form r =
     \<lparr>ur_id = cf_userId form, ur_linked_offer_ids = or_none (form_list (cf_linkedOfferIds form)),
       ur_targeted_offer_ids = or_none (form_list (cf_targetedOfferIds form)),
       ur_opt_in_file_offers = or_none (cf_optedInOffers form), ur_is_enrolled = ur_is_enrolled r,
       ur_is_blacklisted = form_truthy (cf_isBlacklisted form), ur_credit_card_products = [],
       ur_debit_card_products = []\<rparr>"

definition edited_state :: "client_form \<Rightarrow> UserRecord \<Rightarrow> date \<Rightarrow> UserLedgerRecord" where
  "edited_state form r t =
     ledger_state (cf_userId form) t (form_list (cf_targetedOfferIds form)) (form_list (cf_linkedOfferIds form))
       (ur_is_enrolled r)"

definition edited_db :: "client_form \<Rightarrow> UserRecord \<Rightarrow> date \<Rightarrow> db \<Rightarrow> db \<Rightarrow> bool" where
  "edited_db form r t d d' \<longleftrightarrow>
     d' = d\<lparr>users := users d', userledger := userledger d'\<rparr> \<and>
     mset (users d') = add_mset (edited_row form r) (mset (filter (\<lambda>q. ur_id q \<noteq> ur_id r) (users d))) \<and>
     mset (userledger d') = add_mset (edited_state form r t)
       (mset (filter (\<lambda>s. ledger_key s \<noteq> (ur_id r, toUTCString_seconds t)) (userledger d)))"

lemma post_clients_edit_rows:
  assumes "ext_ok L" and "reliable L" and "ledger_saves L" and "distinct (map ur_id (users (store w)))"
    and "r \<in> set (users (store w))" and "ur_id r = cf_userId form"
  shows "\<exists>w'. post_clients_edit L form w = (Inr (Redirect ''/clients''), w') \<and>
    edited_db form r (clock L (Suc (calls w))) (store w) (store w')"
proof -
  let ?t = "clock L (Suc (calls w))" and ?w = "tick (tick w)"
  let ?s = "edited_state form r ?t"
  obtain user where u: "UserSerializer_deserialize L r = Inr user" and e: "u_isEnrolled user = ur_is_enrolled r"
    by (simp add: UserSerializer_deserialize_def)
  obtain x where x: "UserLedgerSerializer_deserialize L ?s = Inr x"
    by (simp add: UserLedgerSerializer_deserialize_def Let_def)
  have row: "UserSerializer_serialize (edited_user form user) = edited_row form r"
    using e by (simp add: UserSerializer_serialize_def edited_user_def edited_row_def)
  have "orm_saves_natural ur_id (orm_of UserRepository L)" and "reliable_orm (\<lambda>_. True) (\<lambda>_. True) (orm_of UserRepository L)"
    using users_saves [OF assms(1)] reliable_users [OF assms(2)] by (simp_all add: UserRepository_def)
  from user_table.insert_natural [OF this, of "edited_user form user" "edited_user form user" ?w]
  obtain us where us: "insert UserRepository L (edited_user form user) ?w =
      (Inr (edited_user form user), (tick ?w)\<lparr>store := (store w)\<lparr>users := us\<rparr>\<rparr>)"
    and m: "mset us = add_mset (edited_row form r) (mset (filter (\<lambda>q. ur_id q \<noteq> ur_id r) (users (store w))))"
    using row assms(6) by (auto simp: UserRepository_def UserSerializer_deserialize_def UserSerializer_serialize_def edited_row_def)
  have "lr_update_timestamp ?s = toUTCString_seconds ?t" and k: "ledger_key ?s = (ur_id r, toUTCString_seconds ?t)"
    using assms(6) by (simp_all add: edited_state_def ledger_state_def ledger_key_def)
  from insert_state [OF assms(2,3) this(1) x, of "(tick ?w)\<lparr>store := (store w)\<lparr>users := us\<rparr>\<rparr>"] k obtain ls
    where ls: "insert UserLedgerRepository L x ((tick ?w)\<lparr>store := (store w)\<lparr>users := us\<rparr>\<rparr>) =
      (Inr x, (tick (tick ?w))\<lparr>store := (store w)\<lparr>users := us, userledger := ls\<rparr>\<rparr>)"
    and n: "mset ls = add_mset ?s (mset (filter (\<lambda>s. ledger_key s \<noteq> (ur_id r, toUTCString_seconds ?t)) (userledger (store w))))"
    by (auto simp: tick_def)
  have "post_clients_edit L form w = (Inr (Redirect ''/clients''),
      (tick (tick ?w))\<lparr>store := (store w)\<lparr>users := us, userledger := ls\<rparr>\<rparr>)"
    using find_user [OF assms(1,2,5,4)] assms(6) u x us ls e
    by (simp add: post_clients_edit_def io_bind_apply io_then_apply now_apply edited_state_def)
  with m n show ?thesis by (simp add: edited_db_def)
qed

section \<open>What the eligibility checks see\<close>

lemma edited_says:
  assumes "edited_db form r t d d'" and "ur_id r = cf_userId form"
    and "\<forall>s\<in>set (userledger d). lr_user_id s = cf_userId form \<longrightarrow> lr_update_timestamp s \<le> toUTCString_seconds t"
    and "toUTCString_seconds t \<le> end_of_day L T"
  shows "ledger_says f L d' (cf_userId form) T offer \<longleftrightarrow>
    (\<exists>os. f (lr_user_info (edited_state form r t)) = Some os \<and> offer \<in> set os)"
proof -
  let ?s = "edited_state form r t"
  have rows: "set (userledger d') = Set.insert ?s {s \<in> set (userledger d). ledger_key s \<noteq> (ur_id r, toUTCString_seconds t)}"
    using assms(1) mset_eq_set [of "userledger d'" "?s # filter (\<lambda>s. ledger_key s \<noteq> (ur_id r, toUTCString_seconds t)) (userledger d)"]
    by (auto simp: edited_db_def)
  have s: "lr_user_id ?s = cf_userId form" "lr_update_timestamp ?s = toUTCString_seconds t"
    by (simp_all add: edited_state_def ledger_state_def)
  have latest: "q = ?s" if "q \<in> set (userledger d')" "ledger_upto L (cf_userId form) T q"
    "lr_update_timestamp ?s \<le> lr_update_timestamp q" for q
    using that assms(2,3) s unfolding rows by (auto simp: ledger_upto_def ledger_key_def)
  have upto: "ledger_upto L (cf_userId form) T ?s" using s assms(4) by (simp add: ledger_upto_def)
  have old: "lr_update_timestamp q \<le> lr_update_timestamp ?s"
    if "q \<in> set (userledger d')" "ledger_upto L (cf_userId form) T q" for q
    using that assms(3) s unfolding rows by (auto simp: ledger_upto_def)
  have "?s \<in> set (userledger d')" unfolding rows by simp
  with latest upto old show ?thesis unfolding ledger_says_def by blast
qed

section \<open>Editing a time stamp\<close>

lemma find_ledger_state:
  assumes "ext_ok L" and "reliable L" and "distinct (map ledger_key (userledger (store w)))"
    and "r \<in> set (userledger (store w))"
  shows "findUserLedgerRecord L (lr_user_id r) (lr_update_timestamp r) w = (UserLedgerSerializer_deserialize L r, tick w)"
proof -
  let ?p = "\<lambda>q. lr_user_id q = lr_user_id r \<and> lr_update_timestamp q = lr_update_timestamp r"
  obtain rs where q: "orm_find_by (userledger_orm L) (calls w) ?p (\<lambda>q. - lr_update_timestamp q) (userledger (store w)) = Inr rs"
    using reliable_find_by [OF reliable_ledger [OF assms(2)]] by blast
  have inj: "inj_on ledger_key (set (userledger (store w)))" using assms(3) by (simp add: distinct_map)
  have "?p q \<longleftrightarrow> q = r" if "q \<in> set (userledger (store w))" for q
    using inj_on_eq_iff [OF inj that assms(4)] by (simp add: ledger_key_def)
  then have "filter ?p (userledger (store w)) = filter (\<lambda>q. q = r) (userledger (store w))" by (rule filter_cong [OF refl])
  moreover have "distinct (userledger (store w))" using assms(3) by (simp add: distinct_map)
  then have "multiset.count (mset (userledger (store w))) r = 1" using assms(4) by (simp add: distinct_count_atmost_1)
  then have "mset (filter (\<lambda>q. q = r) (userledger (store w))) = {#r#}" by (simp add: filter_eq_replicate_mset)
  ultimately have "mset rs = {#r#}" using orm_find_by_mset [OF ledger_reads [OF assms(1)] q] by simp
  then have "rs = [r]" by (simp add: mset_single_iff_right)
  with q show ?thesis
    by (simp add: findUserLedgerRecord_def ledger_rows_def first_ledger_def io_bind_apply query_apply UserLedgerRepository_def)
qed

lemma reliable_delete: "reliable_orm v a D \<Longrightarrow> \<exists>rs'. orm_delete D n p rs = Inr rs'"
  by (simp add: reliable_orm_def)

lemma delete_state:
  assumes "ext_ok L" and "reliable L" and "\<exists>q\<in>set (userledger (store w)). ledger_key q = (u, t)"
  shows "\<exists>rs. deleteUserLedgerRecord L u t w = (Inr (), (tick w)\<lparr>store := (store w)\<lparr>userledger := rs\<rparr>\<rparr>) \<and>
    mset rs = mset (filter (\<lambda>q. lr_update_timestamp q \<noteq> t) (userledger (store w)))"
proof -
  let ?p = "\<lambda>r. lr_update_timestamp r = t \<and> (\<exists>ul\<in>set (userledger (store w)). lr_user_id ul = u \<and> lr_update_timestamp ul = t)"
  have p: "?p r \<longleftrightarrow> lr_update_timestamp r = t" for r using assms(3) by (auto simp: ledger_key_def)
  have upd: "orm_updates (\<lambda>i r. lr_user_id r = i) (\<lambda>r. r) (userledger_orm L)" using assms(1) by (simp add: ext_ok_def)
  obtain rs where q: "orm_delete (userledger_orm L) (calls w) ?p (userledger (store w)) = Inr rs"
    using reliable_delete [OF reliable_ledger [OF assms(2)]] by blast
  from orm_delete_rows [OF upd q] have "mset rs = mset (filter (\<lambda>q. lr_update_timestamp q \<noteq> t) (userledger (store w)))"
    by (simp only: p)
  moreover have "deleteUserLedgerRecord L u t w = (Inr (), (tick w)\<lparr>store := (store w)\<lparr>userledger := rs\<rparr>\<rparr>)"
    using q by (simp add: deleteUserLedgerRecord_def execute_def UserLedgerRepository_def)
  ultimately show ?thesis by blast
qed

text \<open>The ledger when the time of the state \<open>r\<close> has been set to \<open>t\<close>.\<close>

definition moved_state :: "UserLedgerRecord \<Rightarrow> date \<Rightarrow> UserLedgerRecord list \<Rightarrow> UserLedgerRecord multiset" where
  "moved_state r t rs =
     mset (filter (\<lambda>q. lr_update_timestamp q \<noteq> lr_update_timestamp r \<and> ledger_key q \<noteq> (lr_user_id r, t)) rs) +
     (if t = lr_update_timestamp r then {#} else {#r\<lparr>lr_update_timestamp := t\<rparr>#})"

lemma update_state:
  assumes "ext_ok L" and "reliable L" and "ledger_saves L" and "distinct (map ledger_key (userledger (store w)))"
    and "r \<in> set (userledger (store w))"
  shows "\<exists>rs. updateUserLedgerRecord L (lr_user_id r) (lr_update_timestamp r) (UpdateTimestamp (Some (toUTCString_seconds t))) w =
      (Inr (), (tick (tick (tick w)))\<lparr>store := (store w)\<lparr>userledger := rs\<rparr>\<rparr>) \<and>
    mset rs = moved_state r (toUTCString_seconds t) (userledger (store w))"
proof -
  let ?s = "r\<lparr>lr_update_timestamp := toUTCString_seconds t\<rparr>"
  obtain user where u: "UserLedgerSerializer_deserialize L r = Inr user"
    by (simp add: UserLedgerSerializer_deserialize_def Let_def)
  then have x: "UserLedgerSerializer_deserialize L ?s = UserLedgerSerializer_deserialize L
      \<lparr>lr_user_id = ul_userId user, lr_update_timestamp = toUTCString_seconds t,
        lr_user_info = \<lparr>ui_targeted_offers = ul_targetedOffers user, ui_linked_offers = ul_linkedOffers user,
          ui_is_enrolled = ul_isEnrolledToMyOffers user\<rparr>\<rparr>"
    by (auto simp: UserLedgerSerializer_deserialize_def Let_def)
  obtain y where y: "UserLedgerSerializer_deserialize L ?s = Inr y"
    by (simp add: UserLedgerSerializer_deserialize_def Let_def)
  note state = y [unfolded x]
  have "lr_update_timestamp ?s = toUTCString_seconds t" by simp
  from insert_state [OF assms(2,3) this y, of "tick w"] obtain ls
    where ls: "insert UserLedgerRepository L y (tick w) = (Inr y, (tick (tick w))\<lparr>store := (store w)\<lparr>userledger := ls\<rparr>\<rparr>)"
      and m: "mset ls = add_mset ?s (mset (filter (\<lambda>q. ledger_key q \<noteq> ledger_key ?s) (userledger (store w))))" by auto
  have k: "ledger_key ?s = (lr_user_id r, toUTCString_seconds t)" by (simp add: ledger_key_def)
  have set_ls: "set ls = Set.insert ?s {q \<in> set (userledger (store w)). ledger_key q \<noteq> ledger_key ?s}"
    using mset_eq_set [of ls "?s # filter (\<lambda>q. ledger_key q \<noteq> ledger_key ?s) (userledger (store w))"] m by simp
  have "\<exists>q\<in>set ls. ledger_key q = (lr_user_id r, lr_update_timestamp r)"
    using assms(5) k unfolding set_ls by (cases "toUTCString_seconds t = lr_update_timestamp r") (auto simp: ledger_key_def)
  then obtain rs where d: "deleteUserLedgerRecord L (lr_user_id r) (lr_update_timestamp r)
      ((tick (tick w))\<lparr>store := (store w)\<lparr>userledger := ls\<rparr>\<rparr>) =
      (Inr (), (tick (tick (tick w)))\<lparr>store := (store w)\<lparr>userledger := rs\<rparr>\<rparr>)"
    and n: "mset rs = mset (filter (\<lambda>q. lr_update_timestamp q \<noteq> lr_update_timestamp r) ls)"
    using delete_state [OF assms(1,2), of "(tick (tick w))\<lparr>store := (store w)\<lparr>userledger := ls\<rparr>\<rparr>"
        "lr_user_id r" "lr_update_timestamp r"] by auto
  have "mset rs = filter_mset (\<lambda>q. lr_update_timestamp q \<noteq> lr_update_timestamp r) (mset ls)" using n by simp
  also have "\<dots> = moved_state r (toUTCString_seconds t) (userledger (store w))"
    unfolding m moved_state_def k by (simp add: filter_filter_mset conj_commute)
  finally show ?thesis
    using find_ledger_state [OF assms(1,2,4,5)] u state ls d
    by (intro exI [of _ rs]) (simp add: updateUserLedgerRecord_def io_bind_apply io_then_apply)
qed

section \<open>Properties\<close>

text \<open>
  An edit of a client's offers writes two rows on a working system and changes nothing else: the client
  with the offers of the form, who keeps his enrolment, has lost his products, his opt-in offers and his place
  on the blacklist unless the form names them, and his state for the ledger at the time of the edit.
\<close>

theorem client_edit_outcome:
  assumes "ext_ok L" and "reliable L" and "ledger_saves L" and "distinct (map ur_id (users (store w)))"
    and "r \<in> set (users (store w))" and "ur_id r = cf_userId form"
  shows "\<exists>w'. post_clients_edit L form w = (Inr (Redirect ''/clients''), w') \<and>
    edited_db form r (clock L (Suc (calls w))) (store w) (store w')"
  by (rule post_clients_edit_rows [OF assms])

definition sample_form :: client_form where
  "sample_form =
     \<lparr>cf_userId = ''user1'', cf_linkedOfferIds = Absent, cf_targetedOfferIds = Texts [''100'', ''200''],
       cf_optedInOffers = None, cf_isEnrolled = Absent, cf_isBlacklisted = Absent\<rparr>"

definition client_state :: "string \<Rightarrow> date \<Rightarrow> UserLedgerRecord" where
  "client_state i t = ledger_state i t (Some [''300'']) (Some [''100'']) True"

definition client_world :: world where
  "client_world = \<lparr>calls = 0, store = sample_db
     \<lparr>userledger := [client_state ''user1'' (- 5000), client_state ''user2'' (- 5000)]\<rparr>\<rparr>"

lemma client_world_users:
  "distinct (map ur_id (users (store client_world)))"
  "UserSerializer_serialize sample_user \<in> set (users (store client_world))"
  "ur_id (UserSerializer_serialize sample_user) = cf_userId sample_form"
  by (simp_all add: client_world_def sample_db_def sample_form_def UserSerializer_serialize_def sample_user_def)

lemma client_edit_outcome_witness:
  "\<exists>w'. post_clients_edit ref_ext sample_form client_world = (Inr (Redirect ''/clients''), w') \<and>
    edited_db sample_form (UserSerializer_serialize sample_user) (clock ref_ext 1) (store client_world) (store w')"
  using client_edit_outcome [OF ref_ext_ok ref_reliable ref_ledger_saves client_world_users]
  by (simp add: client_world_def)

text \<open>
  C36.  An edit takes effect on the eligibility of the client: for a transaction of the day of the edit or a
  later one, as long as no later state comes in, he counts as targeted for, and as linked with, exactly the
  offers of the form, and with none when the form has none.
\<close>

theorem client_edit_takes_effect:
  assumes "ext_ok L" and "reliable L" and "ledger_saves L" and "distinct (map ur_id (users (store w)))"
    and "r \<in> set (users (store w))" and "ur_id r = cf_userId form"
    and "\<forall>s\<in>set (userledger (store w)). lr_user_id s = cf_userId form \<longrightarrow>
      lr_update_timestamp s \<le> toUTCString_seconds (clock L (Suc (calls w)))"
    and "toUTCString_seconds (clock L (Suc (calls w))) \<le> end_of_day L T"
  shows "\<exists>w'. post_clients_edit L form w = (Inr (Redirect ''/clients''), w') \<and>
    (\<forall>offer. ledger_says ui_targeted_offers L (store w') (cf_userId form) T offer \<longleftrightarrow>
      offer \<in> set (or_none (form_list (cf_targetedOfferIds form)))) \<and>
    (\<forall>offer. ledger_says ui_linked_offers L (store w') (cf_userId form) T offer \<longleftrightarrow>
      offer \<in> set (or_none (form_list (cf_linkedOfferIds form))))"
proof -
  have lists: "(\<exists>os. v = Some os \<and> offer \<in> set os) \<longleftrightarrow> offer \<in> set (or_none v)" for v and offer :: string
    by (cases v) (auto simp: or_none_def)
  obtain w' where run: "post_clients_edit L form w = (Inr (Redirect ''/clients''), w')"
    and d: "edited_db form r (clock L (Suc (calls w))) (store w) (store w')"
    using post_clients_edit_rows [OF assms(1-6)] by blast
  show ?thesis
    using run edited_says [OF d assms(6-8), of ui_targeted_offers] edited_says [OF d assms(6-8), of ui_linked_offers]
    by (intro exI [of _ w']) (simp add: edited_state_def ledger_state_def lists)
qed

lemma client_edit_takes_effect_witness:
  "\<exists>w'. post_clients_edit ref_ext sample_form client_world = (Inr (Redirect ''/clients''), w') \<and>
    ledger_says ui_targeted_offers ref_ext (store w') ''user1'' 0 ''200'' \<and>
    \<not> ledger_says ui_targeted_offers ref_ext (store w') ''user1'' 0 ''300'' \<and>
    \<not> ledger_says ui_linked_offers ref_ext (store w') ''user1'' 0 ''100''"
proof -
  have "\<forall>s\<in>set (userledger (store client_world)). lr_user_id s = cf_userId sample_form \<longrightarrow>
      lr_update_timestamp s \<le> toUTCString_seconds (clock ref_ext (Suc (calls client_world)))"
    and "toUTCString_seconds (clock ref_ext (Suc (calls client_world))) \<le> end_of_day ref_ext 0"
    by (simp_all add: client_world_def client_state_def ledger_state_def sample_form_def toUTCString_seconds_def ref_ext_def
        ref_end_of_day_def)
  from client_edit_takes_effect [OF ref_ext_ok ref_reliable ref_ledger_saves client_world_users this] obtain w'
    where run: "post_clients_edit ref_ext sample_form client_world = (Inr (Redirect ''/clients''), w')"
      and says: "\<forall>offer. ledger_says ui_targeted_offers ref_ext (store w') (cf_userId sample_form) 0 offer \<longleftrightarrow>
          offer \<in> set (or_none (form_list (cf_targetedOfferIds sample_form)))"
        "\<forall>offer. ledger_says ui_linked_offers ref_ext (store w') (cf_userId sample_form) 0 offer \<longleftrightarrow>
          offer \<in> set (or_none (form_list (cf_linkedOfferIds sample_form)))" by blast
  have form: "cf_userId sample_form = ''user1''"
    "or_none (form_list (cf_targetedOfferIds sample_form)) = [''100'', ''200'']"
    "or_none (form_list (cf_linkedOfferIds sample_form)) = []"
    by (simp_all add: sample_form_def form_list_def or_none_def)
  show ?thesis using run says unfolding form by (intro exI [of _ w']) simp
qed

text \<open>
  Setting the time of a state in the history of a client moves the state to the new time, unless it
  replaces another state of the client there, but removes the states of all other clients that have the old
  time; and when the new time is the old one the state itself is removed.
\<close>

theorem history_edit_outcome:
  assumes "ext_ok L" and "reliable L" and "ledger_saves L" and "distinct (map ledger_key (userledger (store w)))"
    and "r \<in> set (userledger (store w))" and "to_timestamp X isoDate = lr_update_timestamp r"
    and "new_Date X newTimestamp = Some t"
  shows "\<exists>rs w'. post_clients_edit_history L X (lr_user_id r) isoDate newTimestamp w =
      (Inr (Redirect (''/clients/history/'' @ lr_user_id r)), w') \<and>
    store w' = (store w)\<lparr>userledger := rs\<rparr> \<and>
    mset rs = moved_state r (toUTCString_seconds t) (userledger (store w))"
proof -
  obtain rs where "updateUserLedgerRecord L (lr_user_id r) (lr_update_timestamp r)
      (UpdateTimestamp (Some (toUTCString_seconds t))) w =
      (Inr (), (tick (tick (tick w)))\<lparr>store := (store w)\<lparr>userledger := rs\<rparr>\<rparr>)"
    and "mset rs = moved_state r (toUTCString_seconds t) (userledger (store w))"
    using update_state [OF assms(1-5)] by blast
  then show ?thesis
    by (intro exI [of _ rs] exI [of _ "(tick (tick (tick w)))\<lparr>store := (store w)\<lparr>userledger := rs\<rparr>\<rparr>"])
      (simp add: post_clients_edit_history_def assms(6,7) io_then_apply)
qed

definition sample_web :: web_ext where
  "sample_web =
     \<lparr>newest_users = (\<lambda>n k rs. Inr (take k rs)), to_timestamp = (\<lambda>_. - 5000), new_Date = (\<lambda>_. Some 7000),
       toISOString = show_int, date_toString = show_int\<rparr>"

lemma history_edit_outcome_witness:
  "\<exists>rs w'. post_clients_edit_history ref_ext sample_web ''user1'' ''1969-12-31T23:59:55'' ''1970-01-01T00:00:07'' client_world =
      (Inr (Redirect ''/clients/history/user1''), w') \<and>
    store w' = (store client_world)\<lparr>userledger := rs\<rparr> \<and> mset rs = {#client_state ''user1'' 7000#}"
proof -
  have r: "client_state ''user1'' (- 5000) \<in> set (userledger (store client_world))"
    "distinct (map ledger_key (userledger (store client_world)))"
    "lr_user_id (client_state ''user1'' (- 5000)) = ''user1''"
    "lr_update_timestamp (client_state ''user1'' (- 5000)) = - 5000"
    by (simp_all add: client_world_def client_state_def ledger_state_def ledger_key_def toUTCString_seconds_def)
  have "moved_state (client_state ''user1'' (- 5000)) (toUTCString_seconds 7000) (userledger (store client_world)) =
      {#client_state ''user1'' 7000#}"
    by (simp add: moved_state_def client_world_def client_state_def ledger_state_def ledger_key_def toUTCString_seconds_def)
  with history_edit_outcome [OF ref_ext_ok ref_reliable ref_ledger_saves r(2,1), of sample_web _ _ 7000] r
  show ?thesis by (simp add: sample_web_def)
qed

end
