(* ===== verification/Web.thy ===== *)
theory Web
  imports Clients Processing MopSync ExportDelivery Import
begin

text \<open>
  The pages for offers, transactions, rebates, exports and imports (\<open>app/web/routes\<close>): what they read for their
  views, and the operations of the other components they start.
\<close>

section \<open>Lists\<close>

text \<open>A table in the order of insertion, newest first, or the first rows of it.\<close>

record listing =
  newest_criteria :: "nat \<Rightarrow> RebateCriteriaRecord list \<Rightarrow> exn + RebateCriteriaRecord list"
  newest_transactions ::
    "nat \<Rightarrow> nat \<Rightarrow> TransactionForRebateCriteriaRecord list \<Rightarrow> exn + TransactionForRebateCriteriaRecord list"
  newest_rebates :: "nat \<Rightarrow> nat \<Rightarrow> RebateRecord list \<Rightarrow> exn + RebateRecord list"
  newest_exports :: "nat \<Rightarrow> ExportDetailsRecord list \<Rightarrow> exn + ExportDetailsRecord list"
  newest_imports :: "nat \<Rightarrow> TransactionImportDetailsRecord list \<Rightarrow> exn + TransactionImportDetailsRecord list"

definition findNewest ::
  "('r, 'm, 'p) repository \<Rightarrow> ext \<Rightarrow> (nat \<Rightarrow> 'r list \<Rightarrow> exn + 'r list) \<Rightarrow> 'm list action" where
  "findNewest R L newest =
     io_bind (query R newest) (\<lambda>records. io_lift (traverse (deserialize_with R L) records))"

text \<open>Rows deleted by their keys; \<open>match\<close> compares a key with a row.  Without a key nothing is deleted.\<close>

definition bulkDelete ::
  "('r, 'm, 'p) repository \<Rightarrow> ext \<Rightarrow> (string \<Rightarrow> 'r \<Rightarrow> bool) \<Rightarrow> form_value \<Rightarrow> unit action" where
  "bulkDelete R L match ids =
     (case form_list ids of
        None \<Rightarrow> io_throw (JsError ''Empty criteria(s) are not allowed for the delete method.'')
      | Some is \<Rightarrow>
          if is = [] then io_throw (JsError ''Empty criteria(s) are not allowed for the delete method.'')
          else bulkDeleteWhere R L (\<lambda>r. \<exists>i\<in>set is. match i r))"

section \<open>Offers\<close>

text \<open>The count and the sum of every offer are asked for side by side.\<close>

definition offer_totals_job ::
  "ext \<Rightarrow> IRebateCriteria \<Rightarrow> (world, IRebateCriteria \<times> nat \<times> string) job" where
  "offer_totals_job L criteria =
     await (totalRedeemedCount L (rc_id criteria)) (\<lambda>n.
       await (totalRedeemedSum L (rc_id criteria)) (\<lambda>amount. Settled (Inr (criteria, n, amount))))"

definition get_offers ::
  "ext \<Rightarrow> listing \<Rightarrow> nat list \<Rightarrow> (IRebateCriteria \<times> nat \<times> string) list response action" where
  "get_offers L N schedule =
     io_bind (findNewest RebateCriteriaRepository L (newest_criteria N)) (\<lambda>rebateCriterias.
       io_bind (promise_all schedule (map (offer_totals_job L) rebateCriterias)) (\<lambda>rows.
         io_return (Render ''offers/index'' ''Offers'' rows)))"

definition post_offers_delete_all :: "ext \<Rightarrow> unit response action" where
  "post_offers_delete_all L =
     io_then (Repository.truncate RebateCriteriaRepository L) (io_return (Redirect ''/offers''))"

definition get_offers_products :: "ext \<Rightarrow> string \<Rightarrow> IRebateCriteria response action" where
  "get_offers_products L i =
     io_bind (findOrFail RebateCriteriaRepository L i)
       (\<lambda>offer. io_return (Render ''offers/products'' ''Offer Products'' offer))"

section \<open>Transactions\<close>

definition get_transactions :: "ext \<Rightarrow> listing \<Rightarrow> ITransactionForRebateCriteria list response action" where
  "get_transactions L N =
     io_bind (findNewest TransactionForRebateCriteriaRepository L (\<lambda>n. newest_transactions N n 500))
       (\<lambda>xs. io_return (Render ''transactions/index'' ''Transactions'' xs))"

definition findAllForTesting :: "ext \<Rightarrow> IRebateCriteria list action" where
  "findAllForTesting L = findAll RebateCriteriaRepository L (\<lambda>_. True)"

text \<open>\<open>first_users\<close>: a hundred clients, in no order that is asked for.\<close>

definition get_transactions_new ::
  "ext \<Rightarrow> (nat \<Rightarrow> UserRecord list \<Rightarrow> exn + UserRecord list) \<Rightarrow> (IRebateCriteria list \<times> IUser list) response action" where
  "get_transactions_new L first_users =
     io_bind (findAllForTesting L) (\<lambda>rebateCriterias.
       io_bind (findNewest UserRepository L first_users) (\<lambda>us.
         io_return (Render ''transactions/new'' ''New transaction'' (rebateCriterias, us))))"

definition post_transactions_delete :: "ext \<Rightarrow> form_value \<Rightarrow> unit response action" where
  "post_transactions_delete L ids =
     io_then (bulkDelete TransactionForRebateCriteriaRepository L (serial_matches tr_id) ids)
       (io_return (Redirect ''/transactions''))"

definition post_transactions_delete_all :: "ext \<Rightarrow> unit response action" where
  "post_transactions_delete_all L =
     io_then (Repository.truncate TransactionForRebateCriteriaRepository L) (io_return (Redirect ''/transactions''))"

definition post_transactions_process :: "ext \<Rightarrow> unit response action" where
  "post_transactions_process L = io_then (TransactionProcessing_perform L None) (io_return End)"

section \<open>Rebates\<close>

definition get_rebates :: "ext \<Rightarrow> listing \<Rightarrow> IRebate list response action" where
  "get_rebates L N =
     io_bind (findNewest RebateRepository L (\<lambda>n. newest_rebates N n 500))
       (\<lambda>xs. io_return (Render ''rebates/index'' ''Rebates'' xs))"

definition post_rebates_sync_to_mop :: "ext \<Rightarrow> nat list \<Rightarrow> nat list \<Rightarrow> unit response action" where
  "post_rebates_sync_to_mop L schedule1 schedule2 =
     io_then (syncTotalsToMOP L schedule1 schedule2) (io_return End)"

definition post_rebates_delete_all :: "ext \<Rightarrow> unit response action" where
  "post_rebates_delete_all L =
     io_then (Repository.truncate RebateRepository L) (io_return (Redirect ''/rebates''))"

definition get_rebate_export :: "ext \<Rightarrow> listing \<Rightarrow> ITransferDetails list response action" where
  "get_rebate_export L N =
     io_bind (findNewest ExportDetailsRepository L (newest_exports N))
       (\<lambda>xs. io_return (Render ''rebate_export/index'' ''Export History'' xs))"

definition get_rebate_export_new :: "ext \<Rightarrow> IRebate list response action" where
  "get_rebate_export_new L =
     io_bind (displayRebatesPendingExport L)
       (\<lambda>rebatesToExport. io_return (Render ''rebate_export/new'' ''Rebates to export'' rebatesToExport))"

text \<open>
  The preview as a file.  The generator is not awaited; its writing is synchronous, so what is sent is what it
  has written by the time it returns.
\<close>

definition previewTimestamp :: "ext \<Rightarrow> string action" where
  "previewTimestamp L = io_bind (now L) (\<lambda>t. io_return (format_date L ''YYYY_MM_DD_hh_mm_ss'' t))"

definition get_rebate_export_download :: "ext \<Rightarrow> unit response action" where
  "get_rebate_export_download L =
     io_bind (previewTimestamp L) (\<lambda>timestamp.
       let filePath = tmpdir L @ ''/rmresults_preview_'' @ timestamp @ ''.csv'' in
       io_bind (displayRebatesPendingExport L) (\<lambda>rebatesToExport.
         io_then (CSVGenerator_perform L (map (RebateExportSerializer_serialize L) rebatesToExport) filePath)
           (io_return (Download filePath))))"

definition post_rebate_export_export :: "ext \<Rightarrow> string \<Rightarrow> unit response action" where
  "post_rebate_export_export L path = io_then (RebateExport_perform L path) (io_return End)"

section \<open>Imports\<close>

definition get_transaction_import :: "ext \<Rightarrow> listing \<Rightarrow> ITransferDetails list response action" where
  "get_transaction_import L N =
     io_bind (findNewest TransactionImportDetailsRepository L (newest_imports N))
       (\<lambda>xs. io_return (Render ''transaction_import/index'' ''Transaction Import Syncs'' xs))"

definition post_transaction_import_sync ::
  "ext \<Rightarrow> import_ext \<Rightarrow> string \<Rightarrow> unit response action" where
  "post_transaction_import_sync L X path =
     io_then (TransactionImport_perform L (remote_source L X) (new_RemoteWatchAndMatchTransactions L path))
       (io_return End)"

definition post_transaction_import_upload :: "ext \<Rightarrow> import_ext \<Rightarrow> string \<Rightarrow> unit response action" where
  "post_transaction_import_upload L X csv =
     io_then (TransactionImport_perform L (csv_source L X) (new_CSVImportString csv True)) (io_return End)"

definition post_transaction_import_delete :: "ext \<Rightarrow> form_value \<Rightarrow> unit response action" where
  "post_transaction_import_delete L ids =
     io_then (bulkDelete TransactionImportDetailsRepository L (serial_matches id_id) ids)
       (io_return (Redirect ''/transaction_import''))"

definition post_transaction_import_delete_all :: "ext \<Rightarrow> unit response action" where
  "post_transaction_import_delete_all L =
     io_then (Repository.truncate TransactionImportDetailsRepository L) (io_return (Redirect ''/transaction_import''))"

section \<open>The preview of an export\<close>

text \<open>
  Both previews show the rebates that no export has started.  Those an export has left in the middle are not
  shown, though the next export sends them as well.
\<close>

lemma preview_reliable:
  assumes "ext_ok L" and "reliable L" and "exportable (store w)"
  obtains rs xs where "displayRebatesPendingExport L w = (Inr xs, tick w)"
    and "mset rs = mset (filter (\<lambda>r. rr_status r = PendingExtraction) (rebates (store w)))"
    and "map (RebateSerializer_deserialize L) rs = map Inr xs"
proof -
  have total: "\<exists>x. RebateSerializer_deserialize L r = Inr x"
    if "r \<in> set (rebates (store w))" "rr_status r = PendingExtraction" for r
    using assms(3) that by (intro deserialize_rebate) (auto simp: exportable_def in_export_def)
  obtain rs xs where "findAll RebateRepository L (\<lambda>r. rr_status r = PendingExtraction) w = (Inr xs, tick w)"
    "mset rs = mset (filter (\<lambda>r. rr_status r = PendingExtraction) (rebates (store w)))"
    "map (RebateSerializer_deserialize L) rs = map Inr xs"
    by (rule findAll_reliable [where R = RebateRepository and w = w and L = L and matches = "serial_matches rr_id"
        and v = "\<lambda>i. int_key i \<noteq> None" and p = "\<lambda>r. rr_status r = PendingExtraction"])
      (use rebates_reads [OF assms(1)] reliable_rebates [OF assms(2)] total in simp_all)
  then show thesis by (intro that) (simp_all add: displayRebatesPendingExport_def)
qed

lemma preview_leaves_out_started:
  assumes "ext_ok L" and "reliable L" and "exportable (store w)"
    and "\<forall>r\<in>set (waiting_rows (store w)). rr_status r = ExtractionStarted"
  shows "get_rebate_export_new L w = (Inr (Render ''rebate_export/new'' ''Rebates to export'' []), tick w)"
proof -
  obtain rs xs where d: "displayRebatesPendingExport L w = (Inr xs, tick w)"
    and rs: "mset rs = mset (filter (\<lambda>r. rr_status r = PendingExtraction) (rebates (store w)))"
    and xs: "map (RebateSerializer_deserialize L) rs = map Inr xs"
    by (rule preview_reliable [OF assms(1-3)])
  have "\<forall>r\<in>set (rebates (store w)). rr_status r \<noteq> PendingExtraction"
    using assms(4) by (auto simp: waiting_rows_def in_export_def)
  with rs xs have "xs = []" by simp
  with d show ?thesis by (simp add: get_rebate_export_new_def io_simps)
qed

end
