(* ===== verification/Forms.thy ===== *)
theory Forms
  imports Web Consumers
begin

text \<open>
  The forms for a new offer and a new transaction (\<open>POST /offers\<close> and \<open>POST /transactions\<close> of
  \<open>app/web/routes\<close>), with the identifiers made up for them (\<open>app/web/util/random_demo_id.ts\<close>).

  A form sends every text input, an empty one as the empty text.  It has no field for \<open>eligibleProducts\<close>,
  \<open>redemptionBasedOn\<close> or \<open>isManual\<close>, which are \<open>undefined\<close>: a save leaves the products as they are, and a flag that
  is missing reads as false.  The days of an offer are kept as the
  texts of numbers and converted wherever they are used; they and the dates of validity stand here as the
  numbers and dates that are read.
\<close>

record form_ext =
  random_number :: "nat \<Rightarrow> nat \<Rightarrow> nat"   \<comment> \<open>\<open>faker.random.number(max)\<close>\<close>
  int4_in :: "string \<Rightarrow> int option"      \<comment> \<open>what an \<open>integer\<close> column reads of a text\<close>

text \<open>\<open>faker.random.number(max)\<close> is at most \<open>max\<close>.\<close>

definition form_ext_ok :: "form_ext \<Rightarrow> bool" where
  "form_ext_ok F \<longleftrightarrow> (\<forall>k m. random_number F k m \<le> m)"

section \<open>Identifiers\<close>

definition DEFAULT_maxDigits :: nat where
  "DEFAULT_maxDigits = 5"

definition randomDemoId :: "form_ext \<Rightarrow> string option \<Rightarrow> nat option \<Rightarrow> string action" where
  "randomDemoId F prefix maxDigits =
     io_bind (request (\<lambda>k. Inr (random_number F k
         ((case maxDigits of None \<Rightarrow> DEFAULT_maxDigits | Some d \<Rightarrow> d) ^ 10))))
       (\<lambda>n. io_return ((case prefix of None \<Rightarrow> ''undefined'' | Some p \<Rightarrow> p) @ show_nat n))"

text \<open>
  The limit is the number of digits to the power ten: an identifier of five digits at most can have seven.
\<close>

theorem demo_id_digits:
  assumes "form_ext_ok F"
  shows "\<exists>n. n \<le> 9765625 \<and> randomDemoId F (Some p) None w = (Inr (p @ show_nat n), tick w) \<and>
    length (show_nat n) \<le> 7"
proof -
  let ?n = "random_number F (calls w) 9765625"
  have n: "?n \<le> 9765625" using assms by (simp add: form_ext_ok_def)
  then have "length (show_nat ?n) \<le> 7" using length_show_nat [of ?n 6] by simp
  with n show ?thesis
    by (intro exI [of _ ?n]) (simp add: randomDemoId_def DEFAULT_maxDigits_def io_simps request_def)
qed

definition highest_number :: form_ext where
  "highest_number = \<lparr>random_number = (\<lambda>_ m. m), int4_in = (\<lambda>s. if s = ''0'' then Some 0 else if s = ''1'' then Some 1 else None)\<rparr>"

lemma highest_number_ok: "form_ext_ok highest_number"
  by (simp add: form_ext_ok_def highest_number_def)

lemma demo_id_has_seven_digits:
  "randomDemoId highest_number (Some ''T'') None w = (Inr ''T9765625'', tick w)"
proof -
  have "digit_char 9 = CHR ''9''" "digit_char 7 = CHR ''7''" "digit_char 6 = CHR ''6''" "digit_char 5 = CHR ''5''"
    "digit_char 2 = CHR ''2''" by code_simp+
  then have "show_nat 9765625 = ''9765625''" by (simp add: show_nat.simps)
  then show ?thesis
    by (simp add: randomDemoId_def DEFAULT_maxDigits_def highest_number_def io_simps request_def)
qed

section \<open>A new offer\<close>

record offer_form =
  nf_offerIdForTesting :: string
  nf_descriptionForTesting :: string
  nf_benefitToCustomer :: OfferBenefitToCustomer
  nf_rebateAmount :: string
  nf_isRedeemable :: form_value
  nf_merchantId :: string
  nf_refundPeriodInDays :: int
  nf_validFromDate :: date
  nf_validToDate :: date
  nf_hasBeenActivated :: form_value
  nf_requiresCustomerToBeLinked :: form_value
  nf_requiresCustomerToBeTargeted :: form_value
  nf_redemptionLimit :: string
  nf_redemptionLimitType :: string
  nf_redemptionPeriodInDays :: int

text \<open>The type of a limit is kept as the text it is.\<close>

definition limit_type_of :: "string \<Rightarrow> RedemptionLimitType" where
  "limit_type_of s = (if s = ''overall'' then Overall else if s = ''per card'' then PerCard else OtherLimitType s)"

definition form_criteria :: "offer_form \<Rightarrow> string \<Rightarrow> IRewardCalculation \<Rightarrow> int \<Rightarrow> IRebateCriteria" where
  "form_criteria x i rewardCalculation limit =
     \<lparr>rc_id = i, rc_isRedeemable = form_truthy (nf_isRedeemable x),
       rc_descriptionForTesting = Some (nf_descriptionForTesting x), rc_rewardCalculation = rewardCalculation,
       rc_refundPeriodInDays = nf_refundPeriodInDays x, rc_validFromDate = nf_validFromDate x,
       rc_validToDate = nf_validToDate x, rc_merchantId = nf_merchantId x,
       rc_hasBeenActivated = form_truthy (nf_hasBeenActivated x),
       rc_requiresCustomerToBeLinked = form_truthy (nf_requiresCustomerToBeLinked x),
       rc_requiresCustomerToBeTargeted = form_truthy (nf_requiresCustomerToBeTargeted x),
       rc_redemptionLimit = limit, rc_redemptionLimitType = Value (limit_type_of (nf_redemptionLimitType x)),
       rc_redemptionPeriodInDays = nf_redemptionPeriodInDays x, rc_eligibleProducts = Undefined,
       rc_redemptionBasedOn = OtherOfferType Undefined\<rparr>"

definition form_limit :: "ext \<Rightarrow> form_ext \<Rightarrow> offer_form \<Rightarrow> int option" where
  "form_limit L F x = int4_in F (number_toString (show_fraction L) (Number (nf_redemptionLimit x)))"

definition form_offer_id :: "form_ext \<Rightarrow> offer_form \<Rightarrow> string action" where
  "form_offer_id F x =
     (if nf_offerIdForTesting x = [] then randomDemoId F (Some ''O'') None else io_return (nf_offerIdForTesting x))"

definition post_offers :: "ext \<Rightarrow> form_ext \<Rightarrow> offer_form \<Rightarrow> unit response action" where
  "post_offers L F x =
     io_bind (io_lift (RewardCalculationInterpretation_from L
         \<lparr>rebateAmount = nf_rebateAmount x, benefitToCustomer = nf_benefitToCustomer x\<rparr>)) (\<lambda>rewardCalculation.
       io_bind (form_offer_id F x) (\<lambda>i.
         case form_limit L F x of
           None \<Rightarrow> request (\<lambda>_. Inl (DbError ''invalid input syntax for integer''))
         | Some limit \<Rightarrow>
             io_then (insert RebateCriteriaRepository L (form_criteria x i rewardCalculation limit))
               (io_return (Redirect ''/offers''))))"

definition get_offers_new :: "OfferBenefitToCustomer list response action" where
  "get_offers_new =
     io_return (Render ''offers/new'' ''New offer''
       [DollarsOff, PercentageOffForDollars, PointsTopUp, PercentageIncreaseForPoints, MultiplierForPoints])"

text \<open>
  The offer of a form is found under its identifier as the form says, with the products of the one that had it,
  in whose place it is; the others are untouched.
\<close>

theorem offer_form_reads_back:
  assumes "ext_ok L" and "reliable L" and "nf_offerIdForTesting x \<noteq> []"
    and "RewardCalculationInterpretation_from L
      \<lparr>rebateAmount = nf_rebateAmount x, benefitToCustomer = nf_benefitToCustomer x\<rparr> = Inr rc"
    and "form_limit L F x = Some n"
  shows "\<exists>c w'. post_offers L F x w = (Inr (Redirect ''/offers''), w') \<and>
    c = (form_criteria x (nf_offerIdForTesting x) rc n)\<lparr>rc_eligibleProducts :=
      (case List.find (\<lambda>r. cr_id r = nf_offerIdForTesting x) (rebate_criteria (store w)) of
         None \<Rightarrow> Null | Some r \<Rightarrow> cr_eligible_products r)\<rparr> \<and>
    find RebateCriteriaRepository L (nf_offerIdForTesting x) w' = (Inr (Some c), tick w') \<and>
    mset (rebate_criteria (store w')) = add_mset (RebateCriteriaSerializer_serialize c)
      (mset (filter (\<lambda>r. cr_id r \<noteq> nf_offerIdForTesting x) (rebate_criteria (store w))))"
proof -
  let ?c = "form_criteria x (nf_offerIdForTesting x) rc n"
  obtain w' where u: "upsert RebateCriteriaRepository L ?c w = (Inr ?c, w')"
    "find RebateCriteriaRepository L (rc_id ?c) w' = (Inr (Some (stored_criteria (store w) ?c)), tick w')"
    "mset (rebate_criteria (store w')) = add_mset (RebateCriteriaSerializer_serialize (stored_criteria (store w) ?c))
      (mset (filter (\<lambda>r. cr_id r \<noteq> rc_id ?c) (rebate_criteria (store w))))"
    by (rule upsert_criteria [OF assms(1,2)])
  have "stored_criteria (store w) ?c = ?c\<lparr>rc_eligibleProducts :=
      (case List.find (\<lambda>r. cr_id r = nf_offerIdForTesting x) (rebate_criteria (store w)) of
         None \<Rightarrow> Null | Some r \<Rightarrow> cr_eligible_products r)\<rparr>"
    by (auto simp: stored_criteria_def saved_column_def form_criteria_def Let_def split: option.split)
  moreover have "insert RebateCriteriaRepository L ?c w = (Inr ?c, w')" using u(1) by (simp add: upsert_def insert_def)
  then have "post_offers L F x w = (Inr (Redirect ''/offers''), w')"
    using assms(3-5) by (simp add: post_offers_def form_offer_id_def io_simps)
  moreover have "rc_id ?c = nf_offerIdForTesting x" by (simp add: form_criteria_def)
  ultimately show ?thesis using u(2,3) by (intro exI [of _ "stored_criteria (store w) ?c"] exI [of _ w']) simp
qed

definition sample_offer_form :: offer_form where
  "sample_offer_form =
     \<lparr>nf_offerIdForTesting = ''O7'', nf_descriptionForTesting = ''Coffee'', nf_benefitToCustomer = DollarsOff,
       nf_rebateAmount = ''5'', nf_isRedeemable = Text ''on'', nf_merchantId = ''77'', nf_refundPeriodInDays = 30,
       nf_validFromDate = 0, nf_validToDate = 86400000, nf_hasBeenActivated = Text ''on'',
       nf_requiresCustomerToBeLinked = Absent, nf_requiresCustomerToBeTargeted = Absent, nf_redemptionLimit = ''1'',
       nf_redemptionLimitType = ''per card'', nf_redemptionPeriodInDays = 30\<rparr>"

lemma offer_form_reads_back_witness:
  "\<exists>c w'. post_offers ref_ext highest_number sample_offer_form sample_world = (Inr (Redirect ''/offers''), w') \<and>
    find RebateCriteriaRepository ref_ext ''O7'' w' = (Inr (Some c), tick w') \<and>
    rc_isRedeemable c \<and> \<not> rc_requiresCustomerToBeLinked c \<and> rc_redemptionLimitType c = Value PerCard"
proof -
  let ?t = "\<lparr>rebateAmount = nf_rebateAmount sample_offer_form, benefitToCustomer = nf_benefitToCustomer sample_offer_form\<rparr>"
  have "decimal_prefix ''5'' = Some (5, [])" by code_simp
  then have b: "big_new ref_ext (rebateAmount ?t) = Inr 5" by (simp add: ref_ext_def sample_offer_form_def)
  obtain s where rc: "RewardCalculationInterpretation_from ref_ext ?t =
      Inr \<lparr>operand = s, operation = terms_operation ?t, reward_unit = terms_unit ?t\<rparr>"
    by (rule interpretation_operand [OF ref_big_laws b])
  have "Number ''1'' = Num 1" "digit_char (Suc 0) = CHR ''1''" by code_simp+
  then have n: "form_limit ref_ext highest_number sample_offer_form = Some 1"
    by (simp add: form_limit_def sample_offer_form_def highest_number_def number_toString_def show_int_def show_nat.simps)
  show ?thesis
    using offer_form_reads_back [OF ref_ext_ok ref_reliable _ rc n, of sample_world]
    by (auto simp: sample_offer_form_def form_criteria_def form_truthy_def limit_type_of_def)
qed

text \<open>
  An offer of the form is neither one of products nor one of an opt-in file, so both checks accept every
  transaction of it.
\<close>

lemma form_offers_skip_checks:
  assumes "cx_criteria c = Some (form_criteria x i rc n)"
  shows "OfferProductOwnership_doesAccept c w = (Inr True, w)" and "OfferOptInFile_doesAccept c w = (Inr True, w)"
  using assms by (simp_all add: OfferProductOwnership_doesAccept_def OfferOptInFile_doesAccept_def
      form_criteria_def defined_def io_simps)

section \<open>A new transaction\<close>

record transaction_form =
  tf_accountId :: string
  tf_amount :: string
  tf_basePoints :: string
  tf_userId :: string
  tf_rebateCriteriaId :: string
  tf_rebateId :: string
  tf_transactionType :: TransactionType
  tf_transactionDate :: string
  tf_cardType :: CardType
  tf_card :: string
  tf_productCodeExternal :: string
  tf_customerId :: string

text \<open>The empty text is no date; the date of another text may be invalid.\<close>

definition parseDate :: "web_ext \<Rightarrow> string \<Rightarrow> date option option" where
  "parseDate X s = (if s = [] then None else Some (new_Date X s))"

definition form_date :: "ext \<Rightarrow> web_ext \<Rightarrow> string \<Rightarrow> date option action" where
  "form_date L X s =
     (case parseDate X s of
        None \<Rightarrow> io_bind (now L) (\<lambda>t. io_return (Some t))
      | Some d \<Rightarrow> io_return d)"

definition form_transaction :: "transaction_form \<Rightarrow> string \<Rightarrow> int \<Rightarrow> date \<Rightarrow> ITransactionForRebateCriteria" where
  "form_transaction x i basePoints transactionDate =
     \<lparr>tx_id = None, tx_transactionId = i, tx_accountId = tf_accountId x, tx_userId = tf_userId x,
       tx_rebateCriteriaId = tf_rebateCriteriaId x, tx_rebateId = Some (tf_rebateId x), tx_amount = tf_amount x,
       tx_processedAt = None, tx_transactionType = tf_transactionType x, tx_status = Pending, tx_card = tf_card x,
       tx_basePoints = basePoints, tx_cardType = tf_cardType x, tx_transactionDate = transactionDate,
       tx_transactionCurrency = ''CAD'', tx_transactionPostalCode = None,
       tx_productCodeExternal = tf_productCodeExternal x, tx_isManual = False, tx_tsysCustomerId = tf_customerId x,
       tx_refundReportCreated = False, tx_processorId = None\<rparr>"

text \<open>Base points with a fraction and an invalid date are refused by their columns.\<close>

definition post_transactions :: "ext \<Rightarrow> web_ext \<Rightarrow> form_ext \<Rightarrow> transaction_form \<Rightarrow> unit response action" where
  "post_transactions L X F x =
     io_bind (randomDemoId F (Some ''T'') None) (\<lambda>i.
       io_bind (form_date L X (tf_transactionDate x)) (\<lambda>d.
         case (int4_in F (tf_basePoints x), d) of
           (Some basePoints, Some transactionDate) \<Rightarrow>
             io_then (insert TransactionForRebateCriteriaRepository L
                 (form_transaction x i basePoints transactionDate))
               (io_return (Redirect ''/transactions''))
         | _ \<Rightarrow> request (\<lambda>_. Inl (DbError ''invalid input syntax''))))"

text \<open>
  A form that is complete and whose values the columns take adds one pending transaction with a new number, without a worker and without a
  report; the other rows and tables are untouched.
\<close>

theorem transaction_form_adds_a_row:
  assumes "ext_ok L" and "reliable L" and "int4_in F (tf_basePoints x) = Some n"
    and "tf_transactionDate x \<noteq> []" and "new_Date X (tf_transactionDate x) = Some d"
    and "\<And>i. transaction_accepted L (TransactionForRebateCriteriaSerializer_serialize (form_transaction x i n d))"
  shows "\<exists>i k w'. post_transactions L X F x w = (Inr (Redirect ''/transactions''), w') \<and>
    (\<forall>r\<in>set (transactions (store w)). tr_id r \<noteq> Some k) \<and>
    mset (transactions (store w')) = add_mset (transaction_columns L
      (TransactionForRebateCriteriaSerializer_serialize ((form_transaction x i n d)\<lparr>tx_id := Some k\<rparr>)))
      (mset (transactions (store w))) \<and>
    store w' = (store w)\<lparr>transactions := transactions (store w')\<rparr>"
proof -
  let ?T = TransactionForRebateCriteriaRepository and ?s = TransactionForRebateCriteriaSerializer_serialize
  obtain i where i: "randomDemoId F (Some ''T'') None w = (Inr i, tick w)"
    by (simp add: randomDemoId_def io_simps request_def)
  let ?y = "form_transaction x i n d"
  have key: "(?s y)\<lparr>tr_id := Some k\<rparr> = ?s (y\<lparr>tx_id := Some k\<rparr>)" for y k
    by (simp add: TransactionForRebateCriteriaSerializer_serialize_def)
  have exact: "TransactionForRebateCriteriaSerializer_deserialize L (?s z) = Inr z" for z
    by (rule transaction_serializer.roundtrip) simp
  have saves: "orm_saves_serial tr_id (\<lambda>k r. r\<lparr>tr_id := Some k\<rparr>) (transaction_columns L) (orm_of ?T L)"
    and rel: "reliable_orm (\<lambda>i. int_key i \<noteq> None) (transaction_accepted L) (orm_of ?T L)" and none: "tr_id (serialize_with ?T ?y) = None"
    and reads: "\<And>k. \<exists>z. deserialize_with ?T L ((serialize_with ?T ?y)\<lparr>tr_id := Some k\<rparr>) = Inr z"
    using transactions_saves [OF assms(1)] reliable_transactions [OF assms(2)] exact
    by (simp_all add: TransactionForRebateCriteriaRepository_def key)
      (simp add: TransactionForRebateCriteriaSerializer_serialize_def form_transaction_def)
  obtain k z w' rs where t: "insert ?T L ?y (tick w) = (Inr z, w')" "store w' = put_rows ?T rs (store (tick w))"
    "mset rs = add_mset (transaction_columns L ((serialize_with ?T ?y)\<lparr>tr_id := Some k\<rparr>)) (mset (rows_of ?T (store (tick w))))"
    "\<forall>r\<in>set (rows_of ?T (store (tick w))). tr_id r \<noteq> Some k"
    by (rule transaction_table.insert_reliable [OF saves rel _ none reads])
      (use assms(6) in \<open>simp add: TransactionForRebateCriteriaRepository_def\<close>)
  have "post_transactions L X F x w = (Inr (Redirect ''/transactions''), w')"
    using i t(1) assms(3-5) by (simp add: post_transactions_def form_date_def parseDate_def io_simps)
  with t(2-4) show ?thesis
    by (intro exI [of _ i] exI [of _ k] exI [of _ w']) (simp add: TransactionForRebateCriteriaRepository_def key)
qed

text \<open>A transaction of the form without a rebate names the empty one: a fulfillment of it is refused.\<close>

lemma form_without_rebate:
  assumes "tf_rebateId x = []" and "fc_transaction c = form_transaction x i n d"
  shows "RebateIdNotFound_matches c w = (Inr (True, c), w)"
  using assms by (simp add: RebateIdNotFound_matches_def rebate_key_def form_transaction_def io_simps)

end
