(* ===== verification/Ledger.thy ===== *)
theory Ledger
  imports Consumers ClientProperties
begin

text \<open>
  The ledger of the users' states (\<open>history.userledger\<close>): the trigger that the migrations put on the table of the
  users (\<open>db/migrations/sqls/20180813143626-alter-user-ledger-trigger-up.sql\<close>), which writes a state whenever
  the offers of a user have changed, and the monthly partitions of the table
  (\<open>createNextMonthsTable\<close> of \<open>user_ledger_repository.ts\<close>, \<open>app/scheduler/create_partitions.ts\<close>).
\<close>

section \<open>Civil times\<close>

text \<open>Year, month from 1 to 12, day of the month from 1, microsecond of the day.\<close>

datatype civil = Civil (c_year: nat) (c_month: nat) (c_day: nat) (c_micro: nat)

instantiation civil :: linorder
begin

definition less_eq_civil :: "civil \<Rightarrow> civil \<Rightarrow> bool" where
  "less_eq_civil s t \<longleftrightarrow>
     c_year s < c_year t \<or> c_year s = c_year t \<and>
       (c_month s < c_month t \<or> c_month s = c_month t \<and>
         (c_day s < c_day t \<or> c_day s = c_day t \<and> c_micro s \<le> c_micro t))"

definition less_civil :: "civil \<Rightarrow> civil \<Rightarrow> bool" where
  "less_civil s t \<longleftrightarrow> s \<le> t \<and> \<not> t \<le> s"

instance
  by standard (auto simp: less_eq_civil_def less_civil_def civil.expand)

end

section \<open>The database server\<close>

text \<open>
  The clock of the server, by the number of the request: the time that the program reads back, in whole
  milliseconds, and the civil time that the partitions are chosen by, in microseconds.  The partitions have their
  names and bounds, the first included and the second not, and their indexes.  A save of a row that is not changed may send
  no statement; then no trigger runs.
\<close>

record server =
  db_now :: "nat \<Rightarrow> date"
  civil_now :: "nat \<Rightarrow> civil"
  ledger_tables :: "(string \<times> civil \<times> civil) list"
  ledger_indexes :: "string list"
  sends_unchanged :: "nat \<Rightarrow> bool"

definition in_partition :: "server \<Rightarrow> civil \<Rightarrow> bool" where
  "in_partition D t \<longleftrightarrow> (\<exists>(_, from_time, to_time)\<in>set (ledger_tables D). from_time \<le> t \<and> t < to_time)"

section \<open>The trigger\<close>

definition user_data_new :: "UserRecord \<Rightarrow> user_info" where
  "user_data_new new =
     \<lparr>ui_targeted_offers = Some (ur_targeted_offer_ids new), ui_linked_offers = Some (ur_linked_offer_ids new),
       ui_is_enrolled = None\<rparr>"

definition user_ledger_trigger_fn ::
  "ext \<Rightarrow> server \<Rightarrow> nat \<Rightarrow> UserRecord \<Rightarrow> UserLedgerRecord list \<Rightarrow> exn + UserLedgerRecord list" where
  "user_ledger_trigger_fn L D n new ledger =
     (case orm_find_by (userledger_orm L) n (\<lambda>s. lr_user_id s = ur_id new) (\<lambda>s. - lr_update_timestamp s) ledger of
        Inl e \<Rightarrow> Inl e
      | Inr states \<Rightarrow>
          let user_data_old = (case states of [] \<Rightarrow> None | s # _ \<Rightarrow> Some (lr_user_info s)) in
          if (case user_data_old of None \<Rightarrow> True | Some old \<Rightarrow> user_data_new new \<noteq> old)
          then if in_partition D (civil_now D n)
            then Inr (ledger @ [\<lparr>lr_user_id = ur_id new, lr_update_timestamp = db_now D n,
              lr_user_info = user_data_new new\<rparr>])
            else Inl (DbError ''no partition of relation userledger found for row'')
          else Inr ledger)"

text \<open>
  A statement that writes the row \<open>new\<close> to the users and runs the trigger; when the trigger fails the statement
  does, and nothing is written.
\<close>

definition with_trigger :: "ext \<Rightarrow> server \<Rightarrow> UserRecord \<Rightarrow> 'a action \<Rightarrow> 'a action" where
  "with_trigger L D new m =
     (\<lambda>w. case m w of
        (Inl e, w') \<Rightarrow> (Inl e, w')
      | (Inr x, w') \<Rightarrow>
          if new \<in> set (users (store w)) \<and> \<not> sends_unchanged D (calls w) then (Inr x, w')
          else case user_ledger_trigger_fn L D (calls w) new (userledger (store w')) of
              Inl e \<Rightarrow> (Inl e, w'\<lparr>store := store w\<rparr>)
            | Inr ledger \<Rightarrow> (Inr x, w'\<lparr>store := (store w')\<lparr>userledger := ledger\<rparr>\<rparr>))"

text \<open>The handler of the messages on users, on a database with the trigger.\<close>

definition consume_user :: "ext \<Rightarrow> server \<Rightarrow> IUserData message \<Rightarrow> IUser option action" where
  "consume_user L D message =
     (case document message of
        None \<Rightarrow> UserHandler_process L message
      | Some x \<Rightarrow>
          (case KafkaUserSerializer_serialize x of
             Inl e \<Rightarrow> UserHandler_process L message
           | Inr user \<Rightarrow>
               if ku_isAnonymous x then UserHandler_process L message
               else with_trigger L D (UserSerializer_serialize user) (UserHandler_process L message)))"

section \<open>The partitions\<close>

text \<open>What is used of \<open>moment\<close>: the parts of a date, months counted from 0, and the length of its month.\<close>

record moment =
  m_year :: nat
  m_month :: nat
  m_day :: nat

record calendar =
  add_month :: "moment \<Rightarrow> moment"
  daysInMonth :: "moment \<Rightarrow> nat"

definition micros_of_day :: nat where
  "micros_of_day = 86400000000"

definition partition_name :: "nat \<Rightarrow> nat \<Rightarrow> string" where
  "partition_name year month = ''userledger_'' @ show_nat year @ ''_'' @ show_nat month"

definition index_name :: "nat \<Rightarrow> nat \<Rightarrow> string" where
  "index_name year month = ''user_history_index_'' @ show_nat year @ ''_'' @ show_nat month"

text \<open>The two statements: a partition that exists already is skipped, one that overlaps another is refused.\<close>

definition create_partition :: "string \<Rightarrow> civil \<Rightarrow> civil \<Rightarrow> server \<Rightarrow> exn + server" where
  "create_partition name from_time to_time D =
     (if name \<in> fst ` set (ledger_tables D) then Inr D
      else if \<exists>(_, f, t)\<in>set (ledger_tables D). from_time < t \<and> f < to_time
        then Inl (DbError (''partition '' @ name @ '' would overlap partition''))
      else Inr (D\<lparr>ledger_tables := ledger_tables D @ [(name, from_time, to_time)]\<rparr>))"

definition create_index :: "string \<Rightarrow> server \<Rightarrow> exn + server" where
  "create_index name D =
     (if name \<in> set (ledger_indexes D) then Inl (DbError (''relation '' @ name @ '' already exists''))
      else Inr (D\<lparr>ledger_indexes := ledger_indexes D @ [name]\<rparr>))"

text \<open>Both are one query, so that none is done when one fails.\<close>

definition createNextMonthsTable :: "calendar \<Rightarrow> moment \<Rightarrow> server \<Rightarrow> exn + server" where
  "createNextMonthsTable C today D =
     (let base = add_month C today; nextYear = m_year base; nextMonth = m_month base + 1;
        nextMonthLastDay = daysInMonth C base
      in case create_partition (partition_name nextYear nextMonth) (Civil nextYear nextMonth 1 0)
             (Civil nextYear nextMonth nextMonthLastDay (micros_of_day - 1)) D of
           Inl e \<Rightarrow> Inl e
         | Inr D' \<Rightarrow> create_index (index_name nextYear nextMonth) D')"

text \<open>The script catches the error and ends with 0.\<close>

definition create_partitions :: "calendar \<Rightarrow> moment \<Rightarrow> server \<Rightarrow> server" where
  "create_partitions C today D = (case createNextMonthsTable C today D of Inl _ \<Rightarrow> D | Inr D' \<Rightarrow> D')"

end
