(* ===== verification/LedgerProperties.thy ===== *)
theory LedgerProperties
  imports Ledger Refinement
begin

text \<open>
  The ledger keeps up with the table of the users, so that the eligibility checks, which read the ledger, see
  what the last message on a user said; and the monthly script gives every month its partition.
\<close>

section \<open>The latest state of a user\<close>

definition latest_state :: "UserLedgerRecord list \<Rightarrow> string \<Rightarrow> UserLedgerRecord \<Rightarrow> bool" where
  "latest_state ledger u s \<longleftrightarrow>
     s \<in> set ledger \<and> lr_user_id s = u \<and>
     (\<forall>q\<in>set ledger. lr_user_id q = u \<longrightarrow> lr_update_timestamp q \<le> lr_update_timestamp s)"

definition has_lists :: "UserRecord \<Rightarrow> user_info \<Rightarrow> bool" where
  "has_lists r info \<longleftrightarrow>
     ui_targeted_offers info = Some (ur_targeted_offer_ids r) \<and> ui_linked_offers info = Some (ur_linked_offer_ids r)"

text \<open>The ledger is in step with the users: the latest state of each has his offers.\<close>

definition current_in :: "UserLedgerRecord list \<Rightarrow> UserRecord \<Rightarrow> bool" where
  "current_in ledger r \<longleftrightarrow> (\<exists>s. latest_state ledger (ur_id r) s \<and> has_lists r (lr_user_info s))"

definition in_step :: "db \<Rightarrow> bool" where
  "in_step d \<longleftrightarrow> (\<forall>r\<in>set (users d). current_in (userledger d) r)"

definition before :: "UserLedgerRecord list \<Rightarrow> date \<Rightarrow> bool" where
  "before ledger t \<longleftrightarrow> (\<forall>s\<in>set ledger. lr_update_timestamp s < t)"

lemma latest_unique:
  assumes "distinct (map ledger_key ledger)" and "latest_state ledger u s" and "latest_state ledger u q"
  shows "q = s"
proof -
  have "ledger_key q = ledger_key s" using assms(2,3) by (auto simp: latest_state_def ledger_key_def intro: antisym)
  with assms show ?thesis by (auto simp: distinct_map latest_state_def dest: inj_onD)
qed

lemma has_lists_new: "has_lists r (user_data_new r)"
  by (simp add: has_lists_def user_data_new_def)

section \<open>What the trigger does\<close>

definition new_state :: "server \<Rightarrow> nat \<Rightarrow> UserRecord \<Rightarrow> UserLedgerRecord" where
  "new_state D n r = \<lparr>lr_user_id = ur_id r, lr_update_timestamp = db_now D n, lr_user_info = user_data_new r\<rparr>"

text \<open>The state of the row is there already.\<close>

definition recorded :: "UserLedgerRecord list \<Rightarrow> UserRecord \<Rightarrow> bool" where
  "recorded ledger r \<longleftrightarrow> (\<exists>s. latest_state ledger (ur_id r) s \<and> lr_user_info s = user_data_new r)"

lemma recorded_current: "recorded ledger r \<Longrightarrow> current_in ledger r"
  unfolding recorded_def current_in_def by (metis has_lists_new)

abbreviation no_partition :: exn where
  "no_partition \<equiv> DbError ''no partition of relation userledger found for row''"

lemma trigger_cases:
  assumes "ext_ok L" and "distinct (map ledger_key ledger)"
  obtains (failed) e where "user_ledger_trigger_fn L D n r ledger = Inl e"
      and "reliable L \<Longrightarrow> \<not> recorded ledger r \<and> \<not> in_partition D (civil_now D n) \<and> e = no_partition"
  | (kept) "user_ledger_trigger_fn L D n r ledger = Inr ledger" and "recorded ledger r"
  | (added) "user_ledger_trigger_fn L D n r ledger = Inr (ledger @ [new_state D n r])" and "\<not> recorded ledger r"
      and "in_partition D (civil_now D n)"
proof (cases "orm_find_by (userledger_orm L) n (\<lambda>s. lr_user_id s = ur_id r) (\<lambda>s. - lr_update_timestamp s) ledger")
  case (Inl e)
  have "\<not> reliable L"
  proof
    assume "reliable L"
    from reliable_find_by [OF reliable_ledger [OF this]] Inl show False by (metis sum.distinct(1))
  qed
  with Inl show thesis by (intro failed) (simp_all add: user_ledger_trigger_fn_def)
next
  case q: (Inr states)
  have rows: "set states = {s \<in> set ledger. lr_user_id s = ur_id r}"
    using mset_eq_set [OF orm_find_by_mset [OF ledger_reads [OF assms(1)] q]] by simp
  have rec: "recorded ledger r \<longleftrightarrow> (case states of [] \<Rightarrow> False | s # _ \<Rightarrow> lr_user_info s = user_data_new r)"
  proof (cases states)
    case Nil
    with rows show ?thesis by (auto simp: recorded_def latest_state_def)
  next
    case (Cons s ss)
    have "sorted (map (\<lambda>s. - lr_update_timestamp s) (s # ss))"
      using orm_find_by_sorted [OF ledger_reads [OF assms(1)] q] Cons by simp
    then have "\<forall>q\<in>set (s # ss). lr_update_timestamp q \<le> lr_update_timestamp s" by auto
    with rows Cons have "latest_state ledger (ur_id r) s" by (auto simp: latest_state_def)
    with latest_unique [OF assms(2)] Cons show ?thesis by (auto simp: recorded_def)
  qed
  have "user_ledger_trigger_fn L D n r ledger = (if recorded ledger r then Inr ledger
      else if in_partition D (civil_now D n) then Inr (ledger @ [new_state D n r])
      else Inl (DbError ''no partition of relation userledger found for row''))"
    unfolding rec using q by (auto simp: user_ledger_trigger_fn_def new_state_def Let_def split: list.split)
  with that show thesis by (auto split: if_splits)
qed

lemma new_state_latest:
  assumes "before ledger (db_now D n)"
  shows "latest_state (ledger @ [new_state D n r]) (ur_id r) (new_state D n r)"
  using assms by (fastforce simp: latest_state_def before_def new_state_def)

lemma new_state_recorded: "before ledger (db_now D n) \<Longrightarrow> recorded (ledger @ [new_state D n r]) r"
  using new_state_latest unfolding recorded_def by (fastforce simp: new_state_def)

lemma other_states:
  assumes "ur_id r \<noteq> ur_id q"
  shows "current_in (ledger @ [new_state D n r]) q \<longleftrightarrow> current_in ledger q"
  using assms by (auto simp: current_in_def latest_state_def new_state_def)

section \<open>A message on a user\<close>

lemma upsert_user:
  assumes "ext_ok L"
  obtains (failed) e where "upsert UserRepository L x w = (Inl e, tick w)" and "\<not> reliable L"
  | (stored) us where "upsert UserRepository L x w = (Inr x, (tick w)\<lparr>store := (store w)\<lparr>users := us\<rparr>\<rparr>)"
      and "mset us = add_mset (UserSerializer_serialize x) (mset (filter (\<lambda>r. ur_id r \<noteq> u_id x) (users (store w))))"
proof (cases "orm_save (users_orm L) (calls w) (UserSerializer_serialize x) (users (store w))")
  case (Inl e)
  have "\<not> reliable L"
  proof
    assume "reliable L"
    from reliable_save [OF reliable_users [OF this]] Inl show False by (metis sum.distinct(1))
  qed
  with Inl show thesis
    by (intro failed) (simp_all add: upsert_def insertRecord_def execute_def UserRepository_def io_simps)
next
  case (Inr q)
  obtain r us where q: "q = (r, us)" by (cases q)
  with Inr users_saves [OF assms] have "r = UserSerializer_serialize x" and m: "mset us = add_mset (UserSerializer_serialize x)
      (mset (filter (\<lambda>r. ur_id r \<noteq> u_id x) (users (store w))))"
    by (auto simp: orm_saves_natural_def UserSerializer_serialize_def)
  with Inr q user_exact [of L x] show thesis
    by (intro stored [OF _ m]) (simp add: upsert_def insertRecord_def execute_def UserRepository_def io_simps)
qed

text \<open>What the message \<open>x\<close> makes of a user, as a row.\<close>

definition message_row :: "IUserData \<Rightarrow> UserRecord" where
  "message_row x = UserSerializer_serialize (projr (KafkaUserSerializer_serialize x))"

definition taken_in :: "IUserData message \<Rightarrow> IUserData \<Rightarrow> bool" where
  "taken_in m x \<longleftrightarrow> document m = Some x \<and> \<not> ku_isAnonymous x \<and> ku_eligibility x \<noteq> None"

lemma message_row_fields [simp]:
  "ku_eligibility x \<noteq> None \<Longrightarrow> ur_id (message_row x) = ku_id x"
  "ku_eligibility x \<noteq> None \<Longrightarrow> ur_targeted_offer_ids (message_row x) = ku_targetedOfferIds x"
  "ku_eligibility x \<noteq> None \<Longrightarrow> ur_linked_offer_ids (message_row x) = ku_linkedOfferIds x"
  by (auto simp: message_row_def KafkaUserSerializer_serialize_def UserSerializer_serialize_def)

definition one_user_more :: "UserRecord \<Rightarrow> db \<Rightarrow> UserRecord list \<Rightarrow> bool" where
  "one_user_more r d us \<longleftrightarrow> mset us = add_mset r (mset (filter (\<lambda>q. ur_id q \<noteq> ur_id r) (users d)))"

lemma one_user_more_set:
  "one_user_more r d us \<Longrightarrow> set us = Set.insert r {q \<in> set (users d). ur_id q \<noteq> ur_id r}"
  unfolding one_user_more_def by (drule arg_cong [of _ _ set_mset]) simp

text \<open>The three outcomes: the state is added, it is there already, or nothing is written.\<close>

lemma consume_outcome:
  assumes ok: "ext_ok L" and k: "distinct (map ledger_key (userledger (store w)))" and m: "taken_in m x"
    and step: "in_step (store w)"
  obtains
    (added) w' us u where "consume_user L D m w = (Inr (Some u), w')" and "one_user_more (message_row x) (store w) us"
      and "store w' = (store w)\<lparr>users := us, userledger := userledger (store w) @ [new_state D (calls w) (message_row x)]\<rparr>"
      and "\<not> recorded (userledger (store w)) (message_row x) \<and> in_partition D (civil_now D (calls w))"
  | (kept) w' us u where "consume_user L D m w = (Inr (Some u), w')" and "one_user_more (message_row x) (store w) us"
      and "store w' = (store w)\<lparr>users := us\<rparr>" and "current_in (userledger (store w)) (message_row x)"
  | (refused) w' e where "consume_user L D m w = (Inl e, w')" and "store w' = store w"
      and "reliable L \<Longrightarrow> \<not> recorded (userledger (store w)) (message_row x) \<and>
        \<not> in_partition D (civil_now D (calls w)) \<and> e = no_partition"
proof -
  obtain isBlacklisted where "ku_eligibility x = Some isBlacklisted" using m by (auto simp: taken_in_def)
  then obtain user where u: "KafkaUserSerializer_serialize x = Inr user" "UserSerializer_serialize user = message_row x"
    by (simp add: KafkaUserSerializer_serialize_def message_row_def)
  then have i: "u_id user = ur_id (message_row x)" by (simp add: UserSerializer_serialize_def flip: u(2))
  let ?r = "message_row x"
  have run: "consume_user L D m w = with_trigger L D ?r (UserHandler_process L m) w"
    using m u by (simp add: consume_user_def taken_in_def)
  have h: "UserHandler_process L m w = (case upsert UserRepository L user w of (Inl e, w') \<Rightarrow> (Inl e, w') | (Inr y, w') \<Rightarrow> (Inr (Some y), w'))"
    using m u(1) by (simp add: UserHandler_process_def taken_in_def io_simps split: prod.split sum.split)
  show thesis
    using ok
  proof (cases rule: upsert_user [of L user w])
    case (failed e)
    with run h have e: "consume_user L D m w = (Inl e, tick w)" by (simp add: with_trigger_def)
    show thesis by (rule refused [OF e]) (use failed in simp_all)
  next
    case (stored us)
    let ?w' = "(tick w)\<lparr>store := (store w)\<lparr>users := us\<rparr>\<rparr>"
    have us: "one_user_more ?r (store w) us" using stored(2) by (simp add: one_user_more_def u(2) i)
    note h' = h [unfolded stored(1), simplified]
    show thesis
    proof (cases "?r \<in> set (users (store w)) \<and> \<not> sends_unchanged D (calls w)")
      case True
      then have e: "consume_user L D m w = (Inr (Some user), ?w')" using run h' by (simp add: with_trigger_def)
      show thesis by (rule kept [OF e us]) (use True step in \<open>simp_all add: in_step_def\<close>)
    next
      case False
      show thesis
        using ok k
      proof (cases rule: trigger_cases [of L "userledger (store w)" D "calls w" ?r])
        case (failed e)
        with False run h' have e: "consume_user L D m w = (Inl e, ?w'\<lparr>store := store w\<rparr>)" by (auto simp: with_trigger_def)
        show thesis by (rule refused [OF e]) (use failed in simp_all)
      next
        case kept
        with False run h' have e: "consume_user L D m w = (Inr (Some user), ?w'\<lparr>store := (store ?w')\<lparr>userledger := userledger (store w)\<rparr>\<rparr>)"
          by (auto simp: with_trigger_def)
        show thesis by (rule that(2) [OF e us]) (use recorded_current [OF kept(2)] in simp_all)
      next
        case added
        with False run h' have e: "consume_user L D m w = (Inr (Some user), ?w'\<lparr>store := (store ?w')
            \<lparr>userledger := userledger (store w) @ [new_state D (calls w) ?r]\<rparr>\<rparr>)"
          by (auto simp: with_trigger_def)
        show thesis by (rule that(1) [OF e us]) (use added in simp_all)
      qed
    qed
  qed
qed

lemma in_step_stored:
  assumes "in_step d" and "one_user_more r d us" and "current_in ledger r"
    and "\<And>q. ur_id q \<noteq> ur_id r \<Longrightarrow> current_in ledger q \<longleftrightarrow> current_in (userledger d) q"
  shows "in_step (d\<lparr>users := us, userledger := ledger\<rparr>)"
  using assms by (auto simp: in_step_def one_user_more_set)

text \<open>A message that is not taken in changes nothing.\<close>

lemma not_taken_in:
  assumes "\<not> (\<exists>x. taken_in m x)"
  shows "store (state_of (consume_user L D m) w) = store w"
proof (cases "document m")
  case None
  then show ?thesis by (simp add: consume_user_def UserHandler_process_def)
next
  case (Some x)
  with assms show ?thesis
    by (cases "ku_eligibility x")
      (auto simp: consume_user_def UserHandler_process_def taken_in_def KafkaUserSerializer_serialize_def io_simps)
qed

definition ledger_ok :: "db \<Rightarrow> bool" where
  "ledger_ok d \<longleftrightarrow> distinct (map ur_id (users d)) \<and> distinct (map ledger_key (userledger d)) \<and> in_step d"

lemma one_user_more_distinct:
  assumes "one_user_more r d us" and "distinct (map ur_id (users d))"
  shows "distinct (map ur_id us)"
proof -
  have "mset us = mset (r # filter (\<lambda>q. ur_id q \<noteq> ur_id r) (users d))" using assms(1) by (simp add: one_user_more_def)
  moreover have "distinct (map ur_id (r # filter (\<lambda>q. ur_id q \<noteq> ur_id r) (users d)))"
    using assms(2) by (auto simp: distinct_map_filter)
  ultimately show ?thesis using distinct_map_mset by blast
qed

lemma messages_keep_ledger:
  assumes "ext_ok L" and "ledger_ok (store w)" and "before (userledger (store w)) (db_now D (calls w))"
  shows "ledger_ok (store (state_of (consume_user L D m) w))"
proof (cases "\<exists>x. taken_in m x")
  case False
  with assms(2) show ?thesis by (simp add: not_taken_in)
next
  case True
  then obtain x where x: "taken_in m x" by blast
  let ?d = "store w" and ?r = "message_row x" and ?s = "new_state D (calls w) (message_row x)"
  have ok: "distinct (map ur_id (users ?d))" "distinct (map ledger_key (userledger ?d))" "in_step ?d"
    using assms(2) by (simp_all add: ledger_ok_def)
  show ?thesis
    using assms(1) ok(2) x ok(3)
  proof (cases rule: consume_outcome [of L w m x D])
    case (added w' us u)
    have "ledger_key ?s \<notin> ledger_key ` set (userledger ?d)"
      using assms(3) by (auto simp: before_def ledger_key_def new_state_def)
    then have "distinct (map ledger_key (userledger ?d @ [?s]))" using ok(2) by simp
    moreover have "in_step (?d\<lparr>users := us, userledger := userledger ?d @ [?s]\<rparr>)"
      by (rule in_step_stored [OF ok(3) added(2) recorded_current [OF new_state_recorded [OF assms(3)]]])
        (simp add: other_states)
    ultimately show ?thesis
      using added one_user_more_distinct [OF added(2) ok(1)] by (simp add: ledger_ok_def)
  next
    case (kept w' us u)
    have "in_step (?d\<lparr>users := us, userledger := userledger ?d\<rparr>)" by (rule in_step_stored [OF ok(3) kept(2,4)]) simp
    then show ?thesis
      using kept ok(2) one_user_more_distinct [OF kept(2) ok(1)] by (simp add: ledger_ok_def in_step_def)
  next
    case (refused w' e)
    with assms(2) show ?thesis by simp
  qed
qed

section \<open>Properties\<close>

text \<open>
  C9.  Whatever requests fail, the ledger stays in step with the users: after every message the latest state of
  every user has the offers of his row, every user has one row and every time of a user one state, as long as
  the clock of the database is ahead of the states.
\<close>

theorem messages_keep_ledger_in_step:
  assumes "ext_ok L" and "ledger_ok (store w)" and "before (userledger (store w)) (db_now D (calls w))"
  shows "ledger_ok (store (state_of (consume_user L D m) w))"
  by (rule messages_keep_ledger [OF assms])

definition ledger_db :: db where
  "ledger_db = sample_db\<lparr>userledger := [\<lparr>lr_user_id = ''user1'', lr_update_timestamp = 0,
     lr_user_info = \<lparr>ui_targeted_offers = Some [], ui_linked_offers = Some [], ui_is_enrolled = Some True\<rparr>\<rparr>]\<rparr>"

definition ledger_world :: world where
  "ledger_world = \<lparr>calls = 0, store = ledger_db\<rparr>"

definition targeted_document :: IUserData where
  "targeted_document = sample_user_document\<lparr>ku_targetedOfferIds := [''100'']\<rparr>"

definition sample_server :: server where
  "sample_server = \<lparr>db_now = (\<lambda>_. 3600000), civil_now = (\<lambda>_. Civil 1970 1 1 3600000000),
     ledger_tables = [(''userledger_1970_01'', Civil 1970 1 1 0, Civil 1970 1 31 86399999999)],
     ledger_indexes = [], sends_unchanged = (\<lambda>_. True)\<rparr>"

lemma ledger_world_ok: "ledger_ok (store ledger_world)" "before (userledger (store ledger_world)) (db_now sample_server n)"
  by (simp_all add: ledger_ok_def in_step_def current_in_def latest_state_def has_lists_def before_def ledger_world_def
      ledger_db_def sample_db_def empty_db_def sample_user_def sample_server_def UserSerializer_serialize_def ledger_key_def)

lemma messages_keep_ledger_in_step_witness:
  "ledger_ok (store (state_of (consume_user ref_ext sample_server (Some (Some targeted_document))) ledger_world))"
  by (rule messages_keep_ledger_in_step [OF ref_ext_ok ledger_world_ok])

text \<open>What the checks on targeting and linking read, when the ledger is in step and its last state is not too late.\<close>

lemma in_step_says:
  assumes "distinct (map ledger_key (userledger d))" and "current_in (userledger d) r"
    and "\<forall>s\<in>set (userledger d). lr_user_id s = ur_id r \<longrightarrow> lr_update_timestamp s \<le> end_of_day L t"
  shows "ledger_says ui_targeted_offers L d (ur_id r) t q \<longleftrightarrow> q \<in> set (ur_targeted_offer_ids r)"
    and "ledger_says ui_linked_offers L d (ur_id r) t q \<longleftrightarrow> q \<in> set (ur_linked_offer_ids r)"
proof -
  obtain s where s: "latest_state (userledger d) (ur_id r) s" and l: "has_lists r (lr_user_info s)"
    using assms(2) by (auto simp: current_in_def)
  have "ledger_says f L d (ur_id r) t q \<longleftrightarrow> (\<exists>os. f (lr_user_info s) = Some os \<and> q \<in> set os)" for f
  proof -
    have "(v \<in> set (userledger d) \<and> ledger_upto L (ur_id r) t v \<and>
        (\<forall>q\<in>set (userledger d). ledger_upto L (ur_id r) t q \<longrightarrow> lr_update_timestamp q \<le> lr_update_timestamp v)) \<longleftrightarrow>
        latest_state (userledger d) (ur_id r) v" for v
      using assms(3) by (auto simp: latest_state_def ledger_upto_def)
    then have "ledger_says f L d (ur_id r) t q \<longleftrightarrow>
        (\<exists>v. latest_state (userledger d) (ur_id r) v \<and> (\<exists>os. f (lr_user_info v) = Some os \<and> q \<in> set os))"
      unfolding ledger_says_def by blast
    also have "\<dots> \<longleftrightarrow> (\<exists>os. f (lr_user_info s) = Some os \<and> q \<in> set os)"
      using latest_unique [OF assms(1) s] s by blast
    finally show ?thesis .
  qed
  with l show "ledger_says ui_targeted_offers L d (ur_id r) t q \<longleftrightarrow> q \<in> set (ur_targeted_offer_ids r)"
    "ledger_says ui_linked_offers L d (ur_id r) t q \<longleftrightarrow> q \<in> set (ur_linked_offer_ids r)"
    by (simp_all add: has_lists_def)
qed

text \<open>The context of a transaction of the user, of an offer that asks for targeting and for linking himself.\<close>

definition asks_ledger :: "qualifying_context \<Rightarrow> string \<Rightarrow> IRebateCriteria \<Rightarrow> bool" where
  "asks_ledger c u criteria \<longleftrightarrow>
     cx_criteria c = Some criteria \<and> tx_userId (cx_transaction c) = u \<and> cx_user c \<noteq> None \<and>
     rc_requiresCustomerToBeTargeted criteria \<and> rc_requiresCustomerToBeLinked criteria \<and>
     rc_redemptionBasedOn criteria = ClientBased"

lemma asks_ledger_specs:
  assumes "asks_ledger c u criteria" and "user_in L d u \<noteq> None"
  shows "targeting_spec L d c = Inr (ledger_says ui_targeted_offers L d u (tx_transactionDate (cx_transaction c)) (rc_id criteria))"
    and "linking_spec L d c = Inr (ledger_says ui_linked_offers L d u (tx_transactionDate (cx_transaction c)) (rc_id criteria))"
  using assms
  by (auto simp: asks_ledger_def targeting_spec_def linking_spec_def need_def shouldCheckLinkingToPrimary_def template_text_def)

lemma user_in_found: "r \<in> set (users d) \<Longrightarrow> user_in L d (ur_id r) \<noteq> None"
  by (auto simp: user_in_def find_None_iff)

lemma taken_in_stored:
  assumes "ext_ok L" and "reliable L" and "db_ok (store w)" and "in_step (store w)" and "taken_in m x"
    and b: "before (userledger (store w)) (db_now D (calls w))" and p: "in_partition D (civil_now D (calls w))"
  obtains user w' where "consume_user L D m w = (Inr (Some user), w')" and "db_ok (store w')"
    and "message_row x \<in> set (users (store w'))" and "current_in (userledger (store w')) (message_row x)"
    and "\<forall>s\<in>set (userledger (store w')). lr_update_timestamp s \<le> db_now D (calls w)"
proof -
  let ?d = "store w"
  have ok: "ledger_ok ?d" and k: "distinct (map ledger_key (userledger ?d))"
    using assms(3,4) by (simp_all add: ledger_ok_def db_ok_def ledger_key_def [abs_def])
  have le: "\<forall>s\<in>set (userledger ?d). lr_update_timestamp s \<le> db_now D (calls w)"
    using b by (auto simp: before_def)
  note kept_ok = messages_keep_ledger [OF assms(1) ok b, of m]
  show thesis
    using assms(1) k assms(5,4)
  proof (cases rule: consume_outcome [of L w m x D])
    case (added w' us u)
    have "db_ok (store w')"
      using kept_ok added(1,3) assms(3) by (simp add: ledger_ok_def db_ok_def ledger_key_def [abs_def])
    moreover have "current_in (userledger (store w')) (message_row x)"
      using recorded_current [OF new_state_recorded [OF b]] added(3) by simp
    moreover have "message_row x \<in> set (users (store w'))" using one_user_more_set [OF added(2)] added(3) by simp
    moreover have "\<forall>s\<in>set (userledger (store w')). lr_update_timestamp s \<le> db_now D (calls w)"
      using le added(3) by (simp add: new_state_def)
    ultimately show thesis using that added(1) by blast
  next
    case (kept w' us u)
    have "db_ok (store w')"
      using kept_ok kept(1,3) assms(3) by (simp add: ledger_ok_def db_ok_def ledger_key_def [abs_def])
    moreover have "message_row x \<in> set (users (store w'))" using one_user_more_set [OF kept(2)] kept(3) by simp
    ultimately show thesis using that kept le by simp
  next
    case (refused w' e)
    with assms(2) p show thesis by simp
  qed
qed

text \<open>
  C10.  A message on a user reaches the eligibility checks.  When requests are answered and the ledger has a
  partition for the time, the message is taken in, and for every transaction of that day or a later one he
  counts as targeted for, and as linked with, exactly the offers of the message, until the next message.
\<close>

theorem user_message_reaches_eligibility:
  assumes "ext_ok L" and "reliable L" and "db_ok (store w)" and "in_step (store w)" and "taken_in m x"
    and "before (userledger (store w)) (db_now D (calls w))" and "in_partition D (civil_now D (calls w))"
    and "asks_ledger c (ku_id x) criteria"
    and "db_now D (calls w) \<le> end_of_day L (tx_transactionDate (cx_transaction c))"
  shows "\<exists>user w'. consume_user L D m w = (Inr (Some user), w') \<and>
    result_of (OfferTargeting_doesAccept L c) w' = Inr (rc_id criteria \<in> set (ku_targetedOfferIds x)) \<and>
    result_of (OfferLinking_doesAccept L c) w' = Inr (rc_id criteria \<in> set (ku_linkedOfferIds x))"
proof -
  obtain user w' where run: "consume_user L D m w = (Inr (Some user), w')" and ok: "db_ok (store w')"
    and r: "message_row x \<in> set (users (store w'))" and cur: "current_in (userledger (store w')) (message_row x)"
    and le: "\<forall>s\<in>set (userledger (store w')). lr_update_timestamp s \<le> db_now D (calls w)"
    by (rule taken_in_stored [OF assms(1-7)])
  have row: "ur_id (message_row x) = ku_id x" "ur_targeted_offer_ids (message_row x) = ku_targetedOfferIds x"
    "ur_linked_offer_ids (message_row x) = ku_linkedOfferIds x"
    using assms(5) by (simp_all add: taken_in_def)
  have k: "distinct (map ledger_key (userledger (store w')))" using ok by (simp add: db_ok_def ledger_key_def [abs_def])
  have "\<forall>s\<in>set (userledger (store w')). lr_user_id s = ur_id (message_row x) \<longrightarrow>
      lr_update_timestamp s \<le> end_of_day L (tx_transactionDate (cx_transaction c))"
    using le assms(9) by fastforce
  note says = in_step_says [OF k cur this, unfolded row]
  have "user_in L (store w') (ku_id x) \<noteq> None" using user_in_found [OF r] row(1) by simp
  note specs = asks_ledger_specs [OF assms(8) this]
  from decides_targeting [OF assms(1,2), of c] decides_linking [OF assms(1,2), of c] ok
  have "result_of (OfferTargeting_doesAccept L c) w' = targeting_spec L (store w') c"
    "result_of (OfferLinking_doesAccept L c) w' = linking_spec L (store w') c"
    by (simp_all add: decides_def)
  with run specs says show ?thesis by (intro exI [of _ user] exI [of _ w']) simp
qed

definition asking_criteria :: IRebateCriteria where
  "asking_criteria = sample_criteria\<lparr>rc_requiresCustomerToBeTargeted := True, rc_requiresCustomerToBeLinked := True\<rparr>"

definition asking_context :: qualifying_context where
  "asking_context = \<lparr>cx_transaction = sample_transaction, cx_criteria = Some asking_criteria, cx_user = Some sample_user,
     cx_product = None\<rparr>"

lemma targeted_taken_in: "taken_in (Some (Some targeted_document)) targeted_document"
  by (simp add: taken_in_def document_def targeted_document_def sample_user_document_def)

lemma user_message_reaches_eligibility_witness:
  "\<exists>user w'. consume_user ref_ext sample_server (Some (Some targeted_document)) ledger_world = (Inr (Some user), w') \<and>
    result_of (OfferTargeting_doesAccept ref_ext asking_context) w' = Inr True \<and>
    result_of (OfferLinking_doesAccept ref_ext asking_context) w' = Inr False"
proof -
  have ok: "db_ok (store ledger_world)" "in_step (store ledger_world)"
    using ledger_world_ok(1)
    by (simp_all add: ledger_ok_def db_ok_def ledger_key_def [abs_def] ledger_world_def ledger_db_def sample_db_def empty_db_def
        sample_transaction_def TransactionForRebateCriteriaSerializer_serialize_def)
  have p: "in_partition sample_server (civil_now sample_server (calls ledger_world))"
    by (simp add: in_partition_def sample_server_def less_civil_def less_eq_civil_def)
  have c: "asks_ledger asking_context (ku_id targeted_document) asking_criteria"
    by (simp add: asks_ledger_def asking_context_def asking_criteria_def sample_criteria_def sample_transaction_def
        targeted_document_def sample_user_document_def)
  have t: "db_now sample_server (calls ledger_world) \<le> end_of_day ref_ext (tx_transactionDate (cx_transaction asking_context))"
    by (simp add: sample_server_def ref_ext_def ref_end_of_day_def asking_context_def sample_transaction_def)
  from user_message_reaches_eligibility [OF ref_ext_ok ref_reliable ok targeted_taken_in ledger_world_ok(2) p c t]
  show ?thesis
    by (simp add: targeted_document_def sample_user_document_def asking_criteria_def sample_criteria_def)
qed

text \<open>
  C37.  Without a partition for the time of the database a message that changes the offers of a user fails,
  and neither the user nor a state is stored.
\<close>

theorem changed_user_needs_a_partition:
  assumes "ext_ok L" and "reliable L" and "ledger_ok (store w)" and "taken_in m x"
    and "\<not> current_in (userledger (store w)) (message_row x)" and "\<not> in_partition D (civil_now D (calls w))"
  shows "\<exists>w'. consume_user L D m w = (Inl no_partition, w') \<and> store w' = store w"
proof -
  have k: "distinct (map ledger_key (userledger (store w)))" and step: "in_step (store w)"
    using assms(3) by (simp_all add: ledger_ok_def)
  show ?thesis
    using assms(1) k assms(4) step
    by (cases rule: consume_outcome [of L w m x D]) (use assms(2,5,6) in auto)
qed

lemma changed_user_needs_a_partition_witness:
  "\<exists>w'. consume_user ref_ext (sample_server\<lparr>ledger_tables := []\<rparr>) (Some (Some targeted_document)) ledger_world =
    (Inl no_partition, w') \<and> store w' = ledger_db"
proof -
  have "\<not> current_in (userledger (store ledger_world)) (message_row targeted_document)"
    by (simp add: current_in_def latest_state_def has_lists_def ledger_world_def ledger_db_def message_row_def
        targeted_document_def sample_user_document_def KafkaUserSerializer_serialize_def UserSerializer_serialize_def)
  moreover have "\<not> in_partition (sample_server\<lparr>ledger_tables := []\<rparr>) t" for t by (simp add: in_partition_def)
  ultimately show ?thesis
    using changed_user_needs_a_partition [OF ref_ext_ok ref_reliable ledger_world_ok(1) targeted_taken_in,
        of "sample_server\<lparr>ledger_tables := []\<rparr>"]
    by (simp add: ledger_world_def)
qed

end
