(* ===== verification/Partitions.thy ===== *)
theory Partitions
  imports Ledger
begin

text \<open>
  The monthly script, run in every month, gives every following month its partition.  The upper bound of a
  partition is not part of it, so that the last microsecond of every month is without one.
\<close>

section \<open>The calendar\<close>

definition leap_year :: "nat \<Rightarrow> bool" where
  "leap_year y \<longleftrightarrow> 4 dvd y \<and> (\<not> 100 dvd y \<or> 400 dvd y)"

definition month_length :: "nat \<Rightarrow> nat \<Rightarrow> nat" where
  "month_length y m = (if m = 2 then if leap_year y then 29 else 28 else if m \<in> {4, 6, 9, 11} then 30 else 31)"

text \<open>A month is a year and a number from 0 to 11, as in \<open>moment\<close>.\<close>

type_synonym month = "nat \<times> nat"

definition month_of :: "moment \<Rightarrow> month" where
  "month_of d = (m_year d, m_month d)"

definition next_month :: "month \<Rightarrow> month" where
  "next_month = (\<lambda>(y, m). if m = 11 then (y + 1, 0) else (y, m + 1))"

definition civil_month :: "civil \<Rightarrow> month" where
  "civil_month t = (c_year t, c_month t - 1)"

definition first_of :: "month \<Rightarrow> civil" where
  "first_of = (\<lambda>(y, m). Civil y (m + 1) 1 0)"

text \<open>What \<open>moment\<close> is relied on for, and the times of the database: whole microseconds of a day of the calendar.\<close>

definition calendar_ok :: "calendar \<Rightarrow> bool" where
  "calendar_ok C \<longleftrightarrow>
     (\<forall>d. m_month d < 12 \<longrightarrow> month_of (add_month C d) = next_month (month_of d)) \<and>
     (\<forall>d. m_month d < 12 \<longrightarrow> daysInMonth C d = month_length (m_year d) (m_month d + 1))"

definition civil_ok :: "civil \<Rightarrow> bool" where
  "civil_ok c \<longleftrightarrow>
     1 \<le> c_month c \<and> c_month c \<le> 12 \<and> 1 \<le> c_day c \<and> c_day c \<le> month_length (c_year c) (c_month c) \<and>
     c_micro c < micros_of_day"

section \<open>One run\<close>

lemma partition_name_inject:
  "partition_name y m = partition_name y' m' \<longleftrightarrow> y = y' \<and> m = m'"
proof -
  have "takeWhile is_digit (show_nat y @ CHR ''_'' # s) = show_nat y" for y s
    by (simp add: takeWhile_append2 show_nat_digits) (simp add: is_digit_def)
  then have "y = y'" if "show_nat y @ CHR ''_'' # s = show_nat y' @ CHR ''_'' # s'" for s s'
    using that by (metis show_nat_inject)
  then have "y = y'" if "partition_name y m = partition_name y' m'" using that by (simp add: partition_name_def)
  then show ?thesis by (auto simp: partition_name_def)
qed

lemma index_name_inject: "index_name y m = index_name y' m' \<longleftrightarrow> y = y' \<and> m = m'"
  using partition_name_inject [of y m y' m'] by (auto simp: partition_name_def index_name_def)

text \<open>Every partition ends before the month \<open>M\<close>, and neither \<open>M\<close> nor a later month has one.\<close>

definition free_from :: "month \<Rightarrow> server \<Rightarrow> bool" where
  "free_from M D \<longleftrightarrow>
     (\<forall>(n, f, u)\<in>set (ledger_tables D). u \<le> first_of M) \<and>
     (\<forall>y m. first_of M \<le> first_of (y, m) \<longrightarrow>
        partition_name y (m + 1) \<notin> fst ` set (ledger_tables D) \<and> index_name y (m + 1) \<notin> set (ledger_indexes D))"

definition month_end :: "month \<Rightarrow> civil" where
  "month_end = (\<lambda>(y, m). Civil y (m + 1) (month_length y (m + 1)) (micros_of_day - 1))"

definition with_month :: "month \<Rightarrow> server \<Rightarrow> server" where
  "with_month M D = D\<lparr>ledger_tables := ledger_tables D @ [(partition_name (fst M) (snd M + 1), first_of M, month_end M)],
     ledger_indexes := ledger_indexes D @ [index_name (fst M) (snd M + 1)]\<rparr>"

lemma next_month_valid: "snd M < 12 \<Longrightarrow> snd (next_month M) < 12"
  by (cases M) (auto simp: next_month_def)

lemma run_free:
  assumes "calendar_ok C" and "m_month today < 12" and "free_from (next_month (month_of today)) D"
  shows "create_partitions C today D = with_month (next_month (month_of today)) D"
proof -
  let ?M = "next_month (month_of today)"
  obtain y m where M: "?M = (y, m)" by (cases ?M)
  have b: "m_year (add_month C today) = y" "m_month (add_month C today) = m"
    using assms(1,2) M by (auto simp: calendar_ok_def month_of_def)
  have "m < 12" using next_month_valid [of "month_of today"] assms(2) M by (simp add: month_of_def)
  with b have l: "daysInMonth C (add_month C today) = month_length y (m + 1)"
    using assms(1) by (auto simp: calendar_ok_def)
  have "\<not> (Civil y (m + 1) 1 0 < t)" if "(n, f, t) \<in> set (ledger_tables D)" for n f t
    using assms(3) that by (fastforce simp: free_from_def M first_of_def)
  with assms(3) show ?thesis
    unfolding M
    by (auto simp: create_partitions_def createNextMonthsTable_def Let_def b l create_partition_def create_index_def free_from_def
        with_month_def first_of_def month_end_def)
qed

lemma month_end_before: "month_end M \<le> first_of (next_month M)"
  by (cases M) (auto simp: month_end_def first_of_def next_month_def less_eq_civil_def)

lemma first_of_less: "first_of M \<le> first_of (next_month M)" "\<not> first_of (next_month M) \<le> first_of M"
  by (cases M; auto simp: first_of_def next_month_def less_eq_civil_def)+

lemma free_after:
  assumes "free_from M D"
  shows "free_from (next_month M) (with_month M D)"
proof -
  obtain y m where M: "M = (y, m)" by (cases M)
  have later: "first_of M \<le> first_of (y', m')" "(y', m') \<noteq> M" if "first_of (next_month M) \<le> first_of (y', m')" for y' m'
    using that first_of_less [of M] order_trans [OF first_of_less(1) [of M] that] by auto
  have "u \<le> first_of (next_month M)" if "(n, f, u) \<in> set (ledger_tables (with_month M D))" for n f u
    using that assms month_end_before [of M] first_of_less(1) [of M]
    by (auto simp: with_month_def free_from_def intro: order_trans)
  moreover have "partition_name y' (m' + 1) \<notin> fst ` set (ledger_tables (with_month M D)) \<and>
      index_name y' (m' + 1) \<notin> set (ledger_indexes (with_month M D))"
    if "first_of (next_month M) \<le> first_of (y', m')" for y' m'
    using later [OF that] assms unfolding M
    by (auto simp: with_month_def free_from_def partition_name_inject index_name_inject)
  ultimately show ?thesis unfolding free_from_def by auto
qed

text \<open>A month's partition has exactly the times of the month but its last one.\<close>

lemma in_month:
  assumes "civil_ok c"
  shows "first_of M \<le> c \<and> c < month_end M \<longleftrightarrow> civil_month c = M \<and> c \<noteq> month_end M"
  using assms
  by (cases M; cases c) (auto simp: first_of_def month_end_def civil_month_def less_eq_civil_def less_civil_def civil_ok_def
      micros_of_day_def)

lemma in_with_month:
  "in_partition (with_month M D) c \<longleftrightarrow> in_partition D c \<or> first_of M \<le> c \<and> c < month_end M"
  by (auto simp: in_partition_def with_month_def)

text \<open>Nothing from the month on is in a partition of before.\<close>

lemma free_from_later:
  assumes "free_from M D" and "first_of M \<le> c"
  shows "\<not> in_partition D c"
  using assms by (fastforce simp: free_from_def in_partition_def)

lemma first_of_civil: "civil_ok c \<Longrightarrow> first_of (civil_month c) \<le> c"
  by (cases c) (auto simp: first_of_def civil_month_def less_eq_civil_def civil_ok_def)

section \<open>A run in every month\<close>

definition monthly_runs :: "calendar \<Rightarrow> moment list \<Rightarrow> server \<Rightarrow> server" where
  "monthly_runs C days D = fold (create_partitions C) days D"

text \<open>From the month \<open>M\<close> on, one day in every month.\<close>

fun one_each :: "month \<Rightarrow> moment list \<Rightarrow> bool" where
  "one_each M [] \<longleftrightarrow> True"
| "one_each M (d # ds) \<longleftrightarrow> month_of d = M \<and> one_each (next_month M) ds"

lemma first_of_next: "first_of M \<le> first_of (next_month M)"
  by (rule first_of_less(1))

lemma later_months: "one_each M days \<Longrightarrow> d \<in> set days \<Longrightarrow> first_of M \<le> first_of (month_of d)"
  by (induction M days rule: one_each.induct) (auto intro: order_trans [OF first_of_next])

lemma runs_cover:
  assumes "calendar_ok C" and "civil_ok c"
  shows "snd M < 12 \<Longrightarrow> one_each M days \<Longrightarrow> free_from (next_month M) D \<Longrightarrow>
    in_partition (monthly_runs C days D) c \<longleftrightarrow>
      in_partition D c \<or> (\<exists>d\<in>set days. civil_month c = next_month (month_of d) \<and> c \<noteq> month_end (civil_month c))"
proof (induction days arbitrary: M D)
  case Nil
  then show ?case by (simp add: monthly_runs_def)
next
  case (Cons d ds)
  let ?D = "with_month (next_month M) D"
  have d: "month_of d = M" "m_month d < 12" using Cons.prems by (auto simp: month_of_def)
  have run: "monthly_runs C (d # ds) D = monthly_runs C ds ?D"
    using run_free [OF assms(1) d(2), of D] Cons.prems d(1) by (simp add: monthly_runs_def)
  have "in_partition (monthly_runs C ds ?D) c \<longleftrightarrow>
      in_partition ?D c \<or> (\<exists>d\<in>set ds. civil_month c = next_month (month_of d) \<and> c \<noteq> month_end (civil_month c))"
    by (rule Cons.IH [where M = "next_month M"]) (use Cons.prems free_after next_month_valid in simp_all)
  then show ?case
    unfolding run in_with_month in_month [OF assms(2)] using d(1) by auto
qed

text \<open>
  C38.  When the script runs once in every month, from some month on, a time of the months that follow, up to the
  month after its last run, leap years and the end of the year included, has a partition exactly when it is not
  the last microsecond of its month: the bound \<open>23:59:59.999999\<close> is not part of the partition, and no other one
  begins before the next day.
\<close>

theorem monthly_script_leaves_the_last_microsecond:
  assumes "calendar_ok C" and "snd M < 12" and "one_each M days" and "free_from (next_month M) D"
    and "d \<in> set days" and "civil_ok c" and "civil_month c = next_month (month_of d)"
  shows "in_partition (monthly_runs C days D) c \<longleftrightarrow> c \<noteq> month_end (civil_month c)"
proof -
  have "first_of M \<le> first_of (month_of d)" by (rule later_months [OF assms(3,5)])
  moreover have "snd (month_of d) < 12" using assms(2,3,5)
    by (induction M days rule: one_each.induct) (auto intro: next_month_valid)
  ultimately have "first_of (next_month M) \<le> first_of (next_month (month_of d))"
    using assms(2) by (cases M; cases "month_of d") (auto simp: first_of_def next_month_def less_eq_civil_def)
  then have "first_of (next_month M) \<le> c"
    using first_of_civil [OF assms(6)] assms(7) by (metis order_trans)
  from free_from_later [OF assms(4) this] show ?thesis
    using runs_cover [OF assms(1,6,2,3,4)] assms(5,7) by auto
qed

definition gregorian :: calendar where
  "gregorian = \<lparr>add_month = (\<lambda>d. let (y, m) = next_month (month_of d) in
       \<lparr>m_year = y, m_month = m, m_day = min (m_day d) (month_length y (m + 1))\<rparr>),
     daysInMonth = (\<lambda>d. month_length (m_year d) (m_month d + 1))\<rparr>"

lemma gregorian_ok: "calendar_ok gregorian"
  by (auto simp: calendar_ok_def gregorian_def month_of_def Let_def split: prod.split)

lemma monthly_script_leaves_the_last_microsecond_witness:
  "let D = monthly_runs gregorian [\<lparr>m_year = 2019, m_month = 11, m_day = 1\<rparr>, \<lparr>m_year = 2020, m_month = 0, m_day = 31\<rparr>]
      \<lparr>db_now = (\<lambda>_. 0), civil_now = (\<lambda>_. Civil 2020 1 1 0), ledger_tables = [], ledger_indexes = [],
        sends_unchanged = (\<lambda>_. True)\<rparr>
   in in_partition D (Civil 2020 2 29 86399999998) \<and> \<not> in_partition D (Civil 2020 2 29 86399999999)"
proof -
  let ?days = "[\<lparr>m_year = 2019, m_month = 11, m_day = 1\<rparr>, \<lparr>m_year = 2020, m_month = 0, m_day = 31\<rparr>]"
  let ?D = "\<lparr>db_now = (\<lambda>_. 0), civil_now = (\<lambda>_. Civil 2020 1 1 0), ledger_tables = [], ledger_indexes = [],
        sends_unchanged = (\<lambda>_. True)\<rparr>"
  have "in_partition (monthly_runs gregorian ?days ?D) c \<longleftrightarrow> c \<noteq> month_end (civil_month c)"
    if "civil_ok c" "civil_month c = (2020, 1)" for c
    by (rule monthly_script_leaves_the_last_microsecond [OF gregorian_ok, where M = "(2019, 11)" and
          d = "\<lparr>m_year = 2020, m_month = 0, m_day = 31\<rparr>"])
      (use that in \<open>simp_all add: free_from_def month_of_def next_month_def\<close>)
  from this [of "Civil 2020 2 29 86399999998"] this [of "Civil 2020 2 29 86399999999"] show ?thesis
    by (simp add: civil_ok_def civil_month_def month_length_def leap_year_def month_end_def micros_of_day_def)
qed

end
