(* ===== verification/ProcessPool.thy ===== *)
theory ProcessPool
  imports Scheduler
begin

text \<open>
  The process pool (\<open>app/scheduler/throng_fork.ts\<close>) and the entry point of the scheduler (\<open>boot.ts\<close>): how the
  options are read, which processes are started, and what signals, ends of workers and the passing of time do
  to the pool.  A call back is a value of the type \<open>'f\<close>; times are in milliseconds.
\<close>

section \<open>The options\<close>

datatype lifespan = Infinity | Millis int

record 'f throng_options =
  op_workers :: "int option"
  op_lifetime :: "lifespan option"
  op_grace :: "int option"
  op_master :: "'f option"
  op_start :: "'f option"

record pool_options =
  workers :: int
  lifetime :: lifespan
  grace :: int

text \<open>What is given as options: nothing, a number of workers, a function, or an object.\<close>

datatype 'f throng_argument = Undefined | Number int | Callable 'f | Options "'f throng_options"

definition no_options :: "'f throng_options" where
  "no_options = \<lparr>op_workers = None, op_lifetime = None, op_grace = None, op_master = None, op_start = None\<rparr>"

definition DEFAULT_OPTIONS :: "int \<Rightarrow> pool_options" where
  "DEFAULT_OPTIONS cpuCount = \<lparr>workers = cpuCount, lifetime = Infinity, grace = 5000\<rparr>"

definition given_options :: "'f throng_argument \<Rightarrow> 'f throng_argument" where
  "given_options options =
     (case options of
        Undefined \<Rightarrow> Options no_options
      | Number n \<Rightarrow> if n = 0 then Options no_options else Number n
      | x \<Rightarrow> x)"

definition start_function :: "'f throng_argument \<Rightarrow> 'f option \<Rightarrow> exn + 'f" where
  "start_function options startFunction =
     (case (case options of Options x \<Rightarrow> op_start x | _ \<Rightarrow> None) of
        Some f \<Rightarrow> Inr f
      | None \<Rightarrow>
          (case startFunction of
             Some f \<Rightarrow> Inr f
           | None \<Rightarrow> (case options of Callable f \<Rightarrow> Inr f | _ \<Rightarrow> Inl (JsError ''Start function required''))))"

definition master_function :: "'f throng_argument \<Rightarrow> 'f option" where
  "master_function options = (case options of Options x \<Rightarrow> op_master x | _ \<Rightarrow> None)"

definition defaults :: "'f throng_options \<Rightarrow> pool_options \<Rightarrow> pool_options" where
  "defaults x D =
     \<lparr>workers = (case op_workers x of None \<Rightarrow> workers D | Some n \<Rightarrow> n),
      lifetime = (case op_lifetime x of None \<Rightarrow> lifetime D | Some t \<Rightarrow> t),
      grace = (case op_grace x of None \<Rightarrow> grace D | Some t \<Rightarrow> t)\<rparr>"

text \<open>A number is the one option of which \<open>isNaN\<close> does not hold.\<close>

definition pool_options_of :: "int \<Rightarrow> 'f throng_argument \<Rightarrow> pool_options" where
  "pool_options_of cpuCount options =
     (case options of
        Number n \<Rightarrow> defaults ((no_options :: 'f throng_options)\<lparr>op_workers := Some n\<rparr>) (DEFAULT_OPTIONS cpuCount)
      | Options x \<Rightarrow> defaults x (DEFAULT_OPTIONS cpuCount)
      | _ \<Rightarrow> defaults (no_options :: 'f throng_options) (DEFAULT_OPTIONS cpuCount))"

section \<open>The pool\<close>

record pool =
  forked :: nat                \<comment> \<open>how many workers have been forked; their numbers start with 1\<close>
  live :: "nat list"           \<comment> \<open>\<open>cluster.workers\<close>\<close>
  killed :: "nat list"         \<comment> \<open>the workers that have been sent a signal\<close>
  running :: bool
  listening :: bool            \<comment> \<open>whether the listener of \<open>emitter.once\<close> is still there\<close>
  timer :: "int option"        \<comment> \<open>how long until \<open>forceKill\<close>\<close>
  busy :: bool                 \<comment> \<open>whether the master's own function still has something to wait for\<close>
  supervised :: bool           \<comment> \<open>whether the master is still there\<close>

definition cluster_fork :: "pool \<Rightarrow> pool" where
  "cluster_fork p = p\<lparr>forked := Suc (forked p), live := live p @ [Suc (forked p)]\<rparr>"

text \<open>The master before it forks, and \<open>fork\<close>.\<close>

definition listen :: pool where
  "listen = \<lparr>forked = 0, live = [], killed = [], running = True, listening = True, timer = None, busy = False,
     supervised = True\<rparr>"

definition fork :: "pool_options \<Rightarrow> pool \<Rightarrow> pool" where
  "fork opts p = (cluster_fork ^^ nat (workers opts)) p"

definition started :: "pool_options \<Rightarrow> pool" where
  "started opts = fork opts listen"

text \<open>\<open>masterFn(workers)\<close>; without such a function it is one that does nothing.\<close>

definition call_master :: "'f option \<Rightarrow> pool \<Rightarrow> pool" where
  "call_master masterFn p = p\<lparr>busy := masterFn \<noteq> None\<rparr>"

text \<open>Node makes a delay of less than one millisecond one millisecond.\<close>

definition delay :: "int \<Rightarrow> int" where
  "delay t = max 1 t"

definition shutdown :: "pool_options \<Rightarrow> pool \<Rightarrow> pool" where
  "shutdown opts p = p\<lparr>running := False, killed := live p, timer := Some (delay (grace opts))\<rparr>"

definition proxySignal :: "pool_options \<Rightarrow> pool \<Rightarrow> pool" where
  "proxySignal opts p = (if listening p then shutdown opts (p\<lparr>listening := False\<rparr>) else p)"

definition forceKill :: "pool \<Rightarrow> pool" where
  "forceKill p = p\<lparr>killed := live p, supervised := False\<rparr>"

text \<open>
  \<open>revive\<close> is still declared, and called nowhere: the end of a worker is only logged.  \<open>runUntil\<close> is the time
  of the start and the lifetime.
\<close>

definition revive :: "int \<Rightarrow> int option \<Rightarrow> pool \<Rightarrow> pool" where
  "revive today runUntil p =
     (if running p \<and> (case runUntil of None \<Rightarrow> True | Some t \<Rightarrow> today < t) then cluster_fork p else p)"

definition on_exit :: "nat \<Rightarrow> pool \<Rightarrow> pool" where
  "on_exit i p = p\<lparr>live := removeAll i (live p)\<rparr>"

definition elapse :: "pool \<Rightarrow> pool" where
  "elapse p = (case timer p of
     None \<Rightarrow> p
   | Some t \<Rightarrow> if 1 < t then p\<lparr>timer := Some (t - 1)\<rparr> else forceKill p)"

text \<open>
  What happens to a pool: a signal to the master, the end of a worker, and a millisecond; the process of the
  master exits, when its own function calls \<open>process.exit\<close> or an error is caught by nothing; that function ends
  without an exit, by a return or a rejection; and the process runs out of things to wait for: workers, a timer and
  that function.
\<close>

datatype pool_event = Signal | Ended nat | Millisecond | Exited | Settled | Drained

inductive pool_step :: "pool_options \<Rightarrow> pool \<Rightarrow> pool_event \<Rightarrow> pool \<Rightarrow> bool" where
  signalled: "supervised p \<Longrightarrow> pool_step opts p Signal (proxySignal opts p)"
| ended: "supervised p \<Longrightarrow> i \<in> set (live p) \<Longrightarrow> pool_step opts p (Ended i) (on_exit i p)"
| waited: "supervised p \<Longrightarrow> pool_step opts p Millisecond (elapse p)"
| exited: "supervised p \<Longrightarrow> pool_step opts p Exited (p\<lparr>busy := False, supervised := False\<rparr>)"
| settled: "supervised p \<Longrightarrow> busy p \<Longrightarrow> pool_step opts p Settled (p\<lparr>busy := False\<rparr>)"
| drained: "supervised p \<Longrightarrow> \<not> busy p \<Longrightarrow> live p = [] \<Longrightarrow> timer p = None \<Longrightarrow>
    pool_step opts p Drained (p\<lparr>supervised := False\<rparr>)"

inductive_cases pool_stepE: "pool_step opts p e q"

text \<open>A history of the pool, the latest event last.\<close>

inductive pool_run :: "pool_options \<Rightarrow> 'f option \<Rightarrow> pool_event list \<Rightarrow> pool \<Rightarrow> bool" where
  new: "pool_run opts masterFn [] (call_master masterFn (started opts))"
| more: "pool_run opts masterFn es p \<Longrightarrow> pool_step opts p e q \<Longrightarrow> pool_run opts masterFn (es @ [e]) q"

section \<open>The call\<close>

datatype role = Master | Worker nat

datatype 'f throng_result = Work 'f nat | Supervise "'f option" pool_options pool

definition throng :: "int \<Rightarrow> role \<Rightarrow> 'f throng_argument \<Rightarrow> 'f option \<Rightarrow> exn + 'f throng_result" where
  "throng cpuCount role given startFunction =
     (let options = given_options given
      in case start_function options startFunction of
           Inl e \<Rightarrow> Inl e
         | Inr startFn \<Rightarrow>
             (case role of
                Worker i \<Rightarrow> Inr (Work startFn i)
              | Master \<Rightarrow>
                  (let opts = pool_options_of cpuCount options
                   in Inr (Supervise (master_function options) opts
                        (call_master (master_function options) (started opts))))))"

section \<open>The scheduler\<close>

definition worker_args :: "nat \<Rightarrow> nat \<Rightarrow> command_args" where
  "worker_args n i = \<lparr>ca_type = Some ''WORKER'', ca_id = i, ca_workers = Some n, ca_workerProcesses = False\<rparr>"

definition master_args :: "nat \<Rightarrow> command_args" where
  "master_args n = \<lparr>ca_type = Some ''MASTER'', ca_id = 0, ca_workers = Some n, ca_workerProcesses = True\<rparr>"

text \<open>The two call backs of \<open>boot.ts\<close>, and the options it gives.\<close>

datatype callback = masterCallback | workerCallback

definition boot_options :: "int \<Rightarrow> callback throng_options" where
  "boot_options n =
     \<lparr>op_workers = Some n, op_lifetime = None, op_grace = Some 1000,
      op_master = Some masterCallback, op_start = Some workerCallback\<rparr>"

definition boot_pool :: "nat \<Rightarrow> pool_options" where
  "boot_pool n = \<lparr>workers = int n, lifetime = Infinity, grace = 1000\<rparr>"

lemma boot_throng:
  "throng cpuCount Master (Options (boot_options (int n))) None =
     Inr (Supervise (Some masterCallback) (boot_pool n) (call_master (Some masterCallback) (started (boot_pool n))))"
  "throng cpuCount (Worker i) (Options (boot_options (int n))) None = Inr (Work workerCallback i)"
  by (simp_all add: Let_def throng_def given_options_def start_function_def pool_options_of_def master_function_def
      defaults_def boot_options_def boot_pool_def DEFAULT_OPTIONS_def)

text \<open>
  What a worker's process does on the message \<open>START_WORKERS\<close>, for whichever ending, after which the process is gone,
  beside whatever happens to the pool.
\<close>

inductive system_step :: "ext \<Rightarrow> scheduler \<Rightarrow> nat \<Rightarrow> pool \<times> world \<Rightarrow> pool \<times> world \<Rightarrow> bool" for L S n where
  works: "supervised p \<Longrightarrow> i \<in> set (live p) \<Longrightarrow> JobRunner_start L S (worker_args n i) w = Some (r, w') \<Longrightarrow>
    system_step L S n (p, w) (on_exit i p, w')"
| beside: "pool_step (boot_pool n) p e q \<Longrightarrow> system_step L S n (p, w) (q, w)"

inductive_cases system_stepE: "system_step L S n (p, w) c"

inductive system_run :: "ext \<Rightarrow> scheduler \<Rightarrow> nat \<Rightarrow> pool \<times> world \<Rightarrow> pool \<times> world \<Rightarrow> bool" for L S n where
  still: "system_run L S n c c"
| further: "system_step L S n c c1 \<Longrightarrow> system_run L S n c1 c2 \<Longrightarrow> system_run L S n c c2"

section \<open>The pool in every history\<close>

lemma started_fields [simp]:
  "live (started opts) = [1..<Suc (nat (workers opts))]" "listening (started opts)" "running (started opts)"
  "timer (started opts) = None" "supervised (started opts)"
proof -
  have "(cluster_fork ^^ k) listen = listen\<lparr>forked := k, live := [1..<Suc k]\<rparr>" for k
    by (induction k) (simp_all add: cluster_fork_def listen_def)
  then show "live (started opts) = [1..<Suc (nat (workers opts))]" "listening (started opts)" "running (started opts)"
    "timer (started opts) = None" "supervised (started opts)"
    by (simp_all add: started_def fork_def listen_def del: upt_Suc)
qed

text \<open>The milliseconds since the first signal.\<close>

definition since_signal :: "pool_event list \<Rightarrow> int" where
  "since_signal es = int (length (filter ((=) Millisecond) (dropWhile ((\<noteq>) Signal) es)))"

lemma dropWhile_not_in: "x \<notin> set xs \<Longrightarrow> dropWhile ((\<noteq>) x) (xs @ ys) = dropWhile ((\<noteq>) x) ys"
  by (rule dropWhile_append2) auto

lemma since_signal_new: "Signal \<notin> set es \<Longrightarrow> since_signal (es @ [e]) = 0"
  by (simp add: since_signal_def dropWhile_not_in)

lemma since_signal_more: "Signal \<in> set es \<Longrightarrow> since_signal (es @ [e]) = since_signal es + (if e = Millisecond then 1 else 0)"
  using dropWhile_append1 [of Signal es "(\<noteq>) Signal" "[e]"] by (auto simp: since_signal_def)

lemma since_signal_none: "Signal \<notin> set es \<Longrightarrow> since_signal es = 0"
  by (induction es) (auto simp: since_signal_def)

lemmas pool_step_defs = proxySignal_def shutdown_def forceKill_def on_exit_def elapse_def delay_def

lemma pool_run_state:
  "pool_run opts m es p \<Longrightarrow>
     set (live p) = {1..nat (workers opts)} - {i. Ended i \<in> set es} \<and>
     (listening p \<longleftrightarrow> Signal \<notin> set es) \<and> (running p \<longleftrightarrow> Signal \<notin> set es) \<and>
     (supervised p \<longleftrightarrow> since_signal es < delay (grace opts) \<and> Exited \<notin> set es \<and> Drained \<notin> set es) \<and>
     (supervised p \<longrightarrow> timer p = (if Signal \<in> set es then Some (delay (grace opts) - since_signal es) else None) \<and>
       (busy p \<longleftrightarrow> m \<noteq> None \<and> Settled \<notin> set es)) \<and>
     since_signal es \<le> delay (grace opts) \<and>
     (Drained \<in> set es \<longrightarrow> live p = [] \<and> Signal \<notin> set es \<and> (m = None \<or> Settled \<in> set es))"
proof (induction rule: pool_run.induct)
  case (new opts m)
  show ?case by (auto simp: since_signal_none delay_def call_master_def simp del: upt_Suc)
next
  case (more opts m es p e q)
  note since = since_signal_new [of es e] since_signal_more [of es e] since_signal_none [of es]
  from more.hyps(2) more.IH show ?case
  proof (cases rule: pool_step.cases)
    case signalled
    then show ?thesis using more.IH since by (cases "Signal \<in> set es") (auto simp: pool_step_defs)
  next
    case (ended i)
    then show ?thesis using more.IH since by (cases "Signal \<in> set es") (auto simp: pool_step_defs)
  next
    case waited
    then show ?thesis using more.IH since by (cases "Signal \<in> set es") (auto simp: pool_step_defs)
  next
    case exited
    then show ?thesis using more.IH since by (cases "Signal \<in> set es") (auto simp: pool_step_defs)
  next
    case settled
    then show ?thesis using more.IH since by (cases "Signal \<in> set es") (auto simp: pool_step_defs)
  next
    case drained
    then show ?thesis using more.IH since by (cases "Signal \<in> set es") (auto simp: pool_step_defs split: if_splits)
  qed
qed

text \<open>
  C17.  In every history of a pool the workers that run are exactly those of 1 to the number of workers that have
  not ended: none is revived and none is added.  The master is there until the first of three things: its
  process exits of itself (in \<open>boot.ts\<close> at the end of its function), the grace period after the first signal is
  over, which later signals neither shorten nor prolong, or it has nothing left to wait for.  The last happens
  only when every worker has ended, there was no signal and the master's function, if any, has ended without an exit.
\<close>

theorem pool_history:
  assumes "pool_run opts masterFn es p"
  shows "set (live p) = {1..nat (workers opts)} - {i. Ended i \<in> set es} \<and>
    (supervised p \<longleftrightarrow> since_signal es < max 1 (grace opts) \<and> Exited \<notin> set es \<and> Drained \<notin> set es) \<and>
    (Drained \<in> set es \<longrightarrow>
      {1..nat (workers opts)} \<subseteq> {i. Ended i \<in> set es} \<and> Signal \<notin> set es \<and> (masterFn = None \<or> Settled \<in> set es))"
  using pool_run_state [OF assms] by (auto simp: delay_def)

lemma pool_history_witness:
  "\<exists>p. pool_run (boot_pool 3) (Some masterCallback) [Ended 2, Signal, Millisecond, Signal] p \<and> set (live p) = {1, 3} \<and>
    supervised p"
proof -
  let ?o = "boot_pool 3" and ?m = "Some masterCallback"
  let ?p0 = "call_master ?m (started ?o)"
  let ?p1 = "on_exit 2 ?p0"
  let ?p2 = "proxySignal ?o ?p1"
  let ?p3 = "elapse ?p2"
  have s0: "2 \<in> set (live ?p0)" "supervised ?p0" by (simp_all add: call_master_def boot_pool_def del: upt_Suc)
  then have s: "supervised ?p1" "supervised ?p2" "supervised ?p3"
    by (simp_all add: pool_step_defs call_master_def boot_pool_def)
  have 1: "pool_run ?o ?m [Ended 2] ?p1" using more [OF new ended [OF s0(2,1)]] by simp
  have 2: "pool_run ?o ?m [Ended 2, Signal] ?p2" using more [OF 1 signalled [OF s(1)]] by simp
  have 3: "pool_run ?o ?m [Ended 2, Signal, Millisecond] ?p3" using more [OF 2 waited [OF s(2)]] by simp
  have 4: "pool_run ?o ?m [Ended 2, Signal, Millisecond, Signal] (proxySignal ?o ?p3)"
    using more [OF 3 signalled [OF s(3)]] by simp
  have "{1..nat (workers ?o)} - {i. Ended i \<in> set [Ended 2, Signal, Millisecond, Signal]} = {1, 3}"
    by (auto simp: boot_pool_def)
  with pool_history [OF 4] 4 show ?thesis
    by (intro exI [of _ "proxySignal ?o ?p3"]) (simp add: since_signal_def boot_pool_def)
qed

end
