(* ===== verification/PoolProperties.thy ===== *)
theory PoolProperties
  imports ProcessPool FullProcess
begin

text \<open>
  The master and its workers together: what a worker's process does to the database, the scheduled run
  of a day with a pool in which every worker gets its turn, and one in which a worker has ended.
\<close>

section \<open>A worker's process\<close>

lemma worker_starts:
  assumes "0 < i"
  shows "JobRunner_start L S (worker_args n i) w =
    (case connections S (calls w) of
       Inl e \<Rightarrow> Some (Inl (Exit 1), tick w)
     | Inr _ \<Rightarrow>
         (case TransactionProcessing_perform L (Some i) (tick w) of
            (Inl e, w') \<Rightarrow> Some (Inl (Exit 1), w') | (Inr _, w') \<Rightarrow> Some (Inl (Exit 0), w')))"
proof -
  have "map to_upper ''WORKER'' = ''WORKER''" by code_simp
  then show ?thesis
    by (simp add: JobRunner_start_def worker_args_def run_command_def job_defs proc_simps request_apply
        split: sum.split prod.split)
qed

text \<open>The workers of a list get their turns, one after the other.\<close>

primrec worker_turns :: "ext \<Rightarrow> scheduler \<Rightarrow> nat \<Rightarrow> nat list \<Rightarrow> world \<Rightarrow> world" where
  "worker_turns L S n [] w = w"
| "worker_turns L S n (i # is) w = worker_turns L S n is (snd (the (JobRunner_start L S (worker_args n i) w)))"

lemma turns_cong:
  assumes "connections S = connections S'" and "\<forall>i\<in>set is. 0 < i"
  shows "worker_turns L S n is w = worker_turns L S' n is w"
  using assms(2) by (induction "is" arbitrary: w) (simp_all add: worker_starts assms(1))

section \<open>The assignment\<close>

definition shared_out :: "ext \<Rightarrow> nat \<Rightarrow> db \<Rightarrow> db \<Rightarrow> bool" where
  "shared_out L n d d' \<longleftrightarrow>
     mset (transactions d') = mset (map (assigned_row L n) (transactions d)) \<and> d' = d\<lparr>transactions := transactions d'\<rparr>"

lemma assign_reliable:
  assumes "ext_ok L" and "reliable L" and "0 < n"
  obtains w' where "assignWorkerProcesses L n w = (Inr (), w')" and "shared_out L n (store w) (store w')"
proof -
  obtain w' where a: "assignWorkerProcesses L n w = (Inr (), w')" by (rule assign_returns [OF assms(2,3)])
  have "store w' = (store w)\<lparr>transactions := transactions (store w')\<rparr>"
    using a assms(3)
    by (auto simp: assignWorkerProcesses_def io_simps execute_def TransactionForRebateCriteriaRepository_def
        split: sum.splits)
  with assign_rows [OF assms(1,3) a] a that show thesis by (auto simp: shared_out_def)
qed

lemma fulfillable_assigned: "fulfillable (transaction_of L (assigned_row L n r)) = fulfillable (transaction_of L r)"
  by (simp add: fulfillable_def rebate_key_def transaction_of_def assigned_row_def transaction_columns_def
      TransactionForRebateCriteriaSerializer_deserialize_def)

lemma assigned_row_flag [simp]: "tr_refund_report_created (assigned_row L n r) = tr_refund_report_created r"
  by (simp add: assigned_row_def transaction_columns_def)

lemma assigned_row_view:
  assumes "ext_ok L"
  shows "report_view L (assigned_row L n r) = report_view L r"
  using ext_columns [OF assms]
  by (simp add: report_view_def assigned_row_def transaction_columns_def column_laws_def)

lemma shared_out_ready:
  assumes "ext_ok L" and "shared_out L n d d'" and "ready L M d"
  shows "ready L M d'"
proof -
  have t: "mset (transactions d') = mset (map (assigned_row L n) (transactions d))"
    and d': "d' = d\<lparr>transactions := transactions d'\<rparr>" using assms(2) by (simp_all add: shared_out_def)
  have same: "rebates d' = rebates d" "rebate_criteria d' = rebate_criteria d" "rebate_journal d' = rebate_journal d"
    "standing d' = standing d" "refund_reports d' = refund_reports d"
    by (subst d', simp add: standing_def)+
  have keys: "transaction_keys L d' = transaction_keys L d"
    unfolding transaction_keys_def t
    by (simp add: image_mset.compositionality comp_def assigned_row_view [OF assms(1)])
  have inv: "processing_inv L M d" using assms(3) by (simp add: ready_def)
  then have "fulfilled_once d'" using fulfilled_once_cong [OF same(1)] by (simp add: processing_inv_def)
  then have "processing_inv L M d'"
    using inv same keys by (intro processing_inv_rewritten [where g = "\<lambda>r. r", OF inv]) simp_all
  moreover have "set (transactions d') = assigned_row L n ` set (transactions d)" using mset_eq_set [OF t] by simp
  ultimately show ?thesis
    using assms(3) same by (auto simp: ready_def journals_numbered_def exportable_def fulfillable_assigned)
qed

lemma shared_out_owed:
  assumes "shared_out L n d d'" and "0 < n" and "set is = {1..n}"
  shows "owed (\<lambda>p. \<exists>i\<in>set is. p = Some i) d' = pending_ids d"
proof -
  have t: "set (transactions d') = assigned_row L n ` set (transactions d)"
    using assms(1) mset_eq_set [of "transactions d'" "map (assigned_row L n) (transactions d)"] by (simp add: shared_out_def)
  have "\<exists>i\<in>set is. tr_processor_id (assigned_row L n r) = Some i" if "tr_processed_at r = None" for r
    using that processor_for_range [OF assms(2), of L "tr_user_id r"] assms(3) by simp
  then have "{r \<in> set (transactions d'). tr_processed_at r = None \<and> (\<exists>i\<in>set is. tr_processor_id r = Some i)} =
      assigned_row L n ` {r \<in> set (transactions d). tr_processed_at r = None}"
    unfolding t by auto
  then show ?thesis by (simp add: owed_def pending_ids_def image_image)
qed

lemma shared_out_pending:
  assumes "shared_out L n d d'"
  shows "pending_ids d' = pending_ids d"
proof -
  have "set (transactions d') = assigned_row L n ` set (transactions d)"
    using assms mset_eq_set [of "transactions d'" "map (assigned_row L n) (transactions d)"] by (simp add: shared_out_def)
  then have "{r \<in> set (transactions d'). tr_processed_at r = None} =
      assigned_row L n ` {r \<in> set (transactions d). tr_processed_at r = None}" by auto
  then show ?thesis by (simp add: pending_ids_def image_image)
qed

lemma pending_count_ids: "pending_count d = 0 \<longleftrightarrow> pending_ids d = {}"
  by (auto simp: pending_count_def pending_ids_def filter_empty_conv)

section \<open>Every worker gets its turn\<close>

lemma owed_worker:
  "0 < i \<Longrightarrow> tr_id ` {r \<in> set (transactions d). pending_row (Some i) r} = owed (\<lambda>p. p = Some i) d"
  by (simp add: owed_def pending_row_def)

lemma owed_apart:
  assumes "ready L M d" and "\<And>p. P p \<Longrightarrow> \<not> P' p"
  shows "owed P d \<inter> owed P' d = {}"
proof -
  have "inj_on tr_id (set (transactions d))"
    using ready_db_ok [OF assms(1)] by (simp add: db_ok_def distinct_map)
  with assms(2) show ?thesis by (fastforce simp: owed_def inj_on_def)
qed

lemma worker_turn:
  assumes "ext_ok L" and "reliable L" and "reliable_files L" and "\<forall>k. connections S k = Inr ()"
    and "0 < i" and "ready L M (store w)"
  obtains xs left w' where "JobRunner_start L S (worker_args n i) w = Some (Inl (Exit 0), w')"
    and "specified_run L xs (store w) left (store w')" and "tx_id ` set xs = owed (\<lambda>p. p = Some i) (store w)"
    and "distinct (map tx_id xs)" and "ready L M (store w')"
proof -
  have r: "ready L M (store (tick w))" using assms(6) by simp
  obtain xs left w' where "TransactionProcessing_perform L (Some i) (tick w) = (Inr (), w')"
    "specified_run L xs (store (tick w)) left (store w')"
    "tx_id ` set xs = tr_id ` {q \<in> set (transactions (store (tick w))). pending_row (Some i) q}"
    "distinct (map tx_id xs)" "ready L M (store w')"
    by (rule worker_ready [OF assms(1-3) r, of "Some i"])
  with assms(4,5) show thesis by (intro that [of w' xs left]) (simp_all add: worker_starts owed_worker)
qed

lemma turns_ready:
  assumes "ext_ok L" and "reliable L" and "reliable_files L" and "\<forall>k. connections S k = Inr ()"
  shows "distinct is \<Longrightarrow> 0 \<notin> set is \<Longrightarrow> ready L M (store w) \<Longrightarrow>
    \<exists>xs left. specified_run L xs (store w) left (store (worker_turns L S n is w)) \<and>
      tx_id ` set xs = owed (\<lambda>p. \<exists>i\<in>set is. p = Some i) (store w) \<and> distinct (map tx_id xs) \<and>
      ready L M (store (worker_turns L S n is w))"
proof (induction "is" arbitrary: w)
  case Nil
  then show ?case by (intro exI [of _ "[]"]) (simp add: owed_def finished)
next
  case (Cons i "is")
  let ?P = "\<lambda>p. \<exists>i\<in>set is. p = Some i"
  obtain xs left w1 where 1: "JobRunner_start L S (worker_args n i) w = Some (Inl (Exit 0), w1)"
    "specified_run L xs (store w) left (store w1)" "tx_id ` set xs = owed (\<lambda>p. p = Some i) (store w)"
    "distinct (map tx_id xs)" "ready L M (store w1)"
    by (rule worker_turn [OF assms _ Cons.prems(3), where i = i and n = n]) (use Cons.prems in auto)
  from Cons.IH [OF _ _ 1(5)] Cons.prems obtain ys left' where
    2: "specified_run L ys (store w1) left' (store (worker_turns L S n is w1))" "tx_id ` set ys = owed ?P (store w1)"
      "distinct (map tx_id ys)" "ready L M (store (worker_turns L S n is w1))" by auto
  have apart: "owed (\<lambda>p. p = Some i) (store w) \<inter> owed ?P (store w) = {}"
    using owed_apart [OF Cons.prems(3), of "\<lambda>p. p = Some i" ?P] Cons.prems(1) by auto
  moreover have "owed ?P (store w1) = owed ?P (store w) - (tx_id ` set xs - tx_id ` set left)"
    using specified_run_owed [OF 1(2,4)] by blast
  ultimately have rest: "owed ?P (store w1) = owed ?P (store w)" using 1(3) by blast
  have "owed (\<lambda>p. \<exists>j\<in>set (i # is). p = Some j) (store w) =
      owed (\<lambda>p. p = Some i) (store w) \<union> owed ?P (store w)"
    by (auto simp: owed_def)
  then have "tx_id ` set (xs @ ys) = owed (\<lambda>p. \<exists>j\<in>set (i # is). p = Some j) (store w)"
    using 1(3) 2(2) rest by (simp add: image_Un)
  moreover have "distinct (map tx_id (xs @ ys))" using 1(3,4) 2(2,3) rest apart by simp
  ultimately show ?case
    using specified_run_append [OF 1(2) 2(1)] 2(4) 1(1) by (intro exI [of _ "xs @ ys"] exI [of _ "left @ left'"]) simp
qed

section \<open>The master\<close>

lemma master_starts:
  "JobRunner_start L S (master_args n) w =
    (case connections S (calls w) of
       Inl e \<Rightarrow> Some (Inl (Exit 1), tick w)
     | Inr _ \<Rightarrow> proc_then (masterProcess L S (Some n) True) (process_exit 0) (tick w))"
proof -
  have "map to_upper ''MASTER'' = ''MASTER''" by code_simp
  then show ?thesis
    by (simp add: JobRunner_start_def master_args_def run_command_def job_defs proc_simps request_apply
        split: sum.split prod.split)
qed

lemma wait_stuck:
  assumes "ext_ok L" and "reliable L" and "meanwhile S = undisturbed (\<lambda>k. if k = 0 then f else (\<lambda>w. w))"
    and "pending_count (store (f w)) \<noteq> 0"
  shows "wait_for_workers L S 0 w = None"
proof -
  have "wait_for_workers L S (Suc 0) (tick (f w)) = None"
    by (rule wait_never_ends [OF assms(3), where Q = "\<lambda>k (w :: world). k \<noteq> 0 \<and> pending_count (store w) \<noteq> 0"])
      (use assms(4) in \<open>simp_all add: numPending_reliable [OF assms(1,2)]\<close>)
  with assms(4) show ?thesis by (simp add: wait_reliable [OF assms(1-3), where k = 0])
qed

text \<open>
  C6.  The scheduled run of a day, the master with a pool of any number of workers that get their turns in any
  order, on a system where every request is answered: the pending transactions are shared out, and
  together the workers take every one of them exactly once, as one process would.  When the rules give a
  verdict for all of them, the master goes on to the export and the sync and ends with the code 0, as a
  full process does; when one is left, the master never ends, and neither the export nor the sync takes place.
\<close>

theorem master_completes_the_day:
  assumes h: "healthy L day" and c: "\<forall>k. connections S k = Inr ()" and r: "ready L M (store w)" and n: "0 < n"
    and i: "distinct is" "set is = {1..n}"
    and S: "meanwhile S = undisturbed (\<lambda>k. if k = 0 then worker_turns L S n is else (\<lambda>w. w))"
  shows "\<exists>d1 xs left d2. shared_out L n (store w) d1 \<and> tx_id ` set xs = pending_ids (store w) \<and>
    distinct (map tx_id xs) \<and> specified_run L xs d1 left d2 \<and> pending_ids d2 = tx_id ` set left \<and>
    (if left = []
     then \<exists>w'. JobRunner_start L S (master_args n) w = Some (Inl (Exit 0), w') \<and>
       full_run L (stamped (export_path S) day) xs d1 [] (store w') \<and> pending_ids (store w') = {} \<and>
       waiting_rows (store w') = [] \<and> ready L M (store w')
     else JobRunner_start L S (master_args n) w = None)"
proof -
  have ok: "ext_ok L" and rel: "reliable L" and files: "reliable_files L" using h by (simp_all add: healthy_def)
  obtain w1 where a: "assignWorkerProcesses L n (tick w) = (Inr (), w1)" and d1: "shared_out L n (store w) (store w1)"
    by (rule assign_reliable [OF ok rel n, where w = "tick w"]) simp
  have r1: "ready L M (store w1)" by (rule shared_out_ready [OF ok d1 r])
  let ?w2 = "worker_turns L S n is w1"
  from turns_ready [OF ok rel files c i(1) _ r1, of n] i(2) obtain xs left where
    s: "specified_run L xs (store w1) left (store ?w2)" and d: "distinct (map tx_id xs)"
    and ids: "tx_id ` set xs = owed (\<lambda>p. \<exists>i\<in>set is. p = Some i) (store w1)" and r2: "ready L M (store ?w2)"
    by auto
  have all: "tx_id ` set xs = pending_ids (store w)" using ids shared_out_owed [OF d1 n i(2)] by simp
  have ids1: "pending_ids (store w1) = pending_ids (store w)" by (rule shared_out_pending [OF d1])
  have l: "pending_ids (store ?w2) = tx_id ` set left"
    using specified_run_pending [OF s d] all ids1 image_mono [of "set left" "set xs" tx_id] by auto
  have run: "JobRunner_start L S (master_args n) w =
      proc_then (wait_for_workers L S 0) (proc_then (proc_then (doMCExport L S) (doMOPSync L S)) (process_exit 0)) w1"
    by (simp add: master_starts c masterProcess_def assign_workers_def proc_then_assoc) (simp add: proc_simps a io_simps)
  show ?thesis
  proof (cases "left = []")
    case True
    with l have "pending_count (store ?w2) = 0" by (simp add: pending_count_ids)
    then have wait: "wait_for_workers L S 0 w1 = Some (Inr (), tick ?w2)"
      by (simp add: wait_reliable [OF ok rel S, where k = 0])
    have e: "ready L M (store (tick ?w2))" "specified_run L xs (store w1) left (store (tick ?w2))"
      "tx_id ` set xs = pending_ids (store w1)" using r2 s all ids1 by simp_all
    obtain self w3 w' where 3: "RebateExport_perform L (export_path S) (tick ?w2) = (Inr self, w3)"
      "syncTotalsToMOP L (sync_order1 S) (sync_order2 S) w3 = (Inr True, w')"
      "full_run L (stamped (export_path S) day) xs (store w1) left (store w')"
      "pending_ids (store w') = tx_id ` set left" "ready L M (store w')" "waiting_rows (store w') = []"
      by (rule finish_reliable [OF h r1 e d, of "export_path S" "sync_order1 S" "sync_order2 S"])
    then have "JobRunner_start L S (master_args n) w = Some (Inl (Exit 0), w')"
      by (simp add: run proc_then_assoc) (simp add: job_defs proc_simps wait)
    with 3 True show ?thesis
      using d1 all d s l by (intro exI [of _ "store w1"] exI [of _ xs] exI [of _ left] exI [of _ "store ?w2"]) simp
  next
    case False
    with l have "pending_count (store ?w2) \<noteq> 0" by (simp add: pending_count_ids)
    with wait_stuck [OF ok rel S] have "JobRunner_start L S (master_args n) w = None"
      by (simp add: run) (simp add: proc_simps)
    with False show ?thesis
      using d1 all d s l by (intro exI [of _ "store w1"] exI [of _ xs] exI [of _ left] exI [of _ "store ?w2"]) simp
  qed
qed

definition two_workers :: scheduler where
  "two_workers = one_by_one\<lparr>meanwhile :=
     undisturbed (\<lambda>k. if k = 0 then worker_turns day_ext one_by_one 2 [2, 1] else (\<lambda>w. w))\<rparr>"

lemma master_completes_the_day_witness:
  "\<exists>(xs :: ITransactionForRebateCriteria list) left :: ITransactionForRebateCriteria list.
    tx_id ` set xs = {Some 1, Some 2} \<and> distinct (map tx_id xs) \<and> tx_id ` set left \<subseteq> {Some 1, Some 2} \<and>
    (if left = []
     then \<exists>w'. JobRunner_start day_ext two_workers (master_args 2) full_world = Some (Inl (Exit 0), w') \<and>
       pending_ids (store w') = {}
     else JobRunner_start day_ext two_workers (master_args 2) full_world = None)"
proof -
  have c: "\<forall>k. connections two_workers k = Inr ()" by (simp add: two_workers_def one_by_one_def)
  have r: "ready day_ext {#} (store full_world)" by (simp only: full_world_def world.select_convs full_db_ready)
  have "worker_turns day_ext two_workers 2 [2, 1] = worker_turns day_ext one_by_one 2 [2, 1]"
    by (rule ext, rule turns_cong) (simp_all add: two_workers_def)
  moreover have "meanwhile two_workers = undisturbed (\<lambda>k. if k = 0 then worker_turns day_ext one_by_one 2 [2, 1] else (\<lambda>w. w))"
    by (simp add: two_workers_def)
  ultimately have m: "meanwhile two_workers = undisturbed (\<lambda>k. if k = 0 then worker_turns day_ext two_workers 2 [2, 1] else (\<lambda>w. w))"
    by (simp only:)
  have n: "0 < (2 :: nat)" "distinct [2 :: nat, 1]" "set [2, 1] = {1..2 :: nat}" by auto
  from master_completes_the_day [OF day_healthy c r n m] obtain xs left d1 d2 where p: "tx_id ` set xs = pending_ids (store full_world)" "distinct (map tx_id xs)"
    and s: "specified_run day_ext xs d1 left d2"
    and e: "if left = [] then \<exists>w'. JobRunner_start day_ext two_workers (master_args 2) full_world = Some (Inl (Exit 0), w') \<and>
       full_run day_ext (stamped (export_path two_workers) (show_int 1)) xs d1 [] (store w') \<and> pending_ids (store w') = {} \<and>
       waiting_rows (store w') = [] \<and> ready day_ext {#} (store w')
     else JobRunner_start day_ext two_workers (master_args 2) full_world = None"
    by (elim exE conjE) (rule that)
  have "if left = [] then \<exists>w'. JobRunner_start day_ext two_workers (master_args 2) full_world = Some (Inl (Exit 0), w') \<and>
       pending_ids (store w') = {}
     else JobRunner_start day_ext two_workers (master_args 2) full_world = None"
    using e by (cases "left = []") (simp_all only: if_True if_False simp_thms, blast)
  moreover have ids: "tx_id ` set xs = {Some 1, Some 2}" using p(1) by (simp only: full_world_def world.select_convs full_db_pending)
  moreover have "tx_id ` set left \<subseteq> {Some 1, Some 2}"
    using specified_run_pending [OF s p(2)] image_mono [of "set left" "set xs" tx_id] unfolding ids by blast
  ultimately show ?thesis using p(2) by - (rule exI [of _ xs], rule exI [of _ left], intro conjI)
qed

section \<open>A worker that has ended\<close>

lemma pool_step_live: "pool_step opts p e q \<Longrightarrow> set (live q) \<subseteq> set (live p)"
  by (erule pool_stepE) (auto simp: pool_step_defs split: option.splits)

text \<open>The records of the exports, the files on the server and the totals of the offers.\<close>

definition delivered :: "db \<Rightarrow> ExportDetailsRecord list \<times> (string \<times> IRebateExport list) list \<times> OfferRecord list" where
  "delivered d = (export_details d, uploaded d, offers d)"

lemma marked_delivered: "marked L s t x d d' \<Longrightarrow> delivered d' = delivered d"
  unfolding marked_def by (elim conjE, erule ssubst) (simp add: delivered_def)

lemma follows_delivered:
  assumes "follows L x d d'"
  shows "delivered d' = delivered d"
proof (cases "tx_transactionType x")
  case Qualifying
  show ?thesis
  proof (cases "qualifying_verdict L d x")
    case (Issue amount rewardType)
    with assms Qualifying obtain t d1 where m: "marked L RebateCreated t x d d1"
      and d': "d' = d1\<lparr>rebates := rebates d'\<rparr>"
      by (auto simp: follows_def prescribes_def)
    have "delivered d' = delivered d1" by (subst d') (simp add: delivered_def)
    with marked_delivered [OF m] show ?thesis by simp
  qed (use assms Qualifying marked_delivered in \<open>auto simp: follows_def prescribes_def\<close>)
next
  case Fulfillment
  show ?thesis
  proof (cases "fulfillment_status d x = FulfilledTransSuccessful")
    case True
    with assms Fulfillment obtain t d1 where m: "marked L FulfilledTransSuccessful t x d d1"
      and d': "d' = d1\<lparr>rebates := rebates d', rebate_journal := rebate_journal d', published := published d'\<rparr>"
      by (auto simp: follows_def settles_fulfillment_def)
    have "delivered d' = delivered d1" by (subst d') (simp add: delivered_def)
    with marked_delivered [OF m] show ?thesis by simp
  qed (use assms Fulfillment marked_delivered in \<open>auto simp: follows_def Let_def\<close>)
next
  case Refund
  with assms obtain t d1 where m: "marked L (refund_status (criteria_in L d (tx_rebateCriteriaId x)) d x) t x d d1"
    and r: "case criteria_in L d (tx_rebateCriteriaId x) of None \<Rightarrow> d' = d1 | Some c \<Rightarrow> reported L c (due d1 x) d1 d'"
    by (auto simp: follows_def Let_def)
  have "d' = d1 \<or> d' = d1\<lparr>transactions := transactions d', refund_reports := refund_reports d'\<rparr>"
    using r unfolding reported_def by (simp split: option.splits)
  moreover have "delivered (d1\<lparr>transactions := ts, refund_reports := rs\<rparr>) = delivered d1" for ts rs
    by (simp add: delivered_def)
  ultimately have "delivered d' = delivered d1" by metis
  with marked_delivered [OF m] show ?thesis by simp
qed (use assms in \<open>simp add: follows_def\<close>)

lemma specified_run_delivered: "specified_run L xs d left d' \<Longrightarrow> delivered d' = delivered d"
  by (induction rule: specified_run.induct) (simp_all add: follows_delivered)

text \<open>The database stays ready, the transaction \<open>k\<close> waits for the worker \<open>i\<close>, and nothing is delivered.\<close>

definition awaits :: "ext \<Rightarrow> RefundRecord multiset \<Rightarrow> nat \<Rightarrow> nat option \<Rightarrow> db \<Rightarrow> db \<Rightarrow> bool" where
  "awaits L M i k d0 d \<longleftrightarrow> ready L M d \<and> k \<in> owed (\<lambda>p. p = Some i) d \<and> delivered d = delivered d0"

lemma worker_leaves:
  assumes "ext_ok L" and "reliable L" and "reliable_files L" and "0 < j" and "j \<noteq> i"
    and "awaits L M i k d0 (store w)" and "JobRunner_start L S (worker_args n j) w = Some (e, w')"
  shows "awaits L M i k d0 (store w')"
proof (cases "connections S (calls w)")
  case (Inl x)
  with assms(4,6,7) show ?thesis by (auto simp: worker_starts)
next
  case (Inr x)
  have r: "ready L M (store (tick w))" using assms(6) by (simp add: awaits_def)
  obtain xs left w1 where 1: "TransactionProcessing_perform L (Some j) (tick w) = (Inr (), w1)"
    "specified_run L xs (store (tick w)) left (store w1)"
    "tx_id ` set xs = tr_id ` {q \<in> set (transactions (store (tick w))). pending_row (Some j) q}"
    "distinct (map tx_id xs)" "ready L M (store w1)"
    by (rule worker_ready [OF assms(1-3) r, of "Some j"])
  have "w' = w1" using 1(1) Inr assms(4,7) by (simp add: worker_starts)
  moreover have "owed (\<lambda>p. p = Some j) (store w) \<inter> owed (\<lambda>p. p = Some i) (store w) = {}"
    using owed_apart [of L M "store w" "\<lambda>p. p = Some j" "\<lambda>p. p = Some i"] assms(5) r by simp
  moreover have "owed (\<lambda>p. p = Some i) (store w1) = owed (\<lambda>p. p = Some i) (store w) - (tx_id ` set xs - tx_id ` set left)"
    using specified_run_owed [OF 1(2,4)] by simp
  moreover have "tx_id ` set xs = owed (\<lambda>p. p = Some j) (store w)" using 1(3) owed_worker [OF assms(4)] by simp
  ultimately show ?thesis using 1(5) assms(6) specified_run_delivered [OF 1(2)] by (auto simp: awaits_def)
qed

lemma system_leaves:
  assumes "ext_ok L" and "reliable L" and "reliable_files L"
  shows "system_run L S n c c' \<Longrightarrow> i \<notin> set (live (fst c)) \<Longrightarrow> 0 \<notin> set (live (fst c)) \<Longrightarrow>
    awaits L M i k d0 (store (snd c)) \<Longrightarrow> awaits L M i k d0 (store (snd c'))"
proof (induction rule: system_run.induct)
  case (further c c1 c2)
  obtain p w where c: "c = (p, w)" by (cases c)
  from further.hyps(1) have "awaits L M i k d0 (store (snd c1)) \<and> set (live (fst c1)) \<subseteq> set (live p)"
    unfolding c
  proof (cases rule: system_step.cases)
    case (works j e w')
    with worker_leaves [OF assms _ _ _ works(4), of i M k d0] further.prems c show ?thesis
      by (auto simp: on_exit_def intro: gr0I)
  next
    case (beside e q)
    with further.prems c pool_step_live show ?thesis by auto
  qed
  with further c show ?case by auto
qed

text \<open>
  What may happen while the master waits, when the worker \<open>i\<close> of its pool has ended: any history of the pool, and any
  turns of the workers that are left; the wait is the last thing the master does exactly when the history has
  left no master.
\<close>

definition without_worker :: "ext \<Rightarrow> scheduler \<Rightarrow> nat \<Rightarrow> nat \<Rightarrow> bool" where
  "without_worker L S n i \<longleftrightarrow>
     (\<forall>k w. \<exists>es p q. pool_run (boot_pool n) (Some masterCallback) es p \<and> Ended i \<in> set es \<and>
        system_run L S n (p, w) (q, snd (meanwhile S k w)) \<and> (isl (fst (meanwhile S k w)) \<longleftrightarrow> \<not> supervised q))"

lemma without_worker_awaits:
  assumes "ext_ok L" and "reliable L" and "reliable_files L" and "without_worker L S n i"
    and "awaits L M i k d0 (store w)" and "meanwhile S j w = (x, w1)"
  shows "awaits L M i k d0 (store w1)"
proof -
  obtain es p q where p: "pool_run (boot_pool n) (Some masterCallback) es p" "Ended i \<in> set es"
    "system_run L S n (p, w) (q, w1)"
    using assms(4,6) unfolding without_worker_def by (metis snd_conv)
  have "set (live p) = {1..n} - {i. Ended i \<in> set es}" using pool_run_state [OF p(1)] by (simp add: boot_pool_def)
  then show ?thesis using system_leaves [OF assms(1-3) p(3), of i M k d0] p(2) assms(5) by simp
qed

text \<open>
  C11.  A worker that has ended blocks the scheduled run: while one transaction of its share is pending, the
  master never gets past its wait, whatever the other workers and the pool do, for no worker is revived and no
  transaction is handed to another worker.  Either the wait is ended with the process, by the pool, and the
  transaction is still pending then; or, when nothing ends the process, it waits for ever.  In both cases neither the
  export nor the sync takes place: no export is recorded, no file is uploaded and no total is changed.  (The end of
  the process by the pool is modelled in the waits of the master, where it spends this time.)
\<close>

theorem ended_worker_blocks_the_master:
  assumes ok: "ext_ok L" and rel: "reliable L" and files: "reliable_files L" and c: "connections S (calls w) = Inr ()"
    and "ready L M (store w)" and n: "0 < n"
    and x: "r \<in> set (transactions (store w))" "tr_processed_at r = None"
    and others: "without_worker L S n (processor_for L n (tr_user_id r))"
  shows "(case JobRunner_start L S (master_args n) w of
       None \<Rightarrow> True
     | Some (x, w') \<Rightarrow> isl x \<and> (\<exists>k w1. meanwhile S k w1 = (x, w')) \<and>
         tr_id r \<in> owed (\<lambda>p. p = Some (processor_for L n (tr_user_id r))) (store w') \<and>
         delivered (store w') = delivered (store w)) \<and>
    ((\<forall>k w. \<not> isl (fst (meanwhile S k w))) \<longrightarrow> JobRunner_start L S (master_args n) w = None)"
proof -
  let ?i = "processor_for L n (tr_user_id r)"
  let ?Q = "\<lambda>(_ :: nat) (v :: world). awaits L M ?i (tr_id r) (store w) (store v)"
  obtain w1 where a: "assignWorkerProcesses L n (tick w) = (Inr (), w1)" and d1: "shared_out L n (store w) (store w1)"
    by (rule assign_reliable [OF ok rel n, where w = "tick w"]) simp
  have "assigned_row L n r \<in> set (transactions (store w1))"
    using d1 x(1) mset_eq_set [of "transactions (store w1)" "map (assigned_row L n) (transactions (store w))"]
    by (simp add: shared_out_def)
  then have "tr_id (assigned_row L n r) \<in> owed (\<lambda>p. p = Some ?i) (store w1)"
    unfolding owed_def using x(2) by (intro imageI) simp
  moreover have "store w1 = (store w)\<lparr>transactions := transactions (store w1)\<rparr>" using d1 by (simp add: shared_out_def)
  then have "delivered (store w1) = delivered (store w)" by (rule ssubst) (simp add: delivered_def)
  ultimately have start: "?Q 0 w1" using shared_out_ready [OF ok d1 assms(5)] by (simp add: awaits_def)
  have waits: "\<exists>n. numPending L v1 = (Inr n, tick v1) \<and> n \<noteq> Num 0 \<and> ?Q (Suc k) (tick v1)"
    if "?Q k v" and "meanwhile S k v = (Inr (), v1)" for k v v1
  proof -
    have q: "?Q k v1" by (rule without_worker_awaits [OF ok rel files others that])
    then have "pending_count (store v1) \<noteq> 0"
      unfolding pending_count_ids by (auto simp: awaits_def owed_def pending_ids_def)
    with q show ?thesis by (simp add: numPending_reliable [OF ok rel])
  qed
  have "\<exists>k v. ?Q k v \<and> meanwhile S k v = (y, w') \<and> isl y" if "wait_for_workers L S 0 w1 = Some (y, w')" for y w'
    using wait_only_ended [of ?Q, OF waits start that] .
  then have outcome: "isl y \<and> (\<exists>k v. meanwhile S k v = (y, w')) \<and> ?Q 0 w'"
    if "wait_for_workers L S 0 w1 = Some (y, w')" for y w'
    using that without_worker_awaits [OF ok rel files others] by metis
  have run: "JobRunner_start L S (master_args n) w = (case wait_for_workers L S 0 w1 of
      Some (Inl y, w') \<Rightarrow> Some (Inl y, w') | _ \<Rightarrow> None)"
    using outcome by (auto simp: master_starts c masterProcess_def assign_workers_def proc_simps a io_simps
        split: option.split sum.split)
  show ?thesis
  proof (cases "wait_for_workers L S 0 w1")
    case None
    then show ?thesis by (simp add: run)
  next
    case (Some v)
    obtain y w' where v: "v = (y, w')" by (cases v)
    with outcome Some obtain k v1 where y: "isl y" "meanwhile S k v1 = (y, w')" "?Q 0 w'" by blast
    then obtain z where z: "y = Inl z" by (cases y) simp_all
    from y(2) have "\<exists>k w. isl (fst (meanwhile S k w))" using y(1) by (metis fst_conv)
    moreover have "JobRunner_start L S (master_args n) w = Some (Inl z, w')" by (simp add: run Some v z)
    ultimately show ?thesis using y(2,3) z by (auto simp: awaits_def)
  qed
qed

definition one_worker_gone :: "nat \<Rightarrow> scheduler" where
  "one_worker_gone j = one_by_one\<lparr>meanwhile := undisturbed (\<lambda>_. worker_turns day_ext one_by_one 2 [j])\<rparr>"

lemma one_worker_gone_without:
  assumes "i \<in> {1..2}" and "j \<in> {1..2}" and "j \<noteq> i"
  shows "without_worker day_ext (one_worker_gone j) 2 i"
proof -
  let ?o = "boot_pool 2" and ?m = "Some masterCallback"
  let ?S = "one_worker_gone j" and ?fresh = "call_master (Some masterCallback) (started (boot_pool 2))"
  let ?p = "on_exit i ?fresh"
  have all: "set (live ?fresh) = {1..2}" "supervised ?fresh" by (auto simp: boot_pool_def call_master_def)
  have "pool_step ?o ?fresh (Ended i) ?p" using assms(1) all by (intro ended) simp_all
  from more [OF new this] have run: "pool_run ?o ?m [Ended i] ?p" by simp
  have "\<exists>q. system_run day_ext ?S 2 (?p, w) (q, snd (meanwhile ?S k w)) \<and> (isl (fst (meanwhile ?S k w)) \<longleftrightarrow> \<not> supervised q)"
    for k w
  proof -
    obtain e w' where s: "JobRunner_start day_ext ?S (worker_args 2 j) w = Some (e, w')"
      using worker_starts [of j day_ext ?S 2 w] assms(2) by (auto split: sum.splits prod.splits)
    have m: "meanwhile ?S k w = (Inr (), w')"
      using turns_cong [of ?S one_by_one "[j]" day_ext 2 w] assms(2) s by (simp add: one_worker_gone_def)
    have "supervised ?p" "j \<in> set (live ?p)" using assms all by (simp_all add: on_exit_def)
    then have "system_step day_ext ?S 2 (?p, w) (on_exit j ?p, w')" using s by (rule works)
    then show ?thesis
      using further [OF _ still] all(2) by (intro exI [of _ "on_exit j ?p"]) (simp add: m on_exit_def)
  qed
  with run show ?thesis unfolding without_worker_def by (metis list.set_intros(1))
qed

lemma ended_worker_blocks_the_master_witness:
  "\<exists>j. JobRunner_start day_ext (one_worker_gone j) (master_args 2) full_world = None"
proof -
  let ?r = "hd (transactions full_db)"
  let ?i = "processor_for day_ext 2 (tr_user_id ?r)"
  have i: "?i \<in> {1..2}" by (rule processor_for_range) simp
  obtain j :: nat where j: "j \<noteq> ?i" "j \<in> {1..2}"
  proof (cases "?i = 1")
    case True
    then show thesis by (intro that [of 2]) simp_all
  next
    case False
    then show thesis by (intro that [of 1]) simp_all
  qed
  let ?S = "one_worker_gone j"
  have r: "?r \<in> set (transactions (store full_world))" "tr_processed_at ?r = None"
    by (simp_all add: full_world_def full_db_def fulfillment_db_def sample_transaction_def sample_fulfillment_def
        TransactionForRebateCriteriaSerializer_serialize_def)
  have c: "connections ?S (calls full_world) = Inr ()" by (simp add: one_worker_gone_def one_by_one_def)
  have d: "ready day_ext {#} (store full_world)" by (simp only: full_world_def world.select_convs full_db_ready)
  have f: "reliable_files day_ext" using day_healthy by (simp add: healthy_def)
  have "\<forall>k w. \<not> isl (fst (meanwhile ?S k w))" by (simp add: one_worker_gone_def)
  moreover note ended_worker_blocks_the_master
    [OF day_ext_ok day_reliable f c d _ r one_worker_gone_without [OF i j(2,1)]]
  ultimately have "JobRunner_start day_ext ?S (master_args 2) full_world = None" by simp
  then show ?thesis by blast
qed

end
