(* ===== verification/Parallel.thy ===== *)
theory Parallel
  imports ProcessingRefinement Promises
begin

text \<open>
  The parallel mode of transaction processing (\<open>async\<close> of \<open>app/transaction_processing/index.ts\<close>), which the
  variable \<open>TRANSACTION_PROCESSING_ASYNC\<close> turns on: every pending transaction is a job of one \<open>Promise.all\<close>.
  A job stops here before each check of a qualifying transaction and before its settlement.  The code stops at
  every request inside them as well, so that it has more schedules than the model, and all of those of the model.
\<close>

section \<open>The jobs\<close>

definition settle_job :: "ext \<Rightarrow> qualifying_context \<Rightarrow> (world, unit) job" where
  "settle_job L c = await (io_try (settle L c) (\<lambda>_. io_return ())) (\<lambda>_. Settled (Inr ()))"

fun gates_job :: "ext \<Rightarrow> gate list \<Rightarrow> qualifying_context \<Rightarrow> (world, unit) job" where
  "gates_job L [] c = settle_job L c"
| "gates_job L (g # gs) c =
     await (pass_gate L g c) (\<lambda>r. case r of None \<Rightarrow> Settled (Inr ()) | Some c' \<Rightarrow> gates_job L gs c')"

definition processing_job :: "ext \<Rightarrow> ITransactionForRebateCriteria \<Rightarrow> (world, unit) job" where
  "processing_job L x =
     (if tx_transactionType x = Qualifying then gates_job L (gates L) (new_context x)
      else await (processTransaction L x) (\<lambda>_. Settled (Inr ())))"

definition process_parallel :: "ext \<Rightarrow> nat list \<Rightarrow> nat option \<Rightarrow> unit action" where
  "process_parallel L schedule workerNumber =
     io_bind (pending_for L workerNumber)
       (\<lambda>pending. io_then (promise_all schedule (map (processing_job L) pending)) (io_return ()))"

text \<open>\<open>perform\<close> in either mode.\<close>

definition perform_in_mode :: "ext \<Rightarrow> bool \<Rightarrow> nat list \<Rightarrow> nat option \<Rightarrow> unit action" where
  "perform_in_mode L async schedule workerNumber =
     io_then (request (kafka_connect L))
       (if async then process_parallel L schedule workerNumber else process_pending L workerNumber)"

lemma perform_sequential: "perform_in_mode L False schedule workerNumber = TransactionProcessing_perform L workerNumber"
  by (simp add: perform_in_mode_def TransactionProcessing_perform_def)

section \<open>A job alone is a transaction processed\<close>

lemma complete_await: "complete (await m k) w = (case m w of (Inl e, w') \<Rightarrow> (Inl e, w') | (Inr x, w') \<Rightarrow> complete (k x) w')"
  by (simp add: await_def complete_Await split: prod.split sum.split)

lemma complete_settle_job: "complete (settle_job L c) = io_try (settle L c) (\<lambda>_. io_return ())"
  by (simp add: fun_eq_iff settle_job_def complete_await io_simps split: prod.split sum.split)

lemma complete_gates_job:
  "complete (gates_job L gs c) =
     io_bind (pass_gates L gs c)
       (\<lambda>r. case r of None \<Rightarrow> io_return () | Some c \<Rightarrow> io_try (settle L c) (\<lambda>_. io_return ()))"
proof (induction gs arbitrary: c)
  case Nil
  show ?case by (simp add: complete_settle_job io_bind_apply fun_eq_iff)
next
  case (Cons g gs)
  show ?case
    by (auto simp: fun_eq_iff complete_await Cons.IH io_bind_apply split: prod.split sum.split option.split)
qed

lemma complete_processing_job: "complete (processing_job L x) = processTransaction L x"
proof (cases "tx_transactionType x = Qualifying")
  case True
  have s: "findStrategyFor L x = io_return \<lparr>strategy_matches = QualifyingStrategy_matches, strategy_perform = QualifyingStrategy_perform L\<rparr>"
    using True by (simp add: findStrategyFor_def STRATEGIES_def QualifyingStrategy_matches_def)
  have "result_of (QualifyingStrategy_perform L x) w = Inr ()" for w
    using qualifying_returns [of L x w] by simp
  then have "processTransaction L x = QualifyingStrategy_perform L x"
    by (auto simp: fun_eq_iff processTransaction_def s io_simps split: prod.split sum.split)
      (metis fst_conv sum.distinct(1))+
  with True show ?thesis
    by (simp add: processing_job_def complete_gates_job QualifyingStrategy_perform_def)
next
  case False
  have "result_of (processTransaction L x) w = Inr ()" for w
    using processTransaction_returns [of L x] by (simp add: never_raises_def)
  then have "\<exists>w'. processTransaction L x w = (Inr (), w')" for w by (metis prod.collapse)
  then have "complete (processing_job L x) w = processTransaction L x w" for w
    using False by (metis (no_types, lifting) processing_job_def complete_await complete.simps(1) old.prod.case sum.case(2))
  then show ?thesis by (simp add: fun_eq_iff)
qed

section \<open>Schedules\<close>

lemma run_schedule_append:
  "run_schedule (is @ is') e js w =
     (case run_schedule is e js w of (e', js', w') \<Rightarrow> run_schedule is' e' js' w')"
  by (induction "is" arbitrary: e js w) (auto split: prod.split)

lemma rejection_await: "rejection None (await m k) = None"
  by (simp add: await_def)

lemma rejection_gates: "rejection None (gates_job L gs c) = None"
  by (cases gs) (simp_all add: rejection_await settle_job_def)

lemma run_gates:
  assumes "i < length js" and "js ! i = gates_job L gs c" and "pass_gates L gs c w = (Inr (Some c'), w')"
  shows "run_schedule (replicate (length gs) i) None js w = (None, js[i := settle_job L c'], w')"
  using assms
proof (induction gs arbitrary: c w js)
  case Nil
  then show ?case using list_update_id [of js i] by (auto simp: io_simps)
next
  case (Cons g gs)
  from Cons.prems(3) obtain c1 w1 where 1: "pass_gate L g c w = (Inr (Some c1), w1)"
    and rest: "pass_gates L gs c1 w1 = (Inr (Some c'), w')"
    by (auto simp: io_bind_apply io_simps split: prod.splits sum.splits option.splits)
  from Cons.IH [of "js[i := gates_job L gs c1]" c1 w1] Cons.prems(1) rest have
    "run_schedule (replicate (length gs) i) None (js[i := gates_job L gs c1]) w1 = (None, js[i := settle_job L c'], w')"
    by simp
  with Cons.prems(1,2) 1 show ?case by (simp add: await_def rejection_gates)
qed

lemma run_settle:
  assumes "i < length js" and "js ! i = settle_job L c"
  shows "run_schedule [i] None js w = (None, js[i := Settled (Inr ())], state_of (io_try (settle L c) (\<lambda>_. io_return ())) w)"
proof -
  obtain r w' where r: "io_try (settle L c) (\<lambda>_. io_return ()) w = (r, w')" by (cases "io_try (settle L c) (\<lambda>_. io_return ()) w")
  moreover from r have "\<exists>u. r = Inr u" by (auto simp: io_try_apply io_simps split: prod.splits sum.splits)
  ultimately show ?thesis using assms by (auto simp: settle_job_def await_def)
qed

section \<open>Two transactions at once\<close>

lemma issue_gates:
  assumes "ext_ok L" and "reliable L" and "db_ok (store w)" and "qualifying_verdict L (store w) x = Issue a rt"
  obtains c w1 where "pass_gates L (gates L) (new_context x) w = (Inr (Some c), w1)" and "store w1 = store w"
    and "cx_transaction c = x" and "settled L (store w) x (Passed c) = Issue a rt"
proof -
  obtain r w1 where run: "pass_gates L (gates L) (new_context x) w = (Inr r, w1)"
    and meets: "meets L (r, w1) (run_specs (specs L) (store w) (new_context x)) w (new_context x)"
    using pass_gates_spec [OF gates_correspond [OF assms(1,2)] assms(3)] by blast
  have v: "settled L (store w) x (run_specs (specs L) (store w) (new_context x)) = Issue a rt"
    using assms(4) by (simp add: verdict_specs)
  show thesis
  proof (cases "run_specs (specs L) (store w) (new_context x)")
    case (Passed c)
    with meets have r: "r = Some c" "store w1 = store w" by (simp_all add: meets_def)
    with run v Passed gates_passed [of L x w c w1] show thesis by (metis that)
  qed (use v in \<open>simp_all add: settled_def\<close>)
qed

lemma settle_issues:
  assumes "ext_ok L" and "reliable L" and "tx_id x \<noteq> None" and "cx_transaction c = x"
    and "settled L d x (Passed c) = Issue a rt"
  shows "\<exists>x' t1 t2 k. tx_rebateCriteriaId x' = tx_rebateCriteriaId x \<and> tx_userId x' = tx_userId x \<and> tx_card x' = tx_card x \<and>
    mset (rebates (store (state_of (io_try (settle L c) (\<lambda>_. io_return ())) w))) =
      add_mset (issued_row L x' a rt t1 t2 k) (mset (rebates (store w))) \<and>
    rebate_criteria (store (state_of (io_try (settle L c) (\<lambda>_. io_return ())) w)) = rebate_criteria (store w)"
proof -
  let ?w' = "state_of (settle L c) w"
  have s: "state_of (io_try (settle L c) (\<lambda>_. io_return ())) w = ?w'"
    by (simp add: io_try_apply io_simps split: prod.split sum.split)
  from settle_settled [OF assms(1-4), of d w] assms(5) obtain t t1 t2 k d1 where
    m: "marked L RebateCreated t x (store w) d1"
    and r: "mset (rebates (store ?w')) = add_mset (issued_row L (x\<lparr>tx_processedAt := Some t, tx_status := RebateCreated\<rparr>) a rt t1 t2 k)
      (mset (rebates (store w)))"
    and d': "store ?w' = d1\<lparr>rebates := rebates (store ?w')\<rparr>"
    by (auto simp: prescribes_def)
  have "d1 = (store w)\<lparr>transactions := transactions d1\<rparr>" using m by (simp add: marked_def)
  then have "rebate_criteria d1 = rebate_criteria (store w)" by (rule ssubst) simp
  moreover have "rebate_criteria (store ?w') = rebate_criteria d1" by (subst d') simp
  ultimately show ?thesis
    unfolding s using r by (intro exI [of _ "x\<lparr>tx_processedAt := Some t, tx_status := RebateCreated\<rparr>"]) auto
qed

lemma over_limit:
  assumes "cr \<in> set (rebate_criteria d)" and "0 < cr_redemption_limit cr"
    and "cr_redemption_limit cr < int (length (filter (counts_towards cr user onCard) (rebates d)))"
  shows "\<not> within_limits d"
  using assms unfolding within_limits_def by (meson not_less)

lemma parallel_exceeds:
  assumes ok: "ext_ok L" and rel: "reliable L" and db: "db_ok (store w)"
    and ids: "tx_id x \<noteq> None" "tx_id y \<noteq> None"
    and types: "tx_transactionType x = Qualifying" "tx_transactionType y = Qualifying"
    and v: "qualifying_verdict L (store w) x = Issue a rt" "qualifying_verdict L (store w) y = Issue b rt'"
    and same: "tx_rebateCriteriaId y = tx_rebateCriteriaId x" "tx_userId y = tx_userId x" "tx_card y = tx_card x"
    and cr: "cr \<in> set (rebate_criteria (store w))" "cr_id cr = tx_rebateCriteriaId x"
    and last: "cr_redemption_limit cr = 1 + int (length (filter (counts_towards cr (tx_userId x) (tx_card x)) (rebates (store w))))"
  shows "\<exists>schedule w'. promise_all schedule [processing_job L x, processing_job L y] w = (Inr [(), ()], w') \<and>
    \<not> within_limits (store w')"
proof -
  let ?k = "length (gates L)"
  let ?schedule = "replicate ?k 0 @ replicate ?k (Suc 0) @ [0, Suc 0]"
  obtain c w1 where c: "pass_gates L (gates L) (new_context x) w = (Inr (Some c), w1)" "store w1 = store w"
    "cx_transaction c = x" "settled L (store w) x (Passed c) = Issue a rt"
    by (rule issue_gates [OF ok rel db v(1)])
  have "db_ok (store w1)" "qualifying_verdict L (store w1) y = Issue b rt'" using db v(2) c(2) by simp_all
  then obtain e w2 where e: "pass_gates L (gates L) (new_context y) w1 = (Inr (Some e), w2)" "store w2 = store w1"
    "cx_transaction e = y" "settled L (store w1) y (Passed e) = Issue b rt'"
    by (rule issue_gates [OF ok rel])
  let ?w3 = "state_of (io_try (settle L c) (\<lambda>_. io_return ())) w2"
  let ?w4 = "state_of (io_try (settle L e) (\<lambda>_. io_return ())) ?w3"
  have jobs: "[processing_job L x, processing_job L y] = [gates_job L (gates L) (new_context x), gates_job L (gates L) (new_context y)]"
    using types by (simp add: processing_job_def)
  have 1: "run_schedule (replicate ?k 0) None [gates_job L (gates L) (new_context x), gates_job L (gates L) (new_context y)] w =
      (None, [settle_job L c, gates_job L (gates L) (new_context y)], w1)"
    using run_gates [OF _ _ c(1), of 0 "[gates_job L (gates L) (new_context x), gates_job L (gates L) (new_context y)]"] by simp
  have 2: "run_schedule (replicate ?k (Suc 0)) None [settle_job L c, gates_job L (gates L) (new_context y)] w1 =
      (None, [settle_job L c, settle_job L e], w2)"
    using run_gates [OF _ _ e(1), of "Suc 0" "[settle_job L c, gates_job L (gates L) (new_context y)]"] by simp
  have 3: "run_schedule [0] None [settle_job L c, settle_job L e] w2 = (None, [Settled (Inr ()), settle_job L e], ?w3)"
    by (subst run_settle [where c = c]) simp_all
  have 4: "run_schedule [Suc 0] None [Settled (Inr ()), settle_job L e] ?w3 = (None, [Settled (Inr ()), Settled (Inr ())], ?w4)"
    by (subst run_settle [where c = e]) simp_all
  have "[0, Suc 0] = [0] @ [Suc 0]" by simp
  then have "run_schedule ?schedule None [processing_job L x, processing_job L y] w = (None, [Settled (Inr ()), Settled (Inr ())], ?w4)"
    unfolding jobs by (simp only: run_schedule_append 1 2 3 4 prod.case)
  then have run: "promise_all ?schedule [processing_job L x, processing_job L y] w = (Inr [(), ()], ?w4)"
    by (simp add: promise_all_def io_simps)
  obtain x' t1 t2 k where x': "tx_rebateCriteriaId x' = tx_rebateCriteriaId x" "tx_userId x' = tx_userId x" "tx_card x' = tx_card x"
    "mset (rebates (store ?w3)) = add_mset (issued_row L x' a rt t1 t2 k) (mset (rebates (store w2)))"
    "rebate_criteria (store ?w3) = rebate_criteria (store w2)"
    using settle_issues [OF ok rel ids(1) c(3,4), of w2] by blast
  obtain y' t1' t2' k' where y': "tx_rebateCriteriaId y' = tx_rebateCriteriaId y" "tx_userId y' = tx_userId y" "tx_card y' = tx_card y"
    "mset (rebates (store ?w4)) = add_mset (issued_row L y' b rt' t1' t2' k') (mset (rebates (store ?w3)))"
    "rebate_criteria (store ?w4) = rebate_criteria (store ?w3)"
    using settle_issues [OF ok rel ids(2) e(3,4), of ?w3] by blast
  let ?p = "counts_towards cr (tx_userId x) (tx_card x)"
  have "mset (rebates (store ?w4)) =
      add_mset (issued_row L y' b rt' t1' t2' k') (add_mset (issued_row L x' a rt t1 t2 k) (mset (rebates (store w))))"
    using x'(4) y'(4) e(2) c(2) by simp
  then have "size (filter_mset ?p (mset (rebates (store ?w4)))) = 2 + size (filter_mset ?p (mset (rebates (store w))))"
    using x' y' same cr(2) by (simp add: counts_towards_def)
  then have "length (filter ?p (rebates (store ?w4))) = 2 + length (filter ?p (rebates (store w)))"
    by (simp flip: size_mset mset_filter)
  moreover have "cr \<in> set (rebate_criteria (store ?w4))" using cr(1) x'(5) y'(5) e(2) c(2) by simp
  moreover have "0 < cr_redemption_limit cr" using last by simp
  ultimately have "\<not> within_limits (store ?w4)" using last by (intro over_limit [where cr = cr and user = "tx_userId x" and onCard = "tx_card x"]) simp_all
  with run show ?thesis by blast
qed

text \<open>
  C8.  The parallel mode breaks the limits that the sequential one keeps.  When one more rebate is left of the limit
  of an offer, and two pending transactions of a client would each earn it, then the answers of the database may
  come in an order in which both pass the checks before either rebate is stored, so that the run ends without an
  error, and beyond the limit.
\<close>

theorem parallel_mode_exceeds_limits:
  assumes "ext_ok L" and "reliable L" and "db_ok (store w)" and "kafka_connect L (calls w) = Inr ()"
    and "result_of (pending_for L worker) (tick w) = Inr [x, y]"
    and "tx_id x \<noteq> None" and "tx_id y \<noteq> None"
    and "tx_transactionType x = Qualifying" and "tx_transactionType y = Qualifying"
    and "qualifying_verdict L (store w) x = Issue a rt" and "qualifying_verdict L (store w) y = Issue b rt'"
    and "tx_rebateCriteriaId y = tx_rebateCriteriaId x" and "tx_userId y = tx_userId x" and "tx_card y = tx_card x"
    and "cr \<in> set (rebate_criteria (store w))" and "cr_id cr = tx_rebateCriteriaId x"
    and "cr_redemption_limit cr = 1 + int (length (filter (counts_towards cr (tx_userId x) (tx_card x)) (rebates (store w))))"
  shows "\<exists>schedule w'. perform_in_mode L True schedule worker w = (Inr (), w') \<and> \<not> within_limits (store w')"
proof -
  obtain w1 where p: "pending_for L worker (tick w) = (Inr [x, y], w1)" using assms(5) by (metis prod.collapse)
  then have s: "store w1 = store w" using framesD [OF frames_pending, of L worker "tick w"] by simp
  have "db_ok (store w1)" "qualifying_verdict L (store w1) x = Issue a rt" "qualifying_verdict L (store w1) y = Issue b rt'"
    "cr \<in> set (rebate_criteria (store w1))"
    "cr_redemption_limit cr = 1 + int (length (filter (counts_towards cr (tx_userId x) (tx_card x)) (rebates (store w1))))"
    unfolding s using assms by simp_all
  from parallel_exceeds [OF assms(1,2) this(1) assms(6-9) this(2,3) assms(12-14) this(4) assms(16) this(5)]
  obtain schedule w' where "promise_all schedule [processing_job L x, processing_job L y] w1 = (Inr [(), ()], w')"
    "\<not> within_limits (store w')" by blast
  moreover from this(1) have "perform_in_mode L True schedule worker w = (Inr (), w')"
    using assms(4) p by (simp add: perform_in_mode_def process_parallel_def io_simps)
  ultimately show ?thesis by blast
qed

definition second_transaction :: ITransactionForRebateCriteria where
  "second_transaction = sample_transaction\<lparr>tx_id := Some 2, tx_transactionId := ''t2''\<rparr>"

definition two_db :: db where
  "two_db = sample_db\<lparr>transactions := [TransactionForRebateCriteriaSerializer_serialize sample_transaction,
     TransactionForRebateCriteriaSerializer_serialize second_transaction]\<rparr>"

definition two_world :: world where
  "two_world = \<lparr>calls = 0, store = two_db\<rparr>"

lemma two_rows:
  "transaction_of ref_ext (TransactionForRebateCriteriaSerializer_serialize sample_transaction) = sample_transaction"
  "transaction_of ref_ext (TransactionForRebateCriteriaSerializer_serialize second_transaction) = second_transaction"
  by (simp_all add: transaction_of_def TransactionForRebateCriteriaSerializer_serialize_def
      TransactionForRebateCriteriaSerializer_deserialize_def second_transaction_def sample_transaction_def)

lemma two_verdicts:
  assumes "x = sample_transaction \<or> x = second_transaction"
  shows "qualifying_verdict ref_ext two_db x = Issue 5 Dollars"
proof -
  have c: "criteria_in ref_ext two_db ''100'' = Some sample_criteria"
    by (simp add: criteria_in_def two_db_def sample_db_def sample_criteria_def RebateCriteriaSerializer_serialize_def
        RebateCriteriaSerializer_deserialize_def)
  have u: "user_in ref_ext two_db ''user1'' = Some sample_user"
    by (simp add: user_in_def two_db_def sample_db_def sample_user_def UserSerializer_serialize_def UserSerializer_deserialize_def)
  have n: "decimal_prefix ''-5'' = Some (- 5, [])" by code_simp
  obtain calc where r: "RebateCalculation_result ref_ext x sample_calculation = Inr calc" "calc_amount calc = 5"
    using n by (simp add: RebateCalculation_result_def sample_calculation_def ref_ext_def)
  have "reward_unit sample_calculation = Dollars" by (simp add: sample_calculation_def)
  moreover have "rebates two_db = []" by (simp add: two_db_def sample_db_def empty_db_def)
  moreover have "range_contains ref_ext 0 8640000000 86400000" by (simp add: ref_ext_def)
  ultimately show ?thesis
    using assms c u r
    by (auto simp: qualifying_verdict_def product_verdict_def sample_transaction_def second_transaction_def sample_criteria_def
        sample_user_def sample_product_def products_for_def isWithinRedemptionPeriod_def targeted_def linked_def
        limit_reached_def transaction_rewarded_def owner_may_redeem_def in_opt_in_file_def)
qed

lemma two_db_ok: "db_ok two_db"
  by (simp add: db_ok_def two_db_def sample_db_def empty_db_def sample_transaction_def second_transaction_def
      TransactionForRebateCriteriaSerializer_serialize_def)

lemma parallel_mode_exceeds_limits_witness:
  "within_limits two_db \<and> (\<exists>schedule w'. perform_in_mode ref_ext True schedule None two_world = (Inr (), w') \<and> \<not> within_limits (store w'))"
proof -
  let ?cr = "RebateCriteriaSerializer_serialize sample_criteria"
  have s: "store two_world = two_db" by (simp add: two_world_def)
  obtain rs where p: "pending_for ref_ext None (tick two_world) = (Inr (map (transaction_of ref_ext) rs), tick (tick two_world))"
    and m: "mset rs = mset (filter (pending_row None) (transactions two_db))"
    using pending_for_reliable [OF ref_ext_ok ref_reliable, of None "tick two_world"] s by auto
  have "filter (pending_row None) (transactions two_db) = [TransactionForRebateCriteriaSerializer_serialize sample_transaction,
      TransactionForRebateCriteriaSerializer_serialize second_transaction]"
    by (simp add: two_db_def pending_row_def TransactionForRebateCriteriaSerializer_serialize_def sample_transaction_def
        second_transaction_def)
  with m have "mset (map (transaction_of ref_ext) rs) = {#sample_transaction, second_transaction#}" by (simp add: two_rows)
  moreover have "length rs = 2" using mset_eq_length [OF m] \<open>filter _ _ = _\<close> by simp
  ultimately obtain x y where xy: "map (transaction_of ref_ext) rs = [x, y]" "{#x, y#} = {#sample_transaction, second_transaction#}"
    by (auto simp: length_Suc_conv numeral_2_eq_2)
  then have x: "x = sample_transaction \<or> x = second_transaction" and y: "y = sample_transaction \<or> y = second_transaction"
    by (auto simp: add_eq_conv_ex)
  have fields: "tx_id z \<noteq> None" "tx_transactionType z = Qualifying" "tx_rebateCriteriaId z = ''100''" "tx_userId z = ''user1''"
    "tx_card z = ''4510''" if "z = sample_transaction \<or> z = second_transaction" for z
    using that by (auto simp: sample_transaction_def second_transaction_def)
  have cr: "?cr \<in> set (rebate_criteria two_db)" "cr_id ?cr = ''100''" "cr_redemption_limit ?cr = 1" "rebates two_db = []"
    by (simp_all add: two_db_def sample_db_def empty_db_def RebateCriteriaSerializer_serialize_def sample_criteria_def)
  have limits: "within_limits two_db"
    by (simp add: within_limits_def cr(4))
  have ids: "tx_rebateCriteriaId y = tx_rebateCriteriaId x" "tx_userId y = tx_userId x" "tx_card y = tx_card x"
    "cr_id ?cr = tx_rebateCriteriaId x"
    using fields [OF x] fields [OF y] cr(2) by simp_all
  have r: "result_of (pending_for ref_ext None) (tick two_world) = Inr [x, y]" using p xy(1) by simp
  have "\<exists>schedule w'. perform_in_mode ref_ext True schedule None two_world = (Inr (), w') \<and> \<not> within_limits (store w')"
    by (rule parallel_mode_exceeds_limits [OF ref_ext_ok ref_reliable _ ref_kafka r fields(1) [OF x] fields(1) [OF y]
          fields(2) [OF x] fields(2) [OF y] _ _ ids(1-3) _ ids(4)])
      (simp_all add: s two_db_ok two_verdicts [OF x] two_verdicts [OF y] cr)
  with limits show ?thesis by blast
qed

end
