(* ===== verification/KafkaClients.thy ===== *)
theory KafkaClients
  imports Configuration
begin

text \<open>
  The program's own clients of Kafka: the producer, the publisher and the notifications of \<open>lib/kafka\<close>, the
  event of a rebate that goes through them (\<open>app/kafka/rebate_event.ts\<close>), and the process that listens to
  topics (\<open>app/kafka/topic_listener.ts\<close>).  What the broker does is a parameter.
\<close>

section \<open>The producer\<close>

datatype kafka_event =
    Ready
  | ErrorEvent exn
  | InfoEvent string
  | EventError exn
  | EventLog string
  | DeliveryReport "exn option"
  | Disconnected                          \<comment> \<open>nothing listens to it\<close>

text \<open>A promise is settled once: later calls of \<open>resolve\<close> and \<open>reject\<close> have no effect.\<close>

datatype 'a promise = Waiting | Fulfilled 'a | Broken exn

definition settle_promise :: "'a promise \<Rightarrow> 'a promise \<Rightarrow> 'a promise" where
  "settle_promise p q = (case p of Waiting \<Rightarrow> q | _ \<Rightarrow> p)"

fun on_event :: "nat \<Rightarrow> kafka_event \<Rightarrow> nat promise \<Rightarrow> nat promise" where
  "on_event producer Ready p = settle_promise p (Fulfilled producer)"
| "on_event producer (ErrorEvent err) p = settle_promise p (Broken err)"
| "on_event producer (InfoEvent event) p = p"
| "on_event producer (EventError err) p = settle_promise p (Broken err)"
| "on_event producer (EventLog entry) p = p"
| "on_event producer Disconnected p = p"
| "on_event producer (DeliveryReport err) p = (case err of None \<Rightarrow> p | Some e \<Rightarrow> settle_promise p (Broken e))"

definition buildPublisher :: "nat \<Rightarrow> kafka_event list \<Rightarrow> nat promise" where
  "buildPublisher producer events = fold (on_event producer) events Waiting"

text \<open>
  The library tells a producer \<open>ready\<close> when its connection is made and \<open>disconnected\<close> when it has lost it.  A
  producer that is told neither, or only an error, has no connection.
\<close>

fun connection_after :: "kafka_event \<Rightarrow> bool \<Rightarrow> bool" where
  "connection_after Ready b \<longleftrightarrow> True"
| "connection_after Disconnected b \<longleftrightarrow> False"
| "connection_after _ b \<longleftrightarrow> b"

definition has_connection :: "kafka_event list \<Rightarrow> bool" where
  "has_connection events \<longleftrightarrow> fold connection_after events False"

text \<open>The configuration that the producer is made with is the one of a consumer.\<close>

definition producer_configuration ::
  "(variables \<Rightarrow> bool) \<Rightarrow> variables \<Rightarrow> string \<Rightarrow> kafka_settings \<Rightarrow> consumer_config" where
  "producer_configuration hasKafkaSSLEnabled variables directory options =
     getDefaultConsumerConfigWithSSL hasKafkaSSLEnabled variables directory options None"

text \<open>An error is logged, and the publisher is \<open>undefined\<close>.\<close>

definition initPublisher :: "nat \<Rightarrow> kafka_event list \<Rightarrow> nat option option" where
  "initPublisher producer events =
     (case buildPublisher producer events of
        Waiting \<Rightarrow> None | Fulfilled publisher \<Rightarrow> Some (Some publisher) | Broken e \<Rightarrow> Some None)"

section \<open>The publisher\<close>

record broker =
  events_of :: "nat \<Rightarrow> kafka_event list"          \<comment> \<open>what the producer of this number is told\<close>
  produce :: "nat \<Rightarrow> exn + bool"
  getLastError :: "nat \<Rightarrow> exn"
  flush :: "nat \<Rightarrow> exn + unit"
  disconnect :: "nat \<Rightarrow> exn + unit"

record 'm record_message = mg_key :: string  mg_value :: 'm

definition publish :: "broker \<Rightarrow> nat \<Rightarrow> exn + exn option" where
  "publish B publisher =
     (case produce B publisher of
        Inl e \<Rightarrow> Inl e | Inr b \<Rightarrow> Inr (if b then None else Some (getLastError B publisher)))"

text \<open>
  When the disconnection fails the promise is rejected with the error of the flush, which there is none of:
  \<open>None\<close> stands for it.
\<close>

definition Publisher_disconnect :: "broker \<Rightarrow> nat \<Rightarrow> exn option + unit" where
  "Publisher_disconnect B publisher =
     (case flush B publisher of
        Inl err \<Rightarrow> Inl (Some err)
      | Inr _ \<Rightarrow> (case disconnect B publisher of Inl e \<Rightarrow> Inl None | Inr _ \<Rightarrow> Inr ()))"

section \<open>Notifications\<close>

record 'm clients =
  created :: nat                         \<comment> \<open>how many producers have been made\<close>
  connected :: "nat list"                \<comment> \<open>those of them that have a connection\<close>
  publisher :: "nat option"              \<comment> \<open>the static field\<close>
  sent :: "(string \<times> 'm record_message) list"

definition no_clients :: "'m clients" where
  "no_clients = \<lparr>created = 0, connected = [], publisher = None, sent = []\<rparr>"

datatype publish_result = Successful | Unsuccessful exn

definition createResult :: "exn option \<Rightarrow> publish_result" where
  "createResult err = (case err of Some e \<Rightarrow> Unsuccessful e | None \<Rightarrow> Successful)"

text \<open>
  A notification makes a producer of its own, which connects or not.  It returns nothing when the producer has failed, for there
  is no publisher to call then; it never returns when the producer is told nothing.
\<close>

definition EventNotification_dispatch ::
  "broker \<Rightarrow> string \<Rightarrow> 'm record_message \<Rightarrow> 'm clients \<Rightarrow> (publish_result option \<times> 'm clients) option" where
  "EventNotification_dispatch B topic message c =
     (let n = created c; c1 = c\<lparr>created := Suc n, connected := connected c @ (if has_connection (events_of B n) then [n] else [])\<rparr>
      in case initPublisher n (events_of B n) of
           None \<Rightarrow> None
         | Some None \<Rightarrow> Some (None, c1\<lparr>publisher := None\<rparr>)
         | Some (Some p) \<Rightarrow>
             (let c2 = c1\<lparr>publisher := Some p\<rparr>
              in case publish B p of
                   Inl e \<Rightarrow> Some (None, c2)
                 | Inr None \<Rightarrow> Some (Some (createResult None), c2\<lparr>sent := sent c @ [(topic, message)]\<rparr>)
                 | Inr (Some e) \<Rightarrow> Some (Some (createResult (Some e)), c2)))"

definition EventNotification_disconnect :: "broker \<Rightarrow> 'm clients \<Rightarrow> 'm clients" where
  "EventNotification_disconnect B c =
     (case publisher c of
        None \<Rightarrow> c
      | Some p \<Rightarrow>
          (case Publisher_disconnect B p of
             Inl _ \<Rightarrow> c | Inr _ \<Rightarrow> c\<lparr>connected := removeAll p (connected c)\<rparr>))"

text \<open>Notifications one after the other.\<close>

fun notify_all :: "broker \<Rightarrow> (string \<times> 'm record_message) list \<Rightarrow> 'm clients \<Rightarrow> 'm clients option" where
  "notify_all B [] c = Some c"
| "notify_all B ((topic, message) # ms) c =
     (case EventNotification_dispatch B topic message c of None \<Rightarrow> None | Some (_, c') \<Rightarrow> notify_all B ms c')"

section \<open>The event of a rebate\<close>

definition RebateEvent_payload :: "IRebate \<Rightarrow> IRebatePayload" where
  "RebateEvent_payload rebate =
     \<lparr>pl_id = rb_id rebate, pl_userId = rb_userId rebate, pl_accountId = rb_accountId rebate,
      pl_offerId = rb_rebateCriteriaId rebate, pl_amount = rb_amount rebate, pl_rewardType = rb_rewardType rebate,
      pl_fulfilledAt = rb_fulfilledDate rebate, pl_issuedAt = rb_issuedAt rebate,
      pl_qualifiedTransactionId = rb_accountTransactionId rebate,
      pl_fulfilledTransactionId = rb_fulfilledTransactionId rebate, pl_status = rb_status rebate,
      pl_qualifyingTransaction = rb_qualifyingTransaction rebate,
      pl_fulfillmentTransaction = rb_fulfillmentTransaction rebate\<rparr>"

text \<open>
  The method does not wait for the notification, whose errors are logged: it raises only when the rebate is not
  found.  The clients are those after the notification, \<open>None\<close> when it never ends.
\<close>

definition RebateEvent_dispatch ::
  "ext \<Rightarrow> broker \<Rightarrow> (IRebatePayload \<Rightarrow> exn + 'm) \<Rightarrow> string \<Rightarrow> string \<Rightarrow> world \<Rightarrow> 'm clients \<Rightarrow>
    (exn + unit) \<times> world \<times> 'm clients option" where
  "RebateEvent_dispatch L B serialize topic rebateId w c =
     (case findOrFail RebateRepository L rebateId w of
        (Inl e, w') \<Rightarrow> (Inl e, w', Some c)
      | (Inr rebate, w') \<Rightarrow>
          (let payload = RebateEvent_payload rebate
           in case serialize payload of
                Inl e \<Rightarrow> (Inr (), w', Some c)
              | Inr m \<Rightarrow> (Inr (), w',
                  map_option snd (EventNotification_dispatch B topic \<lparr>mg_key = pl_id payload, mg_value = m\<rparr> c))))"

text \<open>The static method logs that error, if it has a logger.\<close>

definition RebateEvent_static_dispatch ::
  "ext \<Rightarrow> broker \<Rightarrow> (IRebatePayload \<Rightarrow> exn + 'm) \<Rightarrow> string \<Rightarrow> string \<Rightarrow> world \<Rightarrow> 'm clients \<Rightarrow>
    (exn + unit) \<times> world \<times> 'm clients option" where
  "RebateEvent_static_dispatch L B serialize topic rebateId w c =
     (case RebateEvent_dispatch L B serialize topic rebateId w c of (_, w', c') \<Rightarrow> (Inr (), w', c'))"

text \<open>The payload is the one of the producer the program uses.\<close>

lemma RebateEvent_payload_same: "RebateEvent_payload = buildRebateEvent"
  by (simp add: fun_eq_iff RebateEvent_payload_def buildRebateEvent_def)

section \<open>The listener\<close>

text \<open>One topic of \<open>topics.forEach\<close>; an error is that of a promise nothing waits for.\<close>

definition listen_to :: "topics \<Rightarrow> string \<Rightarrow> exn + consumer" where
  "listen_to T topic = with_value (new_Consumer T topic) (\<lambda>consumer.
     with_value (Consumer_start consumer) (\<lambda>_. Inr consumer))"

record listener =
  ls_consumers :: "consumer list"
  ls_unhandled :: "exn list"

definition listener_start :: "topics \<Rightarrow> string list \<Rightarrow> listener" where
  "listener_start T ts =
     fold (\<lambda>topic l. case listen_to T topic of
         Inl e \<Rightarrow> l\<lparr>ls_unhandled := ls_unhandled l @ [e]\<rparr>
       | Inr consumer \<Rightarrow> l\<lparr>ls_consumers := ls_consumers l @ [consumer]\<rparr>)
       ts \<lparr>ls_consumers = [], ls_unhandled = []\<rparr>"

text \<open>On \<open>SIGTERM\<close>: the process ends with 1 when every consumer has stopped.\<close>

fun listener_stop :: "(consumer \<Rightarrow> exn + unit) \<Rightarrow> consumer list \<Rightarrow> exn + ending" where
  "listener_stop stop [] = Inr (Exit 1)"
| "listener_stop stop (c # cs) = with_value (stop c) (\<lambda>_. listener_stop stop cs)"

section \<open>What decides a promise\<close>

definition settling :: "nat \<Rightarrow> kafka_event \<Rightarrow> nat promise option" where
  "settling producer event =
     (case event of
        Ready \<Rightarrow> Some (Fulfilled producer)
      | ErrorEvent e \<Rightarrow> Some (Broken e)
      | EventError e \<Rightarrow> Some (Broken e)
      | DeliveryReport (Some e) \<Rightarrow> Some (Broken e)
      | _ \<Rightarrow> None)"

lemma on_event_settling: "on_event n event p = (case settling n event of None \<Rightarrow> p | Some q \<Rightarrow> settle_promise p q)"
  by (cases event) (simp_all add: settling_def split: option.split)

text \<open>The first event that can settle it does: an error after \<open>Ready\<close>, of a delivery also, changes nothing.\<close>

lemma first_event_decides:
  "buildPublisher n events =
     (case List.find (\<lambda>e. settling n e \<noteq> None) events of None \<Rightarrow> Waiting | Some e \<Rightarrow> the (settling n e))"
proof -
  have "fold (on_event n) events p = p" if "p \<noteq> Waiting" for events p
    using that by (induction events arbitrary: p) (auto simp: on_event_settling settle_promise_def split: option.split promise.split)
  moreover have "q \<noteq> Waiting" if "settling n e = Some q" for e q
    using that by (auto simp: settling_def split: kafka_event.splits option.splits)
  ultimately show ?thesis
    unfolding buildPublisher_def
    by (induction events) (auto simp: on_event_settling settle_promise_def split: option.split)
qed

lemma initPublisher_own:
  assumes "initPublisher n events = Some (Some p)"
  shows "p = n"
proof -
  have "q \<in> {Waiting, Fulfilled n} \<union> range Broken \<Longrightarrow>
      fold (on_event n) events q \<in> {Waiting, Fulfilled n} \<union> range Broken" for q
  proof (induction events arbitrary: q)
    case (Cons e events)
    from Cons.prems have "on_event n e q \<in> {Waiting, Fulfilled n} \<union> range Broken"
      by (cases e) (auto simp: settle_promise_def split: option.split)
    then show ?case using Cons.IH by simp
  qed simp
  from this [of Waiting] assms show ?thesis by (auto simp: initPublisher_def buildPublisher_def split: promise.splits)
qed

section \<open>Connections that stay open\<close>

lemma notify_state:
  assumes "notify_all B ms c = Some c'"
  shows "created c' = created c + length ms \<and> 
    connected c' = connected c @ filter (\<lambda>n. has_connection (events_of B n)) [created c..<created c + length ms] \<and>
    (ms \<noteq> [] \<longrightarrow> (\<exists>x. initPublisher (created c' - 1) (events_of B (created c' - 1)) = Some x \<and> publisher c' = x)) \<and>
    (ms = [] \<longrightarrow> c' = c)"
  using assms
proof (induction ms arbitrary: c)
  case Nil
  then show ?case by simp
next
  case (Cons m ms)
  obtain topic message where m: "m = (topic, message)" by (cases m)
  from Cons.prems obtain r c1 where d: "EventNotification_dispatch B topic message c = Some (r, c1)"
    and rest: "notify_all B ms c1 = Some c'" by (auto simp: m split: option.splits)
  from d obtain x where x: "initPublisher (created c) (events_of B (created c)) = Some x"
    and c1: "created c1 = Suc (created c)" "publisher c1 = x"
      "connected c1 = connected c @ (if has_connection (events_of B (created c)) then [created c] else [])"
    by (auto simp: EventNotification_dispatch_def Let_def split: option.splits sum.splits)
  have "[created c..<created c + length (m # ms)] = created c # [created c1..<created c1 + length ms]"
    using c1(1) upt_conv_Cons [of "created c" "created c + length (m # ms)"] by (simp del: upt_Suc)
  with Cons.IH [OF rest] c1 x show ?case by (cases "ms = []") (auto simp del: upt_Suc)
qed

text \<open>
  C40.  Every notification makes a producer of its own, and a disconnection reaches only that of the last
  notification, and only when its promise was fulfilled.  After any number of notifications that have ended and
  one disconnection that succeeds, every other producer whose connection was made, and not lost, is still
  connected: those of all earlier notifications, and the last one when an error came before \<open>ready\<close>.
\<close>

theorem notifications_stay_connected:
  assumes "notify_all B ms no_clients = Some c" and "\<forall>p. Publisher_disconnect B p = Inr ()"
  shows "connected (EventNotification_disconnect B c) =
    filter (\<lambda>n. has_connection (events_of B n) \<and>
        \<not> (Suc n = length ms \<and> initPublisher n (events_of B n) = Some (Some n))) [0..<length ms]"
proof -
  let ?n = "length ms - 1" and ?p = "\<lambda>n. has_connection (events_of B n)"
  have s: "connected c = filter ?p [0..<length ms]"
    "ms \<noteq> [] \<Longrightarrow> \<exists>x. initPublisher ?n (events_of B ?n) = Some x \<and> publisher c = x" "ms = [] \<Longrightarrow> publisher c = None"
    using notify_state [OF assms(1)] by (auto simp: no_clients_def)
  show ?thesis
  proof (cases "publisher c")
    case None
    then have "\<not> (Suc n = length ms \<and> initPublisher n (events_of B n) = Some (Some n))" for n
      using s(2) by (cases ms) auto
    with None s(1) show ?thesis by (simp add: EventNotification_disconnect_def)
  next
    case (Some p)
    with s(3) have ms: "ms \<noteq> []" by auto
    with s(2) Some have i: "initPublisher ?n (events_of B ?n) = Some (Some p)" by auto
    with initPublisher_own have p: "p = ?n" by blast
    have "removeAll x (filter q xs) = filter (\<lambda>n. n \<noteq> x \<and> q n) xs" for x :: nat and q xs
      by (induction xs) auto
    with Some assms(2) s(1) p
    have "connected (EventNotification_disconnect B c) = filter (\<lambda>n. n \<noteq> ?n \<and> ?p n) [0..<length ms]"
      by (simp add: EventNotification_disconnect_def)
    also have "\<dots> = filter (\<lambda>n. ?p n \<and> \<not> (Suc n = length ms \<and> initPublisher n (events_of B n) = Some (Some n))) [0..<length ms]"
      by (rule filter_cong) (use i p ms in auto)
    finally show ?thesis .
  qed
qed

text \<open>The second producer never connects; the third is ready only after an error, so that nothing holds on to it.\<close>

definition shaky_broker :: broker where
  "shaky_broker = \<lparr>events_of = (\<lambda>n. if n = 1 then [ErrorEvent (ServiceError ''refused'')]
         else if n = 2 then [EventError (ServiceError ''late''), Ready] else [EventLog ''connecting'', Ready]),
     produce = (\<lambda>_. Inr True), getLastError = (\<lambda>_. ServiceError ''queue full''), flush = (\<lambda>_. Inr ()), disconnect = (\<lambda>_. Inr ())\<rparr>"

lemma notifications_stay_connected_witness:
  "\<exists>c. notify_all shaky_broker (replicate 3 (''rebates'', \<lparr>mg_key = ''7'', mg_value = ''text''\<rparr>)) no_clients = Some c \<and>
    connected (EventNotification_disconnect shaky_broker c) = [0, 2]"
proof -
  let ?ms = "replicate 3 (''rebates'', \<lparr>mg_key = ''7'', mg_value = ''text''\<rparr>)"
  have i: "initPublisher n (events_of shaky_broker n) = Some (if n \<in> {1, 2} then None else Some n)" for n
    by (simp add: initPublisher_def buildPublisher_def shaky_broker_def settle_promise_def)
  have d: "\<exists>r c'. EventNotification_dispatch shaky_broker topic m c = Some (r, c')" for topic m and c :: "string clients"
    by (simp add: EventNotification_dispatch_def Let_def i publish_def) (simp add: shaky_broker_def)
  have "\<exists>c'. notify_all shaky_broker ms c = Some c'" for ms and c :: "string clients"
  proof (induction ms arbitrary: c)
    case (Cons m ms)
    with d [of "fst m" "snd m" c] show ?case by (cases m) auto
  qed simp
  then obtain c where c: "notify_all shaky_broker ?ms no_clients = Some c" by blast
  have "\<forall>p. Publisher_disconnect shaky_broker p = Inr ()" by (simp add: Publisher_disconnect_def shaky_broker_def)
  moreover have "has_connection (events_of shaky_broker n) \<longleftrightarrow> n \<noteq> 1" for n
    by (simp add: has_connection_def shaky_broker_def)
  ultimately show ?thesis
    using notifications_stay_connected [OF c] i c by (simp add: numeral_3_eq_3 upt_rec)
qed

section \<open>Topics that are not known\<close>

lemma listener_fold:
  fixes T :: topics
  shows "fold (\<lambda>topic l. case listen_to T topic of
         Inl e \<Rightarrow> l\<lparr>ls_unhandled := ls_unhandled l @ [e]\<rparr>
       | Inr consumer \<Rightarrow> l\<lparr>ls_consumers := ls_consumers l @ [consumer]\<rparr>) ts l =
    l\<lparr>ls_consumers := ls_consumers l @ [projr (listen_to T t). t \<leftarrow> ts, \<not> isl (listen_to T t)],
      ls_unhandled := ls_unhandled l @ [projl (listen_to T t). t \<leftarrow> ts, isl (listen_to T t)]\<rparr>"
  by (induction ts arbitrary: l) (auto split: sum.split)

lemma listen_to_streamed:
  assumes "environment_of V variables = Inr c"
  shows "\<not> isl (listen_to (kf_topics (en_kafka c)) topic) \<longleftrightarrow> topic \<in> {''offers'', ''users'', ''transactions''}"
proof -
  obtain P where t: "kf_topics (en_kafka c) = topics_of V P (en_env c)" by (rule environment_topics [OF assms])
  show ?thesis
    unfolding t
    by (auto simp: listen_to_def with_value_def new_Consumer_def Consumer_start_def handlers_def getResolvedTopicName_def
        topics_of_def split: sum.splits option.splits if_splits)
qed

text \<open>
  A listener consumes, of the topics it is started with, exactly those of offers, users and transactions.  Of
  any other one, a misspelt one or the topic of the rebates, there is nothing but an error that nobody waits for: the
  start itself succeeds, and the listener goes on without a consumer for it, even when it has none at all.
\<close>

theorem listener_hides_unknown_topics:
  assumes "environment_of V variables = Inr c"
  shows "length (ls_consumers (listener_start (kf_topics (en_kafka c)) ts)) =
      length (filter (\<lambda>topic. topic \<in> {''offers'', ''users'', ''transactions''}) ts) \<and>
    length (ls_unhandled (listener_start (kf_topics (en_kafka c)) ts)) =
      length (filter (\<lambda>topic. topic \<notin> {''offers'', ''users'', ''transactions''}) ts)"
proof -
  let ?ok = "\<lambda>t. \<not> isl (listen_to (kf_topics (en_kafka c)) t)"
  have lengths: "length [f t. t \<leftarrow> ts, p t] = length (filter p ts)" for f :: "string \<Rightarrow> 'a" and p
    by (induction ts) simp_all
  have "ls_consumers (listener_start (kf_topics (en_kafka c)) ts) =
      [projr (listen_to (kf_topics (en_kafka c)) t). t \<leftarrow> ts, ?ok t]"
    "ls_unhandled (listener_start (kf_topics (en_kafka c)) ts) =
      [projl (listen_to (kf_topics (en_kafka c)) t). t \<leftarrow> ts, isl (listen_to (kf_topics (en_kafka c)) t)]"
    by (simp_all add: listener_start_def listener_fold)
  moreover have "isl (listen_to (kf_topics (en_kafka c)) t) \<longleftrightarrow> t \<notin> {''offers'', ''users'', ''transactions''}" for t
    using listen_to_streamed [OF assms, of t] by blast
  ultimately show ?thesis by (simp add: lengths)
qed

lemma listener_hides_unknown_topics_witness:
  "\<exists>c. environment_of plain_library some_variables = Inr c \<and>
    length (ls_consumers (listener_start (kf_topics (en_kafka c)) [''offer'', ''rebates'', ''users''])) = 1 \<and>
    length (ls_unhandled (listener_start (kf_topics (en_kafka c)) [''offer'', ''rebates'', ''users''])) = 2"
proof -
  obtain c where c: "environment_of plain_library some_variables = Inr c"
    by (auto simp: environment_of_def with_value_def kafka_of_def rdkafka_of_def sftp_of_def plain_library_def Let_def)
  with listener_hides_unknown_topics [OF c, of "[''offer'', ''rebates'', ''users'']"] show ?thesis by simp
qed

end
