(* ===== verification/Middleware.thy ===== *)
theory Middleware
  imports Configuration
begin

text \<open>
  The way of a request through the web server (\<open>app/web/middleware\<close>, \<open>app/web/view_context.ts\<close>,
  \<open>app/web/static/web.js\<close>) and the loggers (\<open>app/tagged_logger.ts\<close>, \<open>app/web/log_stream.ts\<close>).
\<close>

section \<open>Requests\<close>

record 'b request =
  rq_method :: string
  rq_originalUrl :: string
  rq_requestId :: "string option"                       \<comment> \<open>the header \<open>X-Request-ID\<close>\<close>
  rq_credentials :: "(string \<times> string) option"          \<comment> \<open>of the header \<open>Authorization\<close>\<close>
  rq_body :: 'b

text \<open>
  The libraries: \<open>uuid\<close>, the files \<open>express.static\<close> finds, what \<open>bodyParser\<close> makes of a body, and whether
  \<open>basicAuth\<close> lets credentials pass, for an object of passwords, of which one may be \<open>undefined\<close>.
\<close>

record ('b, 'p) web_library =
  uuid :: "nat \<Rightarrow> string"
  static_file :: "string \<Rightarrow> bool"
  urlencoded :: "'b \<Rightarrow> exn + 'p"
  basicAuth :: "(string \<times> string option) list \<Rightarrow> (string \<times> string) option \<Rightarrow> bool"

definition basic_auth_law :: "('b, 'p) web_library \<Rightarrow> bool" where
  "basic_auth_law W \<longleftrightarrow>
     (\<forall>accounts credentials. basicAuth W accounts credentials \<longleftrightarrow>
        (\<exists>user password. credentials = Some (user, password) \<and> map_of accounts user = Some (Some password)))"

record 'p page_context =
  px_requestId :: "string option"
  px_body :: "'p option"
  px_log :: "string list"

datatype 'p web_reply = StaticFile string | Failure exn | Unauthorized | Page "'p page_context"

section \<open>The steps of the middleware\<close>

text \<open>A step answers the request, or hands the context on to the next one; \<open>n\<close> is the number of the request.\<close>

type_synonym ('b, 'p) middleware = "'b request \<Rightarrow> 'p page_context \<Rightarrow> 'p web_reply + 'p page_context"

definition requestContext :: "('b, 'p) web_library \<Rightarrow> nat \<Rightarrow> ('b, 'p) middleware" where
  "requestContext W n r c =
     Inr (c\<lparr>px_requestId := Some (case rq_requestId r of Some (x # xs) \<Rightarrow> x # xs | _ \<Rightarrow> uuid W n)\<rparr>)"

definition requestLogging :: "('b, 'p) middleware" where
  "requestLogging r c =
     Inr (c\<lparr>px_log := px_log c @
       [''method='' @ rq_method r, ''path='' @ rq_originalUrl r,
        ''requestId='' @ (case px_requestId c of None \<Rightarrow> ''undefined'' | Some i \<Rightarrow> i)]\<rparr>)"

text \<open>The views are a setting of the framework.\<close>

definition supportViews :: "('b, 'p) middleware" where
  "supportViews r c = Inr c"

definition serveStaticResources :: "('b, 'p) web_library \<Rightarrow> ('b, 'p) middleware" where
  "serveStaticResources W r c =
     (if static_file W (rq_originalUrl r) then Inl (StaticFile (rq_originalUrl r)) else Inr c)"

definition parseRequestBody :: "('b, 'p) web_library \<Rightarrow> ('b, 'p) middleware" where
  "parseRequestBody W r c =
     (case urlencoded W (rq_body r) of Inl e \<Rightarrow> Inl (Failure e) | Inr p \<Rightarrow> Inr (c\<lparr>px_body := Some p\<rparr>))"

text \<open>\<open>credentials[i]\<close> of the parts of the setting: the second one may be missing.\<close>

definition part :: "string list \<Rightarrow> nat \<Rightarrow> string option" where
  "part xs i = (if i < length xs then Some (xs ! i) else None)"

definition property_name :: "string option \<Rightarrow> string" where
  "property_name x = (case x of None \<Rightarrow> ''undefined'' | Some s \<Rightarrow> s)"

definition accounts_of :: "string \<Rightarrow> (string \<times> string option) list" where
  "accounts_of adminAuth =
     (let credentials = js_split CHR '':'' adminAuth
      in [(property_name (part credentials 0), part credentials 1)])"

definition truthy :: "string option \<Rightarrow> bool" where
  "truthy x \<longleftrightarrow> (case x of None \<Rightarrow> False | Some s \<Rightarrow> s \<noteq> '''')"

definition basic_auth :: "('b, 'p) web_library \<Rightarrow> web \<Rightarrow> ('b, 'p) middleware" where
  "basic_auth W config r c =
     (case wb_adminAuth config of
        None \<Rightarrow> Inr c
      | Some adminAuth \<Rightarrow>
          if adminAuth = '''' \<or> basicAuth W (accounts_of adminAuth) (rq_credentials r) then Inr c else Inl Unauthorized)"

definition middlewareOrder :: "('b, 'p) web_library \<Rightarrow> web \<Rightarrow> nat \<Rightarrow> ('b, 'p) middleware list" where
  "middlewareOrder W config n =
     [requestContext W n, requestLogging, supportViews, serveStaticResources W, parseRequestBody W, basic_auth W config]"

fun configureMiddleware :: "('b, 'p) middleware list \<Rightarrow> 'b request \<Rightarrow> 'p page_context \<Rightarrow> 'p web_reply" where
  "configureMiddleware [] r c = Page c"
| "configureMiddleware (m # ms) r c = (case m r c of Inl x \<Rightarrow> x | Inr c' \<Rightarrow> configureMiddleware ms r c')"

definition handle_request :: "('b, 'p) web_library \<Rightarrow> web \<Rightarrow> nat \<Rightarrow> 'b request \<Rightarrow> 'p web_reply" where
  "handle_request W config n r =
     configureMiddleware (middlewareOrder W config n) r \<lparr>px_requestId = None, px_body = None, px_log = []\<rparr>"

section \<open>What a page is given\<close>

record locals =
  lc_fullTitle :: string
  lc_requestId :: "string option"
  lc_authInfo :: "string option"

definition fullTitle :: "string option \<Rightarrow> string \<Rightarrow> string" where
  "fullTitle title name = join '' - '' (map property_name (filter truthy [title, Some name]))"

definition authInfo :: "(string \<Rightarrow> string) \<Rightarrow> string \<Rightarrow> string" where
  "authInfo encode adminAuth =
     (let credentials = js_split CHR '':'' adminAuth
      in encode (property_name (part credentials 0) @ '':'' @ property_name (part credentials 1)))"

definition locals_of :: "(string \<Rightarrow> string) \<Rightarrow> string option \<Rightarrow> string \<Rightarrow> web \<Rightarrow> 'p page_context \<Rightarrow> locals" where
  "locals_of encode title name config c =
     \<lparr>lc_fullTitle = fullTitle title name, lc_requestId = px_requestId c,
      lc_authInfo = (case wb_adminAuth config of
        Some (x # xs) \<Rightarrow> Some (authInfo encode (x # xs)) | _ \<Rightarrow> None)\<rparr>"

text \<open>
  The script of the pages: the form that is streamed sends what stands in the element \<open>l1\<close> after \<open>Basic\<close>, so that the
  credentials of its request are what the server decodes of it, up to the first colon and after it.
\<close>

definition sent_credentials :: "(string \<Rightarrow> string) \<Rightarrow> locals \<Rightarrow> (string \<times> string) option" where
  "sent_credentials decode page =
     (case lc_authInfo page of None \<Rightarrow> None | Some x \<Rightarrow> split_first '':'' (decode x))"

text \<open>The boxes of the rows and the button that deletes the selected ones, and which parts of the page are shown.\<close>

record page =
  boxes :: "bool list"
  toggle_all :: bool
  button_disabled :: bool
  log_shown :: "string option"
  table_shown :: bool

definition on_ready :: "page \<Rightarrow> page" where
  "on_ready p = p\<lparr>log_shown := None\<rparr>"

definition on_toggle_all :: "bool \<Rightarrow> page \<Rightarrow> page" where
  "on_toggle_all b p = p\<lparr>toggle_all := b, button_disabled := \<not> b, boxes := map (\<lambda>_. b) (boxes p)\<rparr>"

definition on_box :: "nat \<Rightarrow> bool \<Rightarrow> page \<Rightarrow> page" where
  "on_box i b p = p\<lparr>boxes := (boxes p)[i := b], button_disabled := \<not> b\<rparr>"

definition on_submit :: "(string \<Rightarrow> (string \<times> string) option \<Rightarrow> string) \<Rightarrow> (string \<times> string) option \<Rightarrow> string \<Rightarrow> page \<Rightarrow> page" where
  "on_submit fetch credentials action p = p\<lparr>table_shown := False, log_shown := Some (fetch action credentials)\<rparr>"

text \<open>
  The button is disabled although a row is still selected: of two boxes that were checked, one is unchecked.
\<close>

lemma button_disabled_with_a_selected_row:
  "let p = on_box 1 False (on_box 1 True (on_box 0 True
     \<lparr>boxes = [False, False], toggle_all = False, button_disabled = True, log_shown = None, table_shown = True\<rparr>))
   in boxes p = [True, False] \<and> button_disabled p"
  by (simp add: on_box_def Let_def)

section \<open>The loggers\<close>

text \<open>A call of a logger: the level and the arguments.\<close>

type_synonym log_call = "string \<times> string list"

definition tagged_log :: "string list \<Rightarrow> string \<Rightarrow> string list \<Rightarrow> log_call" where
  "tagged_log prefixes level args =
     (level, join '' '' (map (\<lambda>prefix. ''['' @ prefix @ '']'') prefixes) # args)"

text \<open>What is written to the stream, and what the second logger is called with.\<close>

definition stream_log :: "(string \<Rightarrow> string) \<Rightarrow> string \<Rightarrow> string list \<Rightarrow> string \<times> log_call" where
  "stream_log format level args =
     (map to_upper level @ '': '' @ join '' '' (map format args) @ [CHR 0x0A], (level, args))"

section \<open>Who sees the pages\<close>

lemma handle_request_steps:
  "handle_request W config n r =
     (if static_file W (rq_originalUrl r) then StaticFile (rq_originalUrl r)
      else (case urlencoded W (rq_body r) of
              Inl e \<Rightarrow> Failure e
            | Inr p \<Rightarrow>
                if truthy (wb_adminAuth config) \<and>
                   \<not> basicAuth W (accounts_of (the (wb_adminAuth config))) (rq_credentials r) then Unauthorized
                else Page \<lparr>px_requestId = Some (case rq_requestId r of Some (x # xs) \<Rightarrow> x # xs | _ \<Rightarrow> uuid W n),
                           px_body = Some p,
                           px_log = [''method='' @ rq_method r, ''path='' @ rq_originalUrl r,
                             ''requestId='' @ (case rq_requestId r of Some (x # xs) \<Rightarrow> x # xs | _ \<Rightarrow> uuid W n)]\<rparr>))"
  by (auto simp: handle_request_def middlewareOrder_def requestContext_def requestLogging_def supportViews_def
      serveStaticResources_def parseRequestBody_def basic_auth_def truthy_def split: sum.split option.split)

lemma accounts_colon:
  assumes "CHR '':'' \<notin> set user" and "CHR '':'' \<notin> set password"
  shows "accounts_of (user @ CHR '':'' # password) = [(user, Some password)]"
  by (simp add: accounts_of_def js_split_first [OF assms(1)] js_split_none [OF assms(2)] part_def property_name_def)

lemma split_first_colon: "CHR '':'' \<notin> set s \<Longrightarrow> split_first '':'' (s @ CHR '':'' # t) = Some (s, t)"
proof (induction s)
  case Nil
  then show ?case by (subst split_first.simps) simp
next
  case (Cons x s)
  then show ?case by (subst split_first.simps) (auto dest: not_sym)
qed

text \<open>
  C39.  With a user and a password set, both without a colon, a request for a page gets past the middleware exactly
  when it has this user and this password, provided its body can be read; every other one is answered with a
  static file, a failure or a refusal.  Without a setting every request for a page gets past it.  The requests
  the script of a page sends have what the page was given, and are let through.
\<close>

theorem pages_need_the_credentials:
  assumes "basic_auth_law W" and "CHR '':'' \<notin> set user" and "CHR '':'' \<notin> set password"
    and "\<not> static_file W (rq_originalUrl r)" and "urlencoded W (rq_body r) = Inr p"
  shows "((\<exists>c. handle_request W \<lparr>wb_port = port, wb_adminAuth = Some (user @ '':'' @ password)\<rparr> n r = Page c) \<longleftrightarrow>
      rq_credentials r = Some (user, password)) \<and>
    (\<exists>c. handle_request W \<lparr>wb_port = port, wb_adminAuth = None\<rparr> n r = Page c) \<and>
    ((\<forall>s. decode (encode s) = s) \<longrightarrow>
     sent_credentials decode (locals_of encode title name \<lparr>wb_port = port, wb_adminAuth = Some (user @ '':'' @ password)\<rparr> c) =
       Some (user, password))"
proof -
  have "basicAuth W [(user, Some password)] (rq_credentials r) \<longleftrightarrow> rq_credentials r = Some (user, password)"
    using assms(1) by (auto simp: basic_auth_law_def)
  moreover have "lc_authInfo (locals_of encode title name \<lparr>wb_port = port, wb_adminAuth = Some (user @ '':'' @ password)\<rparr> c) =
      Some (encode (user @ '':'' @ password))"
    by (cases user)
      (use assms(2,3) in \<open>auto dest: not_sym simp: locals_of_def authInfo_def js_split_first js_split_none part_def property_name_def\<close>)
  ultimately show ?thesis
    using assms(4,5) by (simp add: handle_request_steps truthy_def accounts_colon [OF assms(2,3)] sent_credentials_def split_first_colon [OF assms(2)])
qed

definition some_web :: "(string, string) web_library" where
  "some_web =
     \<lparr>uuid = (\<lambda>_. ''id''), static_file = (\<lambda>s. s = ''/web.js''), urlencoded = Inr,
      basicAuth = (\<lambda>accounts c. case c of None \<Rightarrow> False | Some (user, password) \<Rightarrow> map_of accounts user = Some (Some password))\<rparr>"

definition some_request :: "string request" where
  "some_request = \<lparr>rq_method = ''GET'', rq_originalUrl = ''/rebates'', rq_requestId = None,
     rq_credentials = Some (''admin'', ''secret''), rq_body = ''''\<rparr>"

lemma pages_need_the_credentials_witness:
  "(\<exists>c. handle_request some_web \<lparr>wb_port = 5001, wb_adminAuth = Some (''admin'' @ '':'' @ ''secret'')\<rparr> 0 some_request = Page c) \<and>
   \<not> (\<exists>c. handle_request some_web \<lparr>wb_port = 5001, wb_adminAuth = Some (''admin'' @ '':'' @ ''secret'')\<rparr> 0
     (some_request\<lparr>rq_credentials := None\<rparr>) = Page c)"
proof -
  have law: "basic_auth_law some_web" by (auto simp: basic_auth_law_def some_web_def split: option.split)
  have r: "\<not> static_file some_web (rq_originalUrl r)" "urlencoded some_web (rq_body r) = Inr ''''"
    if "r = some_request \<or> r = some_request\<lparr>rq_credentials := None\<rparr>" for r :: "string request"
    using that by (auto simp: some_web_def some_request_def)
  have plain: "CHR '':'' \<notin> set ''admin''" "CHR '':'' \<notin> set ''secret''" by simp_all
  have "rq_credentials some_request = Some (''admin'', ''secret'')" by (simp add: some_request_def)
  with pages_need_the_credentials [OF law plain r, of some_request]
  have "\<exists>c. handle_request some_web \<lparr>wb_port = 5001, wb_adminAuth = Some (''admin'' @ '':'' @ ''secret'')\<rparr> 0 some_request = Page c"
    by blast
  moreover have "rq_credentials (some_request\<lparr>rq_credentials := None\<rparr>) \<noteq> Some (''admin'', ''secret'')" by simp
  with pages_need_the_credentials [OF law plain r, of "some_request\<lparr>rq_credentials := None\<rparr>"]
  have "\<not> (\<exists>c. handle_request some_web \<lparr>wb_port = 5001, wb_adminAuth = Some (''admin'' @ '':'' @ ''secret'')\<rparr> 0
      (some_request\<lparr>rq_credentials := None\<rparr>) = Page c)"
    by blast
  ultimately show ?thesis by blast
qed

end
